(* ===== verification/Prelude.thy ===== *)
theory Prelude
  imports Main "HOL-Library.List_Lexorder" "HOL-Library.Char_ord"
begin

text \<open>
  Shared vocabulary of the development: the exceptions of \<^verbatim>\<open>mistral/exceptions.py\<close> and of
  Python as values, results that may be an exception, insertion-ordered dictionaries as
  association lists with their laws, and generic list lemmas. The collections
  \<open>py_dict\<close> (laws of dictionaries), \<open>res_simps\<close> (sequencing of results) and
  \<open>engine_frame\<close> (fields an operation leaves alone) are filled by the component theories.
\<close>

named_theorems py_dict
named_theorems res_simps
named_theorems engine_frame

section \<open>Exceptions and results\<close>

text \<open>
  The constructors are the classes that the modelled code raises, with the message where the
  code builds one. \<open>AttributeError\<close>, \<open>TypeError\<close> and \<open>RecursionError\<close> are raised by
  the Python interpreter itself.
\<close>

datatype exn =
    MistralError string
  | DBEntityNotFoundError string
  | DBDuplicateEntryError string
  | DSLParsingException string
  | ExpressionGrammarException string
  | InvalidModelException string
  | EvaluationException string
  | InvalidActionException string
  | WorkflowException string
  | InputException string
  | NotAllowedException string
  | InvalidStateTransitionException string
  | MistralException string
  | KeyError string
  | ValueError string
  | RuntimeError string
  | AttributeError
  | TypeError
  | IndexError
  | AssertionError
  | RecursionError
  | OtherException string

text \<open>Which exceptions \<^verbatim>\<open>except exc.MistralException\<close> catches: the subclasses of
  \<^verbatim>\<open>MistralException\<close>, which \<^verbatim>\<open>MistralError\<close> and its subclasses are not.\<close>

fun is_mistral_exception :: "exn \<Rightarrow> bool" where
  "is_mistral_exception (DSLParsingException _) = True"
| "is_mistral_exception (ExpressionGrammarException _) = True"
| "is_mistral_exception (InvalidModelException _) = True"
| "is_mistral_exception (EvaluationException _) = True"
| "is_mistral_exception (InvalidActionException _) = True"
| "is_mistral_exception (WorkflowException _) = True"
| "is_mistral_exception (InputException _) = True"
| "is_mistral_exception (NotAllowedException _) = True"
| "is_mistral_exception (InvalidStateTransitionException _) = True"
| "is_mistral_exception (MistralException _) = True"
| "is_mistral_exception _ = False"

type_synonym 'a res = "exn + 'a"

definition bind_res :: "'a res \<Rightarrow> ('a \<Rightarrow> 'b res) \<Rightarrow> 'b res" where
  "bind_res r f = (case r of Inl e \<Rightarrow> Inl e | Inr x \<Rightarrow> f x)"

definition guard_res :: "bool \<Rightarrow> exn \<Rightarrow> unit res" where
  "guard_res b e = (if b then Inr () else Inl e)"

fun map_res :: "('a \<Rightarrow> 'b res) \<Rightarrow> 'a list \<Rightarrow> 'b list res" where
  "map_res f [] = Inr []"
| "map_res f (x # xs) = (case f x of Inl e \<Rightarrow> Inl e
     | Inr y \<Rightarrow> (case map_res f xs of Inl e \<Rightarrow> Inl e | Inr ys \<Rightarrow> Inr (y # ys)))"

lemma bind_res_simps [simp, res_simps]:
  "bind_res (Inl e) f = Inl e"
  "bind_res (Inr x) f = f x"
  by (simp_all add: bind_res_def)

lemma bind_res_eq_Inr [res_simps]:
  "bind_res r f = Inr y \<longleftrightarrow> (\<exists>x. r = Inr x \<and> f x = Inr y)"
  by (cases r) auto

lemma bind_res_InrE: "bind_res r f = Inr y \<Longrightarrow> (\<And>x. r = Inr x \<Longrightarrow> f x = Inr y \<Longrightarrow> P) \<Longrightarrow> P"
  by (cases r) auto

lemma guard_res_Inr [simp]: "guard_res b e = Inr u \<longleftrightarrow> b"
  by (simp add: guard_res_def)

lemma guard_res_Inl [simp]: "guard_res b e = Inl e' \<longleftrightarrow> \<not> b \<and> e' = e"
  by (auto simp: guard_res_def)

lemma map_res_Inr_length: "map_res f xs = Inr ys \<Longrightarrow> length ys = length xs"
  by (induction xs arbitrary: ys) (auto split: sum.splits)

lemma map_res_Cons_Inr:
  "map_res f (x # xs) = Inr zs \<longleftrightarrow> (\<exists>y ys. zs = y # ys \<and> f x = Inr y \<and> map_res f xs = Inr ys)"
  by (auto split: sum.splits)

lemma map_res_Inr_iff:
  "map_res f xs = Inr ys \<longleftrightarrow> list_all2 (\<lambda>x y. f x = Inr y) xs ys"
proof (induction xs arbitrary: ys)
  case Nil
  then show ?case by auto
next
  case (Cons x xs)
  show ?case by (simp only: map_res_Cons_Inr Cons.IH list_all2_Cons1)
qed

lemma map_res_total: "(\<And>x. x \<in> set xs \<Longrightarrow> f x = Inr (g x)) \<Longrightarrow> map_res f xs = Inr (map g xs)"
  by (induction xs) auto

lemma map_res_Inr_in: "map_res f xs = Inr ys \<Longrightarrow> y \<in> set ys \<Longrightarrow> \<exists>x \<in> set xs. f x = Inr y"
  by (induction xs arbitrary: ys) (auto split: sum.splits)

lemma map_res_total_ex: "(\<And>x. x \<in> set xs \<Longrightarrow> \<exists>y. f x = Inr y) \<Longrightarrow> \<exists>ys. map_res f xs = Inr ys"
proof (induction xs)
  case (Cons x xs)
  then obtain y ys where "f x = Inr y" "map_res f xs = Inr ys" by force
  then show ?case by simp
qed simp

section \<open>Python dictionaries\<close>

text \<open>
  A Python \<^verbatim>\<open>dict\<close> keeps its insertion order, so it is an association list: assigning an
  existing key keeps its position, assigning a new key appends. \<open>dict_ok\<close> (no key twice) is the
  representation invariant.
\<close>

type_synonym 'v dict = "(string \<times> 'v) list"

abbreviation dget :: "'v dict \<Rightarrow> string \<Rightarrow> 'v option" where
  "dget d k \<equiv> map_of d k"

abbreviation dkeys :: "'v dict \<Rightarrow> string list" where
  "dkeys d \<equiv> map fst d"

fun dset :: "string \<Rightarrow> 'v \<Rightarrow> 'v dict \<Rightarrow> 'v dict" where
  "dset k v [] = [(k, v)]"
| "dset k v ((k', v') # d) = (if k' = k then (k, v) # d else (k', v') # dset k v d)"

definition ddel :: "string \<Rightarrow> 'v dict \<Rightarrow> 'v dict" where
  "ddel k d = filter (\<lambda>p. fst p \<noteq> k) d"

definition dict_ok :: "'v dict \<Rightarrow> bool" where
  "dict_ok d \<longleftrightarrow> distinct (dkeys d)"

definition dget_default :: "'v dict \<Rightarrow> string \<Rightarrow> 'v \<Rightarrow> 'v" where
  "dget_default d k v = (case dget d k of None \<Rightarrow> v | Some x \<Rightarrow> x)"

definition dhas :: "'v dict \<Rightarrow> string \<Rightarrow> bool" where
  "dhas d k \<longleftrightarrow> dget d k \<noteq> None"

text \<open>\<^verbatim>\<open>d[k]\<close>: a missing key raises.\<close>

definition dindex :: "'v dict \<Rightarrow> string \<Rightarrow> 'v res" where
  "dindex d k = (case dget d k of None \<Rightarrow> Inl (KeyError k) | Some x \<Rightarrow> Inr x)"

text \<open>\<^verbatim>\<open>left.update(right)\<close>.\<close>

definition dupdate :: "'v dict \<Rightarrow> 'v dict \<Rightarrow> 'v dict" where
  "dupdate l r = fold (\<lambda>(k, v). dset k v) r l"

lemma dget_dset [simp, py_dict]: "dget (dset k v d) j = (if j = k then Some v else dget d j)"
  by (induction k v d rule: dset.induct) auto

lemma dget_ddel [simp, py_dict]: "dget (ddel k d) j = (if j = k then None else dget d j)"
  by (induction d) (auto simp: ddel_def)

lemma set_dkeys_dset [simp]: "fst ` set (dset k v d) = insert k (fst ` set d)"
  by (induction k v d rule: dset.induct) auto

lemma dget_in_keys: "dget d k = Some v \<Longrightarrow> k \<in> fst ` set d"
  by (metis map_of_eq_None_iff option.distinct(1))

lemma dict_ok_Nil [simp]: "dict_ok []"
  by (simp add: dict_ok_def)

lemma dict_ok_Cons: "dict_ok ((k, v) # d) \<longleftrightarrow> k \<notin> fst ` set d \<and> dict_ok d"
  by (simp add: dict_ok_def)

lemma dict_ok_dset [simp]: "dict_ok d \<Longrightarrow> dict_ok (dset k v d)"
  by (induction k v d rule: dset.induct) (auto simp: dict_ok_Cons)

lemma dict_ok_ddel [simp]: "dict_ok d \<Longrightarrow> dict_ok (ddel k d)"
  by (auto simp: dict_ok_def ddel_def distinct_map intro: inj_on_subset)

lemma dhas_iff [simp]: "dhas d k \<longleftrightarrow> k \<in> set (dkeys d)"
  by (auto simp: dhas_def map_of_eq_None_iff)

lemma ddel_dset [simp]: "ddel k (dset k v d) = ddel k d"
  by (induction k v d rule: dset.induct) (auto simp: ddel_def)

lemma dkeys_dset_same: "k \<in> set (dkeys d) \<Longrightarrow> dkeys (dset k v d) = dkeys d"
  by (induction k v d rule: dset.induct) auto

lemma dkeys_dset_new: "k \<notin> set (dkeys d) \<Longrightarrow> dset k v d = d @ [(k, v)]"
  by (induction k v d rule: dset.induct) auto

lemma dupdate_Nil [simp]: "dupdate l [] = l"
  by (simp add: dupdate_def)

lemma dupdate_Cons [simp]: "dupdate l ((k, v) # r) = dupdate (dset k v l) r"
  by (simp add: dupdate_def)

lemma dict_ok_dupdate [simp]: "dict_ok l \<Longrightarrow> dict_ok (dupdate l r)"
  by (induction r arbitrary: l) auto

lemma dget_dupdate [py_dict]:
  "dict_ok r \<Longrightarrow> dget (dupdate l r) j = (case dget r j of Some v \<Rightarrow> Some v | None \<Rightarrow> dget l j)"
proof (induction r arbitrary: l)
  case Nil
  then show ?case by simp
next
  case (Cons p r)
  obtain k v where p: "p = (k, v)" by fastforce
  from Cons.prems p have ok: "dict_ok r" and nk: "dget r k = None"
    by (auto simp: dict_ok_def map_of_eq_None_iff)
  show ?case using Cons.IH [OF ok, of "dset k v l"] nk p by (auto split: option.split)
qed

lemma dkeys_dupdate: "fst ` set (dupdate l r) = fst ` set l \<union> fst ` set r"
proof (induction r arbitrary: l)
  case Nil
  then show ?case by simp
next
  case (Cons p r)
  then show ?case by (cases p) (simp add: Un_insert_right)
qed

lemma dkeys_dupdate_sub: "fst ` set l \<subseteq> fst ` set (dupdate l r)"
  unfolding dkeys_dupdate by blast

text \<open>The interface the clients of a dictionary rely on, and its provider.\<close>

locale dictionary =
  fixes get :: "'m \<Rightarrow> string \<Rightarrow> 'v option"
    and put :: "string \<Rightarrow> 'v \<Rightarrow> 'm \<Rightarrow> 'm"
    and del :: "string \<Rightarrow> 'm \<Rightarrow> 'm"
    and wf :: "'m \<Rightarrow> bool"
  assumes get_put: "get (put k v m) = (get m)(k \<mapsto> v)"
    and get_del: "get (del k m) = (get m)(k := None)"
    and wf_put: "wf m \<Longrightarrow> wf (put k v m)"
    and wf_del: "wf m \<Longrightarrow> wf (del k m)"
begin

lemma put_put_get: "j \<noteq> k \<Longrightarrow> get (put j u (put k v m)) = get (put k v (put j u m))"
  by (simp add: get_put fun_upd_twist)

lemma del_put_get: "get (del k (put k v m)) = get (del k m)"
  by (simp add: get_put get_del)

lemma fold_put_get:
  "get (fold (\<lambda>(k, v). put k v) kvs m) = get m ++ map_of (rev kvs)"
  by (induction kvs arbitrary: m) (auto simp: get_put map_add_def split: option.split)

lemma fold_put_wf: "wf m \<Longrightarrow> wf (fold (\<lambda>(k, v). put k v) kvs m)"
  by (induction kvs arbitrary: m) (auto simp: wf_put)

end

interpretation py_dict: dictionary "\<lambda>d. dget d" dset ddel dict_ok
  by unfold_locales (auto simp: fun_eq_iff)

section \<open>Lists\<close>

lemma filter_eq_Nil_iff: "filter P xs = [] \<longleftrightarrow> (\<forall>x \<in> set xs. \<not> P x)"
  by (auto simp: filter_empty_conv)

lemma distinct_filter_map_fst: "distinct (map f xs) \<Longrightarrow> distinct (map f (filter P xs))"
  by (induction xs) auto

lemma list_update_map_if:
  "i < length xs \<Longrightarrow> (xs[i := y]) ! j = (if j = i then y else xs ! j)"
  by (simp add: nth_list_update)

text \<open>Membership with the first-match order that \<open>find\<close> has.\<close>

lemma find_Some_set: "find P xs = Some x \<Longrightarrow> x \<in> set xs \<and> P x"
  by (auto simp: find_Some_iff)

lemma find_None_set: "find P xs = None \<longleftrightarrow> (\<forall>x \<in> set xs. \<not> P x)"
  by (auto simp: find_None_iff)

end
