(* ===== verification/Py_Values.thy ===== *)
theory Py_Values
  imports Prelude
begin

text \<open>
  The Python values that contexts, parameters and specifications hold, the configuration options
  the code reads (\<^verbatim>\<open>CONF\<close>) and the third-party functions it calls, as the record \<open>env\<close> that the
  definitions take as their first argument. Floats are left out: no modelled operation computes
  with them.
\<close>

datatype val =
    VNone
  | VBool bool
  | VInt int
  | VStr string
  | VList "val list"
  | VDict "(string \<times> val) list"

fun truthy :: "val \<Rightarrow> bool" where
  "truthy VNone = False"
| "truthy (VBool b) = b"
| "truthy (VInt i) = (i \<noteq> 0)"
| "truthy (VStr s) = (s \<noteq> [])"
| "truthy (VList xs) = (xs \<noteq> [])"
| "truthy (VDict d) = (d \<noteq> [])"

fun is_vdict :: "val \<Rightarrow> bool" where
  "is_vdict (VDict _) = True"
| "is_vdict _ = False"

fun is_vstr :: "val \<Rightarrow> bool" where
  "is_vstr (VStr _) = True"
| "is_vstr _ = False"

text \<open>No dictionary inside a value has a key twice.\<close>

fun val_ok :: "val \<Rightarrow> bool" where
  "val_ok (VList xs) = (\<forall>x \<in> set xs. val_ok x)"
| "val_ok (VDict d) = (dict_ok d \<and> (\<forall>p \<in> set d. val_ok (snd p)))"
| "val_ok _ = True"

text \<open>\<^verbatim>\<open>str(n)\<close> of an integer, as the \<^verbatim>\<open>%s\<close> of the message templates formats it.\<close>

fun digits_nat :: "nat \<Rightarrow> string" where
  "digits_nat n = (if n < 10 then [char_of (48 + n)] else digits_nat (n div 10) @ [char_of (48 + n mod 10)])"

declare digits_nat.simps [simp del]

definition str_int :: "int \<Rightarrow> string" where
  "str_int i = (if i < 0 then ''-'' @ digits_nat (nat (- i)) else digits_nat (nat i))"

fun join_str :: "string \<Rightarrow> string list \<Rightarrow> string" where
  "join_str sep [] = []"
| "join_str sep [s] = s"
| "join_str sep (s # ss) = s @ sep @ join_str sep ss"

text \<open>A string in single quotes, as the message templates write it.\<close>

definition squote :: "string \<Rightarrow> string" where
  "squote s = [CHR 0x27] @ s @ [CHR 0x27]"

text \<open>
  An expression evaluator (a plugin of the entry point \<^verbatim>\<open>mistral.expression.evaluators\<close>, which
  wraps the YAQL and Jinja libraries). A context is the list of dictionaries of a
  \<^verbatim>\<open>ContextView\<close>; a plain dictionary is a list of one.
\<close>

type_synonym ctx_view = "val dict list"

record evaluator =
  ev_name :: string
  ev_is_expression :: "string \<Rightarrow> bool"
  ev_validate :: "string \<Rightarrow> unit res"
  ev_evaluate :: "string \<Rightarrow> ctx_view \<Rightarrow> val res"

text \<open>
  \<open>merge_dicts o l r\<close> and \<open>update_dict l r\<close> are the new content of the left dictionary after
  \<^verbatim>\<open>mistral_lib.utils.merge_dicts(l, r, overwrite=o)\<close> and \<^verbatim>\<open>mistral_lib.utils.update_dict(l, r)\<close>,
  which change it in place and return it (the right argument may be None); \<open>md5\<close> is \<^verbatim>\<open>hashlib.md5(..).hexdigest()\<close>.
\<close>

record env =
  merge_strategy :: string
  context_versioning :: bool
  hash_version_keys :: bool
  allowed_languages :: "string list"
  evaluators :: "evaluator list"
  merge_dicts :: "bool \<Rightarrow> val dict \<Rightarrow> val dict option \<Rightarrow> val dict"
  update_dict :: "val dict \<Rightarrow> val dict option \<Rightarrow> val dict"
  md5 :: "string \<Rightarrow> string"

text \<open>
  The documented behaviour of the two functions of \<^verbatim>\<open>mistral_lib.utils\<close> that the proofs rely on:
  \<^verbatim>\<open>update_dict\<close> is \<^verbatim>\<open>dict.update\<close>; \<^verbatim>\<open>merge_dicts\<close> keeps what is only on one side and, where both
  sides have a key and not both values are dictionaries, takes the right one if it overwrites.
  Merging None changes nothing.
\<close>

definition update_dict_doc :: "env \<Rightarrow> bool" where
  "update_dict_doc e \<longleftrightarrow> (\<forall>l. update_dict e l None = l \<and> (\<forall>r. update_dict e l (Some r) = dupdate l r))"

definition merge_dicts_doc :: "env \<Rightarrow> bool" where
  "merge_dicts_doc e \<longleftrightarrow> (\<forall>ov l. merge_dicts e ov l None = l) \<and> (\<forall>ov l r k. dict_ok r \<longrightarrow>
     (dget r k = None \<longrightarrow> dget (merge_dicts e ov l (Some r)) k = dget l k) \<and>
     (dget l k = None \<longrightarrow> dget (merge_dicts e ov l (Some r)) k = dget r k) \<and>
     (\<forall>a b. dget l k = Some a \<longrightarrow> dget r k = Some b \<longrightarrow> \<not> (is_vdict a \<and> is_vdict b) \<longrightarrow>
        dget (merge_dicts e ov l (Some r)) k = Some (if ov then b else a)))"

text \<open>A concrete pair of functions with that behaviour, for the witnesses.\<close>

definition flat_merge :: "bool \<Rightarrow> val dict \<Rightarrow> val dict option \<Rightarrow> val dict" where
  "flat_merge ov l r = (case r of None \<Rightarrow> l | Some d \<Rightarrow>
     (if ov then dupdate l d else dupdate l (filter (\<lambda>p. dget l (fst p) = None) d)))"

definition plain_update :: "val dict \<Rightarrow> val dict option \<Rightarrow> val dict" where
  "plain_update l r = (case r of None \<Rightarrow> l | Some d \<Rightarrow> dupdate l d)"

definition plain_env :: env where
  "plain_env = \<lparr>merge_strategy = ''replace'', context_versioning = False, hash_version_keys = False,
     allowed_languages = [], evaluators = [], merge_dicts = flat_merge, update_dict = plain_update,
     md5 = id\<rparr>"

section \<open>Lemmas\<close>

lemma val_ok_dget: "val_ok (VDict d) \<Longrightarrow> dget d k = Some v \<Longrightarrow> val_ok v"
  by (force dest: map_of_SomeD)

lemma plain_update_doc: "update_dict_doc plain_env"
  by (simp add: update_dict_doc_def plain_env_def plain_update_def)

lemma dget_filter_keys:
  "dget (filter (\<lambda>p. P (fst p)) r) k = (if P k then dget r k else None)"
  by (induction r) auto

lemma plain_merge_doc: "merge_dicts_doc plain_env"
proof -
  have ok: "dict_ok (filter P r)" if "dict_ok r" for P and r :: "val dict"
    using that by (simp add: dict_ok_def distinct_filter_map_fst)
  show ?thesis
    unfolding merge_dicts_doc_def plain_env_def flat_merge_def
    by (auto simp: dget_dupdate ok dget_filter_keys [where P = "\<lambda>j. dget _ j = None"]
        split: option.split)
qed

end
