(* ===== verification/States.thy ===== *)
theory States
  imports Prelude
begin

text \<open>
  \<^verbatim>\<open>mistral/workflow/states.py\<close>: the states of tasks, actions and workflows, their
  classification, and the table of valid transitions. The state \<^verbatim>\<open>'DELAYED'\<close> is
  \<open>RUNNING_DELAYED\<close>. The code passes states as strings, so a string that is none of them is
  the value None of the parser \<open>state_of\<close>.
\<close>

datatype state =
    IDLE | WAITING | RUNNING | RUNNING_DELAYED | PAUSED | SUCCESS | CANCELLED | ERROR | SKIPPED

fun state_str :: "state \<Rightarrow> string" where
  "state_str IDLE = ''IDLE''"
| "state_str WAITING = ''WAITING''"
| "state_str RUNNING = ''RUNNING''"
| "state_str RUNNING_DELAYED = ''DELAYED''"
| "state_str PAUSED = ''PAUSED''"
| "state_str SUCCESS = ''SUCCESS''"
| "state_str CANCELLED = ''CANCELLED''"
| "state_str ERROR = ''ERROR''"
| "state_str SKIPPED = ''SKIPPED''"

definition all_states :: "state list" where
  "all_states =
     [IDLE, WAITING, RUNNING, RUNNING_DELAYED, PAUSED, SUCCESS, CANCELLED, ERROR, SKIPPED]"

definition state_of :: "string \<Rightarrow> state option" where
  "state_of s = find (\<lambda>x. state_str x = s) all_states"

text \<open>\<^verbatim>\<open>_VALID_TRANSITIONS\<close>: None where the dictionary has no entry.\<close>

fun valid_transitions :: "state \<Rightarrow> state list option" where
  "valid_transitions IDLE = Some [RUNNING, ERROR, CANCELLED]"
| "valid_transitions WAITING = Some [RUNNING]"
| "valid_transitions RUNNING = Some [PAUSED, RUNNING_DELAYED, SUCCESS, ERROR, CANCELLED]"
| "valid_transitions RUNNING_DELAYED = Some [RUNNING, ERROR, CANCELLED]"
| "valid_transitions PAUSED = Some [RUNNING, ERROR, CANCELLED]"
| "valid_transitions SUCCESS = Some []"
| "valid_transitions CANCELLED = Some [RUNNING]"
| "valid_transitions ERROR = Some [RUNNING, SKIPPED]"
| "valid_transitions SKIPPED = None"

definition is_valid :: "string \<Rightarrow> bool" where
  "is_valid s \<longleftrightarrow> s \<in> set (map state_str all_states)"

definition is_invalid :: "string \<Rightarrow> bool" where
  "is_invalid s \<longleftrightarrow> \<not> is_valid s"

definition is_completed :: "state \<Rightarrow> bool" where
  "is_completed s \<longleftrightarrow> s \<in> set [SUCCESS, ERROR, CANCELLED, SKIPPED]"

definition is_cancelled :: "state \<Rightarrow> bool" where
  "is_cancelled s \<longleftrightarrow> s = CANCELLED"

definition is_skipped :: "state \<Rightarrow> bool" where
  "is_skipped s \<longleftrightarrow> s = SKIPPED"

definition is_running :: "state \<Rightarrow> bool" where
  "is_running s \<longleftrightarrow> s \<in> set [RUNNING, RUNNING_DELAYED]"

definition is_waiting :: "state \<Rightarrow> bool" where
  "is_waiting s \<longleftrightarrow> s = WAITING"

definition is_idle :: "state \<Rightarrow> bool" where
  "is_idle s \<longleftrightarrow> s = IDLE"

definition is_paused :: "state \<Rightarrow> bool" where
  "is_paused s \<longleftrightarrow> s = PAUSED"

definition is_paused_or_completed :: "state \<Rightarrow> bool" where
  "is_paused_or_completed s \<longleftrightarrow> is_paused s \<or> is_completed s"

definition is_cancelled_or_skipped :: "state \<Rightarrow> bool" where
  "is_cancelled_or_skipped s \<longleftrightarrow> is_cancelled s \<or> is_skipped s"

definition is_paused_or_idle :: "state \<Rightarrow> bool" where
  "is_paused_or_idle s \<longleftrightarrow> is_paused s \<or> is_idle s"

text \<open>
  \<^verbatim>\<open>is_valid_transition\<close> on the strings the code passes. The lookup
  \<^verbatim>\<open>_VALID_TRANSITIONS[from_state]\<close> raises \<open>KeyError\<close> for a state without an entry.
\<close>

definition is_valid_transition_str :: "string \<Rightarrow> string \<Rightarrow> bool res" where
  "is_valid_transition_str from_state to_state =
     (if is_invalid from_state \<or> is_invalid to_state then Inr False
      else if from_state = to_state then Inr True
      else (case Option.bind (state_of from_state) valid_transitions of
              None \<Rightarrow> Inl (KeyError from_state)
            | Some ts \<Rightarrow> Inr (to_state \<in> set (map state_str ts))))"

definition is_valid_transition :: "state \<Rightarrow> state \<Rightarrow> bool res" where
  "is_valid_transition from_state to_state =
     (if from_state = to_state then Inr True
      else (case valid_transitions from_state of
              None \<Rightarrow> Inl (KeyError (state_str from_state))
            | Some ts \<Rightarrow> Inr (to_state \<in> set ts)))"

lemmas state_class_defs =
  is_completed_def is_cancelled_def is_skipped_def is_running_def is_waiting_def is_idle_def
  is_paused_def is_paused_or_completed_def is_cancelled_or_skipped_def is_paused_or_idle_def

section \<open>Lemmas\<close>

lemma inj_state_str: "state_str a = state_str b \<longleftrightarrow> a = b"
  by (cases a; cases b) simp_all

lemma state_of_str [simp]: "state_of (state_str s) = Some s"
  by (cases s) (simp_all add: state_of_def all_states_def)

lemma set_all_states [simp]: "set all_states = UNIV"
proof -
  have "s \<in> set all_states" for s by (cases s) (simp_all add: all_states_def)
  then show ?thesis by blast
qed

lemma is_valid_state_str [simp]: "is_valid (state_str s)"
  by (simp add: is_valid_def)

text \<open>The typed and the string version agree, so the rest of the development uses the typed one.\<close>

lemma is_valid_transition_str_typed:
  "is_valid_transition_str (state_str a) (state_str b) = is_valid_transition a b"
  by (auto simp: is_valid_transition_str_def is_valid_transition_def is_invalid_def inj_state_str
           split: option.split)

lemma is_valid_transition_invalid: "is_invalid s \<or> is_invalid t \<Longrightarrow> is_valid_transition_str s t = Inr False"
  by (simp add: is_valid_transition_str_def)

lemma valid_transition_simps [simp]:
  "is_valid_transition IDLE t = Inr (t \<in> {IDLE, RUNNING, ERROR, CANCELLED})"
  "is_valid_transition WAITING t = Inr (t \<in> {WAITING, RUNNING})"
  "is_valid_transition RUNNING t =
     Inr (t \<in> {RUNNING, PAUSED, RUNNING_DELAYED, SUCCESS, ERROR, CANCELLED})"
  "is_valid_transition RUNNING_DELAYED t = Inr (t \<in> {RUNNING_DELAYED, RUNNING, ERROR, CANCELLED})"
  "is_valid_transition PAUSED t = Inr (t \<in> {PAUSED, RUNNING, ERROR, CANCELLED})"
  "is_valid_transition SUCCESS t = Inr (t = SUCCESS)"
  "is_valid_transition CANCELLED t = Inr (t \<in> {CANCELLED, RUNNING})"
  "is_valid_transition ERROR t = Inr (t \<in> {ERROR, RUNNING, SKIPPED})"
  "is_valid_transition SKIPPED t = (if t = SKIPPED then Inr True else Inl (KeyError ''SKIPPED''))"
  by (auto simp: is_valid_transition_def)

lemma completed_cases: "is_completed s \<longleftrightarrow> s = SUCCESS \<or> s = ERROR \<or> s = CANCELLED \<or> s = SKIPPED"
  by (auto simp: is_completed_def)

lemma paused_or_completed_iff: "is_paused_or_completed s \<longleftrightarrow> s = PAUSED \<or> is_completed s"
  by (simp add: is_paused_or_completed_def is_paused_def)

lemma is_completed_simps [simp]:
  "is_completed SUCCESS" "is_completed ERROR" "is_completed CANCELLED" "is_completed SKIPPED"
  "\<not> is_completed IDLE" "\<not> is_completed WAITING" "\<not> is_completed RUNNING"
  "\<not> is_completed RUNNING_DELAYED" "\<not> is_completed PAUSED"
  by (simp_all add: is_completed_def)

text \<open>
  The transition function of the state machine never answers that a workflow, task or action
  may leave a finished state for a new one other than by a rerun (to RUNNING) or a skip (from ERROR
  to SKIPPED), and it never lets anything leave SUCCESS.
\<close>

theorem completed_exits:
  assumes "is_completed s" and "is_valid_transition s t = Inr True" and "t \<noteq> s"
  shows "s \<noteq> SUCCESS \<and> (t = RUNNING \<or> (s = ERROR \<and> t = SKIPPED))"
  using assms by (cases s) (auto split: if_splits)

theorem completed_exits_witness:
  "ERROR \<noteq> SUCCESS \<and> (SKIPPED = RUNNING \<or> (ERROR = ERROR \<and> SKIPPED = SKIPPED))"
proof -
  have "is_completed ERROR" "is_valid_transition ERROR SKIPPED = Inr True" "SKIPPED \<noteq> ERROR"
    by simp_all
  then show ?thesis by (rule completed_exits)
qed

text \<open>
  The transition function is total on valid states except in one case: asked about any
  change of a SKIPPED object it raises KeyError, since \<^verbatim>\<open>_VALID_TRANSITIONS\<close> has no entry for
  that state although \<^verbatim>\<open>_ALL\<close> contains it.
\<close>

theorem valid_transition_raises_iff:
  "(\<exists>e. is_valid_transition_str (state_str s) (state_str t) = Inl e) \<longleftrightarrow> s = SKIPPED \<and> t \<noteq> SKIPPED"
  unfolding is_valid_transition_str_typed by (cases s) auto

end
