(* ===== verification/Lang_Specs.thy ===== *)
theory Lang_Specs
  imports Py_Values States
begin

text \<open>
  The specification objects of \<^verbatim>\<open>mistral/lang/v2\<close> that the engine reads: publish clauses
  (\<^verbatim>\<open>publish.py\<close>), transition clauses (\<^verbatim>\<open>on_clause.py\<close>), retry and other policies
  (\<^verbatim>\<open>policies.py\<close>, \<^verbatim>\<open>retry_policy.py\<close>), tasks (\<^verbatim>\<open>tasks.py\<close>) and task defaults
  (\<^verbatim>\<open>task_defaults.py\<close>). Objects are records of their fields; a method that changes an
  object returns the changed one. The regular expressions that split a command with parameters
  are not modelled: \<open>prepare_next_clause\<close> takes the splitting function as its argument.
\<close>

section \<open>Publish clauses\<close>

record publish_spec =
  pub_branch :: "val dict option"
  pub_global :: "val dict option"
  pub_atomic :: "val dict option"

definition dict_truthy :: "val dict option \<Rightarrow> bool" where
  "dict_truthy d \<longleftrightarrow> (case d of None \<Rightarrow> False | Some x \<Rightarrow> x \<noteq> [])"

text \<open>
  \<^verbatim>\<open>utils.merge_dicts(self._x, other)\<close> as a statement: only an existing dictionary can change, and
  the returned value is not used.
\<close>

definition merge_slot :: "env \<Rightarrow> val dict option \<Rightarrow> val dict option \<Rightarrow> val dict option" where
  "merge_slot e l r =
     (if dict_truthy r then (case l of None \<Rightarrow> None | Some d \<Rightarrow> Some (merge_dicts e True d r)) else l)"

definition publish_merge :: "env \<Rightarrow> publish_spec \<Rightarrow> publish_spec \<Rightarrow> publish_spec" where
  "publish_merge e self other =
     \<lparr>pub_branch = merge_slot e (pub_branch self) (pub_branch other),
      pub_global = merge_slot e (pub_global self) (pub_global other),
      pub_atomic = merge_slot e (pub_atomic self) (pub_atomic other)\<rparr>"

definition publish_validate_semantics :: "publish_spec \<Rightarrow> unit res" where
  "publish_validate_semantics p =
     guard_res (dict_truthy (pub_branch p) \<or> dict_truthy (pub_global p) \<or> dict_truthy (pub_atomic p))
       (InvalidModelException ''Either 'branch', 'global' or 'atomic' must be specified: '')"

section \<open>Transition clauses\<close>

text \<open>An item is the name of the next task (or engine command), its condition, and its parameters.\<close>

type_synonym on_item = "string \<times> val \<times> val dict"

record on_clause_spec =
  oc_publish :: "publish_spec option"
  oc_next :: "on_item list"

definition as_tuple :: "val \<Rightarrow> (val \<times> val) res" where
  "as_tuple v = (case v of
      VDict [] \<Rightarrow> Inl IndexError
    | VDict ((k, c) # _) \<Rightarrow> Inr (VStr k, c)
    | _ \<Rightarrow> Inr (v, VStr []))"

definition as_list_of_tuples :: "val \<Rightarrow> (val \<times> val) list res" where
  "as_list_of_tuples data =
     (if \<not> truthy data then Inr []
      else (case data of
          VStr s \<Rightarrow> bind_res (as_tuple data) (\<lambda>t. Inr [t])
        | VList xs \<Rightarrow> map_res as_tuple xs
        | VDict d \<Rightarrow> map_res as_tuple (map VStr (dkeys d))
        | _ \<Rightarrow> Inl TypeError))"

text \<open>\<^verbatim>\<open>_parse_cmd_and_input\<close>: a command without a space has no parameters.\<close>

definition parse_cmd_and_input :: "(string \<Rightarrow> (string \<times> val dict) res) \<Rightarrow> val \<Rightarrow> (string \<times> val dict) res" where
  "parse_cmd_and_input split_params cmd = (case cmd of
      VStr s \<Rightarrow> (if CHR '' '' \<notin> set s then Inr (s, []) else split_params s)
    | _ \<Rightarrow> Inl TypeError)"

definition prepare_next_clause :: "(string \<Rightarrow> (string \<times> val dict) res) \<Rightarrow> val \<Rightarrow> on_item list res" where
  "prepare_next_clause split_params next_clause =
     bind_res (as_list_of_tuples next_clause)
       (map_res (\<lambda>t. bind_res (parse_cmd_and_input split_params (fst t)) (\<lambda>np. Inr (fst np, snd t, snd np))))"

text \<open>The initializer of \<^verbatim>\<open>OnClauseSpec\<close>: only a dictionary may carry a publish clause.\<close>

definition val_dict_opt :: "val option \<Rightarrow> val dict option res" where
  "val_dict_opt v = (case v of None \<Rightarrow> Inr None | Some VNone \<Rightarrow> Inr None | Some (VDict d) \<Rightarrow> Inr (Some d)
     | Some _ \<Rightarrow> Inl TypeError)"

definition make_publish_spec :: "val \<Rightarrow> publish_spec res" where
  "make_publish_spec data = (case data of
      VDict d \<Rightarrow> bind_res (val_dict_opt (dget d ''branch'')) (\<lambda>b.
                 bind_res (val_dict_opt (dget d ''global'')) (\<lambda>g.
                 bind_res (val_dict_opt (dget d ''atomic'')) (\<lambda>a.
                   Inr \<lparr>pub_branch = b, pub_global = g, pub_atomic = a\<rparr>)))
    | _ \<Rightarrow> Inl AttributeError)"

definition make_on_clause :: "(string \<Rightarrow> (string \<times> val dict) res) \<Rightarrow> val \<Rightarrow> on_clause_spec res" where
  "make_on_clause split_params data = (case data of
      VDict d \<Rightarrow>
        bind_res (case dget d ''publish'' of None \<Rightarrow> Inr None | Some VNone \<Rightarrow> Inr None
                  | Some p \<Rightarrow> bind_res (make_publish_spec p) (\<lambda>q. Inr (Some q))) (\<lambda>p.
        bind_res (prepare_next_clause split_params (dget_default d ''next'' VNone)) (\<lambda>n.
          Inr \<lparr>oc_publish = p, oc_next = n\<rparr>))
    | _ \<Rightarrow> bind_res (prepare_next_clause split_params data) (\<lambda>n. Inr \<lparr>oc_publish = None, oc_next = n\<rparr>))"

section \<open>Policies\<close>

record retry_spec =
  rs_count :: val
  rs_delay :: val
  rs_break_on :: val
  rs_continue_on :: val

record policies_spec =
  ps_retry :: "retry_spec option"
  ps_wait_before :: val
  ps_wait_after :: val
  ps_timeout :: val
  ps_pause_before :: val
  ps_concurrency :: val
  ps_fail_on :: val

text \<open>The defaults of \<^verbatim>\<open>PoliciesSpec.__init__\<close>.\<close>

definition default_policies :: policies_spec where
  "default_policies = \<lparr>ps_retry = None, ps_wait_before = VInt 0, ps_wait_after = VInt 0, ps_timeout = VInt 0,
     ps_pause_before = VBool False, ps_concurrency = VInt 0, ps_fail_on = VBool False\<rparr>"

section \<open>Tasks\<close>

datatype join_val = JoinAll | JoinOne | JoinNum int

datatype wf_type = Direct | Reverse

record task_spec =
  ts_name :: string
  ts_action :: "string option"
  ts_workflow :: "string option"
  ts_input :: val
  ts_with_items :: "val dict"
  ts_publish :: "val dict"
  ts_publish_on_error :: "val dict"
  ts_publish_on_skip :: "val dict"
  ts_policies :: policies_spec
  ts_target :: val
  ts_keep_result :: val
  ts_safe_rerun :: "val option"
  ts_join :: "join_val option"
  ts_on_complete :: "on_clause_spec option"
  ts_on_success :: "on_clause_spec option"
  ts_on_error :: "on_clause_spec option"
  ts_on_skip :: "on_clause_spec option"
  ts_requires :: "string list"

definition mk_task :: "string \<Rightarrow> task_spec" where
  "mk_task n = \<lparr>ts_name = n, ts_action = Some ''std.noop'', ts_workflow = None, ts_input = VDict [],
     ts_with_items = [], ts_publish = [], ts_publish_on_error = [], ts_publish_on_skip = [],
     ts_policies = default_policies, ts_target = VNone, ts_keep_result = VBool True, ts_safe_rerun = None,
     ts_join = None, ts_on_complete = None, ts_on_success = None, ts_on_error = None, ts_on_skip = None,
     ts_requires = []\<rparr>"

text \<open>Truth of \<^verbatim>\<open>task_spec.get_join()\<close>: \<^verbatim>\<open>join: 0\<close> is no join.\<close>

definition has_join :: "task_spec \<Rightarrow> bool" where
  "has_join t \<longleftrightarrow> (case ts_join t of None \<Rightarrow> False | Some (JoinNum n) \<Rightarrow> n \<noteq> 0 | Some _ \<Rightarrow> True)"

definition get_action_name :: "task_spec \<Rightarrow> string option" where
  "get_action_name t = (case ts_action t of Some a \<Rightarrow> (if a = [] then None else Some a) | None \<Rightarrow> None)"

text \<open>\<^verbatim>\<open>TaskSpec.get_publish\<close>: the spec it builds shares its branch dictionary with the task's field.\<close>

definition base_publish :: "task_spec \<Rightarrow> state \<Rightarrow> val dict option" where
  "base_publish t s =
     (if s = SUCCESS \<and> ts_publish t \<noteq> [] then Some (ts_publish t)
      else if s = ERROR \<and> ts_publish_on_error t \<noteq> [] then Some (ts_publish_on_error t)
      else if s = SKIPPED \<and> ts_publish_on_skip t \<noteq> [] then Some (ts_publish_on_skip t)
      else None)"

definition set_base_publish :: "state \<Rightarrow> val dict \<Rightarrow> task_spec \<Rightarrow> task_spec" where
  "set_base_publish s d t =
     (if s = SUCCESS then t\<lparr>ts_publish := d\<rparr>
      else if s = ERROR then t\<lparr>ts_publish_on_error := d\<rparr> else t\<lparr>ts_publish_on_skip := d\<rparr>)"

definition branch_spec :: "val dict \<Rightarrow> publish_spec" where
  "branch_spec d = \<lparr>pub_branch = Some d, pub_global = None, pub_atomic = None\<rparr>"

definition clause_publish :: "on_clause_spec option \<Rightarrow> publish_spec option" where
  "clause_publish c = (case c of None \<Rightarrow> None | Some oc \<Rightarrow> oc_publish oc)"

definition on_clause_for :: "task_spec \<Rightarrow> state \<Rightarrow> on_clause_spec option res" where
  "on_clause_for t s =
     (if s = SUCCESS then Inr (ts_on_success t) else if s = ERROR then Inr (ts_on_error t)
      else if s = SKIPPED then Inr (ts_on_skip t) else Inl (OtherException ''UnboundLocalError''))"

definition set_on_clause_publish :: "state \<Rightarrow> publish_spec \<Rightarrow> task_spec \<Rightarrow> task_spec" where
  "set_on_clause_publish s p t =
     (if s = SUCCESS then t\<lparr>ts_on_success := map_option (\<lambda>oc. oc\<lparr>oc_publish := Some p\<rparr>) (ts_on_success t)\<rparr>
      else if s = ERROR then t\<lparr>ts_on_error := map_option (\<lambda>oc. oc\<lparr>oc_publish := Some p\<rparr>) (ts_on_error t)\<rparr>
      else t\<lparr>ts_on_skip := map_option (\<lambda>oc. oc\<lparr>oc_publish := Some p\<rparr>) (ts_on_skip t)\<rparr>)"

text \<open>
  \<^verbatim>\<open>DirectWorkflowTaskSpec.get_publish\<close>, with the changed task specification: the merges happen
  inside the objects the task keeps.
\<close>

definition get_publish :: "env \<Rightarrow> task_spec \<Rightarrow> state \<Rightarrow> publish_spec option res \<times> task_spec" where
  "get_publish e t s =
     (let (spec, t1) =
        (case (clause_publish (ts_on_complete t), base_publish t s) of
           (None, None) \<Rightarrow> (None, t)
         | (None, Some d) \<Rightarrow> (Some (branch_spec d), t)
         | (Some c, None) \<Rightarrow> (Some c, t)
         | (Some c, Some d) \<Rightarrow> (let m = publish_merge e (branch_spec d) c
                               in (Some m, set_base_publish s (the (pub_branch m)) t)))
      in case on_clause_for t1 s of
           Inl x \<Rightarrow> (Inl x, t1)
         | Inr oc \<Rightarrow>
             (case clause_publish oc of
                None \<Rightarrow> (Inr spec, t1)
              | Some q \<Rightarrow>
                  (let q' = (case spec of None \<Rightarrow> q | Some p \<Rightarrow> publish_merge e q p)
                   in (Inr (Some q'), set_on_clause_publish s q' t1))))"

section \<open>Task defaults and workflows\<close>

record task_defaults_spec =
  td_policies :: policies_spec
  td_on_complete :: "on_clause_spec option"
  td_on_success :: "on_clause_spec option"
  td_on_error :: "on_clause_spec option"
  td_on_skip :: "on_clause_spec option"
  td_safe_rerun :: "val option"
  td_requires :: "string list"

text \<open>An input without a default (\<^verbatim>\<open>utils.NotDefined\<close>) is None.\<close>

record workflow_spec =
  ws_name :: string
  ws_type :: wf_type
  ws_input :: "val option dict"
  ws_output :: "val dict"
  ws_output_on_error :: "val dict"
  ws_vars :: "val dict"
  ws_task_defaults :: "task_defaults_spec option"
  ws_tasks :: "task_spec dict"

section \<open>Lemmas\<close>

lemma merge_slot_None [simp]: "merge_slot e None r = None"
  by (simp add: merge_slot_def)

lemma clause_publish_simps [simp]:
  "clause_publish None = None" "clause_publish (Some oc) = oc_publish oc"
  by (simp_all add: clause_publish_def)

text \<open>
  A transition clause written as a dictionary without the keys \<^verbatim>\<open>publish\<close> and \<^verbatim>\<open>next\<close>, such
  as \<^verbatim>\<open>on-success: {task2: <% cond %>}\<close>, which the schema accepts as a task with an expression,
  has no next task at all: the transition is dropped.
\<close>

theorem dict_clause_dropped:
  assumes "dget d ''next'' = None" and "dget d ''publish'' = None"
  shows "make_on_clause sp (VDict d) = Inr \<lparr>oc_publish = None, oc_next = []\<rparr>"
  using assms by (simp add: make_on_clause_def prepare_next_clause_def as_list_of_tuples_def dget_default_def)

theorem dict_clause_dropped_witness:
  "make_on_clause (\<lambda>s. Inr (s, [])) (VDict [(''task2'', VStr ''<% $.ok %>'')]) =
   Inr \<lparr>oc_publish = None, oc_next = []\<rparr>"
  by (rule dict_clause_dropped) simp_all

text \<open>
  The same form under \<^verbatim>\<open>next\<close> keeps the task and loses its condition: the loop runs over the
  keys of the dictionary, and every task gets the empty condition, which is always met.
\<close>

theorem dict_next_condition_lost:
  assumes "dget d ''next'' = Some (VDict ((t, cond) # rest))" and "dget d ''publish'' = None"
    and "\<forall>n \<in> set (t # dkeys rest). CHR '' '' \<notin> set n"
  shows "make_on_clause sp (VDict d) =
         Inr \<lparr>oc_publish = None, oc_next = map (\<lambda>n. (n, VStr [], [])) (t # dkeys rest)\<rparr>"
proof -
  have tup: "map_res as_tuple (map VStr ns) = Inr (map (\<lambda>n. (VStr n, VStr [])) ns)" for ns
    by (induction ns) (simp_all add: as_tuple_def)
  have parse: "map_res (\<lambda>p. bind_res (parse_cmd_and_input sp (fst p)) (\<lambda>np. Inr (fst np, snd p, snd np)))
      (map (\<lambda>n. (VStr n, VStr [])) ns) = Inr (map (\<lambda>n. (n, VStr [], [])) ns)"
    if "\<forall>n \<in> set ns. CHR '' '' \<notin> set n" for ns
    using that by (induction ns) (simp_all add: parse_cmd_and_input_def)
  have "prepare_next_clause sp (VDict ((t, cond) # rest)) = Inr (map (\<lambda>n. (n, VStr [], [])) (t # dkeys rest))"
  proof -
    have "map VStr (dkeys ((t, cond) # rest)) = map VStr (t # dkeys rest)" by simp
    then show ?thesis using tup [of "t # dkeys rest"] parse [OF assms(3)]
      by (simp add: prepare_next_clause_def as_list_of_tuples_def del: map_res.simps list.map map_map)
  qed
  with assms show ?thesis by (simp add: make_on_clause_def dget_default_def)
qed

theorem dict_next_condition_lost_witness:
  "make_on_clause (\<lambda>s. Inr (s, [])) (VDict [(''next'', VDict [(''task2'', VStr ''<% $.ok %>'')])]) =
   Inr \<lparr>oc_publish = None, oc_next = map (\<lambda>n. (n, VStr [], [])) (''task2'' # dkeys ([] :: val dict))\<rparr>"
  by (rule dict_next_condition_lost) simp_all

text \<open>
  Where \<^verbatim>\<open>on-complete\<close> and the transition clause of the task's state publish the same branch
  variable, the value of \<^verbatim>\<open>on-complete\<close> is published (for values that are not both
  dictionaries), since it is merged into the other clause and overwrites.
\<close>

theorem on_complete_publish_wins:
  assumes "merge_dicts_doc e"
    and "clause_publish (ts_on_complete t) = Some c" and "pub_branch c = Some cb" and "dict_ok cb"
    and "base_publish t s = None" and "on_clause_for t s = Inr (Some oc)"
    and "oc_publish oc = Some q" and "pub_branch q = Some qb"
    and "dget cb x = Some v" and "\<not> is_vdict v"
  shows "\<exists>p b. fst (get_publish e t s) = Inr (Some p) \<and> pub_branch p = Some b \<and> dget b x = Some v"
proof -
  from assms(9) have ne: "dict_truthy (Some cb)" by (auto simp: dict_truthy_def)
  have r: "fst (get_publish e t s) = Inr (Some (publish_merge e q c))"
    using assms by (simp add: get_publish_def Let_def)
  have b: "pub_branch (publish_merge e q c) = Some (merge_dicts e True qb (Some cb))"
    using assms ne by (simp add: publish_merge_def merge_slot_def)
  have "dget (merge_dicts e True qb (Some cb)) x = Some v"
    using assms(1,4,9,10) unfolding merge_dicts_doc_def
    by (cases "dget qb x") (metis (mono_tags, lifting))+
  with r b show ?thesis by blast
qed

definition both_publish_task :: task_spec where
  "both_publish_task = (mk_task ''t'')\<lparr>
     ts_on_complete := Some \<lparr>oc_publish = Some \<lparr>pub_branch = Some [(''x'', VInt 1)], pub_global = None, pub_atomic = None\<rparr>, oc_next = []\<rparr>,
     ts_on_success := Some \<lparr>oc_publish = Some \<lparr>pub_branch = Some [(''x'', VInt 2)], pub_global = None, pub_atomic = None\<rparr>, oc_next = []\<rparr>\<rparr>"

theorem on_complete_publish_wins_witness:
  "\<exists>p b. fst (get_publish plain_env both_publish_task SUCCESS) = Inr (Some p) \<and> pub_branch p = Some b \<and>
     dget b ''x'' = Some (VInt 1)"
  by (rule on_complete_publish_wins [OF plain_merge_doc, where cb = "[(''x'', VInt 1)]" and qb = "[(''x'', VInt 2)]" and v = "VInt 1"
        and c = "branch_spec [(''x'', VInt 1)]" and q = "branch_spec [(''x'', VInt 2)]"
        and oc = "\<lparr>oc_publish = Some (branch_spec [(''x'', VInt 2)]), oc_next = []\<rparr>"])
    (simp_all add: both_publish_task_def mk_task_def base_publish_def on_clause_for_def dict_ok_def branch_spec_def)

text \<open>
  The variables of a task's own \<^verbatim>\<open>publish\<close> are not published at all when the transition
  clause of the state has a publish clause without \<^verbatim>\<open>branch\<close>: the clause wins and its missing
  branch dictionary cannot take them.
\<close>

theorem task_publish_lost:
  assumes "base_publish t s = Some d" and "ts_on_complete t = None"
    and "on_clause_for t s = Inr (Some oc)" and "oc_publish oc = Some q" and "pub_branch q = None"
  shows "\<exists>p. fst (get_publish e t s) = Inr (Some p) \<and> pub_branch p = None"
  using assms by (simp add: get_publish_def publish_merge_def Let_def)

theorem task_publish_lost_witness:
  "\<exists>p. fst (get_publish plain_env ((mk_task ''t'')\<lparr>ts_publish := [(''a'', VInt 1)],
      ts_on_success := Some \<lparr>oc_publish = Some \<lparr>pub_branch = None, pub_global = Some [(''g'', VInt 1)], pub_atomic = None\<rparr>,
        oc_next = []\<rparr>\<rparr>) SUCCESS) = Inr (Some p) \<and> pub_branch p = None"
  by (rule task_publish_lost [where d = "[(''a'', VInt 1)]"
        and q = "\<lparr>pub_branch = None, pub_global = Some [(''g'', VInt 1)], pub_atomic = None\<rparr>"
        and oc = "\<lparr>oc_publish = Some \<lparr>pub_branch = None, pub_global = Some [(''g'', VInt 1)], pub_atomic = None\<rparr>, oc_next = []\<rparr>"])
    (simp_all add: mk_task_def base_publish_def on_clause_for_def)

end
