(* ===== verification/Lang_Workflow.thy ===== *)
theory Lang_Workflow
  imports Lang_Specs
begin

text \<open>
  The workflow specifications of \<^verbatim>\<open>mistral/lang/v2/workflows.py\<close>: the transition clauses of a
  task with the task defaults, the inbound and outbound tasks and their caches, start tasks, and
  the semantic validation of direct and reverse workflows. A set the code builds is a list
  without duplicates. \<open>wf_spec_ok\<close> is what \<^verbatim>\<open>BaseSpecList.__init__\<close> establishes: every task
  carries its key as its name, and no key occurs twice.
\<close>

definition ENGINE_COMMANDS :: "string list" where
  "ENGINE_COMMANDS = [''noop'', ''fail'', ''succeed'', ''pause'']"

definition get_tasks :: "workflow_spec \<Rightarrow> task_spec list" where
  "get_tasks w = map snd (ws_tasks w)"

definition get_task :: "workflow_spec \<Rightarrow> string \<Rightarrow> task_spec option" where
  "get_task w n = dget (ws_tasks w) n"

definition task_exists :: "workflow_spec \<Rightarrow> string \<Rightarrow> bool" where
  "task_exists w n \<longleftrightarrow> get_task w n \<noteq> None"

definition validate_task_link :: "workflow_spec \<Rightarrow> string \<Rightarrow> bool \<Rightarrow> unit res" where
  "validate_task_link w n allow_engine_cmds =
     guard_res (task_exists w n \<or> (allow_engine_cmds \<and> n \<in> set ENGINE_COMMANDS))
       (InvalidModelException (''Task '' @ squote n @ '' not found.''))"

definition wf_spec_ok :: "workflow_spec \<Rightarrow> bool" where
  "wf_spec_ok w \<longleftrightarrow> dict_ok (ws_tasks w) \<and> list_all (\<lambda>p. ts_name (snd p) = fst p) (ws_tasks w)"

section \<open>Transition clauses with defaults\<close>

definition remove_task_from_clause :: "on_item list \<Rightarrow> string \<Rightarrow> on_item list" where
  "remove_task_from_clause clause n = filter (\<lambda>t. fst t \<noteq> n) clause"

text \<open>
  The common body of the four getters: the task's own clause if it has a next task, else the
  clause of the task defaults without the task itself.
\<close>

definition clause_with_defaults ::
  "(task_spec \<Rightarrow> on_clause_spec option) \<Rightarrow> (task_defaults_spec \<Rightarrow> on_clause_spec option) \<Rightarrow>
   workflow_spec \<Rightarrow> string \<Rightarrow> on_item list res" where
  "clause_with_defaults own dflt w n =
     (case get_task w n of
        None \<Rightarrow> Inl AttributeError
      | Some t \<Rightarrow>
          (let result = (case own t of None \<Rightarrow> [] | Some oc \<Rightarrow> oc_next oc)
           in Inr (if result \<noteq> [] then result
                   else (case ws_task_defaults w of
                           None \<Rightarrow> []
                         | Some td \<Rightarrow> (case dflt td of
                               None \<Rightarrow> []
                             | Some oc \<Rightarrow> remove_task_from_clause (oc_next oc) n)))))"

definition get_on_error_clause :: "workflow_spec \<Rightarrow> string \<Rightarrow> on_item list res" where
  "get_on_error_clause = clause_with_defaults ts_on_error td_on_error"

definition get_on_skip_clause :: "workflow_spec \<Rightarrow> string \<Rightarrow> on_item list res" where
  "get_on_skip_clause = clause_with_defaults ts_on_skip td_on_skip"

definition get_on_success_clause :: "workflow_spec \<Rightarrow> string \<Rightarrow> on_item list res" where
  "get_on_success_clause = clause_with_defaults ts_on_success td_on_success"

definition get_on_complete_clause :: "workflow_spec \<Rightarrow> string \<Rightarrow> on_item list res" where
  "get_on_complete_clause = clause_with_defaults ts_on_complete td_on_complete"

section \<open>Inbound and outbound tasks\<close>

definition find_outbound_task_names :: "workflow_spec \<Rightarrow> string \<Rightarrow> string list res" where
  "find_outbound_task_names w n =
     bind_res (get_on_error_clause w n) (\<lambda>a.
     bind_res (get_on_success_clause w n) (\<lambda>b.
     bind_res (get_on_complete_clause w n) (\<lambda>c.
     bind_res (get_on_skip_clause w n) (\<lambda>d.
       Inr (remdups (map fst (a @ b @ c @ d)))))))"

definition transition_exists :: "workflow_spec \<Rightarrow> string \<Rightarrow> string \<Rightarrow> bool res" where
  "transition_exists w a b = bind_res (find_outbound_task_names w a) (\<lambda>ns. Inr (b \<in> set ns))"

text \<open>A list comprehension whose condition may raise.\<close>

fun filter_res :: "('a \<Rightarrow> bool res) \<Rightarrow> 'a list \<Rightarrow> 'a list res" where
  "filter_res P [] = Inr []"
| "filter_res P (x # xs) =
     bind_res (P x) (\<lambda>b. bind_res (filter_res P xs) (\<lambda>ys. Inr (if b then x # ys else ys)))"

record spec_cache =
  inbound_tasks_cache :: "task_spec list dict"
  outbound_tasks_cache :: "task_spec list dict"

definition empty_cache :: spec_cache where
  "empty_cache = \<lparr>inbound_tasks_cache = [], outbound_tasks_cache = []\<rparr>"

definition find_inbound_task_specs_cached ::
  "workflow_spec \<Rightarrow> spec_cache \<Rightarrow> task_spec \<Rightarrow> task_spec list res \<times> spec_cache" where
  "find_inbound_task_specs_cached w c t =
     (case dget (inbound_tasks_cache c) (ts_name t) of
        Some specs \<Rightarrow> (Inr specs, c)
      | None \<Rightarrow>
          (case filter_res (\<lambda>s. transition_exists w (ts_name s) (ts_name t)) (get_tasks w) of
             Inl x \<Rightarrow> (Inl x, c)
           | Inr specs \<Rightarrow> (Inr specs, c\<lparr>inbound_tasks_cache := dset (ts_name t) specs (inbound_tasks_cache c)\<rparr>)))"

definition find_outbound_task_specs_cached ::
  "workflow_spec \<Rightarrow> spec_cache \<Rightarrow> task_spec \<Rightarrow> task_spec list res \<times> spec_cache" where
  "find_outbound_task_specs_cached w c t =
     (case dget (outbound_tasks_cache c) (ts_name t) of
        Some specs \<Rightarrow> (Inr specs, c)
      | None \<Rightarrow>
          (case filter_res (\<lambda>s. transition_exists w (ts_name t) (ts_name s)) (get_tasks w) of
             Inl x \<Rightarrow> (Inl x, c)
           | Inr specs \<Rightarrow> (Inr specs, c\<lparr>outbound_tasks_cache := dset (ts_name t) specs (outbound_tasks_cache c)\<rparr>)))"

text \<open>The results without the caches, which the rest of the model uses (the caches are transparent).\<close>

definition find_inbound_task_specs :: "workflow_spec \<Rightarrow> task_spec \<Rightarrow> task_spec list res" where
  "find_inbound_task_specs w t = fst (find_inbound_task_specs_cached w empty_cache t)"

definition find_outbound_task_specs :: "workflow_spec \<Rightarrow> task_spec \<Rightarrow> task_spec list res" where
  "find_outbound_task_specs w t = fst (find_outbound_task_specs_cached w empty_cache t)"

definition has_inbound_transitions :: "workflow_spec \<Rightarrow> task_spec \<Rightarrow> bool res" where
  "has_inbound_transitions w t = bind_res (find_inbound_task_specs w t) (\<lambda>s. Inr (length s > 0))"

definition has_outbound_transitions :: "workflow_spec \<Rightarrow> task_spec \<Rightarrow> bool res" where
  "has_outbound_transitions w t = bind_res (find_outbound_task_specs w t) (\<lambda>s. Inr (length s > 0))"

definition find_start_tasks :: "workflow_spec \<Rightarrow> task_spec list res" where
  "find_start_tasks w = filter_res (\<lambda>t. bind_res (has_inbound_transitions w t) (\<lambda>b. Inr (\<not> b))) (get_tasks w)"

section \<open>Validation of direct workflows\<close>

definition check_workflow_integrity :: "workflow_spec \<Rightarrow> unit res" where
  "check_workflow_integrity w =
     bind_res (map_res (\<lambda>t. bind_res (find_outbound_task_names w (ts_name t))
        (\<lambda>ns. map_res (\<lambda>n. validate_task_link w n True) ns)) (get_tasks w)) (\<lambda>_. Inr ())"

definition join_str_val :: "join_val \<Rightarrow> string" where
  "join_str_val j = (case j of JoinAll \<Rightarrow> ''all'' | JoinOne \<Rightarrow> ''one'' | JoinNum n \<Rightarrow> str_int n)"

text \<open>The error messages one join task contributes, from the number of its inbound tasks.\<close>

definition join_errors :: "join_val \<Rightarrow> string \<Rightarrow> nat \<Rightarrow> string list" where
  "join_errors j name n =
     (case j of
        JoinAll \<Rightarrow> (if n = 0 then [''No inbound tasks for task with 'join: all' [task_name='' @ name @ '']''] else [])
      | _ \<Rightarrow> (let k = (case j of JoinOne \<Rightarrow> 1 | JoinNum m \<Rightarrow> m | JoinAll \<Rightarrow> 0)
             in if int n < k then [''Not enough inbound tasks for task with 'join' [task_name='' @ name @ '', join='' @
                   str_int k @ '', inbound_tasks='' @ str_int (int n) @ '']''] else []))"

definition check_join_tasks :: "workflow_spec \<Rightarrow> unit res" where
  "check_join_tasks w =
     bind_res (map_res (\<lambda>t. bind_res (find_inbound_task_specs w t)
        (\<lambda>ins. Inr (join_errors (the (ts_join t)) (ts_name t) (length ins)))) (filter has_join (get_tasks w)))
       (\<lambda>msgs. guard_res (concat msgs = []) (InvalidModelException (join_str [CHR 0x0A] (concat msgs))))"

definition direct_validate_semantics :: "(string \<Rightarrow> bool) \<Rightarrow> workflow_spec \<Rightarrow> unit res" where
  "direct_validate_semantics is_uuid_like w =
     bind_res (guard_res (\<not> is_uuid_like (ws_name w)) (InvalidModelException ''Workflow name cannot be in the format of UUID.'')) (\<lambda>_.
     bind_res (find_start_tasks w) (\<lambda>starts.
     bind_res (guard_res (starts \<noteq> []) (DSLParsingException (''Failed to find start tasks in direct workflow. There must be at least one task without inbound transition.[workflow_name='' @ ws_name w @ '']''))) (\<lambda>_.
     bind_res (check_workflow_integrity w) (\<lambda>_. check_join_tasks w))))"

section \<open>Reverse workflows\<close>

definition get_task_requires :: "workflow_spec \<Rightarrow> task_spec \<Rightarrow> string list" where
  "get_task_requires w t =
     filter (\<lambda>n. n \<noteq> ts_name t)
       (remdups (ts_requires t @ (case ws_task_defaults w of None \<Rightarrow> [] | Some d \<Rightarrow> td_requires d)))"

definition reverse_validate_semantics :: "(string \<Rightarrow> bool) \<Rightarrow> workflow_spec \<Rightarrow> unit res" where
  "reverse_validate_semantics is_uuid_like w =
     bind_res (guard_res (\<not> is_uuid_like (ws_name w)) (InvalidModelException ''Workflow name cannot be in the format of UUID.'')) (\<lambda>_.
     bind_res (map_res (\<lambda>t. map_res (\<lambda>n. validate_task_link w n False) (get_task_requires w t)) (get_tasks w)) (\<lambda>_. Inr ()))"

section \<open>Lemmas\<close>

lemma in_tasks_get_task: "wf_spec_ok w \<Longrightarrow> t \<in> set (get_tasks w) \<Longrightarrow> get_task w (ts_name t) = Some t"
  by (auto simp: wf_spec_ok_def get_tasks_def get_task_def dict_ok_def list_all_iff)

lemma get_task_Some: "wf_spec_ok w \<Longrightarrow> get_task w n = Some t \<Longrightarrow> t \<in> set (get_tasks w) \<and> ts_name t = n"
  by (force simp: wf_spec_ok_def get_tasks_def get_task_def list_all_iff dest: map_of_SomeD)

lemma distinct_names: "wf_spec_ok w \<Longrightarrow> distinct (map ts_name (get_tasks w))"
proof -
  assume ok: "wf_spec_ok w"
  then have "map ts_name (get_tasks w) = dkeys (ws_tasks w)"
    by (simp add: wf_spec_ok_def get_tasks_def list_all_iff)
  with ok show ?thesis by (simp add: wf_spec_ok_def dict_ok_def)
qed

lemma clause_with_defaults_known: "get_task w n = Some t \<Longrightarrow> \<exists>c. clause_with_defaults own dflt w n = Inr c"
  by (simp add: clause_with_defaults_def Let_def)

lemma clause_with_defaults_unknown: "get_task w n = None \<Longrightarrow> clause_with_defaults own dflt w n = Inl AttributeError"
  by (simp add: clause_with_defaults_def)

lemmas clause_getters = get_on_error_clause_def get_on_success_clause_def get_on_complete_clause_def get_on_skip_clause_def

text \<open>The outbound names of a known task, as a function.\<close>

definition outbound :: "workflow_spec \<Rightarrow> string \<Rightarrow> string list" where
  "outbound w n = (case find_outbound_task_names w n of Inr ns \<Rightarrow> ns | Inl _ \<Rightarrow> [])"

definition inbound :: "workflow_spec \<Rightarrow> task_spec \<Rightarrow> task_spec list" where
  "inbound w t = filter (\<lambda>s. ts_name t \<in> set (outbound w (ts_name s))) (get_tasks w)"

lemma find_outbound_known: "get_task w n = Some t \<Longrightarrow> find_outbound_task_names w n = Inr (outbound w n)"
proof -
  assume t: "get_task w n = Some t"
  obtain a b c d where "get_on_error_clause w n = Inr a" "get_on_success_clause w n = Inr b"
    "get_on_complete_clause w n = Inr c" "get_on_skip_clause w n = Inr d"
    using clause_with_defaults_known [OF t] unfolding clause_getters by metis
  then show ?thesis by (simp add: outbound_def find_outbound_task_names_def)
qed

lemma find_outbound_unknown: "get_task w n = None \<Longrightarrow> find_outbound_task_names w n = Inl AttributeError"
  by (simp add: find_outbound_task_names_def get_on_error_clause_def clause_with_defaults_unknown)

lemma filter_res_subset: "filter_res P xs = Inr ys \<Longrightarrow> set ys \<subseteq> set xs"
  by (induction xs arbitrary: ys) (auto simp: bind_res_eq_Inr split: if_splits)

lemma filter_res_total: "(\<And>x. x \<in> set xs \<Longrightarrow> P x = Inr (Q x)) \<Longrightarrow> filter_res P xs = Inr (filter Q xs)"
  by (induction xs) auto

lemma transition_exists_known:
  "wf_spec_ok w \<Longrightarrow> s \<in> set (get_tasks w) \<Longrightarrow> transition_exists w (ts_name s) n = Inr (n \<in> set (outbound w (ts_name s)))"
  by (simp add: transition_exists_def find_outbound_known [OF in_tasks_get_task])

lemma find_inbound_ok [simp]: "wf_spec_ok w \<Longrightarrow> find_inbound_task_specs w t = Inr (inbound w t)"
proof -
  assume ok: "wf_spec_ok w"
  have "filter_res (\<lambda>s. transition_exists w (ts_name s) (ts_name t)) (get_tasks w) = Inr (inbound w t)"
    unfolding inbound_def by (rule filter_res_total) (simp add: transition_exists_known [OF ok])
  then show ?thesis by (simp add: find_inbound_task_specs_def find_inbound_task_specs_cached_def empty_cache_def)
qed

lemma find_start_ok:
  "wf_spec_ok w \<Longrightarrow> find_start_tasks w = Inr (filter (\<lambda>t. inbound w t = []) (get_tasks w))"
  unfolding find_start_tasks_def by (rule filter_res_total) (simp add: has_inbound_transitions_def)

lemma inbound_set: "s \<in> set (inbound w t) \<longleftrightarrow> s \<in> set (get_tasks w) \<and> ts_name t \<in> set (outbound w (ts_name s))"
  by (auto simp: inbound_def)

section \<open>What validation accepts\<close>

definition clause_targets :: "on_clause_spec option \<Rightarrow> string list" where
  "clause_targets oc = (case oc of None \<Rightarrow> [] | Some c \<Rightarrow> map fst (oc_next c))"

text \<open>The four clauses of a task, each with the one of the task defaults.\<close>

definition clauses_of :: "workflow_spec \<Rightarrow> task_spec \<Rightarrow> (on_clause_spec option \<times> on_clause_spec option) list" where
  "clauses_of w s =
     (let dflt = (\<lambda>f. case ws_task_defaults w of None \<Rightarrow> None | Some td \<Rightarrow> f td)
      in [(ts_on_error s, dflt td_on_error), (ts_on_success s, dflt td_on_success), (ts_on_complete s, dflt td_on_complete),
          (ts_on_skip s, dflt td_on_skip)])"

text \<open>
  A task can be followed by \<open>n\<close>: one of its clauses names it, or one of its clauses names nothing and that of the task defaults
  names \<open>n\<close>, which is another task.
\<close>

definition leads_to :: "workflow_spec \<Rightarrow> task_spec \<Rightarrow> string \<Rightarrow> bool" where
  "leads_to w s n \<longleftrightarrow>
     list_ex (\<lambda>(own, dflt). n \<in> set (clause_targets own) \<or> clause_targets own = [] \<and> n \<noteq> ts_name s \<and> n \<in> set (clause_targets dflt))
       (clauses_of w s)"

definition enough_inbound :: "workflow_spec \<Rightarrow> task_spec \<Rightarrow> bool" where
  "enough_inbound w t \<longleftrightarrow>
     (let k = length (filter (\<lambda>s. leads_to w s (ts_name t)) (get_tasks w))
      in case ts_join t of None \<Rightarrow> True | Some JoinAll \<Rightarrow> k \<ge> 1 | Some JoinOne \<Rightarrow> k \<ge> 1 | Some (JoinNum m) \<Rightarrow> int k \<ge> m)"

lemma clause_leads:
  assumes "get_task w n = Some t" "ts_name t = n" "clause_with_defaults own dflt w n = Inr c"
  shows "m \<in> fst ` set c \<longleftrightarrow> m \<in> set (clause_targets (own t)) \<or>
    clause_targets (own t) = [] \<and> m \<noteq> n \<and> m \<in> set (clause_targets (case ws_task_defaults w of None \<Rightarrow> None | Some td \<Rightarrow> dflt td))"
proof -
  have "c = (case own t of None \<Rightarrow> [] | Some oc \<Rightarrow> oc_next oc) \<and> c \<noteq> [] \<or>
    (case own t of None \<Rightarrow> [] | Some oc \<Rightarrow> oc_next oc) = [] \<and>
    c = (case ws_task_defaults w of None \<Rightarrow> [] | Some td \<Rightarrow> (case dflt td of None \<Rightarrow> [] | Some oc \<Rightarrow> remove_task_from_clause (oc_next oc) n))"
    using assms(1,3) by (simp add: clause_with_defaults_def Let_def split: if_splits)
  then show ?thesis by (force simp: clause_targets_def remove_task_from_clause_def split: option.splits)
qed

lemma outbound_leads:
  assumes "wf_spec_ok w" "s \<in> set (get_tasks w)"
  shows "m \<in> set (outbound w (ts_name s)) \<longleftrightarrow> leads_to w s m"
proof -
  note t = in_tasks_get_task [OF assms]
  obtain a b c d where
    "get_on_error_clause w (ts_name s) = Inr a" "get_on_success_clause w (ts_name s) = Inr b"
    "get_on_complete_clause w (ts_name s) = Inr c" "get_on_skip_clause w (ts_name s) = Inr d"
    using clause_with_defaults_known [OF t] unfolding clause_getters by metis
  note getters = this
  have leads: "leads_to w s m \<longleftrightarrow> m \<in> fst ` set a \<or> m \<in> fst ` set b \<or> m \<in> fst ` set c \<or> m \<in> fst ` set d"
    unfolding clause_leads [OF t refl getters(1) [unfolded clause_getters]] clause_leads [OF t refl getters(2) [unfolded clause_getters]]
      clause_leads [OF t refl getters(3) [unfolded clause_getters]] clause_leads [OF t refl getters(4) [unfolded clause_getters]]
      leads_to_def clauses_of_def Let_def by simp
  from getters have "find_outbound_task_names w (ts_name s) = Inr (remdups (map fst (a @ b @ c @ d)))"
    by (simp add: find_outbound_task_names_def)
  then show ?thesis unfolding leads by (simp add: outbound_def image_Un Un_iff)
qed

lemma inbound_leads: "wf_spec_ok w \<Longrightarrow> inbound w t = filter (\<lambda>s. leads_to w s (ts_name t)) (get_tasks w)"
  unfolding inbound_def by (rule filter_cong) (simp_all add: outbound_leads)

lemma map_res_units: "(\<exists>ys. map_res f xs = Inr ys) \<longleftrightarrow> (\<forall>x \<in> set xs. \<exists>y. f x = Inr y)"
  by (induction xs) (auto split: sum.splits)

lemma links_checked:
  assumes "wf_spec_ok w"
  shows "check_workflow_integrity w = Inr () \<longleftrightarrow>
    (\<forall>t \<in> set (get_tasks w). \<forall>n. leads_to w t n \<longrightarrow> task_exists w n \<or> n \<in> set ENGINE_COMMANDS)"
proof -
  let ?f = "\<lambda>t. bind_res (find_outbound_task_names w (ts_name t)) (\<lambda>ns. map_res (\<lambda>n. validate_task_link w n True) ns)"
  have "check_workflow_integrity w = Inr () \<longleftrightarrow> (\<exists>ys. map_res ?f (get_tasks w) = Inr ys)"
    by (auto simp: check_workflow_integrity_def res_simps)
  also have "\<dots> \<longleftrightarrow> (\<forall>t \<in> set (get_tasks w). \<exists>y. ?f t = Inr y)" by (rule map_res_units)
  also have "\<dots> \<longleftrightarrow> (\<forall>t \<in> set (get_tasks w). \<forall>n \<in> set (outbound w (ts_name t)). \<exists>y. validate_task_link w n True = Inr y)"
    by (rule ball_cong [OF refl]) (simp add: find_outbound_known [OF in_tasks_get_task [OF assms]] map_res_units)
  also have "\<dots> \<longleftrightarrow> (\<forall>t \<in> set (get_tasks w). \<forall>n. leads_to w t n \<longrightarrow> task_exists w n \<or> n \<in> set ENGINE_COMMANDS)"
    unfolding Ball_def by (simp add: outbound_leads [OF assms] validate_task_link_def guard_res_def) blast
  finally show ?thesis .
qed

lemma joins_checked:
  assumes "wf_spec_ok w"
  shows "check_join_tasks w = Inr () \<longleftrightarrow> (\<forall>t \<in> set (get_tasks w). enough_inbound w t)"
proof -
  have "map_res (\<lambda>t. bind_res (find_inbound_task_specs w t)
      (\<lambda>ins. Inr (join_errors (the (ts_join t)) (ts_name t) (length ins)))) (filter has_join (get_tasks w)) =
      Inr (map (\<lambda>t. join_errors (the (ts_join t)) (ts_name t) (length (inbound w t))) (filter has_join (get_tasks w)))"
    by (rule map_res_total) (simp add: assms)
  then have "check_join_tasks w = Inr () \<longleftrightarrow>
      (\<forall>t \<in> set (get_tasks w). has_join t \<longrightarrow> join_errors (the (ts_join t)) (ts_name t) (length (inbound w t)) = [])"
    by (auto simp: check_join_tasks_def guard_res_def)
  also have "\<dots> \<longleftrightarrow> (\<forall>t \<in> set (get_tasks w). enough_inbound w t)"
  proof (rule ball_cong [OF refl])
    fix t
    show "(has_join t \<longrightarrow> join_errors (the (ts_join t)) (ts_name t) (length (inbound w t)) = []) \<longleftrightarrow> enough_inbound w t"
      unfolding inbound_leads [OF assms] enough_inbound_def Let_def
      by (cases "ts_join t"; cases "the (ts_join t)") (auto simp: has_join_def join_errors_def Suc_le_eq split: if_splits)
  qed
  finally show ?thesis .
qed

text \<open>
  C32. What validation accepts, stated over the clauses as they are written: the name of a direct workflow is no identifier, no task
  leads to one of its tasks, every name that a task can be followed by is a task or an engine command, and every join has as
  many tasks that lead to it as it asks for (at least one for \<^verbatim>\<open>all\<close> and \<^verbatim>\<open>one\<close>); and nothing else is accepted.
\<close>

theorem validated_workflow_sound:
  assumes "wf_spec_ok w"
  shows "direct_validate_semantics is_uuid_like w = Inr () \<longleftrightarrow>
    \<not> is_uuid_like (ws_name w) \<and>
    (\<exists>t \<in> set (get_tasks w). \<forall>s \<in> set (get_tasks w). \<not> leads_to w s (ts_name t)) \<and>
    (\<forall>t \<in> set (get_tasks w). \<forall>n. leads_to w t n \<longrightarrow> task_exists w n \<or> n \<in> set ENGINE_COMMANDS) \<and>
    (\<forall>t \<in> set (get_tasks w). enough_inbound w t)"
proof -
  have "filter (\<lambda>t. inbound w t = []) (get_tasks w) \<noteq> [] \<longleftrightarrow>
      (\<exists>t \<in> set (get_tasks w). \<forall>s \<in> set (get_tasks w). \<not> leads_to w s (ts_name t))"
    by (auto simp: filter_empty_conv inbound_leads [OF assms])
  moreover have "direct_validate_semantics is_uuid_like w = Inr () \<longleftrightarrow>
      \<not> is_uuid_like (ws_name w) \<and> filter (\<lambda>t. inbound w t = []) (get_tasks w) \<noteq> [] \<and> check_workflow_integrity w = Inr () \<and>
      check_join_tasks w = Inr ()"
    by (auto simp: direct_validate_semantics_def res_simps find_start_ok [OF assms] guard_res_def)
  ultimately show ?thesis by (simp add: links_checked [OF assms] joins_checked [OF assms])
qed

definition mk_wf :: "task_spec list \<Rightarrow> workflow_spec" where
  "mk_wf ts = \<lparr>ws_name = ''wf'', ws_type = Direct, ws_input = [], ws_output = [], ws_output_on_error = [],
     ws_vars = [], ws_task_defaults = None, ws_tasks = map (\<lambda>t. (ts_name t, t)) ts\<rparr>"

definition simple_clause :: "string list \<Rightarrow> on_clause_spec option" where
  "simple_clause ns = Some \<lparr>oc_publish = None, oc_next = map (\<lambda>n. (n, VStr [], [])) ns\<rparr>"

text \<open>Two tasks in a row, the second a join, and a run of the validation on it.\<close>

definition chain_wf :: workflow_spec where
  "chain_wf = mk_wf [(mk_task ''a'')\<lparr>ts_on_success := simple_clause [''b'']\<rparr>, (mk_task ''b'')\<lparr>ts_join := Some JoinAll\<rparr>]"

lemma chain_wf_ok: "wf_spec_ok chain_wf"
  by (simp add: chain_wf_def mk_wf_def mk_task_def wf_spec_ok_def dict_ok_def)

lemma chain_wf_valid: "direct_validate_semantics (\<lambda>_. False) chain_wf = Inr ()"
  by code_simp

theorem validated_workflow_sound_witness:
  "direct_validate_semantics (\<lambda>n. n = ''1'') chain_wf = Inr () \<and>
   direct_validate_semantics (\<lambda>n. n = ''wf'') chain_wf \<noteq> Inr () \<and>
   enough_inbound chain_wf ((mk_task ''b'')\<lparr>ts_join := Some JoinAll\<rparr>)"
proof (intro conjI)
  have "direct_validate_semantics (\<lambda>n. n = ''1'') chain_wf = Inr ()" by code_simp
  moreover from this have "enough_inbound chain_wf ((mk_task ''b'')\<lparr>ts_join := Some JoinAll\<rparr>)"
    unfolding validated_workflow_sound [OF chain_wf_ok] by (simp add: chain_wf_def mk_wf_def get_tasks_def)
  ultimately show "direct_validate_semantics (\<lambda>n. n = ''1'') chain_wf = Inr ()" "enough_inbound chain_wf ((mk_task ''b'')\<lparr>ts_join := Some JoinAll\<rparr>)"
    by blast+
  show "direct_validate_semantics (\<lambda>n. n = ''wf'') chain_wf \<noteq> Inr ()"
    unfolding validated_workflow_sound [OF chain_wf_ok] by (simp add: chain_wf_def mk_wf_def)
qed

section \<open>The caches are transparent\<close>

definition cache_ok :: "workflow_spec \<Rightarrow> spec_cache \<Rightarrow> bool" where
  "cache_ok w c \<longleftrightarrow>
     (\<forall>t specs. dget (inbound_tasks_cache c) (ts_name t) = Some specs \<longrightarrow> find_inbound_task_specs w t = Inr specs) \<and>
     (\<forall>t specs. dget (outbound_tasks_cache c) (ts_name t) = Some specs \<longrightarrow> find_outbound_task_specs w t = Inr specs)"

lemma cache_ok_empty: "cache_ok w empty_cache"
  by (simp add: cache_ok_def empty_cache_def)

lemma find_inbound_unfold:
  "find_inbound_task_specs w t = filter_res (\<lambda>s. transition_exists w (ts_name s) (ts_name t)) (get_tasks w)"
  by (simp add: find_inbound_task_specs_def find_inbound_task_specs_cached_def empty_cache_def split: sum.split)

lemma find_outbound_unfold:
  "find_outbound_task_specs w t = filter_res (\<lambda>s. transition_exists w (ts_name t) (ts_name s)) (get_tasks w)"
  by (simp add: find_outbound_task_specs_def find_outbound_task_specs_cached_def empty_cache_def split: sum.split)

text \<open>
  The caches of inbound and outbound tasks are transparent: from the empty caches on, every
  answer is the one a computation without a cache gives, and the caches stay correct.
\<close>

theorem spec_caches_transparent:
  assumes "cache_ok w c"
  shows "fst (find_inbound_task_specs_cached w c t) = find_inbound_task_specs w t \<and>
         cache_ok w (snd (find_inbound_task_specs_cached w c t)) \<and>
         fst (find_outbound_task_specs_cached w c t) = find_outbound_task_specs w t \<and>
         cache_ok w (snd (find_outbound_task_specs_cached w c t))"
proof (intro conjI)
  show "fst (find_inbound_task_specs_cached w c t) = find_inbound_task_specs w t"
    using assms by (auto simp: cache_ok_def find_inbound_task_specs_cached_def find_inbound_unfold split: option.split sum.split)
  show "fst (find_outbound_task_specs_cached w c t) = find_outbound_task_specs w t"
    using assms by (auto simp: cache_ok_def find_outbound_task_specs_cached_def find_outbound_unfold split: option.split sum.split)
  show "cache_ok w (snd (find_inbound_task_specs_cached w c t))"
    using assms by (auto simp: cache_ok_def find_inbound_task_specs_cached_def find_inbound_unfold split: option.split sum.split)
  show "cache_ok w (snd (find_outbound_task_specs_cached w c t))"
    using assms by (auto simp: cache_ok_def find_outbound_task_specs_cached_def find_outbound_unfold split: option.split sum.split)
qed

theorem spec_caches_transparent_witness:
  "fst (find_inbound_task_specs_cached chain_wf empty_cache (mk_task ''b'')) = find_inbound_task_specs chain_wf (mk_task ''b'') \<and>
   cache_ok chain_wf (snd (find_inbound_task_specs_cached chain_wf empty_cache (mk_task ''b''))) \<and>
   fst (find_outbound_task_specs_cached chain_wf empty_cache (mk_task ''b'')) = find_outbound_task_specs chain_wf (mk_task ''b'') \<and>
   cache_ok chain_wf (snd (find_outbound_task_specs_cached chain_wf empty_cache (mk_task ''b'')))"
  by (rule spec_caches_transparent [OF cache_ok_empty])

lemma remove_task_from_clause_self: "n \<notin> set (map fst (remove_task_from_clause c n))"
  by (auto simp: remove_task_from_clause_def)

end
