(* ===== verification/Executions.thy ===== *)
theory Executions
  imports Lang_Workflow
begin

text \<open>
  The execution objects of \<^verbatim>\<open>mistral/db/v2/sqlalchemy/models.py\<close> with the columns the engine uses,
  the specification of a command saved in a backlog, and the view of an action execution or a
  sub-workflow execution as a child of a task (\<^verbatim>\<open>TaskExecution.executions\<close>).

  A row has the field \<open>te_db_state\<close> or \<open>we_db_state\<close> beside the state that the session object
  holds: the state column in the database, which a concurrent transaction may have changed since
  the object was loaded. Times are seconds. Columns of JSON type are \<open>val dict\<close>; None is a column
  that is not set.
\<close>

text \<open>An element of \<^verbatim>\<open>triggered_by\<close>: the dictionary with the keys \<^verbatim>\<open>task_id\<close> and \<^verbatim>\<open>event\<close>.\<close>

record trigger =
  tr_task_id :: string
  tr_event :: "string option"

text \<open>What \<^verbatim>\<open>to_dict\<close> of a workflow command writes: a key that is absent is None.\<close>

record cmd_dict =
  cd_task_name :: string
  cd_ctx :: "val dict"
  cd_triggered_by :: "trigger list option"
  cd_cmd_name :: string
  cd_new_state :: "state option"
  cd_msg :: "val option"
  cd_wait :: "bool option"
  cd_unique_key :: "string option option"
  cd_task_ex_id :: "string option"
  cd_reset :: "bool option"

record task_ex =
  te_id :: string
  te_name :: string
  te_wf_id :: string
  te_spec :: task_spec
  te_state :: state
  te_db_state :: state
  te_state_info :: "string option"
  te_unique_key :: "string option"
  te_in_context :: "val dict"
  te_published :: "val dict option"
  te_rt :: "val dict"
  te_triggered_by :: "trigger list option"
  te_processed :: bool
  te_has_next :: "bool option"
  te_next_tasks :: "(string \<times> string option) list option"
  te_error_handled :: "bool option"
  te_started_at :: "int option"
  te_finished_at :: "int option"
  te_updated_at :: int

record action_ex =
  ae_id :: string
  ae_name :: string
  ae_namespace :: string
  ae_task_id :: "string option"
  ae_state :: state
  ae_accepted :: bool
  ae_input :: "val dict"
  ae_output :: "val dict option"
  ae_rt :: "val dict"
  ae_is_sync :: bool
  ae_last_heartbeat :: "int option"
  ae_updated_at :: int

record wf_ex =
  we_id :: string
  we_name :: string
  we_namespace :: string
  we_spec :: workflow_spec
  we_state :: state
  we_db_state :: state
  we_state_info :: "string option"
  we_task_id :: "string option"
  we_root_id :: "string option"
  we_params :: "val dict"
  we_input :: "val dict"
  we_output :: "val dict option"
  we_context :: "val dict"
  we_rt :: "val dict"
  we_backlog :: "cmd_dict list option"
  we_accepted :: bool
  we_updated_at :: int

text \<open>A child execution of a task: \<open>ce_is_wf\<close> tells which table it is in.\<close>

record child_ex =
  ce_is_wf :: bool
  ce_id :: string
  ce_state :: state
  ce_accepted :: bool
  ce_output :: "val dict option"
  ce_rt :: "val dict"
  ce_updated_at :: int

definition child_of_action :: "action_ex \<Rightarrow> child_ex" where
  "child_of_action a = \<lparr>ce_is_wf = False, ce_id = ae_id a, ce_state = ae_state a, ce_accepted = ae_accepted a,
     ce_output = ae_output a, ce_rt = ae_rt a, ce_updated_at = ae_updated_at a\<rparr>"

definition child_of_wf :: "wf_ex \<Rightarrow> child_ex" where
  "child_of_wf w = \<lparr>ce_is_wf = True, ce_id = we_id w, ce_state = we_state w, ce_accepted = we_accepted w,
     ce_output = we_output w, ce_rt = we_rt w, ce_updated_at = we_updated_at w\<rparr>"

text \<open>A fresh row of each table, used to build concrete states.\<close>

definition mk_task_ex :: "string \<Rightarrow> string \<Rightarrow> task_spec \<Rightarrow> state \<Rightarrow> task_ex" where
  "mk_task_ex i wid t s = \<lparr>te_id = i, te_name = ts_name t, te_wf_id = wid, te_spec = t, te_state = s, te_db_state = s,
     te_state_info = None, te_unique_key = None, te_in_context = [], te_published = Some [], te_rt = [],
     te_triggered_by = None, te_processed = False, te_has_next = Some False, te_next_tasks = None,
     te_error_handled = Some False, te_started_at = None, te_finished_at = None, te_updated_at = 0\<rparr>"

definition mk_wf_ex :: "string \<Rightarrow> workflow_spec \<Rightarrow> state \<Rightarrow> wf_ex" where
  "mk_wf_ex i w s = \<lparr>we_id = i, we_name = ws_name w, we_namespace = [], we_spec = w, we_state = s, we_db_state = s,
     we_state_info = None, we_task_id = None, we_root_id = None, we_params = [(''env'', VDict [])], we_input = [],
     we_output = Some [], we_context = [], we_rt = [(''index'', VInt 0)], we_backlog = None, we_accepted = False,
     we_updated_at = 0\<rparr>"

definition mk_action_ex :: "string \<Rightarrow> string \<Rightarrow> state \<Rightarrow> int \<Rightarrow> action_ex" where
  "mk_action_ex i t s n = \<lparr>ae_id = i, ae_name = ''std.noop'', ae_namespace = [], ae_task_id = Some t, ae_state = s,
     ae_accepted = False, ae_input = [], ae_output = None, ae_rt = [(''index'', VInt n), (''safe_rerun'', VBool False)],
     ae_is_sync = True, ae_last_heartbeat = None, ae_updated_at = 0\<rparr>"

definition mk_child :: "string \<Rightarrow> state \<Rightarrow> bool \<Rightarrow> int \<Rightarrow> child_ex" where
  "mk_child i s acc n = \<lparr>ce_is_wf = False, ce_id = i, ce_state = s, ce_accepted = acc, ce_output = None,
     ce_rt = [(''index'', VInt n)], ce_updated_at = 0\<rparr>"

lemmas mk_ex_defs = mk_task_ex_def mk_wf_ex_def mk_action_ex_def mk_child_def

end
