(* ===== verification/Expressions.thy ===== *)
theory Expressions
  imports Py_Values
begin

text \<open>
  \<^verbatim>\<open>mistral/expressions/__init__.py\<close>: choosing the language of an expression, validating it, and
  evaluating the expressions inside a data structure. The evaluators themselves (YAQL, Jinja) are
  parameters, the list \<open>evaluators\<close> of the environment, in the order of their names.
\<close>

definition is_language_allowed :: "env \<Rightarrow> string \<Rightarrow> bool" where
  "is_language_allowed e name \<longleftrightarrow> name \<in> set (allowed_languages e)"

text \<open>\<^verbatim>\<open>validate\<close>: the loop over the evaluators carries the name of the language found so far.\<close>

fun validate_loop :: "env \<Rightarrow> evaluator list \<Rightarrow> string option \<Rightarrow> string \<Rightarrow> unit res" where
  "validate_loop e [] found x = Inr ()"
| "validate_loop e (v # vs) found x =
     (if ev_is_expression v x then
        (if \<not> is_language_allowed e (ev_name v) then
           Inl (ExpressionGrammarException (''The '' @ squote (ev_name v) @
             '' expression language is disabled by the operator.''))
         else (case found of
             Some n \<Rightarrow> Inl (ExpressionGrammarException (''The line already contains an expression of type '' @ squote n @
               ''. Mixing expression types in a single line is not allowed.''))
           | None \<Rightarrow> bind_res (ev_validate v x) (\<lambda>_. validate_loop e vs (Some (ev_name v)) x)))
      else validate_loop e vs found x)"

definition validate :: "env \<Rightarrow> val \<Rightarrow> unit res" where
  "validate e x = (case x of VStr s \<Rightarrow> validate_loop e (evaluators e) None s | _ \<Rightarrow> Inr ())"

fun evaluate_loop :: "env \<Rightarrow> evaluator list \<Rightarrow> string \<Rightarrow> ctx_view \<Rightarrow> val res" where
  "evaluate_loop e [] x c = Inr (VStr x)"
| "evaluate_loop e (v # vs) x c =
     (if ev_is_expression v x then
        (if \<not> is_language_allowed e (ev_name v) then
           Inl (EvaluationException (''The '' @ squote (ev_name v) @
             '' expression language is disabled by the operator.''))
         else ev_evaluate v x c)
      else evaluate_loop e vs x c)"

definition evaluate :: "env \<Rightarrow> val \<Rightarrow> ctx_view \<Rightarrow> val res" where
  "evaluate e x c = (case x of VStr s \<Rightarrow> evaluate_loop e (evaluators e) s c | _ \<Rightarrow> Inr x)"

text \<open>Truth of a context: a dictionary with at least one entry.\<close>

definition ctx_truthy :: "ctx_view \<Rightarrow> bool" where
  "ctx_truthy c \<longleftrightarrow> (\<exists>d \<in> set c. d \<noteq> [])"

definition catch_attribute_error :: "val \<Rightarrow> val res \<Rightarrow> val res" where
  "catch_attribute_error x r = (case r of Inl AttributeError \<Rightarrow> Inr x | _ \<Rightarrow> r)"

lemma map_res_cong [fundef_cong]:
  "xs = ys \<Longrightarrow> (\<And>x. x \<in> set ys \<Longrightarrow> f x = g x) \<Longrightarrow> map_res f xs = map_res g ys"
  by (induction xs arbitrary: ys) (auto split: sum.split)

text \<open>
  \<^verbatim>\<open>_evaluate_item\<close> evaluates a string and falls back to it on \<open>AttributeError\<close>; anything else
  goes through \<^verbatim>\<open>evaluate_recursively\<close>. Both are called with the context of the outer call, which
  is not empty past its first test.
\<close>

fun evaluate_item :: "env \<Rightarrow> ctx_view \<Rightarrow> val \<Rightarrow> val res" where
  "evaluate_item e c (VStr s) = catch_attribute_error (VStr s) (evaluate e (VStr s) c)"
| "evaluate_item e c (VDict d) =
     bind_res (map_res (\<lambda>p. bind_res (evaluate_item e c (snd p)) (\<lambda>v. Inr (fst p, v))) d) (\<lambda>d'. Inr (VDict d'))"
| "evaluate_item e c (VList xs) = bind_res (map_res (evaluate_item e c) xs) (\<lambda>ys. Inr (VList ys))"
| "evaluate_item e c x = Inr x"

definition evaluate_recursively :: "env \<Rightarrow> val \<Rightarrow> ctx_view \<Rightarrow> val res" where
  "evaluate_recursively e x c = (if \<not> ctx_truthy c then Inr x else evaluate_item e c x)"

section \<open>Lemmas\<close>

text \<open>The strings inside a value, and the relation of having the same dictionary keys and list lengths.\<close>

fun val_strings :: "val \<Rightarrow> string list" where
  "val_strings (VStr s) = [s]"
| "val_strings (VList xs) = concat (map val_strings xs)"
| "val_strings (VDict d) = concat (map (\<lambda>p. val_strings (snd p)) d)"
| "val_strings _ = []"

definition is_expression :: "env \<Rightarrow> string \<Rightarrow> bool" where
  "is_expression e s \<longleftrightarrow> (\<exists>v \<in> set (evaluators e). ev_is_expression v s)"

lemma evaluate_loop_literal:
  "\<forall>v \<in> set vs. \<not> ev_is_expression v s \<Longrightarrow> evaluate_loop e vs s c = Inr (VStr s)"
  by (induction vs) auto

lemma evaluate_literal: "\<not> is_expression e s \<Longrightarrow> evaluate e (VStr s) c = Inr (VStr s)"
  by (auto simp: evaluate_def is_expression_def intro: evaluate_loop_literal)

lemma evaluate_loop_disabled:
  "evaluate_loop e vs s c = Inr x \<Longrightarrow> \<exists>v \<in> set vs. ev_is_expression v s \<Longrightarrow>
   \<exists>v \<in> set vs. ev_is_expression v s \<and> ev_name v \<in> set (allowed_languages e)"
  by (induction vs) (auto simp: is_language_allowed_def split: if_splits)

lemma validate_loop_count:
  "validate_loop e vs found s = Inr () \<Longrightarrow>
   length (filter (\<lambda>v. ev_is_expression v s) vs) \<le> (if found = None then 1 else 0) \<and>
   (\<forall>v \<in> set vs. ev_is_expression v s \<longrightarrow> ev_name v \<in> set (allowed_languages e))"
proof (induction vs arbitrary: found)
  case Nil
  then show ?case by simp
next
  case (Cons v vs)
  show ?case
  proof (cases "ev_is_expression v s")
    case True
    with Cons.prems have none: "found = None" and al: "is_language_allowed e (ev_name v)"
      and rest: "validate_loop e vs (Some (ev_name v)) s = Inr ()"
      by (auto simp: res_simps split: if_splits option.splits)
    from Cons.IH [OF rest] none al True show ?thesis by (auto simp: is_language_allowed_def)
  next
    case False
    with Cons.prems have "validate_loop e vs found s = Inr ()" by simp
    from Cons.IH [OF this] False show ?thesis by auto
  qed
qed

lemma evaluate_item_literal:
  "(\<And>s. s \<in> set (val_strings x) \<Longrightarrow> \<not> is_expression e s) \<Longrightarrow> evaluate_item e c x = Inr x"
proof (induction x)
  case (VStr s)
  then show ?case by (simp add: evaluate_literal catch_attribute_error_def)
next
  case (VList xs)
  have "map_res (evaluate_item e c) xs = Inr (map (\<lambda>x. x) xs)"
    using VList by (intro map_res_total) auto
  then show ?case by simp
next
  case (VDict d)
  have "map_res (\<lambda>p. bind_res (evaluate_item e c (snd p)) (\<lambda>v. Inr (fst p, v))) d = Inr (map (\<lambda>p. p) d)"
  proof (rule map_res_total)
    fix p
    assume p: "p \<in> set d"
    have "snd p \<in> Basic_BNFs.snds p" by (simp add: snds.simps)
    with VDict.IH [OF p, of "snd p"] VDict.prems p have "evaluate_item e c (snd p) = Inr (snd p)"
      by auto
    then show "bind_res (evaluate_item e c (snd p)) (\<lambda>v. Inr (fst p, v)) = Inr p" by simp
  qed
  then show ?case by simp
qed auto

text \<open>
  Evaluating a data structure in which no string is an expression of any language returns
  the structure itself, whatever the context and whatever languages are allowed.
\<close>

theorem evaluate_recursively_literal:
  assumes "\<forall>s \<in> set (val_strings x). \<not> is_expression e s"
  shows "evaluate_recursively e x c = Inr x"
  using assms by (simp add: evaluate_recursively_def evaluate_item_literal)

theorem evaluate_recursively_literal_witness:
  "evaluate_recursively plain_env (VDict [(''a'', VStr ''b''), (''c'', VList [VInt 1])]) [[(''k'', VInt 1)]]
   = Inr (VDict [(''a'', VStr ''b''), (''c'', VList [VInt 1])])"
  by (rule evaluate_recursively_literal) (simp add: is_expression_def plain_env_def)

lemma evaluate_item_dict_keys:
  "evaluate_item e c (VDict d) = Inr y \<Longrightarrow> \<exists>d'. y = VDict d' \<and> dkeys d' = dkeys d"
proof -
  assume "evaluate_item e c (VDict d) = Inr y"
  then obtain d' where y: "y = VDict d'"
    and all: "list_all2 (\<lambda>p q. bind_res (evaluate_item e c (snd p)) (\<lambda>v. Inr (fst p, v)) = Inr q) d d'"
    by (auto simp: res_simps map_res_Inr_iff)
  from all have "dkeys d' = dkeys d"
    by (induction rule: list_all2_induct) (auto simp: res_simps)
  with y show ?thesis by blast
qed

text \<open>
  Evaluating a dictionary of expressions keeps its keys and their order: what
  \<^verbatim>\<open>publish\<close>, \<^verbatim>\<open>input\<close>, \<^verbatim>\<open>output\<close> and \<^verbatim>\<open>vars\<close> clauses produce has exactly the declared names.
\<close>

theorem evaluate_recursively_keys:
  assumes "evaluate_recursively e (VDict d) c = Inr y"
  shows "\<exists>d'. y = VDict d' \<and> dkeys d' = dkeys d"
  using assms evaluate_item_dict_keys by (auto simp: evaluate_recursively_def split: if_splits)

theorem evaluate_recursively_keys_witness:
  "\<exists>d'. VDict [(''a'', VStr ''b'')] = VDict d' \<and> dkeys d' = dkeys [(''a'', VStr ''b'')]"
  by (rule evaluate_recursively_keys [where e = plain_env and c = "[]"])
    (simp add: evaluate_recursively_def ctx_truthy_def)

text \<open>
  An expression that passes validation belongs to at most one language, and every language
  it belongs to is allowed by the operator.
\<close>

theorem validate_one_language:
  assumes "validate e (VStr s) = Inr ()"
  shows "length (filter (\<lambda>v. ev_is_expression v s) (evaluators e)) \<le> 1 \<and>
         set (map ev_name (filter (\<lambda>v. ev_is_expression v s) (evaluators e))) \<subseteq> set (allowed_languages e)"
  using assms validate_loop_count [of e "evaluators e" None s] by (auto simp: validate_def)

definition one_lang_env :: env where
  "one_lang_env = plain_env\<lparr>allowed_languages := [''yaql''],
     evaluators := [\<lparr>ev_name = ''yaql'', ev_is_expression = (\<lambda>s. s = ''<%'' ), ev_validate = (\<lambda>_. Inr ()),
       ev_evaluate = (\<lambda>_ _. Inr (VInt 1))\<rparr>]\<rparr>"

theorem validate_one_language_witness:
  "length (filter (\<lambda>v. ev_is_expression v ''<%'') (evaluators one_lang_env)) \<le> 1 \<and>
   set (map ev_name (filter (\<lambda>v. ev_is_expression v ''<%'') (evaluators one_lang_env))) \<subseteq>
     set (allowed_languages one_lang_env)"
  by (rule validate_one_language) (simp add: validate_def one_lang_env_def is_language_allowed_def)

end
