(* ===== verification/Context_Versioning.thy ===== *)
theory Context_Versioning
  imports Py_Values
begin

text \<open>
  \<^verbatim>\<open>mistral/workflow/context_versioning.py\<close>: every published variable carries a version, kept
  under the context key \<^verbatim>\<open>__versions\<close> by the dotted path of the variable (or its MD5 hash), and
  contexts that meet at a join are merged variable by variable, the higher version winning.

  A mutated Python dictionary is the new dictionary the function returns. The versions dictionary
  is read as integers (\<open>versions_of\<close>): only this module writes it, and a value of another type
  there is a TypeError.
\<close>

definition VERSIONS_KEY :: string where
  "VERSIONS_KEY = ''__versions''"

definition clear_versions :: "val dict \<Rightarrow> val dict" where
  "clear_versions ctx = (if dhas ctx VERSIONS_KEY then ddel VERSIONS_KEY ctx else ctx)"

fun int_of_val :: "val \<Rightarrow> int res" where
  "int_of_val (VInt i) = Inr i"
| "int_of_val _ = Inl TypeError"

fun versions_of :: "val \<Rightarrow> int dict res" where
  "versions_of (VDict d) = map_res (\<lambda>p. bind_res (int_of_val (snd p)) (\<lambda>i. Inr (fst p, i))) d"
| "versions_of _ = Inl TypeError"

definition versions_val :: "int dict \<Rightarrow> val" where
  "versions_val vs = VDict (map (\<lambda>p. (fst p, VInt (snd p))) vs)"

text \<open>\<^verbatim>\<open>key if not prefix else prefix + "." + key\<close>.\<close>

definition extend_prefix :: "string \<Rightarrow> string \<Rightarrow> string" where
  "extend_prefix prefix key = (if prefix = [] then key else prefix @ ''.'' @ key)"

definition version_key :: "env \<Rightarrow> string \<Rightarrow> string" where
  "version_key e path = (if hash_version_keys e then md5 e path else path)"

fun get_published_keys_recursively :: "env \<Rightarrow> val dict \<Rightarrow> string \<Rightarrow> string list" where
  "get_published_keys_recursively e [] prefix = []"
| "get_published_keys_recursively e ((k, VDict d) # r) prefix =
     get_published_keys_recursively e d (extend_prefix prefix k) @ get_published_keys_recursively e r prefix"
| "get_published_keys_recursively e ((k, v) # r) prefix =
     version_key e (extend_prefix prefix k) # get_published_keys_recursively e r prefix"

definition get_updated_keys :: "env \<Rightarrow> val dict \<Rightarrow> string list" where
  "get_updated_keys e published = get_published_keys_recursively e published []"

text \<open>\<^verbatim>\<open>setdefault(updated, 0)\<close> and \<^verbatim>\<open>+= 1\<close> for each published key.\<close>

definition bump_version :: "int dict \<Rightarrow> string \<Rightarrow> int dict" where
  "bump_version vs k = dset k (dget_default vs k 0 + 1) vs"

text \<open>
  \<^verbatim>\<open>get_in_context_with_versions\<close> on the two fields of the task execution it reads (None is a
  field that is not set). Without versioning the very dictionary of the task execution comes
  back; with it, a copy.
\<close>

definition get_in_context_with_versions :: "env \<Rightarrow> val dict option \<Rightarrow> val dict option \<Rightarrow> val dict res" where
  "get_in_context_with_versions e in_context published =
     (let ic = (case in_context of None \<Rightarrow> [] | Some d \<Rightarrow> d);
          pub = (case published of None \<Rightarrow> [] | Some d \<Rightarrow> d)
      in if \<not> context_versioning e then Inr ic
         else bind_res (versions_of (dget_default ic VERSIONS_KEY (VDict [])))
                (\<lambda>vs. Inr (dset VERSIONS_KEY
                   (versions_val (fold (\<lambda>k vs. bump_version vs k) (get_updated_keys e pub) vs)) ic)))"

definition get_version :: "string \<Rightarrow> int dict \<Rightarrow> int" where
  "get_version key versions = dget_default versions key 0"

text \<open>
  \<^verbatim>\<open>_merge_ctx\<close>: the loop over the items of the right context, which changes the left one (and
  the dictionaries inside it) in place.
\<close>

fun merge_ctx :: "env \<Rightarrow> val dict \<Rightarrow> int dict \<Rightarrow> val dict \<Rightarrow> int dict \<Rightarrow> string \<Rightarrow> val dict" where
  "merge_ctx e l vl [] vr prefix = l"
| "merge_ctx e l vl ((k, v) # r) vr prefix =
     (case dget l k of
        None \<Rightarrow> merge_ctx e (dset k v l) vl r vr prefix
      | Some (VDict ld) \<Rightarrow>
          (case v of
             VDict rd \<Rightarrow> merge_ctx e (dset k (VDict (merge_ctx e ld vl rd vr (extend_prefix prefix k))) l) vl r vr prefix
           | _ \<Rightarrow> merge_ctx e (if get_version (version_key e (extend_prefix prefix k)) vr >
                                get_version (version_key e (extend_prefix prefix k)) vl
                             then dset k v l else l) vl r vr prefix)
      | Some lv \<Rightarrow> merge_ctx e (if get_version (version_key e (extend_prefix prefix k)) vr >
                                 get_version (version_key e (extend_prefix prefix k)) vl
                              then dset k v l else l) vl r vr prefix)"

definition merge_versions :: "int dict \<Rightarrow> int dict \<Rightarrow> int dict" where
  "merge_versions vl vr = fold (\<lambda>(k, r) l. dset k (max (dget_default l k r) r) l) vr vl"

definition remove_internal_data_from_context :: "val dict \<Rightarrow> val dict res" where
  "remove_internal_data_from_context ctx =
     (let c = (if dhas ctx ''__task_execution'' then ddel ''__task_execution'' ctx else ctx)
      in if dhas c VERSIONS_KEY then Inr (ddel VERSIONS_KEY c) else Inl (KeyError VERSIONS_KEY))"

definition merge_context_by_version :: "env \<Rightarrow> val dict \<Rightarrow> val dict \<Rightarrow> val dict res" where
  "merge_context_by_version e l r =
     bind_res (dindex l VERSIONS_KEY) (\<lambda>lv.
     bind_res (dindex r VERSIONS_KEY) (\<lambda>rv.
     bind_res (versions_of lv) (\<lambda>vl.
     bind_res (versions_of rv) (\<lambda>vr.
     bind_res (remove_internal_data_from_context l) (\<lambda>l'.
     bind_res (remove_internal_data_from_context r) (\<lambda>r'.
       Inr (dset VERSIONS_KEY (versions_val (merge_versions vl vr)) (merge_ctx e l' vl r' vr []))))))))"

section \<open>Versions are a join semilattice\<close>

lemma dget_merge_versions:
  assumes "dict_ok vr"
  shows "dget (merge_versions vl vr) k =
    (case (dget vl k, dget vr k) of
       (None, y) \<Rightarrow> y | (x, None) \<Rightarrow> x | (Some a, Some b) \<Rightarrow> Some (max a b))"
  using assms unfolding merge_versions_def
proof (induction vr arbitrary: vl)
  case Nil
  then show ?case by (simp split: option.split)
next
  case (Cons p vr)
  obtain j b where p: "p = (j, b)" by fastforce
  from Cons.prems p have ok: "dict_ok vr" and nj: "dget vr j = None"
    by (auto simp: dict_ok_Cons map_of_eq_None_iff)
  show ?case
    using Cons.IH [OF ok, of "dset j (max (dget_default vl j b) b) vl"] nj p
    by (cases "j = k") (auto simp: dget_default_def split: option.splits)
qed

lemma dict_ok_merge_versions: "dict_ok vl \<Longrightarrow> dict_ok (merge_versions vl vr)"
  unfolding merge_versions_def by (induction vr arbitrary: vl) auto

text \<open>
  Merging version maps is commutative, associative and idempotent: the versions that reach a
  join do not depend on the order in which the inbound tasks are merged, nor on how often.
\<close>

theorem merge_versions_semilattice:
  assumes "dict_ok a" and "dict_ok b" and "dict_ok c"
  shows "dget (merge_versions a b) k = dget (merge_versions b a) k \<and>
         dget (merge_versions (merge_versions a b) c) k = dget (merge_versions a (merge_versions b c)) k \<and>
         dget (merge_versions a a) k = dget a k"
  using assms
  by (auto simp: dget_merge_versions dict_ok_merge_versions max.commute max.assoc split: option.splits)

theorem merge_versions_semilattice_witness:
  "dget (merge_versions [(''a'', 1)] [(''a'', 2)]) ''a'' = dget (merge_versions [(''a'', 2)] [(''a'', 1)]) ''a'' \<and>
   dget (merge_versions (merge_versions [(''a'', 1)] [(''a'', 2)]) [(''b'', 1)]) ''a'' =
   dget (merge_versions [(''a'', 1)] (merge_versions [(''a'', 2)] [(''b'', 1)])) ''a'' \<and>
   dget (merge_versions [(''a'', 1)] [(''a'', 1)]) ''a'' = dget [(''a'', 1)] ''a''"
  by (rule merge_versions_semilattice) (simp_all add: dict_ok_def)

section \<open>The merge of contexts\<close>

text \<open>The value at a path of keys, the dotted path, and the merge of one value.\<close>

fun at_path :: "string list \<Rightarrow> val \<Rightarrow> val option" where
  "at_path [] v = Some v"
| "at_path (k # ks) (VDict d) = Option.bind (dget d k) (at_path ks)"
| "at_path (k # ks) _ = None"

fun dotted :: "string \<Rightarrow> string list \<Rightarrow> string" where
  "dotted prefix [] = prefix"
| "dotted prefix (k # ks) = dotted (extend_prefix prefix k) ks"

definition merge_val :: "env \<Rightarrow> int dict \<Rightarrow> int dict \<Rightarrow> string \<Rightarrow> val \<Rightarrow> val \<Rightarrow> val" where
  "merge_val e vl vr path a b =
     (case (a, b) of
        (VDict ld, VDict rd) \<Rightarrow> VDict (merge_ctx e ld vl rd vr path)
      | _ \<Rightarrow> if get_version (version_key e path) vr > get_version (version_key e path) vl then b else a)"

lemma dget_merge_ctx:
  assumes "dict_ok r"
  shows "dget (merge_ctx e l vl r vr prefix) k =
    (case (dget l k, dget r k) of
       (None, y) \<Rightarrow> y | (x, None) \<Rightarrow> x
     | (Some a, Some b) \<Rightarrow> Some (merge_val e vl vr (extend_prefix prefix k) a b))"
  using assms
proof (induction r arbitrary: l)
  case Nil
  then show ?case by (simp split: option.split)
next
  case (Cons p r)
  obtain j b where p: "p = (j, b)" by fastforce
  from Cons.prems p have ok: "dict_ok r" and nj: "dget r j = None"
    by (auto simp: dict_ok_Cons map_of_eq_None_iff)
  obtain l' where step: "merge_ctx e l vl ((j, b) # r) vr prefix = merge_ctx e l' vl r vr prefix"
    and other: "\<And>i. i \<noteq> j \<Longrightarrow> dget l' i = dget l i"
    and at_j: "dget l' j = (case dget l j of None \<Rightarrow> Some b
                 | Some a \<Rightarrow> Some (merge_val e vl vr (extend_prefix prefix j) a b))"
  proof (cases "dget l j")
    case None
    then show ?thesis by (intro that [of "dset j b l"]) auto
  next
    case (Some a)
    let ?v = "merge_val e vl vr (extend_prefix prefix j) a b"
    show ?thesis
    proof (cases "(is_vdict a \<and> is_vdict b) \<or> get_version (version_key e (extend_prefix prefix j)) vr >
                     get_version (version_key e (extend_prefix prefix j)) vl")
      case True
      then have "merge_ctx e l vl ((j, b) # r) vr prefix = merge_ctx e (dset j ?v l) vl r vr prefix"
        using Some by (cases a; cases b) (auto simp: merge_val_def)
      then show ?thesis using Some by (intro that [of "dset j ?v l"]) auto
    next
      case False
      then have "merge_ctx e l vl ((j, b) # r) vr prefix = merge_ctx e l vl r vr prefix" and "?v = a"
        using Some by (cases a; cases b; simp add: merge_val_def)+
      then show ?thesis using Some by (intro that [of l]) auto
    qed
  qed
  have eq: "dget (merge_ctx e l vl (p # r) vr prefix) k = dget (merge_ctx e l' vl r vr prefix) k"
    by (simp only: p step)
  show ?case unfolding eq Cons.IH [OF ok, of l']
    using at_j nj other p by (cases "k = j") (simp_all split: option.split)
qed

text \<open>
  The newest version wins at every depth: where both contexts have a variable and not both of
  its values are dictionaries, the merged context has the right value exactly if the right
  context has published that path more often.
\<close>

theorem merge_ctx_newest_wins:
  assumes "val_ok (VDict r)" and "ks \<noteq> []"
    and "at_path ks (VDict l) = Some a" and "at_path ks (VDict r) = Some b"
    and "\<not> (is_vdict a \<and> is_vdict b)"
  shows "at_path ks (VDict (merge_ctx e l vl r vr prefix)) =
    Some (if get_version (version_key e (dotted prefix ks)) vr > get_version (version_key e (dotted prefix ks)) vl
          then b else a)"
  using assms
proof (induction ks arbitrary: l r prefix)
  case Nil
  then show ?case by simp
next
  case (Cons k ks)
  from Cons.prems obtain x y where x: "dget l k = Some x" "at_path ks x = Some a"
    and y: "dget r k = Some y" "at_path ks y = Some b"
    by (auto split: Option.bind_splits)
  from Cons.prems have ok: "dict_ok r" by simp
  have m: "dget (merge_ctx e l vl r vr prefix) k = Some (merge_val e vl vr (extend_prefix prefix k) x y)"
    using x y by (simp add: dget_merge_ctx [OF ok])
  show ?case
  proof (cases ks)
    case Nil
    with x y have "x = a" "y = b" by auto
    then have "merge_val e vl vr (extend_prefix prefix k) x y =
       (if get_version (version_key e (extend_prefix prefix k)) vr > get_version (version_key e (extend_prefix prefix k)) vl
        then b else a)"
      using Cons.prems(5) by (cases a; cases b) (auto simp: merge_val_def)
    with m Nil show ?thesis by simp
  next
    case (Cons k' ks')
    with x y obtain xd yd where xy: "x = VDict xd" "y = VDict yd" by (cases x; cases y) auto
    have oky: "val_ok (VDict yd)" using Cons.prems(1) y(1) xy(2) val_ok_dget by blast
    have "at_path ks (VDict (merge_ctx e xd vl yd vr (extend_prefix prefix k))) =
       Some (if get_version (version_key e (dotted (extend_prefix prefix k) ks)) vr >
                get_version (version_key e (dotted (extend_prefix prefix k) ks)) vl then b else a)"
      using Cons.IH [OF oky, of xd "extend_prefix prefix k"] x y xy Cons.prems(5) local.Cons by simp
    with m xy show ?thesis by (simp add: merge_val_def)
  qed
qed

theorem merge_ctx_newest_wins_witness:
  "at_path [''v'', ''x''] (VDict (merge_ctx plain_env [(''v'', VDict [(''x'', VInt 1)])] [(''v.x'', 1)]
      [(''v'', VDict [(''x'', VInt 2)])] [(''v.x'', 2)] []))
   = Some (if get_version (version_key plain_env (dotted [] [''v'', ''x''])) [(''v.x'', 2)] >
              get_version (version_key plain_env (dotted [] [''v'', ''x''])) [(''v.x'', 1)] then VInt 2 else VInt 1)"
  by (rule merge_ctx_newest_wins) (simp_all add: dict_ok_def)

lemma map_res_ints [simp]:
  "map_res (\<lambda>p. bind_res (int_of_val (snd p)) (\<lambda>i. Inr (fst p, i))) (map (\<lambda>p. (fst p, VInt (snd p))) vs) = Inr vs"
  by (induction vs) auto

lemma versions_of_val [simp]: "versions_of (versions_val vs) = Inr vs"
  by (simp add: versions_val_def)

lemma get_version_bump: "get_version k (bump_version vs j) = get_version k vs + (if j = k then 1 else 0)"
  by (auto simp: get_version_def bump_version_def dget_default_def)

lemma get_version_fold_bump:
  "get_version k (fold (\<lambda>j vs. bump_version vs j) js vs) = get_version k vs + int (count_list js k)"
  by (induction js arbitrary: vs) (auto simp: get_version_bump)

text \<open>
  A task that publishes raises the version of every published leaf path by the number of
  times the path is published, and of no other path; the rest of the inbound context is untouched.
\<close>

theorem in_context_versions_bumped:
  assumes "context_versioning e" and "dget ic VERSIONS_KEY = Some (versions_val vs)"
  shows "\<exists>ctx vs'. get_in_context_with_versions e (Some ic) (Some pub) = Inr ctx \<and>
     dget ctx VERSIONS_KEY = Some (versions_val vs') \<and>
     (\<forall>k. get_version k vs' = get_version k vs + int (count_list (get_updated_keys e pub) k)) \<and>
     ddel VERSIONS_KEY ctx = ddel VERSIONS_KEY ic"
  using assms by (auto simp: get_in_context_with_versions_def dget_default_def get_version_fold_bump)

theorem in_context_versions_bumped_witness:
  "\<exists>ctx vs'. get_in_context_with_versions (plain_env\<lparr>context_versioning := True\<rparr>)
       (Some [(VERSIONS_KEY, versions_val [(''x'', 3)])]) (Some [(''x'', VInt 1)]) = Inr ctx \<and>
     dget ctx VERSIONS_KEY = Some (versions_val vs') \<and>
     (\<forall>k. get_version k vs' = get_version k [(''x'', 3)] +
        int (count_list (get_updated_keys (plain_env\<lparr>context_versioning := True\<rparr>) [(''x'', VInt 1)]) k)) \<and>
     ddel VERSIONS_KEY ctx = ddel VERSIONS_KEY [(VERSIONS_KEY, versions_val [(''x'', 3)])]"
  by (rule in_context_versions_bumped) (simp_all add: plain_env_def)

lemma remove_internal_total:
  "dget c VERSIONS_KEY = Some v \<Longrightarrow> \<exists>c'. remove_internal_data_from_context c = Inr c'"
  by (auto simp: remove_internal_data_from_context_def Let_def VERSIONS_KEY_def ddel_def
      dest!: map_of_SomeD intro: rev_image_eqI)

text \<open>
  Merging two versioned contexts fails exactly when one of them carries no versions, and its
  result carries the merged versions.
\<close>

theorem merge_context_by_version_versions:
  assumes "dget l VERSIONS_KEY = map_option versions_val vl" and "dget r VERSIONS_KEY = map_option versions_val vr"
  shows "(case (vl, vr) of
       (Some a, Some b) \<Rightarrow> \<exists>c. merge_context_by_version e l r = Inr c \<and>
                              dget c VERSIONS_KEY = Some (versions_val (merge_versions a b))
     | _ \<Rightarrow> merge_context_by_version e l r = Inl (KeyError VERSIONS_KEY))"
proof (cases vl)
  case None
  with assms show ?thesis by (simp add: merge_context_by_version_def dindex_def split: option.split)
next
  case l: (Some a)
  show ?thesis
  proof (cases vr)
    case None
    with l assms show ?thesis by (simp add: merge_context_by_version_def dindex_def)
  next
    case (Some b)
    with l assms have "dget l VERSIONS_KEY = Some (versions_val a)" "dget r VERSIONS_KEY = Some (versions_val b)"
      by simp_all
    with remove_internal_total [of l] remove_internal_total [of r] l Some show ?thesis
      by (auto simp: merge_context_by_version_def dindex_def)
  qed
qed

theorem merge_context_by_version_versions_witness:
  "case (Some [(''x'', 1)], None) of
       (Some a, Some b) \<Rightarrow> \<exists>c. merge_context_by_version plain_env [(VERSIONS_KEY, versions_val [(''x'', 1)])] [] = Inr c \<and>
                              dget c VERSIONS_KEY = Some (versions_val (merge_versions a b))
     | _ \<Rightarrow> merge_context_by_version plain_env [(VERSIONS_KEY, versions_val [(''x'', 1)])] [] = Inl (KeyError VERSIONS_KEY)"
  by (rule merge_context_by_version_versions) simp_all

end
