(* ===== verification/Data_Flow.thy ===== *)
theory Data_Flow
  imports Executions Expressions Context_Versioning "HOL-Library.Multiset"
begin

text \<open>
  \<^verbatim>\<open>mistral/workflow/data_flow.py\<close>: the context view, the context a task passes to its successors,
  the context a task gets from its predecessors, publishing, the result of a task and the output
  of a workflow. A dictionary that the code changes in place is returned with the result:
  \<open>evaluate_task_outbound_context\<close> returns the task execution too, since without versioning the
  dictionary it extends is the inbound context of the task execution itself.
\<close>

section \<open>Context views\<close>

definition context_view :: "env \<Rightarrow> val dict option list \<Rightarrow> ctx_view" where
  "context_view e ds =
     (if merge_strategy e = ''merge'' then [fold (\<lambda>d res. merge_dicts e True res d) (rev ds) []]
      else map the (filter (\<lambda>d. d \<noteq> None) ds))"

text \<open>\<^verbatim>\<open>__getitem__\<close>, \<^verbatim>\<open>get\<close>, \<^verbatim>\<open>__contains__\<close> and \<^verbatim>\<open>keys\<close>.\<close>

fun cv_find :: "ctx_view \<Rightarrow> string \<Rightarrow> val option" where
  "cv_find [] k = None"
| "cv_find (d # ds) k = (if dhas d k then dget d k else cv_find ds k)"

definition cv_getitem :: "ctx_view \<Rightarrow> string \<Rightarrow> val res" where
  "cv_getitem c k = (case cv_find c k of Some v \<Rightarrow> Inr v | None \<Rightarrow> Inl (KeyError k))"

definition cv_get :: "ctx_view \<Rightarrow> string \<Rightarrow> val \<Rightarrow> val" where
  "cv_get c k dflt = (case cv_find c k of Some v \<Rightarrow> v | None \<Rightarrow> dflt)"

definition cv_contains :: "ctx_view \<Rightarrow> string \<Rightarrow> bool" where
  "cv_contains c k \<longleftrightarrow> (\<exists>d \<in> set c. dhas d k)"

definition cv_keys :: "ctx_view \<Rightarrow> string list" where
  "cv_keys c = remdups (concat (map dkeys c))"

definition cv_items :: "ctx_view \<Rightarrow> (string \<times> val) list res" where
  "cv_items c = map_res (\<lambda>k. bind_res (cv_getitem c k) (\<lambda>v. Inr (k, v))) (cv_keys c)"

definition cv_len :: "ctx_view \<Rightarrow> nat" where
  "cv_len c = length (cv_keys c)"

definition cv_setitem :: "ctx_view \<Rightarrow> string \<Rightarrow> val \<Rightarrow> ctx_view res" where
  "cv_setitem c k v = Inl (MistralError ''Context view is immutable.'')"

section \<open>The environment and the current task\<close>

definition get_current_task_dict :: "task_ex \<Rightarrow> val dict" where
  "get_current_task_dict t =
     [(''__task_execution'', VDict [(''id'', VStr (te_id t)), (''name'', VStr (te_name t))])]"

text \<open>
  \<^verbatim>\<open>get_workflow_environment_dict\<close>: the recursion goes to the root execution, whose own
  \<^verbatim>\<open>root_execution_id\<close> is not set, so the root is given as an argument (None: no such row).
\<close>

definition env_of_params :: "val dict \<Rightarrow> val dict" where
  "env_of_params p = [(''__env'', dget_default p ''env'' (VDict []))]"

definition get_workflow_environment_dict :: "wf_ex option \<Rightarrow> wf_ex option \<Rightarrow> val dict" where
  "get_workflow_environment_dict root wx =
     (case wx of None \<Rightarrow> []
      | Some w \<Rightarrow> (case we_root_id w of
           None \<Rightarrow> env_of_params (we_params w)
         | Some _ \<Rightarrow> (case root of None \<Rightarrow> [] | Some r \<Rightarrow> env_of_params (we_params r))))"

section \<open>Contexts between tasks\<close>

definition evaluate_task_outbound_context :: "env \<Rightarrow> task_ex \<Rightarrow> (val dict \<times> task_ex) res" where
  "evaluate_task_outbound_context e t =
     bind_res (get_in_context_with_versions e (Some (te_in_context t)) (te_published t)) (\<lambda>ic.
       (let out = (if merge_strategy e = ''merge'' then merge_dicts e True ic (te_published t)
                   else update_dict e ic (te_published t))
        in Inr (out, if context_versioning e then t else t\<lparr>te_in_context := out\<rparr>)))"

text \<open>
  The loop of \<^verbatim>\<open>evaluate_upstream_context\<close> without versioning, and the one with it. The change of
  the inbound contexts of the upstream tasks that each step makes is not threaded through.
\<close>

fun upstream_unversioned :: "env \<Rightarrow> task_ex list \<Rightarrow> val dict \<Rightarrow> val dict \<Rightarrow> val dict res" where
  "upstream_unversioned e [] published_vars ctx = Inr (merge_dicts e True ctx (Some published_vars))"
| "upstream_unversioned e (t # ts) published_vars ctx =
     bind_res (evaluate_task_outbound_context e t) (\<lambda>o1.
       upstream_unversioned e ts (merge_dicts e True published_vars (te_published t))
         (merge_dicts e True ctx (Some (fst o1))))"

fun upstream_versioned :: "env \<Rightarrow> task_ex list \<Rightarrow> val dict \<Rightarrow> val dict res" where
  "upstream_versioned e [] ctx = Inr ctx"
| "upstream_versioned e (t # ts) ctx =
     bind_res (evaluate_task_outbound_context e t) (\<lambda>o1.
     bind_res (merge_context_by_version e ctx (fst o1)) (upstream_versioned e ts))"

definition evaluate_upstream_context :: "env \<Rightarrow> task_ex list \<Rightarrow> val dict \<Rightarrow> val dict res" where
  "evaluate_upstream_context e ts additive =
     (if \<not> context_versioning e then upstream_unversioned e ts [] []
      else if ts = [] then Inr []
      else if additive \<noteq> [] then upstream_versioned e ts additive
      else bind_res (evaluate_task_outbound_context e (last ts)) (\<lambda>o1. upstream_versioned e (butlast ts) (fst o1)))"

section \<open>Results, publishing, output\<close>

definition extract_execution_result :: "child_ex \<Rightarrow> val res" where
  "extract_execution_result c =
     (if ce_is_wf c then Inr (case ce_output c of None \<Rightarrow> VNone | Some d \<Rightarrow> VDict d)
      else (case ce_output c of None \<Rightarrow> Inr VNone
            | Some d \<Rightarrow> (if d = [] then Inr VNone else dindex d ''result'')))"

text \<open>
  \<^verbatim>\<open>execs.sort(key=...)\<close>: a stable sort by the index; with two or more executions an index that
  is not a number cannot be compared.
\<close>

definition child_index :: "child_ex \<Rightarrow> int option" where
  "child_index c = (case dget (ce_rt c) ''index'' of Some (VInt i) \<Rightarrow> Some i | _ \<Rightarrow> None)"

definition sort_by_index :: "child_ex list \<Rightarrow> child_ex list res" where
  "sort_by_index cs =
     (if length cs \<le> 1 then Inr cs
      else if list_all (\<lambda>c. child_index c \<noteq> None) cs then Inr (sort_key (\<lambda>c. the (child_index c)) cs)
      else Inl TypeError)"

definition get_task_execution_result :: "task_ex \<Rightarrow> child_ex list \<Rightarrow> val res" where
  "get_task_execution_result t execs =
     bind_res (sort_by_index execs) (\<lambda>sorted_execs.
     bind_res (map_res extract_execution_result (filter ce_accepted sorted_execs)) (\<lambda>results.
       Inr (if ts_with_items (te_spec t) \<noteq> [] then VList results
            else if length results = 1 then hd results else VList results)))"

definition val_opt_dict :: "val \<Rightarrow> val dict option" where
  "val_opt_dict v = (case v of VDict d \<Rightarrow> Some d | _ \<Rightarrow> None)"

text \<open>
  \<^verbatim>\<open>publish_variables\<close>, with the task specification that \<^verbatim>\<open>get_publish\<close> may change. A clause
  without a branch dictionary sets \<^verbatim>\<open>published\<close> to None.
\<close>

definition publish_variables ::
  "env \<Rightarrow> wf_ex option \<Rightarrow> task_ex \<Rightarrow> task_spec \<Rightarrow> wf_ex \<Rightarrow> (task_ex \<times> task_spec \<times> wf_ex) res" where
  "publish_variables e root t spec wx =
     (if te_state t \<notin> {SUCCESS, ERROR, SKIPPED} then Inr (t, spec, wx)
      else
        (let expr_ctx = context_view e [Some (get_current_task_dict t), Some (te_in_context t),
               Some (get_workflow_environment_dict root (Some wx)), Some (we_context wx), Some (we_input wx)];
             gp = get_publish e spec (te_state t)
         in bind_res (fst gp) (\<lambda>pub.
              (case pub of
                 None \<Rightarrow> Inr (t, snd gp, wx)
               | Some p \<Rightarrow>
                   bind_res (case pub_branch p of None \<Rightarrow> Inr VNone
                             | Some b \<Rightarrow> evaluate_recursively e (VDict b) expr_ctx) (\<lambda>bv.
                   bind_res (case pub_global p of None \<Rightarrow> Inr VNone
                             | Some g \<Rightarrow> evaluate_recursively e (VDict g) expr_ctx) (\<lambda>gv.
                     Inr (t\<lparr>te_published := val_opt_dict bv\<rparr>, snd gp,
                          wx\<lparr>we_context := merge_dicts e True (we_context wx) (val_opt_dict gv)\<rparr>)))))))"

definition evaluate_workflow_output :: "env \<Rightarrow> wf_ex option \<Rightarrow> wf_ex \<Rightarrow> val dict \<Rightarrow> val dict \<Rightarrow> val dict res" where
  "evaluate_workflow_output e root wx wf_output ctx =
     bind_res (evaluate_recursively e (VDict wf_output)
        (context_view e [Some ctx, Some (get_workflow_environment_dict root (Some wx)), Some (we_context wx), Some (we_input wx)]))
       (\<lambda>output. Inr (if truthy output then (case output of VDict d \<Rightarrow> d | _ \<Rightarrow> []) else clear_versions ctx))"

text \<open>
  The parts of the initial context. \<open>sec\<close> is the security context as a dictionary, None where
  authentication is off or there is none.
\<close>

definition mask_secret :: "string \<Rightarrow> val dict \<Rightarrow> val dict" where
  "mask_secret k d = (if dhas d k then dset k (VStr ''***'') d else d)"

definition add_openstack_data_to_context :: "val dict option \<Rightarrow> wf_ex \<Rightarrow> wf_ex" where
  "add_openstack_data_to_context sec wx =
     (case sec of None \<Rightarrow> wx
      | Some d \<Rightarrow> wx\<lparr>we_context := dset ''openstack''
           (VDict (mask_secret ''service_catalog'' (mask_secret ''auth_token'' d))) (we_context wx)\<rparr>)"

definition add_execution_to_context :: "wf_ex \<Rightarrow> wf_ex" where
  "add_execution_to_context wx =
     wx\<lparr>we_context := dset ''__execution'' (VDict [(''id'', VStr (we_id wx))]) (we_context wx)\<rparr>"

definition add_workflow_variables_to_context :: "env \<Rightarrow> wf_ex option \<Rightarrow> wf_ex \<Rightarrow> workflow_spec \<Rightarrow> wf_ex res" where
  "add_workflow_variables_to_context e root wx spec =
     bind_res (evaluate_recursively e (VDict (ws_vars spec))
        (context_view e [Some (get_workflow_environment_dict root (Some wx)), Some (we_context wx), Some (we_input wx)]))
       (\<lambda>vars. Inr (wx\<lparr>we_context := merge_dicts e True (we_context wx) (val_opt_dict vars)\<rparr>))"

definition get_workflow_execution_published_global :: "wf_ex \<Rightarrow> val dict" where
  "get_workflow_execution_published_global wx =
     filter (\<lambda>p. fst p \<notin> set ([''__execution'', ''openstack''] @ dkeys (ws_vars (we_spec wx)))) (we_context wx)"

section \<open>Lemmas\<close>

lemma cv_find_None_iff: "cv_find c k = None \<longleftrightarrow> k \<notin> set (cv_keys c)"
  by (induction c) (auto simp: cv_keys_def map_of_eq_None_iff)

lemma cv_contains_iff: "cv_contains c k \<longleftrightarrow> k \<in> set (cv_keys c)"
  by (auto simp: cv_contains_def cv_keys_def)

lemma cv_getitem_total: "k \<in> set (cv_keys c) \<Longrightarrow> cv_getitem c k = Inr (the (cv_find c k))"
  using cv_find_None_iff [of c k] by (auto simp: cv_getitem_def split: option.split)

text \<open>
  A context view behaves like one dictionary: a lookup finds the value of the first
  dictionary that has the key, and \<^verbatim>\<open>items\<close>, \<^verbatim>\<open>keys\<close>, \<^verbatim>\<open>in\<close>, \<^verbatim>\<open>len\<close> and \<^verbatim>\<open>[]\<close> agree on which keys
  there are; \<^verbatim>\<open>items\<close> lists every key once and never raises.
\<close>

theorem context_view_is_dictionary:
  "cv_items c = Inr (map (\<lambda>k. (k, the (cv_find c k))) (cv_keys c)) \<and> distinct (cv_keys c) \<and>
   cv_len c = card (set (cv_keys c)) \<and>
   (cv_contains c k = (k \<in> set (cv_keys c))) \<and>
   ((\<exists>v. cv_getitem c k = Inr v) = (k \<in> set (cv_keys c))) \<and>
   cv_find c k = fold (\<lambda>d r. case dget d k of None \<Rightarrow> r | Some v \<Rightarrow> Some v) (rev c) None"
proof -
  have items: "cv_items c = Inr (map (\<lambda>k. (k, the (cv_find c k))) (cv_keys c))"
    unfolding cv_items_def by (rule map_res_total) (simp add: cv_getitem_total)
  have get: "(\<exists>v. cv_getitem c k = Inr v) = (k \<in> set (cv_keys c))"
    using cv_find_None_iff [of c k] by (auto simp: cv_getitem_def split: option.split)
  have "cv_find c k = fold (\<lambda>d r. case dget d k of None \<Rightarrow> r | Some v \<Rightarrow> Some v) (rev c) None"
    by (induction c) (auto simp: dhas_def simp del: dhas_iff split: option.split)
  with items get show ?thesis
    by (simp add: cv_contains_iff cv_keys_def cv_len_def length_remdups_card_conv)
qed

text \<open>
  Without versioning a task hands on its inbound context with the published variables on
  top, and, although the comment speaks of a shallow copy, the inbound context that the task
  execution stores becomes that very dictionary.
\<close>

theorem outbound_context_unversioned:
  assumes "update_dict_doc e" and "\<not> context_versioning e" and "merge_strategy e \<noteq> ''merge''"
    and "te_published t = Some pub" and "dict_ok pub"
  shows "\<exists>out. evaluate_task_outbound_context e t = Inr (out, t\<lparr>te_in_context := out\<rparr>) \<and>
     (\<forall>k. dget out k = (if dget pub k = None then dget (te_in_context t) k else dget pub k))"
proof -
  have "evaluate_task_outbound_context e t =
      Inr (dupdate (te_in_context t) pub, t\<lparr>te_in_context := dupdate (te_in_context t) pub\<rparr>)"
    using assms by (simp add: evaluate_task_outbound_context_def get_in_context_with_versions_def update_dict_doc_def Let_def)
  moreover have "dget (dupdate (te_in_context t) pub) k =
      (if dget pub k = None then dget (te_in_context t) k else dget pub k)" for k
    using assms(5) by (auto simp: dget_dupdate split: option.split)
  ultimately show ?thesis by blast
qed

definition published_task_ex :: task_ex where
  "published_task_ex = (mk_task_ex ''1'' ''w'' (mk_task ''t'') SUCCESS)
     \<lparr>te_in_context := [(''a'', VInt 1)], te_published := Some [(''a'', VInt 2)]\<rparr>"

theorem outbound_context_unversioned_witness:
  "\<exists>out. evaluate_task_outbound_context plain_env published_task_ex =
      Inr (out, published_task_ex\<lparr>te_in_context := out\<rparr>) \<and>
     (\<forall>k. dget out k = (if dget [(''a'', VInt 2)] k = None then dget (te_in_context published_task_ex) k
        else dget [(''a'', VInt 2)] k))"
  by (rule outbound_context_unversioned [OF plain_update_doc])
    (simp_all add: plain_env_def dict_ok_def published_task_ex_def)

lemma sort_by_index_perm:
  assumes "mset cs = mset cs'" and "distinct (map child_index cs)"
  shows "sort_by_index cs = sort_by_index cs'"
proof -
  have len: "length cs = length cs'" using assms(1) by (rule mset_eq_length)
  have set: "set cs = set cs'" using assms(1) by (rule mset_eq_setD)
  show ?thesis
  proof (cases "length cs \<le> 1")
    case True
    with assms(1) len show ?thesis
      by (cases cs; cases cs') (auto simp: sort_by_index_def)
  next
    case False
    have "sort_key (\<lambda>c. the (child_index c)) cs = sort_key (\<lambda>c. the (child_index c)) cs'"
      if all: "list_all (\<lambda>c. child_index c \<noteq> None) cs"
    proof (rule properties_for_sort_key)
      show "mset (sort_key (\<lambda>c. the (child_index c)) cs') = mset cs" using assms(1) by simp
      show "sorted (map (\<lambda>c. the (child_index c)) (sort_key (\<lambda>c. the (child_index c)) cs'))" by simp
      have inj: "inj_on (\<lambda>c. the (child_index c)) (set cs)"
        using assms(2) all by (auto simp: inj_on_def distinct_map list_all_iff) (metis option.sel)
      fix k
      assume "k \<in> set (sort_key (\<lambda>c. the (child_index c)) cs')"
      then have "k \<in> set cs" using set by simp
      then have one: "filter (\<lambda>x. the (child_index k) = the (child_index x)) xs = filter ((=) k) xs"
        if "set xs = set cs" for xs
        using inj that by (intro filter_cong) (auto simp: inj_on_def)
      have "filter ((=) k) (sort_key (\<lambda>c. the (child_index c)) cs') = filter ((=) k) cs"
        using assms(1) by (simp add: replicate_count_mset_eq_filter_eq [symmetric])
      then show "filter (\<lambda>x. the (child_index k) = the (child_index x)) (sort_key (\<lambda>c. the (child_index c)) cs') =
                 filter (\<lambda>x. the (child_index k) = the (child_index x)) cs"
        by (simp add: one set)
    qed
    with False len set show ?thesis by (auto simp: sort_by_index_def list_all_iff)
  qed
qed

text \<open>
  The result of a task does not depend on the order in which its action executions or
  sub-workflows come back from the database: the results are listed by their index.
\<close>

theorem task_result_order_independent:
  assumes "mset cs = mset cs'" and "distinct (map child_index cs)"
  shows "get_task_execution_result t cs = get_task_execution_result t cs'"
  using sort_by_index_perm [OF assms] by (simp add: get_task_execution_result_def)

theorem task_result_order_independent_witness:
  "get_task_execution_result (mk_task_ex ''1'' ''w'' (mk_task ''t'') SUCCESS)
     [mk_child ''b'' SUCCESS True 1, mk_child ''a'' SUCCESS True 0] =
   get_task_execution_result (mk_task_ex ''1'' ''w'' (mk_task ''t'') SUCCESS)
     [mk_child ''a'' SUCCESS True 0, mk_child ''b'' SUCCESS True 1]"
  by (rule task_result_order_independent) (simp_all add: mk_child_def child_index_def)

end
