(* ===== verification/Commands.thy ===== *)
theory Commands
  imports Executions
begin

text \<open>
  \<^verbatim>\<open>mistral/workflow/commands.py\<close>: the commands by which a workflow controller tells the engine how
  to continue, their form in a backlog (\<open>to_dict\<close>) and the way back (\<open>restore_command_from_dict\<close>).

  The subclasses of \<^verbatim>\<open>WorkflowCommand\<close> are the constructors of \<open>cmd_kind\<close>. The fields \<^verbatim>\<open>wait\<close> and
  \<^verbatim>\<open>unique_key\<close> of \<^verbatim>\<open>RunTask\<close> are always set together (\<^verbatim>\<open>_configure_if_join\<close>), so they are one
  option: a waiting command is one with a key. A message is \<open>VNone\<close> where the code has None. The
  specification is None where \<^verbatim>\<open>get_tasks()[name]\<close> finds no task.
\<close>

datatype cmd_kind =
    Noop
  | RunTask "string option"
  | RunExistingTask task_ex bool "string option" bool
  | SkipTask task_ex
  | FailWorkflow val
  | SucceedWorkflow val
  | PauseWorkflow val

record command =
  cmd_kind :: cmd_kind
  cmd_spec :: "task_spec option"
  cmd_ctx :: "val dict"
  cmd_triggered_by :: "trigger list option"
  cmd_handles_error :: bool

definition is_run_task :: "command \<Rightarrow> bool" where
  "is_run_task c \<longleftrightarrow> (case cmd_kind c of RunTask _ \<Rightarrow> True | _ \<Rightarrow> False)"

definition is_run_existing :: "command \<Rightarrow> bool" where
  "is_run_existing c \<longleftrightarrow> (case cmd_kind c of RunExistingTask _ _ _ _ \<Rightarrow> True | _ \<Rightarrow> False)"

definition is_waiting_cmd :: "command \<Rightarrow> bool" where
  "is_waiting_cmd c \<longleftrightarrow> (case cmd_kind c of RunTask (Some _) \<Rightarrow> True | _ \<Rightarrow> False)"

definition is_noop :: "command \<Rightarrow> bool" where
  "is_noop c \<longleftrightarrow> (case cmd_kind c of Noop \<Rightarrow> True | _ \<Rightarrow> False)"

text \<open>\<^verbatim>\<open>isinstance(cmd, SetWorkflowState)\<close>, and the field \<^verbatim>\<open>new_state\<close> with the message.\<close>

fun set_state_of :: "cmd_kind \<Rightarrow> (state \<times> val) option" where
  "set_state_of (FailWorkflow m) = Some (ERROR, m)"
| "set_state_of (SucceedWorkflow m) = Some (SUCCESS, m)"
| "set_state_of (PauseWorkflow m) = Some (PAUSED, m)"
| "set_state_of _ = None"

definition is_set_state :: "command \<Rightarrow> bool" where
  "is_set_state c \<longleftrightarrow> set_state_of (cmd_kind c) \<noteq> None"

definition is_pause :: "command \<Rightarrow> bool" where
  "is_pause c \<longleftrightarrow> (case cmd_kind c of PauseWorkflow _ \<Rightarrow> True | _ \<Rightarrow> False)"

lemmas cmd_class_defs = is_run_task_def is_run_existing_def is_waiting_cmd_def is_noop_def is_pause_def is_set_state_def

definition is_engine_command :: "command \<Rightarrow> bool" where
  "is_engine_command c \<longleftrightarrow> is_set_state c \<or> is_noop c"

text \<open>The initializers of the two commands that are built from a task execution.\<close>

definition mk_run_existing :: "task_ex \<Rightarrow> bool \<Rightarrow> bool \<Rightarrow> command" where
  "mk_run_existing t reset rerun =
     \<lparr>cmd_kind = RunExistingTask t reset (te_unique_key t) rerun, cmd_spec = Some (te_spec t),
      cmd_ctx = te_in_context t, cmd_triggered_by = None, cmd_handles_error = False\<rparr>"

definition mk_skip :: "task_ex \<Rightarrow> command" where
  "mk_skip t = \<lparr>cmd_kind = SkipTask t, cmd_spec = Some (te_spec t), cmd_ctx = te_in_context t,
     cmd_triggered_by = None, cmd_handles_error = False\<rparr>"

section \<open>Creating, saving and restoring commands\<close>

text \<open>\<^verbatim>\<open>ENGINE_CMD_CLS\<close> with \<^verbatim>\<open>get_command_class\<close>: the class of an engine command from its name.\<close>

definition get_command_class :: "string \<Rightarrow> (val \<Rightarrow> cmd_kind) option" where
  "get_command_class name =
     (if name = ''noop'' then Some (\<lambda>_. Noop)
      else if name = ''fail'' then Some FailWorkflow
      else if name = ''succeed'' then Some SucceedWorkflow
      else if name = ''pause'' then Some PauseWorkflow
      else None)"

definition create_command ::
  "string \<Rightarrow> task_spec option \<Rightarrow> val dict \<Rightarrow> val dict option \<Rightarrow> trigger list option \<Rightarrow> bool \<Rightarrow> command res" where
  "create_command name spec ctx params triggered_by handles_error =
     (let mk = (\<lambda>k. \<lparr>cmd_kind = k, cmd_spec = spec, cmd_ctx = ctx, cmd_triggered_by = triggered_by,
                     cmd_handles_error = handles_error\<rparr>)
      in case get_command_class name of
           None \<Rightarrow> Inr (mk (RunTask None))
         | Some cls \<Rightarrow>
             (if set_state_of (cls VNone) = None then Inr (mk (cls VNone))
              else (case params of
                 None \<Rightarrow> Inl AttributeError
               | Some p \<Rightarrow> Inr (mk (cls (dget_default p ''msg'' VNone))))))"

fun cmd_name_of :: "cmd_kind \<Rightarrow> string \<Rightarrow> string" where
  "cmd_name_of Noop n = ''noop''"
| "cmd_name_of (RunTask _) n = n"
| "cmd_name_of (RunExistingTask _ _ _ _) n = ''run_existing_task''"
| "cmd_name_of (SkipTask _) n = ''skip_task''"
| "cmd_name_of (FailWorkflow _) n = ''fail''"
| "cmd_name_of (SucceedWorkflow _) n = ''succeed''"
| "cmd_name_of (PauseWorkflow _) n = ''pause''"

definition to_dict :: "command \<Rightarrow> cmd_dict res" where
  "to_dict c = (case cmd_spec c of
      None \<Rightarrow> Inl AttributeError
    | Some t \<Rightarrow> Inr \<lparr>cd_task_name = ts_name t, cd_ctx = cmd_ctx c, cd_triggered_by = cmd_triggered_by c,
        cd_cmd_name = cmd_name_of (cmd_kind c) (ts_name t),
        cd_new_state = map_option fst (set_state_of (cmd_kind c)),
        cd_msg = map_option snd (set_state_of (cmd_kind c)),
        cd_wait = (case cmd_kind c of RunTask k \<Rightarrow> Some (k \<noteq> None) | _ \<Rightarrow> None),
        cd_unique_key = (case cmd_kind c of RunTask k \<Rightarrow> Some k | RunExistingTask _ _ k _ \<Rightarrow> Some k
                         | SkipTask t \<Rightarrow> Some (te_unique_key t) | _ \<Rightarrow> None),
        cd_task_ex_id = (case cmd_kind c of RunExistingTask t _ _ _ \<Rightarrow> Some (te_id t) | SkipTask t \<Rightarrow> Some (te_id t) | _ \<Rightarrow> None),
        cd_reset = (case cmd_kind c of RunExistingTask _ r _ _ \<Rightarrow> Some r | _ \<Rightarrow> None)\<rparr>)"

definition restore_command_from_dict :: "workflow_spec \<Rightarrow> cmd_dict \<Rightarrow> command res" where
  "restore_command_from_dict w d =
     create_command (cd_cmd_name d) (get_task w (cd_task_name d)) (cd_ctx d)
       (case cd_msg d of None \<Rightarrow> None | Some m \<Rightarrow> Some [(''msg'', m)]) (cd_triggered_by d) False"

section \<open>Lemmas\<close>

lemma set_state_of_cases:
  "set_state_of k = Some (s, m) \<longleftrightarrow>
     (k = FailWorkflow m \<and> s = ERROR) \<or> (k = SucceedWorkflow m \<and> s = SUCCESS) \<or> (k = PauseWorkflow m \<and> s = PAUSED)"
  by (cases k) auto

lemma get_command_class_name [simp]:
  "get_command_class ''noop'' = Some (\<lambda>_. Noop)" "get_command_class ''fail'' = Some FailWorkflow"
  "get_command_class ''succeed'' = Some SucceedWorkflow" "get_command_class ''pause'' = Some PauseWorkflow"
  "get_command_class ''run_existing_task'' = None" "get_command_class ''skip_task'' = None"
  by (simp_all add: get_command_class_def)

lemma get_command_class_task: "n \<notin> set ENGINE_COMMANDS \<Longrightarrow> get_command_class n = None"
  by (auto simp: get_command_class_def ENGINE_COMMANDS_def)

lemma get_command_class_Some: "get_command_class n \<noteq> None \<longleftrightarrow> n \<in> set ENGINE_COMMANDS"
  by (auto simp: get_command_class_def ENGINE_COMMANDS_def)

lemma restore_kinds:
  "restore_command_from_dict w d = Inr c \<Longrightarrow> is_run_task c \<or> is_engine_command c"
  by (auto simp: restore_command_from_dict_def create_command_def get_command_class_def Let_def
      is_engine_command_def cmd_class_defs split: if_splits option.splits)

lemma restore_not_waiting: "restore_command_from_dict w d = Inr c \<Longrightarrow> \<not> is_waiting_cmd c"
  by (auto simp: restore_command_from_dict_def create_command_def get_command_class_def Let_def cmd_class_defs
      split: if_splits option.splits)

text \<open>
  C36. A command that sets the workflow state or does nothing survives the backlog: restoring its
  dictionary gives the command back, except that the flag for a handled error is lost. (That the dictionary is stored as JSON in
  between is not modelled.)
\<close>

theorem engine_command_roundtrip:
  assumes "is_engine_command c" and "cmd_spec c = get_task w n" and "cmd_spec c = Some t" and "ts_name t = n"
  shows "bind_res (to_dict c) (restore_command_from_dict w) = Inr (c\<lparr>cmd_handles_error := False\<rparr>)"
  using assms
  by (cases c; cases "cmd_kind c")
    (auto simp: to_dict_def restore_command_from_dict_def create_command_def is_engine_command_def cmd_class_defs
      dget_default_def Let_def)

theorem engine_command_roundtrip_witness:
  "bind_res (to_dict \<lparr>cmd_kind = FailWorkflow (VStr ''no''), cmd_spec = Some (mk_task ''t''), cmd_ctx = [],
       cmd_triggered_by = None, cmd_handles_error = True\<rparr>) (restore_command_from_dict (mk_wf [mk_task ''t''])) =
   Inr (\<lparr>cmd_kind = FailWorkflow (VStr ''no''), cmd_spec = Some (mk_task ''t''), cmd_ctx = [],
       cmd_triggered_by = None, cmd_handles_error = True\<rparr>\<lparr>cmd_handles_error := False\<rparr>)"
  by (rule engine_command_roundtrip [where n = "''t''" and t = "mk_task ''t''"])
    (simp_all add: is_engine_command_def cmd_class_defs get_task_def mk_wf_def mk_task_def)

text \<open>
  A task command does not survive it: what is restored is always a plain \<^verbatim>\<open>RunTask\<close> without
  a unique key. So a join task saved while the workflow is paused no longer waits for its
  preconditions, and a command to run or skip an existing task becomes one that creates a new
  execution of the task.
\<close>

theorem task_command_restored_plain:
  assumes "\<not> is_engine_command c" and "cmd_spec c = Some t" and "get_task w (ts_name t) = Some t"
    and "ts_name t \<notin> set ENGINE_COMMANDS"
  shows "bind_res (to_dict c) (restore_command_from_dict w) =
         Inr (c\<lparr>cmd_kind := RunTask None, cmd_handles_error := False\<rparr>)"
  using assms
  by (cases c; cases "cmd_kind c")
    (auto simp: to_dict_def restore_command_from_dict_def create_command_def is_engine_command_def cmd_class_defs
      get_command_class_task Let_def)

theorem task_command_restored_plain_witness:
  "bind_res (to_dict \<lparr>cmd_kind = RunTask (Some ''join-task-w-t''), cmd_spec = Some (mk_task ''t''), cmd_ctx = [],
       cmd_triggered_by = None, cmd_handles_error = False\<rparr>) (restore_command_from_dict (mk_wf [mk_task ''t''])) =
   Inr (\<lparr>cmd_kind = RunTask (Some ''join-task-w-t''), cmd_spec = Some (mk_task ''t''), cmd_ctx = [],
       cmd_triggered_by = None, cmd_handles_error = False\<rparr>\<lparr>cmd_kind := RunTask None, cmd_handles_error := False\<rparr>)"
  by (rule task_command_restored_plain [where t = "mk_task ''t''"])
    (simp_all add: is_engine_command_def cmd_class_defs get_task_def mk_wf_def mk_task_def ENGINE_COMMANDS_def)

end
