(* ===== verification/Engine_World.thy ===== *)
theory Engine_World
  imports Data_Flow Commands
begin

text \<open>
  The state the engine works on and how its operations are sequenced: the tables of executions, the
  jobs given to the scheduler, the operations registered with \<^verbatim>\<open>post_tx_queue\<close>, the clock and the
  supply of identifiers. An operation of the engine is a function from the world to a result, which
  may be an exception, and the new world: what was changed before an exception stays changed, so
  that a handler that catches it sees it, as in the code.

  An object of the session is its row; \<open>te_db_state\<close> and \<open>we_db_state\<close> let a concurrent transaction
  have changed the state column since (see \<open>update_task_execution_state\<close>).
\<close>

section \<open>The world\<close>

text \<open>The functions given to the scheduler, with their arguments.\<close>

datatype job_func =
    ContinueTask string
  | CompleteTask string state "string option"
  | FailTaskIfIncomplete string int
  | RefreshTaskState string
  | ScheduledOnActionComplete string bool
  | ScheduledOnActionUpdate string bool
  | CheckAndFixIntegrity string

record job =
  job_run_after :: int
  job_func :: job_func
  job_key :: "string option"
  job_processing :: bool

text \<open>The closures registered with \<^verbatim>\<open>post_tx_queue.register_operation\<close>.\<close>

datatype operation =
    StartTaskOp string bool bool "trigger list option" bool bool
  | RunActionOp string val "val option" "val option"
  | CheckAndCompleteOp string
  | ScheduleRefreshIfNeededOp string
  | SendResultOp string "(string \<times> bool) option"
  | StartSubworkflowOp string string "val dict" "val dict"
  | NotifyOp string "string option" "val list"

record world =
  w_wfs :: "wf_ex dict"
  w_tasks :: "task_ex dict"
  w_actions :: "action_ex dict"
  w_jobs :: "job list"
  w_ops :: "(operation \<times> bool) list"
  w_now :: int
  w_next_id :: nat

definition empty_world :: world where
  "empty_world = \<lparr>w_wfs = [], w_tasks = [], w_actions = [], w_jobs = [], w_ops = [], w_now = 0, w_next_id = 0\<rparr>"

text \<open>The fields of an engine \<^verbatim>\<open>Task\<close> object (\<^verbatim>\<open>Task.__init__\<close>); executions are held by their ids.\<close>

record task_obj =
  to_wf_id :: string
  to_wf_spec :: workflow_spec
  to_spec :: task_spec
  to_ctx :: "val dict"
  to_task_id :: "string option"
  to_unique_key :: "string option"
  to_waiting :: bool
  to_triggered_by :: "trigger list option"
  to_rerun :: bool
  to_reset :: bool
  to_created :: bool
  to_changed :: bool

section \<open>Sequencing\<close>

type_synonym 'a eng = "world \<Rightarrow> 'a res \<times> world"

definition ret :: "'a \<Rightarrow> 'a eng" where
  "ret x = (\<lambda>w. (Inr x, w))"

definition raise_e :: "exn \<Rightarrow> 'a eng" where
  "raise_e x = (\<lambda>w. (Inl x, w))"

definition lift_res :: "'a res \<Rightarrow> 'a eng" where
  "lift_res r = (\<lambda>w. (r, w))"

definition ebind :: "'a eng \<Rightarrow> ('a \<Rightarrow> 'b eng) \<Rightarrow> 'b eng" where
  "ebind m f = (\<lambda>w. case m w of (Inl x, w') \<Rightarrow> (Inl x, w') | (Inr a, w') \<Rightarrow> f a w')"

definition eseq :: "'a eng \<Rightarrow> 'b eng \<Rightarrow> 'b eng" where
  "eseq m n = ebind m (\<lambda>_. n)"

definition gets :: "(world \<Rightarrow> 'a) \<Rightarrow> 'a eng" where
  "gets f = (\<lambda>w. (Inr (f w), w))"

definition modify :: "(world \<Rightarrow> world) \<Rightarrow> unit eng" where
  "modify f = (\<lambda>w. (Inr (), f w))"

definition when_e :: "bool \<Rightarrow> unit eng \<Rightarrow> unit eng" where
  "when_e b m = (if b then m else ret ())"

text \<open>\<^verbatim>\<open>try: m except P as x: h x\<close>.\<close>

definition try_e :: "'a eng \<Rightarrow> (exn \<Rightarrow> bool) \<Rightarrow> (exn \<Rightarrow> 'a eng) \<Rightarrow> 'a eng" where
  "try_e m P h = (\<lambda>w. case m w of (Inl x, w') \<Rightarrow> (if P x then h x w' else (Inl x, w')) | r \<Rightarrow> r)"

fun for_each :: "'a list \<Rightarrow> ('a \<Rightarrow> unit eng) \<Rightarrow> unit eng" where
  "for_each [] f = ret ()"
| "for_each (x # xs) f = eseq (f x) (for_each xs f)"

fun map_e :: "('a \<Rightarrow> 'b eng) \<Rightarrow> 'a list \<Rightarrow> 'b list eng" where
  "map_e f [] = ret []"
| "map_e f (x # xs) = ebind (f x) (\<lambda>y. ebind (map_e f xs) (\<lambda>ys. ret (y # ys)))"

definition assert_e :: "bool \<Rightarrow> unit eng" where
  "assert_e b = (if b then ret () else raise_e AssertionError)"

section \<open>Database operations\<close>

definition load_task_execution :: "string \<Rightarrow> task_ex option eng" where
  "load_task_execution i = gets (\<lambda>w. dget (w_tasks w) i)"

definition get_task_execution :: "string \<Rightarrow> task_ex eng" where
  "get_task_execution i = (\<lambda>w. case dget (w_tasks w) i of
     Some t \<Rightarrow> (Inr t, w) | None \<Rightarrow> (Inl (DBEntityNotFoundError i), w))"

definition load_workflow_execution :: "string \<Rightarrow> wf_ex option eng" where
  "load_workflow_execution i = gets (\<lambda>w. dget (w_wfs w) i)"

definition get_workflow_execution :: "string \<Rightarrow> wf_ex eng" where
  "get_workflow_execution i = (\<lambda>w. case dget (w_wfs w) i of
     Some x \<Rightarrow> (Inr x, w) | None \<Rightarrow> (Inl (DBEntityNotFoundError i), w))"

definition load_action_execution :: "string \<Rightarrow> action_ex option eng" where
  "load_action_execution i = gets (\<lambda>w. dget (w_actions w) i)"

definition get_action_execution :: "string \<Rightarrow> action_ex eng" where
  "get_action_execution i = (\<lambda>w. case dget (w_actions w) i of
     Some a \<Rightarrow> (Inr a, w) | None \<Rightarrow> (Inl (DBEntityNotFoundError i), w))"

text \<open>Setting columns of a row (nothing happens if the row is gone).\<close>

definition upd_row :: "(string \<Rightarrow> 'r \<Rightarrow> 'r) \<Rightarrow> string \<Rightarrow> 'r dict \<Rightarrow> 'r dict" where
  "upd_row f i d = (case dget d i of None \<Rightarrow> d | Some r \<Rightarrow> dset i (f i r) d)"

definition upd_task :: "string \<Rightarrow> (task_ex \<Rightarrow> task_ex) \<Rightarrow> unit eng" where
  "upd_task i f = modify (\<lambda>w. w\<lparr>w_tasks := upd_row (\<lambda>_. f) i (w_tasks w)\<rparr>)"

definition upd_wf :: "string \<Rightarrow> (wf_ex \<Rightarrow> wf_ex) \<Rightarrow> unit eng" where
  "upd_wf i f = modify (\<lambda>w. w\<lparr>w_wfs := upd_row (\<lambda>_. f) i (w_wfs w)\<rparr>)"

definition upd_action :: "string \<Rightarrow> (action_ex \<Rightarrow> action_ex) \<Rightarrow> unit eng" where
  "upd_action i f = modify (\<lambda>w. w\<lparr>w_actions := upd_row (\<lambda>_. f) i (w_actions w)\<rparr>)"

text \<open>
  The functions that create rows: an id that is taken raises, and so does a \<^verbatim>\<open>unique_key\<close> that another
  task execution has (the unique constraint of the table; NULL is not compared).
\<close>

definition unique_key_taken :: "task_ex \<Rightarrow> world \<Rightarrow> bool" where
  "unique_key_taken t w \<longleftrightarrow> te_unique_key t \<noteq> None \<and> te_unique_key t \<in> set (map (te_unique_key \<circ> snd) (w_tasks w))"

definition create_task_row :: "task_ex \<Rightarrow> unit eng" where
  "create_task_row t = (\<lambda>w. if dhas (w_tasks w) (te_id t) \<or> unique_key_taken t w then (Inl (DBDuplicateEntryError (te_id t)), w)
     else (Inr (), w\<lparr>w_tasks := dset (te_id t) t (w_tasks w)\<rparr>))"

definition create_wf_row :: "wf_ex \<Rightarrow> unit eng" where
  "create_wf_row x = (\<lambda>w. if dhas (w_wfs w) (we_id x) then (Inl (DBDuplicateEntryError (we_id x)), w)
     else (Inr (), w\<lparr>w_wfs := dset (we_id x) x (w_wfs w)\<rparr>))"

definition create_action_row :: "action_ex \<Rightarrow> unit eng" where
  "create_action_row a = (\<lambda>w. if dhas (w_actions w) (ae_id a) then (Inl (DBDuplicateEntryError (ae_id a)), w)
     else (Inr (), w\<lparr>w_actions := dset (ae_id a) a (w_actions w)\<rparr>))"

text \<open>
  \<^verbatim>\<open>update_task_execution_state(id, cur_state, state)\<close>: an UPDATE with the condition that the column
  still has \<^verbatim>\<open>cur_state\<close>; None (here False) if it changed no row.
\<close>

definition update_task_execution_state :: "string \<Rightarrow> state \<Rightarrow> state \<Rightarrow> bool eng" where
  "update_task_execution_state i cur s = (\<lambda>w. case dget (w_tasks w) i of
      None \<Rightarrow> (Inr False, w)
    | Some t \<Rightarrow>
        (if te_db_state t = cur
         then (Inr True, w\<lparr>w_tasks := dset i (t\<lparr>te_state := s, te_db_state := s, te_updated_at := w_now w\<rparr>) (w_tasks w)\<rparr>)
         else (Inr False, w)))"

definition update_workflow_execution_state :: "string \<Rightarrow> state \<Rightarrow> state \<Rightarrow> bool eng" where
  "update_workflow_execution_state i cur s = (\<lambda>w. case dget (w_wfs w) i of
      None \<Rightarrow> (Inr False, w)
    | Some x \<Rightarrow>
        (if we_db_state x = cur
         then (Inr True, w\<lparr>w_wfs := dset i (x\<lparr>we_state := s, we_db_state := s, we_updated_at := w_now w\<rparr>) (w_wfs w)\<rparr>)
         else (Inr False, w)))"

definition wf_tasks :: "string \<Rightarrow> world \<Rightarrow> task_ex list" where
  "wf_tasks i w = filter (\<lambda>t. te_wf_id t = i) (map snd (w_tasks w))"

definition sub_workflows :: "string \<Rightarrow> world \<Rightarrow> wf_ex list" where
  "sub_workflows tid w = filter (\<lambda>x. we_task_id x = Some tid) (map snd (w_wfs w))"

definition task_actions :: "string \<Rightarrow> world \<Rightarrow> action_ex list" where
  "task_actions tid w = filter (\<lambda>a. ae_task_id a = Some tid) (map snd (w_actions w))"

text \<open>\<^verbatim>\<open>TaskExecution.executions\<close>.\<close>

definition runs_workflow :: "task_spec \<Rightarrow> bool" where
  "runs_workflow t \<longleftrightarrow> (case ts_workflow t of None \<Rightarrow> False | Some n \<Rightarrow> n \<noteq> [])"

definition executions_of :: "task_ex \<Rightarrow> world \<Rightarrow> child_ex list" where
  "executions_of t w =
     (if \<not> runs_workflow (te_spec t) then map child_of_action (task_actions (te_id t) w)
      else map child_of_wf (sub_workflows (te_id t) w))"

text \<open>Setting \<^verbatim>\<open>accepted\<close> of a child execution to False.\<close>

definition unaccept :: "child_ex \<Rightarrow> unit eng" where
  "unaccept c = (if ce_is_wf c then upd_wf (ce_id c) (\<lambda>x. x\<lparr>we_accepted := False\<rparr>)
                 else upd_action (ce_id c) (\<lambda>a. a\<lparr>ae_accepted := False\<rparr>))"

definition root_of :: "wf_ex \<Rightarrow> world \<Rightarrow> wf_ex option" where
  "root_of x w = (case we_root_id x of None \<Rightarrow> None | Some r \<Rightarrow> dget (w_wfs w) r)"

definition schedule_job :: "job \<Rightarrow> unit eng" where
  "schedule_job j = modify (\<lambda>w. w\<lparr>w_jobs := w_jobs w @ [j]\<rparr>)"

definition has_scheduled_jobs :: "string \<Rightarrow> bool \<Rightarrow> world \<Rightarrow> bool" where
  "has_scheduled_jobs key processing w \<longleftrightarrow>
     (\<exists>j \<in> set (w_jobs w). job_key j = Some key \<and> job_processing j = processing)"

text \<open>\<^verbatim>\<open>register_operation(func, in_tx)\<close>.\<close>

definition register_operation :: "operation \<Rightarrow> bool \<Rightarrow> unit eng" where
  "register_operation f in_tx = modify (\<lambda>w. w\<lparr>w_ops := w_ops w @ [(f, in_tx)]\<rparr>)"

section \<open>Lemmas\<close>

lemma eng_simps [simp]:
  "ret x w = (Inr x, w)" "raise_e e w = (Inl e, w)" "lift_res r w = (r, w)" "gets f w = (Inr (f w), w)"
  "modify g w = (Inr (), g w)"
  by (simp_all add: ret_def raise_e_def lift_res_def gets_def modify_def)

lemma ebind_run: "ebind m f w = (case m w of (Inl x, w') \<Rightarrow> (Inl x, w') | (Inr a, w') \<Rightarrow> f a w')"
  by (simp add: ebind_def)

lemma eseq_run: "eseq m n w = (case m w of (Inl x, w') \<Rightarrow> (Inl x, w') | (Inr a, w') \<Rightarrow> n w')"
  by (simp add: eseq_def ebind_def)

lemma try_e_run: "try_e m P h w = (case m w of (Inl x, w') \<Rightarrow> (if P x then h x w' else (Inl x, w')) | r \<Rightarrow> r)"
  by (simp add: try_e_def)

lemma when_e_run: "when_e b m w = (if b then m w else (Inr (), w))"
  by (simp add: when_e_def)

lemma assert_e_run: "assert_e b w = (if b then (Inr (), w) else (Inl AssertionError, w))"
  by (simp add: assert_e_def)

lemmas run_simps = ebind_run eseq_run try_e_run when_e_run assert_e_run

lemma dget_upd_row: "dget (upd_row f i d) j = (if j = i then map_option (f i) (dget d i) else dget d j)"
  by (auto simp: upd_row_def split: option.split)

text \<open>
  Frames: what holds between the world before and after every step of an operation holds between
  the world before and after the operation. \<open>R\<close> is what the steps guarantee.
\<close>

definition steps :: "(world \<Rightarrow> world \<Rightarrow> bool) \<Rightarrow> 'a eng \<Rightarrow> bool" where
  "steps R m \<longleftrightarrow> (\<forall>w. R w (snd (m w)))"

locale world_relation =
  fixes R :: "world \<Rightarrow> world \<Rightarrow> bool"
  assumes R_refl: "R w w"
    and R_trans: "R u v \<Longrightarrow> R v w \<Longrightarrow> R u w"
begin

lemma steps_pure:
  "steps R (ret x)" "steps R (raise_e e)" "steps R (lift_res r)" "steps R (gets f)" "steps R (assert_e b)"
  by (simp_all add: steps_def R_refl assert_e_def)

lemma stepsD: "steps R m \<Longrightarrow> m w = (r, w') \<Longrightarrow> R w w'"
  unfolding steps_def by (metis snd_conv)

lemma steps_bind: "steps R m \<Longrightarrow> (\<And>x. steps R (f x)) \<Longrightarrow> steps R (ebind m f)"
  by (subst steps_def) (auto simp: ebind_run intro: stepsD R_trans steps_def [THEN iffD1, rule_format]
      split: prod.splits sum.splits)

lemma steps_seq: "steps R m \<Longrightarrow> steps R n \<Longrightarrow> steps R (eseq m n)"
  unfolding eseq_def by (rule steps_bind)

lemma steps_try: "steps R m \<Longrightarrow> (\<And>x. steps R (h x)) \<Longrightarrow> steps R (try_e m P h)"
  by (subst steps_def) (auto simp: try_e_run intro: stepsD R_trans steps_def [THEN iffD1, rule_format]
      split: prod.splits sum.splits)

lemma steps_when: "(b \<Longrightarrow> steps R m) \<Longrightarrow> steps R (when_e b m)"
  by (simp add: when_e_def steps_pure)

lemma steps_for_each: "(\<And>x. x \<in> set xs \<Longrightarrow> steps R (f x)) \<Longrightarrow> steps R (for_each xs f)"
  by (induction xs) (simp_all add: steps_pure steps_seq)

lemma steps_map_e: "(\<And>x. x \<in> set xs \<Longrightarrow> steps R (f x)) \<Longrightarrow> steps R (map_e f xs)"
  by (induction xs) (auto intro!: steps_pure steps_bind)

lemma steps_read:
  "steps R (load_task_execution i)" "steps R (get_task_execution i)" "steps R (load_workflow_execution i)"
  "steps R (get_workflow_execution i)" "steps R (load_action_execution i)" "steps R (get_action_execution i)"
  by (auto simp: steps_def R_refl load_task_execution_def get_task_execution_def load_workflow_execution_def
      get_workflow_execution_def load_action_execution_def get_action_execution_def split: option.split)

lemma steps_if: "(b \<Longrightarrow> steps R m) \<Longrightarrow> (\<not> b \<Longrightarrow> steps R n) \<Longrightarrow> steps R (if b then m else n)"
  by simp

lemma steps_option: "(x = None \<Longrightarrow> steps R m) \<Longrightarrow> (\<And>y. x = Some y \<Longrightarrow> steps R (f y)) \<Longrightarrow>
  steps R (case x of None \<Rightarrow> m | Some y \<Rightarrow> f y)"
  by (simp split: option.split)

lemma steps_let: "steps R (f x) \<Longrightarrow> steps R (Let x f)"
  by simp

lemmas steps_intros = steps_pure steps_bind steps_seq steps_try steps_when steps_for_each steps_map_e steps_read
  steps_if steps_option steps_let

end

end
