(* ===== verification/Notification_Events.thy ===== *)
theory Notification_Events
  imports Engine_World
begin

text \<open>
  \<^verbatim>\<open>mistral/notifiers/notification_events.py\<close> and the filtering of publishers that
  \<^verbatim>\<open>Task._notify\<close> and \<^verbatim>\<open>Workflow._notify\<close> share: which event a state change is, and whom it is
  sent to. An event map is a table from the new state to the options, with the option ANY.
\<close>

text \<open>The option under \<^verbatim>\<open>'ANY'\<close> and the options of the other old states.\<close>

type_synonym event_options = "string \<times> (state \<times> string) list"

fun task_event_map :: "state \<Rightarrow> event_options option" where
  "task_event_map RUNNING = Some (''TASK_LAUNCHED'',
     [(IDLE, ''TASK_RESUMED''), (PAUSED, ''TASK_RESUMED''), (WAITING, ''TASK_RESUMED''), (ERROR, ''TASK_RERUN'')])"
| "task_event_map SUCCESS = Some (''TASK_SUCCEEDED'', [])"
| "task_event_map ERROR = Some (''TASK_FAILED'', [])"
| "task_event_map CANCELLED = Some (''TASK_CANCELLED'', [])"
| "task_event_map PAUSED = Some (''TASK_PAUSED'', [])"
| "task_event_map SKIPPED = Some (''TASK_SKIPPED'', [])"
| "task_event_map _ = None"

fun wf_event_map :: "state \<Rightarrow> event_options option" where
  "wf_event_map RUNNING = Some (''WORKFLOW_LAUNCHED'',
     [(IDLE, ''WORKFLOW_LAUNCHED''), (PAUSED, ''WORKFLOW_RESUMED''), (ERROR, ''WORKFLOW_RERUN'')])"
| "wf_event_map SUCCESS = Some (''WORKFLOW_SUCCEEDED'', [])"
| "wf_event_map ERROR = Some (''WORKFLOW_FAILED'', [])"
| "wf_event_map CANCELLED = Some (''WORKFLOW_CANCELLED'', [])"
| "wf_event_map PAUSED = Some (''WORKFLOW_PAUSED'', [])"
| "wf_event_map _ = None"

definition identify_event :: "state option \<Rightarrow> state \<Rightarrow> (state \<Rightarrow> event_options option) \<Rightarrow> string option" where
  "identify_event from_state to_state event_map =
     (case event_map to_state of
        None \<Rightarrow> None
      | Some (any, options) \<Rightarrow>
          (case from_state of
             None \<Rightarrow> Some any
           | Some f \<Rightarrow> (case map_of options f of None \<Rightarrow> Some any | Some ev \<Rightarrow> Some ev)))"

definition identify_task_event :: "state option \<Rightarrow> state \<Rightarrow> string option" where
  "identify_task_event f t = identify_event f t task_event_map"

definition identify_workflow_event :: "state option \<Rightarrow> state \<Rightarrow> string option" where
  "identify_workflow_event f t = identify_event f t wf_event_map"

section \<open>Publishers\<close>

fun is_prefix_of :: "string \<Rightarrow> string \<Rightarrow> bool" where
  "is_prefix_of [] s = True"
| "is_prefix_of (c # cs) [] = False"
| "is_prefix_of (c # cs) (d # ds) = (c = d \<and> is_prefix_of cs ds)"

fun is_substring :: "string \<Rightarrow> string \<Rightarrow> bool" where
  "is_substring p [] = (p = [])"
| "is_substring p (c # s) = (is_prefix_of p (c # s) \<or> is_substring p s)"

text \<open>\<^verbatim>\<open>event in target_events\<close>.\<close>

definition event_in :: "string option \<Rightarrow> val \<Rightarrow> bool res" where
  "event_in ev v = (case v of
      VList xs \<Rightarrow> Inr ((case ev of None \<Rightarrow> VNone | Some s \<Rightarrow> VStr s) \<in> set xs)
    | VDict d \<Rightarrow> Inr (case ev of None \<Rightarrow> False | Some s \<Rightarrow> dhas d s)
    | VStr t \<Rightarrow> (case ev of None \<Rightarrow> Inl TypeError | Some s \<Rightarrow> Inr (is_substring s t))
    | _ \<Rightarrow> Inl TypeError)"

definition wants_event :: "string option \<Rightarrow> val \<Rightarrow> bool res" where
  "wants_event ev publisher = (case publisher of
      VDict d \<Rightarrow> (let target = dget_default d ''event_types'' (VList [])
                 in if \<not> truthy target then Inr True else event_in ev target)
    | _ \<Rightarrow> Inr False)"

definition filter_publishers :: "val option \<Rightarrow> string option \<Rightarrow> val list res" where
  "filter_publishers publishers ev = (case publishers of
      None \<Rightarrow> Inr []
    | Some (VList xs) \<Rightarrow> filter_res (wants_event ev) xs
    | Some v \<Rightarrow> (if \<not> truthy v then Inr [] else (case v of VStr _ \<Rightarrow> Inr [] | VDict _ \<Rightarrow> Inr [] | _ \<Rightarrow> Inl TypeError)))"

definition notify :: "val dict \<Rightarrow> string \<Rightarrow> string option \<Rightarrow> unit eng" where
  "notify params i ev =
     ebind (lift_res (filter_publishers (dget params ''notify'') ev)) (\<lambda>ps.
       when_e (ps \<noteq> []) (register_operation (NotifyOp i ev ps) False))"

section \<open>Lemmas\<close>

text \<open>
  Every change of a task or workflow into a finished state, and into PAUSED, is announced by
  the event of that state, whatever the state before; a change to RUNNING is announced as a
  launch unless the object was idle, paused, waiting or failed. Other changes have no event.
\<close>

lemma event_of_state_change:
  "identify_task_event f t =
     (case t of SUCCESS \<Rightarrow> Some ''TASK_SUCCEEDED'' | ERROR \<Rightarrow> Some ''TASK_FAILED'' | CANCELLED \<Rightarrow> Some ''TASK_CANCELLED''
      | SKIPPED \<Rightarrow> Some ''TASK_SKIPPED'' | PAUSED \<Rightarrow> Some ''TASK_PAUSED''
      | RUNNING \<Rightarrow> Some (if f = Some ERROR then ''TASK_RERUN''
          else if f \<in> {Some IDLE, Some PAUSED, Some WAITING} then ''TASK_RESUMED'' else ''TASK_LAUNCHED'')
      | _ \<Rightarrow> None)"
  by (cases t; cases f) (auto simp: identify_task_event_def identify_event_def split: option.split)

lemma filter_publishers_sub: "filter_publishers p ev = Inr ps \<Longrightarrow> p = Some (VList xs) \<Longrightarrow> set ps \<subseteq> set xs"
  by (auto simp: filter_publishers_def dest: filter_res_subset)

lemma notify_none: "dget params ''notify'' = None \<Longrightarrow> notify params i ev w = (Inr (), w)"
  by (simp add: notify_def filter_publishers_def ebind_run when_e_run)

lemma notify_only_ops: "\<exists>ops. snd (notify params i ev w) = w\<lparr>w_ops := w_ops w @ ops\<rparr>"
proof (cases "filter_publishers (dget params ''notify'') ev")
  case (Inl a)
  then show ?thesis by (intro exI [of _ "[]"]) (simp add: notify_def ebind_run)
next
  case (Inr b)
  then show ?thesis
    by (intro exI [of _ "if b = [] then [] else [(NotifyOp i ev b, False)]"])
      (simp add: notify_def ebind_run when_e_run register_operation_def)
qed

end
