(* ===== verification/Py_Sort.thy ===== *)
theory Py_Sort
  imports Prelude "HOL-Library.Multiset"
begin

text \<open>
  \<^verbatim>\<open>list.sort\<close> of CPython for lists of fewer than 64 elements, on the comparison \<open>lt\<close> (\<^verbatim>\<open>cmp(a, b) < 0\<close>
  for \<^verbatim>\<open>functools.cmp_to_key\<close>): the longest ascending or strictly descending prefix is found, a
  descending one is reversed, and each further element is inserted behind the equal ones by a binary
  search. The comparison need not be an order; the sort makes exactly these comparisons.
\<close>

text \<open>The length of the prefix of \<open>y # xs\<close>, after a first element \<open>x\<close>, whose steps satisfy \<open>P\<close>.\<close>

fun run_tail :: "('a \<Rightarrow> 'a \<Rightarrow> bool) \<Rightarrow> 'a \<Rightarrow> 'a list \<Rightarrow> 'a list \<times> 'a list" where
  "run_tail P x [] = ([], [])"
| "run_tail P x (y # ys) = (if P x y then (let (r, s) = run_tail P y ys in (y # r, s)) else ([], y # ys))"

definition count_run :: "('a \<Rightarrow> 'a \<Rightarrow> bool) \<Rightarrow> 'a list \<Rightarrow> 'a list \<times> 'a list" where
  "count_run lt xs = (case xs of
      [] \<Rightarrow> ([], [])
    | [x] \<Rightarrow> ([x], [])
    | x # y # ys \<Rightarrow>
        (if lt y x then (let (r, s) = run_tail (\<lambda>a b. lt b a) y ys in (rev (x # y # r), s))
         else (let (r, s) = run_tail (\<lambda>a b. \<not> lt b a) y ys in (x # y # r, s))))"

function bsearch :: "('a \<Rightarrow> 'a \<Rightarrow> bool) \<Rightarrow> 'a \<Rightarrow> 'a list \<Rightarrow> nat \<Rightarrow> nat \<Rightarrow> nat" where
  "bsearch lt pivot xs l r =
     (if l < r then (let p = l + (r - l) div 2
                     in if lt pivot (xs ! p) then bsearch lt pivot xs l p else bsearch lt pivot xs (p + 1) r)
      else l)"
  by pat_completeness auto

termination by (relation "measure (\<lambda>(lt, pivot, xs, l, r). r - l)") auto

declare bsearch.simps [simp del]

definition insert_at :: "nat \<Rightarrow> 'a \<Rightarrow> 'a list \<Rightarrow> 'a list" where
  "insert_at i x xs = take i xs @ x # drop i xs"

fun binary_sort :: "('a \<Rightarrow> 'a \<Rightarrow> bool) \<Rightarrow> 'a list \<Rightarrow> 'a list \<Rightarrow> 'a list" where
  "binary_sort lt sorted_part [] = sorted_part"
| "binary_sort lt sorted_part (x # xs) =
     binary_sort lt (insert_at (bsearch lt x sorted_part 0 (length sorted_part)) x sorted_part) xs"

definition py_sort :: "('a \<Rightarrow> 'a \<Rightarrow> bool) \<Rightarrow> 'a list \<Rightarrow> 'a list" where
  "py_sort lt xs = (let (r, s) = count_run lt xs in binary_sort lt r s)"

section \<open>Lemmas\<close>

lemma run_tail_split: "run_tail P x xs = (r, s) \<Longrightarrow> r @ s = xs"
  by (induction P x xs arbitrary: r rule: run_tail.induct) (auto split: if_splits prod.splits)

lemma run_tail_steps: "run_tail P x xs = (r, s) \<Longrightarrow> i < length r \<Longrightarrow> P ((x # r) ! i) ((x # r) ! Suc i)"
proof (induction P x xs arbitrary: r i rule: run_tail.induct)
  case (2 P x y ys)
  then show ?case by (cases i) (auto split: if_splits prod.splits)
qed simp

text \<open>Where the comparison of the pivot with the sorted part flips once, the search finds the flip.\<close>

lemma bsearch_flip:
  assumes "l \<le> m" and "m \<le> r" and "\<And>i. l \<le> i \<Longrightarrow> i < m \<Longrightarrow> \<not> lt pivot (xs ! i)"
    and "\<And>i. m \<le> i \<Longrightarrow> i < r \<Longrightarrow> lt pivot (xs ! i)"
  shows "bsearch lt pivot xs l r = m"
  using assms
proof (induction lt pivot xs l r rule: bsearch.induct)
  case (1 lt pivot xs l r)
  define p where "p = l + (r - l) div 2"
  show ?case
  proof (cases "l < r")
    case False
    with "1.prems"(1,2) show ?thesis by (simp add: bsearch.simps)
  next
    case True
    then have p: "l \<le> p" "p < r" by (auto simp: p_def)
    show ?thesis
    proof (cases "lt pivot (xs ! p)")
      case True
      then have "m \<le> p" using "1.prems"(3) p by (meson not_le)
      with "1.IH"(1) [OF \<open>l < r\<close> p_def True] "1.prems" p True \<open>l < r\<close> show ?thesis
        by (subst bsearch.simps) (simp add: p_def [symmetric] Let_def)
    next
      case False
      then have "p < m" using "1.prems"(4) p by (meson not_le)
      with "1.IH"(2) [OF \<open>l < r\<close> p_def False] "1.prems" p False \<open>l < r\<close> show ?thesis
        by (subst bsearch.simps) (simp add: p_def [symmetric] Let_def)
    qed
  qed
qed

lemma bsearch_append:
  assumes "\<And>x. x \<in> set us \<Longrightarrow> \<not> lt pivot x" and "\<And>x. x \<in> set vs \<Longrightarrow> lt pivot x"
  shows "insert_at (bsearch lt pivot (us @ vs) 0 (length (us @ vs))) pivot (us @ vs) = us @ pivot # vs"
proof -
  have "bsearch lt pivot (us @ vs) 0 (length (us @ vs)) = length us"
  proof (rule bsearch_flip)
    show "\<not> lt pivot ((us @ vs) ! i)" if "0 \<le> i" "i < length us" for i
      using that assms(1) by (simp add: nth_append)
    show "lt pivot ((us @ vs) ! i)" if "length us \<le> i" "i < length (us @ vs)" for i
      using that assms(2) by (simp add: nth_append less_diff_conv2)
  qed simp_all
  then show ?thesis by (simp add: insert_at_def)
qed

lemma mset_insert_at: "mset (insert_at i x xs) = add_mset x (mset xs)"
proof -
  have "mset (take i xs) + mset (drop i xs) = mset xs"
    by (metis append_take_drop_id mset_append)
  then show ?thesis by (simp add: insert_at_def)
qed

lemma mset_binary_sort: "mset (binary_sort lt r s) = mset r + mset s"
  by (induction s arbitrary: r) (simp_all add: mset_insert_at)

lemma mset_py_sort: "mset (py_sort lt xs) = mset xs"
proof -
  obtain r s where rs: "count_run lt xs = (r, s)" by fastforce
  have "mset r + mset s = mset xs"
    using rs by (auto simp: count_run_def union_commute dest!: run_tail_split split: list.splits if_splits prod.splits)
  with rs show ?thesis by (simp add: py_sort_def mset_binary_sort)
qed

lemma set_py_sort [simp]: "set (py_sort lt xs) = set xs"
  by (metis mset_py_sort set_mset_mset)

section \<open>Sorting with a comparison that is not an order\<close>

text \<open>
  What a caller has to show about its comparison: there is a function of the input list that grows
  by one element at the one place where the comparison with the new element flips. Then the sort
  computes that function, whatever else the comparison answers.
\<close>

locale insertion_order =
  fixes lt :: "'a \<Rightarrow> 'a \<Rightarrow> bool" and arranged :: "'a list \<Rightarrow> 'a list"
  assumes arranged_Nil: "arranged [] = []"
    and flip: "\<exists>us vs. arranged xs = us @ vs \<and> arranged (xs @ [z]) = us @ z # vs \<and>
      (\<forall>u \<in> set us. \<not> lt z u) \<and> (\<forall>v \<in> set vs. lt z v)"
begin

lemma arranged_one: "arranged [x] = [x]"
  using flip [of "[]" x] by (auto simp: arranged_Nil)

lemma descending_run:
  "(\<And>i. Suc i < length xs \<Longrightarrow> lt (xs ! Suc i) (xs ! i)) \<Longrightarrow> arranged xs = rev xs"
proof (induction xs rule: rev_induct)
  case Nil
  then show ?case by (simp add: arranged_Nil)
next
  case (snoc z xs)
  have IH: "arranged xs = rev xs"
    using snoc.prems by (intro snoc.IH) (metis Suc_lessD butlast_snoc length_append_singleton less_SucI nth_butlast)
  obtain us vs where f: "arranged xs = us @ vs" "arranged (xs @ [z]) = us @ z # vs" "\<forall>u \<in> set us. \<not> lt z u"
    using flip by blast
  show ?case
  proof (cases xs rule: rev_cases)
    case Nil
    then show ?thesis by (simp add: arranged_one)
  next
    case (snoc ys y)
    with snoc.prems [of "length ys"] have "lt z y" by (simp add: nth_append)
    with IH f snoc have "us = []" by (cases us) auto
    with IH f show ?thesis by simp
  qed
qed

lemma ascending_run:
  "(\<And>i. Suc i < length xs \<Longrightarrow> \<not> lt (xs ! Suc i) (xs ! i)) \<Longrightarrow> arranged xs = xs"
proof (induction xs rule: rev_induct)
  case Nil
  then show ?case by (simp add: arranged_Nil)
next
  case (snoc z xs)
  have IH: "arranged xs = xs"
    using snoc.prems by (intro snoc.IH) (metis Suc_lessD butlast_snoc length_append_singleton less_SucI nth_butlast)
  obtain us vs where f: "arranged xs = us @ vs" "arranged (xs @ [z]) = us @ z # vs" "\<forall>v \<in> set vs. lt z v"
    using flip by blast
  show ?case
  proof (cases xs rule: rev_cases)
    case Nil
    then show ?thesis by (simp add: arranged_one)
  next
    case (snoc ys y)
    with snoc.prems [of "length ys"] have "\<not> lt z y" by (simp add: nth_append)
    with IH f snoc have "vs = []" by (cases vs rule: rev_cases) auto
    with IH f show ?thesis by simp
  qed
qed

lemma binary_sort_arranged: "binary_sort lt (arranged xs) ys = arranged (xs @ ys)"
proof (induction ys arbitrary: xs)
  case Nil
  then show ?case by simp
next
  case (Cons z ys)
  obtain us vs where f: "arranged xs = us @ vs" "arranged (xs @ [z]) = us @ z # vs"
    "\<forall>u \<in> set us. \<not> lt z u" "\<forall>v \<in> set vs. lt z v" using flip by blast
  have "insert_at (bsearch lt z (us @ vs) 0 (length (us @ vs))) z (us @ vs) = us @ z # vs"
    using f by (intro bsearch_append) auto
  with f have "binary_sort lt (arranged xs) (z # ys) = binary_sort lt (arranged (xs @ [z])) ys" by simp
  also have "\<dots> = arranged ((xs @ [z]) @ ys)" by (rule Cons.IH)
  finally show ?case by simp
qed

lemma count_run_arranged:
  assumes "count_run lt xs = (r, s)"
  shows "\<exists>p. r = arranged p \<and> p @ s = xs"
proof -
  consider "xs = []" | x where "xs = [x]" | x y ys where "xs = x # y # ys" by (cases xs rule: list.exhaust; metis list.exhaust)
  then show ?thesis
  proof cases
    case 1
    with assms show ?thesis by (auto simp: count_run_def arranged_Nil)
  next
    case 2
    with assms show ?thesis by (auto simp: count_run_def arranged_one)
  next
    case (3 x y ys)
    show ?thesis
    proof (cases "lt y x")
      case True
      obtain r' where r': "run_tail (\<lambda>a b. lt b a) y ys = (r', s)" "r = rev (x # y # r')"
        using assms True 3 by (auto simp: count_run_def split: prod.splits)
      have "arranged (x # y # r') = rev (x # y # r')"
      proof (rule descending_run)
        show "lt ((x # y # r') ! Suc i) ((x # y # r') ! i)" if "Suc i < length (x # y # r')" for i
          using that True run_tail_steps [OF r'(1)] by (cases i) auto
      qed
      with r' run_tail_split [OF r'(1)] 3 show ?thesis by (intro exI [of _ "x # y # r'"]) simp
    next
      case False
      obtain r' where r': "run_tail (\<lambda>a b. \<not> lt b a) y ys = (r', s)" "r = x # y # r'"
        using assms False 3 by (auto simp: count_run_def split: prod.splits)
      have "arranged (x # y # r') = x # y # r'"
      proof (rule ascending_run)
        show "\<not> lt ((x # y # r') ! Suc i) ((x # y # r') ! i)" if "Suc i < length (x # y # r')" for i
          using that False run_tail_steps [OF r'(1)] by (cases i) auto
      qed
      with r' run_tail_split [OF r'(1)] 3 show ?thesis by (intro exI [of _ "x # y # r'"]) simp
    qed
  qed
qed

lemma py_sort_arranged: "py_sort lt xs = arranged xs"
proof -
  obtain r s where rs: "count_run lt xs = (r, s)" by fastforce
  obtain p where "r = arranged p" "p @ s = xs" using count_run_arranged [OF rs] by blast
  with rs show ?thesis by (simp add: py_sort_def binary_sort_arranged)
qed

end

text \<open>With a comparison by a key it is the stable sort by that key.\<close>

lemma sort_key_snoc:
  "sort_key k (xs @ [z]) = filter (\<lambda>x. k x \<le> k z) (sort_key k xs) @ z # filter (\<lambda>x. \<not> k x \<le> k z) (sort_key k xs)"
  for k :: "'a \<Rightarrow> 'k :: linorder"
proof (rule properties_for_sort_key)
  show "mset (filter (\<lambda>x. k x \<le> k z) (sort_key k xs) @ z # filter (\<lambda>x. \<not> k x \<le> k z) (sort_key k xs)) = mset (xs @ [z])"
    by simp
  show "sorted (map k (filter (\<lambda>x. k x \<le> k z) (sort_key k xs) @ z # filter (\<lambda>x. \<not> k x \<le> k z) (sort_key k xs)))"
    by (auto simp: sorted_append sorted_filter)
  fix a
  have sel: "filter (\<lambda>x. k a = k x) (filter P (sort_key k xs)) = (if P a then filter (\<lambda>x. k a = k x) xs else [])"
    if "\<And>x. k a = k x \<Longrightarrow> P x = P a" for P
  proof -
    have "(k a = k x \<and> P x) = (P a \<and> k a = k x)" for x using that [of x] by auto
    then have "filter (\<lambda>x. k a = k x) (filter P (sort_key k xs)) = filter (\<lambda>x. P a \<and> k a = k x) (sort_key k xs)"
      by (simp add: conj_commute)
    moreover have "filter (\<lambda>x. k a = k x) (sort_key k xs) = filter (\<lambda>x. k a = k x) xs"
    proof -
      have flip: "(\<lambda>x. k a = k x) = (\<lambda>x. k x = k a)" by auto
      show ?thesis unfolding flip by (rule sort_key_stable)
    qed
    moreover have "filter (\<lambda>x. False) ys = []" for ys :: "'a list" by simp
    ultimately show ?thesis by (cases "P a") (simp_all only: simp_thms if_True if_False)
  qed
  have le: "filter (\<lambda>x. k a = k x) (filter (\<lambda>x. k x \<le> k z) (sort_key k xs)) = (if k a \<le> k z then filter (\<lambda>x. k a = k x) xs else [])"
    by (rule sel) simp
  have gt: "filter (\<lambda>x. k a = k x) (filter (\<lambda>x. \<not> k x \<le> k z) (sort_key k xs)) = (if \<not> k a \<le> k z then filter (\<lambda>x. k a = k x) xs else [])"
    by (rule sel) simp
  show "filter (\<lambda>x. k a = k x) (filter (\<lambda>x. k x \<le> k z) (sort_key k xs) @ z # filter (\<lambda>x. \<not> k x \<le> k z) (sort_key k xs)) =
     filter (\<lambda>x. k a = k x) (xs @ [z])"
  proof (cases "k a \<le> k z")
    case True
    with gt have g: "filter (\<lambda>x. k a = k x) (filter (\<lambda>x. \<not> k x \<le> k z) (sort_key k xs)) = []" by simp
    from le True have "filter (\<lambda>x. k a = k x) (filter (\<lambda>x. k x \<le> k z) (sort_key k xs)) = filter (\<lambda>x. k a = k x) xs" by simp
    with g show ?thesis by (simp only: filter_append filter.simps append_Nil append_Nil2 if_cancel split: if_split)
  next
    case False
    then have ne: "k a \<noteq> k z" by auto
    from gt False have g: "filter (\<lambda>x. k a = k x) (filter (\<lambda>x. \<not> k x \<le> k z) (sort_key k xs)) = filter (\<lambda>x. k a = k x) xs" by simp
    from le False have "filter (\<lambda>x. k a = k x) (filter (\<lambda>x. k x \<le> k z) (sort_key k xs)) = []" by simp
    with g ne show ?thesis by (simp only: filter_append filter.simps append_Nil append_Nil2 if_False)
  qed
qed

lemma sort_key_split:
  "filter (\<lambda>x. k x \<le> c) (sort_key k xs) @ filter (\<lambda>x. \<not> k x \<le> c) (sort_key k xs) = sort_key k xs"
  for k :: "'a \<Rightarrow> 'k :: linorder"
proof -
  have "sorted (map k ys) \<Longrightarrow> filter (\<lambda>x. k x \<le> c) ys @ filter (\<lambda>x. \<not> k x \<le> c) ys = ys" for ys
  proof (induction ys)
    case Nil
    then show ?case by simp
  next
    case (Cons y ys)
    show ?case
    proof (cases "k y \<le> c")
      case True
      with Cons show ?thesis by simp
    next
      case False
      with Cons.prems have "\<forall>x \<in> set ys. \<not> k x \<le> c" by auto
      then have "filter (\<lambda>x. k x \<le> c) ys = []" "filter (\<lambda>x. \<not> k x \<le> c) ys = ys"
        by (simp_all add: filter_empty_conv filter_id_conv)
      with False show ?thesis by simp
    qed
  qed
  then show ?thesis by simp
qed

end
