(* ===== verification/Dispatcher.thy ===== *)
theory Dispatcher
  imports Engine_World Py_Sort
begin

text \<open>
  \<^verbatim>\<open>mistral/engine/dispatcher.py\<close>: the order in which the commands of a workflow controller are
  carried out, the backlog of a paused workflow, and the loop over the commands. The functions of
  \<^verbatim>\<open>task_handler\<close> and \<^verbatim>\<open>workflow_handler\<close> that the loop calls come in as a record of handlers,
  since those modules call the dispatcher in turn.
\<close>

definition waiting_key :: "command \<Rightarrow> string" where
  "waiting_key c = (case cmd_kind c of RunTask (Some k) \<Rightarrow> k | _ \<Rightarrow> [])"

definition compare_task_commands :: "command \<Rightarrow> command \<Rightarrow> int" where
  "compare_task_commands a b =
     (if \<not> is_waiting_cmd a then -1
      else if \<not> is_waiting_cmd b then 1
      else if waiting_key a = waiting_key b then 0
      else if waiting_key a < waiting_key b then -1 else 1)"

definition sort_commands :: "command list \<Rightarrow> command list" where
  "sort_commands = py_sort (\<lambda>a b. compare_task_commands a b < 0)"

definition rearrange_commands :: "command list \<Rightarrow> command list" where
  "rearrange_commands cmds0 =
     (let cmds = filter (\<lambda>c. \<not> is_noop c) cmds0;
          head_cmds = takeWhile (\<lambda>c. \<not> is_set_state c) cmds
      in case dropWhile (\<lambda>c. \<not> is_set_state c) cmds of
           [] \<Rightarrow> sort_commands cmds
         | state_cmd # tail_cmds \<Rightarrow>
             (if head_cmds = [] \<and> \<not> is_pause state_cmd then [state_cmd]
              else sort_commands head_cmds @ state_cmd # (if is_pause state_cmd then tail_cmds else [])))"

section \<open>The backlog\<close>

definition save_command_to_backlog :: "string \<Rightarrow> command \<Rightarrow> unit eng" where
  "save_command_to_backlog wid c =
     ebind (lift_res (to_dict c)) (\<lambda>d.
       upd_wf wid (\<lambda>x. x\<lparr>we_backlog := Some ((case we_backlog x of None \<Rightarrow> [] | Some b \<Rightarrow> b) @ [d])\<rparr>))"

definition poll_commands_from_backlog :: "string \<Rightarrow> command list eng" where
  "poll_commands_from_backlog wid =
     ebind (get_workflow_execution wid) (\<lambda>x.
       (case we_backlog x of
          None \<Rightarrow> ret []
        | Some b \<Rightarrow> (if b = [] then ret []
            else eseq (upd_wf wid (\<lambda>x. x\<lparr>we_backlog := None\<rparr>))
                   (lift_res (map_res (restore_command_from_dict (we_spec x)) b)))))"

section \<open>The loop\<close>

record cmd_handlers =
  h_create_task :: "command \<Rightarrow> bool \<Rightarrow> task_obj eng"
  h_skip_task :: "command \<Rightarrow> unit eng"
  h_set_workflow_state :: "string \<Rightarrow> state \<Rightarrow> val \<Rightarrow> unit eng"

text \<open>
  The closure \<^verbatim>\<open>_start_task\<close> reads the id of the task execution when it runs; without one it fails
  there, which is logged only.
\<close>

definition register_start_task :: "task_obj \<Rightarrow> bool \<Rightarrow> bool \<Rightarrow> unit eng" where
  "register_start_task t first_run reset = (case to_task_id t of
      None \<Rightarrow> ret ()
    | Some i \<Rightarrow> register_operation
        (StartTaskOp i first_run (to_waiting t) (to_triggered_by t) (to_rerun t) reset) False)"

definition dispatch_command :: "cmd_handlers \<Rightarrow> string \<Rightarrow> command \<Rightarrow> unit eng" where
  "dispatch_command h wid c =
     (case cmd_kind c of
        RunTask _ \<Rightarrow> ebind (h_create_task h c True) (\<lambda>t. register_start_task t True False)
      | RunExistingTask _ reset _ _ \<Rightarrow> ebind (h_create_task h c False) (\<lambda>t. register_start_task t False reset)
      | SkipTask _ \<Rightarrow> h_skip_task h c
      | _ \<Rightarrow> (case set_state_of (cmd_kind c) of
                Some (s, msg) \<Rightarrow> h_set_workflow_state h wid s msg
              | None \<Rightarrow> raise_e (MistralError ''Unsupported workflow command'')))"

fun process_loop :: "cmd_handlers \<Rightarrow> string \<Rightarrow> command list \<Rightarrow> unit eng" where
  "process_loop h wid [] = ret ()"
| "process_loop h wid (c # cs) =
     ebind (get_workflow_execution wid) (\<lambda>x.
       if is_completed (we_state x) then ret ()
       else if we_state x = PAUSED then eseq (save_command_to_backlog wid c) (process_loop h wid cs)
       else eseq (dispatch_command h wid c) (process_loop h wid cs))"

definition process_commands :: "cmd_handlers \<Rightarrow> string \<Rightarrow> command list \<Rightarrow> unit eng" where
  "process_commands h wid cmds = (if cmds = [] then ret () else process_loop h wid (rearrange_commands cmds))"

definition dispatch_workflow_commands :: "cmd_handlers \<Rightarrow> string \<Rightarrow> command list \<Rightarrow> unit eng" where
  "dispatch_workflow_commands h wid cmds =
     eseq (ebind (poll_commands_from_backlog wid) (process_commands h wid)) (process_commands h wid cmds)"

section \<open>The order of the commands\<close>

definition arranged_cmds :: "command list \<Rightarrow> command list" where
  "arranged_cmds cs = rev (filter (\<lambda>c. \<not> is_waiting_cmd c) cs) @ sort_key waiting_key (filter is_waiting_cmd cs)"

lemma waiting_lt:
  "compare_task_commands a b < 0 \<longleftrightarrow>
     \<not> is_waiting_cmd a \<or> (is_waiting_cmd b \<and> waiting_key a < waiting_key b)"
  by (auto simp: compare_task_commands_def)

lemma set_waiting_part: "set (sort_key waiting_key (filter is_waiting_cmd cs)) = {c \<in> set cs. is_waiting_cmd c}"
  by simp

interpretation cmd_order: insertion_order "\<lambda>a b. compare_task_commands a b < 0" arranged_cmds
proof
  show "arranged_cmds [] = []" by (simp add: arranged_cmds_def)
next
  fix xs and z :: command
  let ?nw = "rev (filter (\<lambda>c. \<not> is_waiting_cmd c) xs)"
  let ?w = "sort_key waiting_key (filter is_waiting_cmd xs)"
  show "\<exists>us vs. arranged_cmds xs = us @ vs \<and> arranged_cmds (xs @ [z]) = us @ z # vs \<and>
      (\<forall>u \<in> set us. \<not> compare_task_commands z u < 0) \<and> (\<forall>v \<in> set vs. compare_task_commands z v < 0)"
  proof (cases "is_waiting_cmd z")
    case False
    then have "arranged_cmds (xs @ [z]) = [] @ z # arranged_cmds xs" "\<forall>v \<in> set (arranged_cmds xs). compare_task_commands z v < 0"
      by (simp_all add: arranged_cmds_def waiting_lt)
    then show ?thesis by (intro exI [of _ "[]"] exI [of _ "arranged_cmds xs"]) simp
  next
    case True
    define lo where "lo = filter (\<lambda>x. waiting_key x \<le> waiting_key z) ?w"
    define hi where "hi = filter (\<lambda>x. \<not> waiting_key x \<le> waiting_key z) ?w"
    have "lo @ hi = ?w" unfolding lo_def hi_def by (rule sort_key_split)
    then have old: "arranged_cmds xs = (?nw @ lo) @ hi" by (simp add: arranged_cmds_def)
    have "sort_key waiting_key (filter is_waiting_cmd (xs @ [z])) = lo @ z # hi"
      using True sort_key_snoc [of waiting_key "filter is_waiting_cmd xs" z] unfolding lo_def hi_def
      by (simp del: filter_filter)
    with True have new: "arranged_cmds (xs @ [z]) = (?nw @ lo) @ z # hi" by (simp add: arranged_cmds_def)
    have "\<forall>u \<in> set (?nw @ lo). \<not> compare_task_commands z u < 0" "\<forall>v \<in> set hi. compare_task_commands z v < 0"
      using True by (auto simp: lo_def hi_def waiting_lt)
    with old new show ?thesis by blast
  qed
qed

text \<open>
  Join commands are carried out in the order of their unique keys, commands with equal keys in
  their given order, after all other task commands: the order of the locks they take is the same in
  every transaction. The other task commands come out in reverse of the order in which the
  workflow lists them, since the comparison calls each of them smaller than the other.
\<close>

theorem command_order:
  "sort_commands cs =
     rev (filter (\<lambda>c. \<not> is_waiting_cmd c) cs) @ sort_key waiting_key (filter is_waiting_cmd cs)"
  unfolding sort_commands_def cmd_order.py_sort_arranged by (simp add: arranged_cmds_def)

lemma set_sort_commands [simp]: "set (sort_commands cs) = set cs"
  by (simp add: sort_commands_def)

lemma mset_sort_commands: "mset (sort_commands cs) = mset cs"
  by (simp add: sort_commands_def mset_py_sort)

lemma takeWhile_no_set_state: "c \<in> set (takeWhile (\<lambda>c. \<not> is_set_state c) cs) \<Longrightarrow> \<not> is_set_state c"
  by (auto dest: set_takeWhileD)

lemma filter_takeWhile_None: "filter is_set_state (sort_commands (takeWhile (\<lambda>c. \<not> is_set_state c) cs)) = []"
  by (auto simp: filter_empty_conv dest: set_takeWhileD)

text \<open>
  What is dispatched are given commands, never a no-op, and a command that fails or
  completes the workflow is the last one: nothing listed behind it is carried out or saved. If no
  command changes the state of the workflow, or the first that does pauses it, no other command
  than the no-ops is dropped.
\<close>

theorem rearrange_commands_safe:
  "mset (rearrange_commands cs) \<subseteq># filter_mset (\<lambda>c. \<not> is_noop c) (mset cs) \<and>
   (case find is_set_state cs of
      None \<Rightarrow> mset (rearrange_commands cs) = filter_mset (\<lambda>c. \<not> is_noop c) (mset cs)
    | Some s \<Rightarrow> (if is_pause s then mset (rearrange_commands cs) = filter_mset (\<lambda>c. \<not> is_noop c) (mset cs)
                else last (rearrange_commands cs) = s \<and> filter is_set_state (rearrange_commands cs) = [s]))"
proof -
  let ?P = "\<lambda>c. \<not> is_set_state c"
  let ?cs = "filter (\<lambda>c. \<not> is_noop c) cs"
  have split: "takeWhile ?P ?cs @ dropWhile ?P ?cs = ?cs" by simp
  have noop: "is_noop c \<Longrightarrow> \<not> is_set_state c" for c by (cases "cmd_kind c") (auto simp: cmd_class_defs)
  have find: "find is_set_state cs = (case dropWhile ?P ?cs of [] \<Rightarrow> None | s # _ \<Rightarrow> Some s)"
    using noop by (induction cs) (auto split: list.split)
  show ?thesis
  proof (cases "dropWhile ?P ?cs")
    case Nil
    have r: "rearrange_commands cs = sort_commands ?cs"
      unfolding rearrange_commands_def Let_def Nil by simp
    have "find is_set_state cs = None" unfolding find Nil by simp
    with r show ?thesis by (simp add: mset_sort_commands)
  next
    case (Cons s rest)
    with split have m: "mset ?cs = mset (takeWhile ?P ?cs) + add_mset s (mset rest)"
      by (metis mset.simps(2) mset_append)
    have s: "is_set_state s" using Cons by (metis dropWhile_eq_Cons_conv)
    have mm: "filter_mset (\<lambda>c. \<not> is_noop c) (mset cs) = mset (takeWhile ?P ?cs) + add_mset s (mset rest)"
      using m by simp
    show ?thesis
    proof (cases "is_pause s")
      case True
      then have "mset (rearrange_commands cs) = mset (takeWhile ?P ?cs) + add_mset s (mset rest)"
        using Cons by (simp add: rearrange_commands_def Let_def mset_sort_commands)
      with mm True find Cons show ?thesis by simp
    next
      case False
      have r: "rearrange_commands cs = sort_commands (takeWhile ?P ?cs) @ [s]"
        using False Cons by (auto simp: rearrange_commands_def Let_def sort_commands_def py_sort_def count_run_def)
      have "filter is_set_state (rearrange_commands cs) = [s]"
        using s by (simp add: r filter_takeWhile_None)
      then show ?thesis using mm False find Cons by (simp add: r mset_sort_commands)
    qed
  qed
qed

section \<open>Dispatching to a paused or finished workflow\<close>

lemma save_command_run:
  "to_dict c = Inr d \<Longrightarrow> dget (w_wfs w) wid = Some x \<Longrightarrow>
   save_command_to_backlog wid c w =
     (Inr (), w\<lparr>w_wfs := dset wid (x\<lparr>we_backlog := Some ((case we_backlog x of None \<Rightarrow> [] | Some b \<Rightarrow> b) @ [d])\<rparr>) (w_wfs w)\<rparr>)"
  by (simp add: save_command_to_backlog_def ebind_run upd_wf_def upd_row_def)

lemma dset_dset [simp]: "dset k v (dset k u d) = dset k v d"
  by (induction k u d rule: dset.induct) auto

lemma dset_same: "dget d k = Some v \<Longrightarrow> dset k v d = d"
  by (induction k v d rule: dset.induct) (auto split: if_splits)

lemma process_loop_paused:
  assumes "dget (w_wfs w) wid = Some x" and "we_state x = PAUSED" and "map_res to_dict cs = Inr ds" and "cs \<noteq> []"
  shows "process_loop h wid cs w =
     (Inr (), w\<lparr>w_wfs := dset wid (x\<lparr>we_backlog := Some ((case we_backlog x of None \<Rightarrow> [] | Some b \<Rightarrow> b) @ ds)\<rparr>) (w_wfs w)\<rparr>)"
  using assms
proof (induction cs arbitrary: w x ds)
  case (Cons c cs)
  from Cons.prems(3) obtain d ds' where d: "to_dict c = Inr d" "map_res to_dict cs = Inr ds'" "ds = d # ds'"
    by (auto split: sum.splits)
  let ?x = "x\<lparr>we_backlog := Some ((case we_backlog x of None \<Rightarrow> [] | Some b \<Rightarrow> b) @ [d])\<rparr>"
  have step: "process_loop h wid (c # cs) w = process_loop h wid cs (w\<lparr>w_wfs := dset wid ?x (w_wfs w)\<rparr>)"
    using Cons.prems(1,2) save_command_run [OF d(1) Cons.prems(1)]
    by (simp add: ebind_run eseq_run get_workflow_execution_def)
  show ?case
  proof (cases "cs = []")
    case True
    with step d show ?thesis by simp
  next
    case False
    have "process_loop h wid cs (w\<lparr>w_wfs := dset wid ?x (w_wfs w)\<rparr>) =
       (Inr (), (w\<lparr>w_wfs := dset wid ?x (w_wfs w)\<rparr>)\<lparr>w_wfs := dset wid
          (?x\<lparr>we_backlog := Some ((case we_backlog ?x of None \<Rightarrow> [] | Some b \<Rightarrow> b) @ ds')\<rparr>) (dset wid ?x (w_wfs w))\<rparr>)"
      using Cons.IH [of "w\<lparr>w_wfs := dset wid ?x (w_wfs w)\<rparr>" ?x ds'] Cons.prems(2) d(2) False by simp
    with step d(3) show ?thesis by simp
  qed
qed simp

text \<open>
  While a workflow is paused no command is carried out: all of them, in the order in which
  they would have been, are appended to the backlog of the workflow, and nothing else changes.
\<close>

theorem paused_commands_go_to_backlog:
  assumes "dget (w_wfs w) wid = Some x" and "we_state x = PAUSED"
    and "map_res to_dict (rearrange_commands cs) = Inr ds" and "rearrange_commands cs \<noteq> []"
  shows "process_commands h wid cs w =
     (Inr (), w\<lparr>w_wfs := dset wid (x\<lparr>we_backlog := Some ((case we_backlog x of None \<Rightarrow> [] | Some b \<Rightarrow> b) @ ds)\<rparr>) (w_wfs w)\<rparr>)"
proof -
  have "cs \<noteq> []" using assms(4)
    by (auto simp: rearrange_commands_def sort_commands_def py_sort_def count_run_def)
  then show ?thesis using process_loop_paused [OF assms] by (simp add: process_commands_def)
qed

definition paused_world :: world where
  "paused_world = empty_world\<lparr>w_wfs := [(''w'', mk_wf_ex ''w'' (mk_wf [mk_task ''t'']) PAUSED)]\<rparr>"

definition run_t :: command where
  "run_t = \<lparr>cmd_kind = RunTask None, cmd_spec = Some (mk_task ''t''), cmd_ctx = [], cmd_triggered_by = None, cmd_handles_error = False\<rparr>"

definition no_handlers :: cmd_handlers where
  "no_handlers = \<lparr>h_create_task = (\<lambda>_ _. raise_e AssertionError), h_skip_task = (\<lambda>_. raise_e AssertionError),
     h_set_workflow_state = (\<lambda>_ _ _. raise_e AssertionError)\<rparr>"

lemma rearrange_run_t: "rearrange_commands [run_t] = [run_t]"
  by (simp add: rearrange_commands_def run_t_def cmd_class_defs sort_commands_def py_sort_def count_run_def Let_def)

theorem paused_commands_go_to_backlog_witness:
  "process_commands no_handlers ''w'' [run_t] paused_world =
     (Inr (), paused_world\<lparr>w_wfs := dset ''w'' (mk_wf_ex ''w'' (mk_wf [mk_task ''t'']) PAUSED
        \<lparr>we_backlog := Some ((case we_backlog (mk_wf_ex ''w'' (mk_wf [mk_task ''t'']) PAUSED) of None \<Rightarrow> [] | Some b \<Rightarrow> b) @
          [\<lparr>cd_task_name = ''t'', cd_ctx = [], cd_triggered_by = None, cd_cmd_name = ''t'', cd_new_state = None, cd_msg = None,
            cd_wait = Some False, cd_unique_key = Some None, cd_task_ex_id = None, cd_reset = None\<rparr>])\<rparr>) (w_wfs paused_world)\<rparr>)"
  by (rule paused_commands_go_to_backlog)
    (simp_all add: paused_world_def rearrange_run_t, simp_all add: mk_wf_ex_def run_t_def to_dict_def mk_task_def)

lemma poll_backlog_run:
  assumes "dget (w_wfs w) wid = Some x" and "we_backlog x = Some b" and "b \<noteq> []"
  shows "poll_commands_from_backlog wid w =
     (map_res (restore_command_from_dict (we_spec x)) b, w\<lparr>w_wfs := dset wid (x\<lparr>we_backlog := None\<rparr>) (w_wfs w)\<rparr>)"
  using assms by (simp add: poll_commands_from_backlog_def ebind_run eseq_run get_workflow_execution_def upd_wf_def upd_row_def)

lemma process_loop_completed:
  "dget (w_wfs w) wid = Some x \<Longrightarrow> is_completed (we_state x) \<Longrightarrow> process_loop h wid cs w = (Inr (), w)"
  by (cases cs) (simp_all add: ebind_run get_workflow_execution_def)

text \<open>
  Nothing is dispatched to a finished workflow. (Its backlog is taken out and dropped.)
\<close>

theorem completed_workflow_takes_no_commands:
  assumes "dget (w_wfs w) wid = Some x" and "is_completed (we_state x)"
    and "map_res (restore_command_from_dict (we_spec x)) (case we_backlog x of None \<Rightarrow> [] | Some b \<Rightarrow> b) = Inr bs"
  shows "\<exists>bl. dispatch_workflow_commands h wid cs w = (Inr (), w\<lparr>w_wfs := dset wid (x\<lparr>we_backlog := bl\<rparr>) (w_wfs w)\<rparr>)"
proof -
  let ?w = "w\<lparr>w_wfs := dset wid (x\<lparr>we_backlog := None\<rparr>) (w_wfs w)\<rparr>"
  have same: "w\<lparr>w_wfs := dset wid (x\<lparr>we_backlog := we_backlog x\<rparr>) (w_wfs w)\<rparr> = w"
    by (simp add: dset_same [OF assms(1)])
  have stay: "process_commands h wid c v = (Inr (), v)"
    if "dget (w_wfs v) wid = Some y" "is_completed (we_state y)" for c v y
    using process_loop_completed [OF that] by (simp add: process_commands_def)
  show ?thesis
  proof (cases "we_backlog x = None \<or> we_backlog x = Some []")
    case True
    then have "poll_commands_from_backlog wid w = (Inr [], w)"
      using assms(1) by (auto simp: poll_commands_from_backlog_def ebind_run get_workflow_execution_def)
    then have "dispatch_workflow_commands h wid cs w = (Inr (), w)"
      by (simp add: dispatch_workflow_commands_def eseq_run ebind_run stay [OF assms(1,2)])
    with same show ?thesis by metis
  next
    case False
    then obtain b where b: "we_backlog x = Some b" "b \<noteq> []" by auto
    with poll_backlog_run [OF assms(1) b] assms(3) have "poll_commands_from_backlog wid w = (Inr bs, ?w)" by simp
    moreover have "process_commands h wid c ?w = (Inr (), ?w)" for c
      by (rule stay [where y = "x\<lparr>we_backlog := None\<rparr>"]) (simp_all add: assms(2))
    ultimately have "dispatch_workflow_commands h wid cs w = (Inr (), ?w)"
      by (simp add: dispatch_workflow_commands_def eseq_run ebind_run)
    then show ?thesis by blast
  qed
qed

theorem completed_workflow_takes_no_commands_witness:
  "\<exists>bl. dispatch_workflow_commands no_handlers ''w'' [run_t]
      (empty_world\<lparr>w_wfs := [(''w'', mk_wf_ex ''w'' (mk_wf [mk_task ''t'']) SUCCESS)]\<rparr>) =
    (Inr (), empty_world\<lparr>w_wfs := [(''w'', mk_wf_ex ''w'' (mk_wf [mk_task ''t'']) SUCCESS)]\<rparr>
      \<lparr>w_wfs := dset ''w'' (mk_wf_ex ''w'' (mk_wf [mk_task ''t'']) SUCCESS\<lparr>we_backlog := bl\<rparr>)
        (w_wfs (empty_world\<lparr>w_wfs := [(''w'', mk_wf_ex ''w'' (mk_wf [mk_task ''t'']) SUCCESS)]\<rparr>))\<rparr>)"
  by (rule completed_workflow_takes_no_commands [where bs = "[]"])
    (simp_all add: empty_world_def mk_wf_ex_def)

end
