(* ===== verification/Direct_Workflow.thy ===== *)
theory Direct_Workflow
  imports Data_Flow Commands
begin

text \<open>
  \<^verbatim>\<open>mistral/workflow/direct_workflow.py\<close> with the base class \<^verbatim>\<open>WorkflowController\<close> of
  \<^verbatim>\<open>mistral/workflow/base.py\<close>: which commands follow the completion of a task, the context a task
  starts with, the logical state of a \<^verbatim>\<open>join\<close> task and the tasks that a completion affects
  indirectly. \<open>x\<close> is the workflow execution, \<open>root\<close> its root execution, \<open>ts\<close> the rows of
  its task executions in the order of the database query.

  Python's limit of the recursion depth is the argument \<open>n\<close> of \<open>possible_route\<close>: the recursion
  follows the inbound tasks, which may form a cycle.
\<close>

section \<open>Upstream tasks and contexts\<close>

definition triggers :: "task_ex \<Rightarrow> string \<Rightarrow> bool res" where
  "triggers t n = (case te_next_tasks t of None \<Rightarrow> Inl TypeError | Some ns \<Rightarrow> Inr (n \<in> set (map fst ns)))"

definition upstream_state :: "state \<Rightarrow> bool" where
  "upstream_state s \<longleftrightarrow> s \<in> {SUCCESS, ERROR, CANCELLED}"

definition get_upstream_task_executions ::
  "workflow_spec \<Rightarrow> task_ex list \<Rightarrow> task_spec \<Rightarrow> string list \<Rightarrow> task_ex list res" where
  "get_upstream_task_executions w ts t triggered_by =
     bind_res (find_inbound_task_specs w t) (\<lambda>ins.
       (case map ts_name ins of
          [] \<Rightarrow> Inr []
        | n # _ \<Rightarrow>
            (if \<not> has_join t then
               Inr (filter (\<lambda>x. te_name x = n \<and> upstream_state (te_state x) \<and> te_processed x \<and>
                      (triggered_by \<noteq> [] \<longrightarrow> te_id x \<in> set triggered_by)) ts)
             else filter_res (\<lambda>x. triggers x (ts_name t))
                    (filter (\<lambda>x. te_name x \<in> set (map ts_name ins) \<and> upstream_state (te_state x)) ts))))"

definition get_task_inbound_context ::
  "env \<Rightarrow> workflow_spec \<Rightarrow> task_ex list \<Rightarrow> task_spec \<Rightarrow> string list \<Rightarrow> val dict res" where
  "get_task_inbound_context e w ts t triggered_by =
     bind_res (get_upstream_task_executions w ts t triggered_by) (\<lambda>us. evaluate_upstream_context e us [])"

section \<open>Next tasks and commands\<close>

fun next_of_clause :: "env \<Rightarrow> ctx_view \<Rightarrow> string \<Rightarrow> on_item list \<Rightarrow> (string \<times> val dict \<times> string) list res" where
  "next_of_clause e c event [] = Inr []"
| "next_of_clause e c event ((name, cond, params) # r) =
     bind_res (if \<not> truthy cond then Inr True else bind_res (evaluate e cond c) (\<lambda>v. Inr (truthy v))) (\<lambda>go.
     bind_res (if go then bind_res (evaluate_recursively e (VDict params) c) (\<lambda>p. Inr [(name, the (val_opt_dict p), event)])
               else Inr []) (\<lambda>here.
     bind_res (next_of_clause e c event r) (\<lambda>more. Inr (here @ more))))"

definition next_view :: "env \<Rightarrow> wf_ex option \<Rightarrow> wf_ex \<Rightarrow> task_ex \<Rightarrow> val dict \<Rightarrow> ctx_view" where
  "next_view e root x t ctx =
     context_view e [Some (get_current_task_dict t), Some ctx, Some (get_workflow_environment_dict root (Some x)),
       Some (we_context x), Some (we_input x)]"

definition find_next_tasks ::
  "env \<Rightarrow> wf_ex option \<Rightarrow> wf_ex \<Rightarrow> workflow_spec \<Rightarrow> task_ex \<Rightarrow> val dict \<Rightarrow> (string \<times> val dict \<times> string) list res" where
  "find_next_tasks e root x w t ctx =
     (let c = next_view e root x t ctx;
          clause = (\<lambda>get event. bind_res (get w (te_name t)) (next_of_clause e c event));
          s = te_state t
      in bind_res (if s = ERROR then clause get_on_error_clause ''on-error'' else Inr []) (\<lambda>r1.
         bind_res (if s = SKIPPED then clause get_on_skip_clause ''on-skip'' else Inr []) (\<lambda>r2.
         bind_res (if s = SUCCESS \<or> (s = SKIPPED \<and> r1 @ r2 = []) then clause get_on_success_clause ''on-success'' else Inr []) (\<lambda>r3.
         bind_res (if is_completed s \<and> \<not> is_cancelled_or_skipped s then clause get_on_complete_clause ''on-complete'' else Inr []) (\<lambda>r4.
           Inr (r1 @ r2 @ r3 @ r4))))))"

definition join_unique_key :: "wf_ex \<Rightarrow> string \<Rightarrow> string" where
  "join_unique_key x n = ''join-task-'' @ we_id x @ ''-'' @ n"

definition configure_if_join :: "wf_ex \<Rightarrow> command \<Rightarrow> command" where
  "configure_if_join x c =
     (case cmd_spec c of
        None \<Rightarrow> c
      | Some t \<Rightarrow>
          (if \<not> has_join t then c
           else (case cmd_kind c of
               RunTask _ \<Rightarrow> c\<lparr>cmd_kind := RunTask (Some (join_unique_key x (ts_name t)))\<rparr>
             | RunExistingTask t_ex reset _ rerun \<Rightarrow>
                 c\<lparr>cmd_kind := RunExistingTask t_ex reset (Some (join_unique_key x (ts_name t))) rerun\<rparr>
             | _ \<Rightarrow> c)))"

definition next_command ::
  "wf_ex \<Rightarrow> workflow_spec \<Rightarrow> task_ex \<Rightarrow> val dict \<Rightarrow> string \<times> val dict \<times> string \<Rightarrow> command res" where
  "next_command x w t ctx nxt =
     (case nxt of (n, params, event) \<Rightarrow>
        bind_res (case get_task w n of
            Some s \<Rightarrow> Inr (Some s)
          | None \<Rightarrow> (if get_command_class n = None then Inl (WorkflowException (''Task '' @ squote n @ '' not found.''))
                     else Inr (get_task w (te_name t)))) (\<lambda>spec.
        bind_res (create_command n spec ctx (Some params) (Some [\<lparr>tr_task_id = te_id t, tr_event = Some event\<rparr>])
                    (event = ''on-error'')) (\<lambda>c.
          Inr (configure_if_join x c))))"

definition find_next_commands_for_task ::
  "env \<Rightarrow> wf_ex option \<Rightarrow> wf_ex \<Rightarrow> workflow_spec \<Rightarrow> task_ex \<Rightarrow> command list res" where
  "find_next_commands_for_task e root x w t =
     bind_res (evaluate_task_outbound_context e t) (\<lambda>o1.
     bind_res (find_next_tasks e root x w (snd o1) (fst o1)) (map_res (next_command x w t (fst o1))))"

definition find_start_commands :: "env \<Rightarrow> workflow_spec \<Rightarrow> task_ex list \<Rightarrow> command list res" where
  "find_start_commands e w ts =
     bind_res (find_start_tasks w) (map_res (\<lambda>t.
       bind_res (get_task_inbound_context e w ts t []) (\<lambda>ctx.
         Inr \<lparr>cmd_kind = RunTask None, cmd_spec = Some t, cmd_ctx = ctx, cmd_triggered_by = None, cmd_handles_error = False\<rparr>)))"

text \<open>\<^verbatim>\<open>WorkflowController._find_next_commands\<close> and the direct one.\<close>

definition base_next_commands :: "task_ex list \<Rightarrow> task_ex option \<Rightarrow> command list" where
  "base_next_commands ts t = (case t of
      Some _ \<Rightarrow> [] | None \<Rightarrow> map (\<lambda>x. mk_run_existing x True False) (filter (\<lambda>x. te_state x = IDLE) ts))"

definition find_next_commands ::
  "env \<Rightarrow> wf_ex option \<Rightarrow> wf_ex \<Rightarrow> workflow_spec \<Rightarrow> task_ex list \<Rightarrow> task_ex option \<Rightarrow> command list res" where
  "find_next_commands e root x w ts t =
     (if t = None \<and> ts = [] then find_start_commands e w ts
      else
        (let t_exs = (case t of Some y \<Rightarrow> [y] | None \<Rightarrow> filter (\<lambda>y. is_completed (te_state y) \<and> \<not> te_processed y) ts)
         in bind_res (map_res (find_next_commands_for_task e root x w) t_exs) (\<lambda>cs.
              Inr (base_next_commands ts t @ concat cs))))"

definition continue_workflow ::
  "env \<Rightarrow> wf_ex option \<Rightarrow> wf_ex \<Rightarrow> workflow_spec \<Rightarrow> task_ex list \<Rightarrow> task_ex option \<Rightarrow> command list res" where
  "continue_workflow e root x w ts t =
     (if is_completed (we_state x) then Inr [] else find_next_commands e root x w ts t)"

definition base_rerun_tasks :: "wf_ex \<Rightarrow> task_ex list \<Rightarrow> bool \<Rightarrow> command list" where
  "base_rerun_tasks x t_exs reset =
     (if is_paused_or_completed (we_state x) then [] else map (\<lambda>t. mk_run_existing t reset True) t_exs)"

definition skip_tasks :: "wf_ex \<Rightarrow> task_ex list \<Rightarrow> command list" where
  "skip_tasks x t_exs = (if is_paused_or_completed (we_state x) then [] else map mk_skip t_exs)"

definition rerun_tasks :: "wf_ex \<Rightarrow> task_ex list \<Rightarrow> bool \<Rightarrow> command list" where
  "rerun_tasks x t_exs reset = map (configure_if_join x) (base_rerun_tasks x t_exs reset)"

section \<open>The end of a workflow\<close>

definition is_error_handled_for :: "workflow_spec \<Rightarrow> task_ex \<Rightarrow> bool res" where
  "is_error_handled_for w t = bind_res (get_on_error_clause w (te_name t)) (\<lambda>c. Inr (c \<noteq> []))"

definition all_errors_handled :: "task_ex list \<Rightarrow> bool" where
  "all_errors_handled ts \<longleftrightarrow> length (filter (\<lambda>t. te_state t = ERROR \<and> te_error_handled t = Some False) ts) = 0"

definition any_cancels :: "task_ex list \<Rightarrow> bool" where
  "any_cancels ts \<longleftrightarrow> length (filter (\<lambda>t. te_state t = CANCELLED) ts) > 0"

definition may_complete_workflow :: "task_ex \<Rightarrow> bool" where
  "may_complete_workflow t \<longleftrightarrow> is_completed (te_state t) \<and> te_has_next t \<noteq> Some True"

text \<open>The completed tasks without next tasks, in the batches of the database query.\<close>

definition batch_size :: nat where
  "batch_size = 20"

fun batches :: "nat \<Rightarrow> 'a list \<Rightarrow> 'a list list" where
  "batches k [] = []"
| "batches k (x # xs) = (if k = 0 then [x # xs] else take k (x # xs) # batches k (drop (k - 1) xs))"

definition find_end_task_executions_as_batches :: "task_ex list \<Rightarrow> task_ex list list" where
  "find_end_task_executions_as_batches ts =
     batches batch_size (filter (\<lambda>t. is_completed (te_state t) \<and> te_has_next t = Some False) ts)"

fun merge_outbound :: "env \<Rightarrow> task_ex list \<Rightarrow> val dict \<Rightarrow> val dict res" where
  "merge_outbound e [] ctx = Inr ctx"
| "merge_outbound e (t # ts) ctx =
     bind_res (evaluate_task_outbound_context e t) (\<lambda>o1. merge_outbound e ts (merge_dicts e True ctx (Some (fst o1))))"

fun final_context_loop :: "env \<Rightarrow> task_ex list list \<Rightarrow> val dict \<Rightarrow> val dict res" where
  "final_context_loop e [] ctx = Inr ctx"
| "final_context_loop e (b # bs) ctx =
     bind_res (if \<not> context_versioning e then merge_outbound e b ctx else evaluate_upstream_context e b ctx)
       (final_context_loop e bs)"

definition evaluate_workflow_final_context :: "env \<Rightarrow> task_ex list \<Rightarrow> val dict res" where
  "evaluate_workflow_final_context e ts = final_context_loop e (find_end_task_executions_as_batches ts) []"

section \<open>The logical state of a join task\<close>

definition MAX_SEARCH_DEPTH :: nat where
  "MAX_SEARCH_DEPTH = 5"

text \<open>\<^verbatim>\<open>_find_all_parent_task_names\<close>; the first argument is \<^verbatim>\<open>MAX_SEARCH_DEPTH - depth\<close>, the second \<^verbatim>\<open>depth > 1\<close>.\<close>

fun find_all_parent_task_names :: "nat \<Rightarrow> bool \<Rightarrow> workflow_spec \<Rightarrow> task_spec \<Rightarrow> string list res" where
  "find_all_parent_task_names 0 inner w t = Inr [ts_name t]"
| "find_all_parent_task_names (Suc d) inner w t =
     bind_res (find_inbound_task_specs w t) (\<lambda>ins.
       if ins = [] then Inr [ts_name t]
       else bind_res (map_res (find_all_parent_task_names d True w) ins) (\<lambda>nss.
              Inr (remdups (concat nss @ (if inner then [ts_name t] else [])))))"

type_synonym exec_cache = "task_ex option dict"

text \<open>\<^verbatim>\<open>{t_ex.name: t_ex for t_ex in ...}\<close>: the last row with a name wins.\<close>

definition exec_by_name :: "task_ex list \<Rightarrow> string \<Rightarrow> task_ex option" where
  "exec_by_name ts n = find (\<lambda>t. te_name t = n) (rev ts)"

definition prepare_task_executions_cache :: "workflow_spec \<Rightarrow> task_ex list \<Rightarrow> task_spec \<Rightarrow> exec_cache res" where
  "prepare_task_executions_cache w ts t =
     bind_res (find_all_parent_task_names (MAX_SEARCH_DEPTH - 1) False w t) (\<lambda>names.
       Inr (map (\<lambda>n. (n, exec_by_name ts n)) names))"

function (sequential) possible_route ::
    "nat \<Rightarrow> workflow_spec \<Rightarrow> task_ex list \<Rightarrow> task_spec \<Rightarrow> exec_cache \<Rightarrow> int \<Rightarrow> ((bool \<times> int) \<times> exec_cache) res"
and route_loop ::
    "nat \<Rightarrow> workflow_spec \<Rightarrow> task_ex list \<Rightarrow> task_spec \<Rightarrow> task_spec list \<Rightarrow> exec_cache \<Rightarrow> int \<Rightarrow> ((bool \<times> int) \<times> exec_cache) res"
where
  "possible_route 0 w ts t cache depth = Inl RecursionError"
| "possible_route (Suc n) w ts t cache depth =
     bind_res (find_inbound_task_specs w t) (\<lambda>ins.
       if ins = [] then Inr ((True, depth), cache) else route_loop n w ts t ins cache depth)"
| "route_loop n w ts t [] cache depth = Inr ((False, depth), cache)"
| "route_loop n w ts t (s # ss) cache depth =
     bind_res (if dhas cache (ts_name s) then Inr cache
               else bind_res (prepare_task_executions_cache w ts t) (\<lambda>c. Inr (dupdate cache c))) (\<lambda>cache1.
       (case Option.bind (dget cache1 (ts_name s)) (\<lambda>x. x) of
          None \<Rightarrow>
            bind_res (possible_route n w ts s cache1 (depth + 1)) (\<lambda>r.
              (case r of ((possible, depth1), cache2) \<Rightarrow>
                 if possible then Inr ((True, depth1), cache2) else route_loop n w ts t ss cache2 depth1))
        | Some t_ex \<Rightarrow>
            (if \<not> is_completed (te_state t_ex) then Inr ((True, depth), cache1)
             else bind_res (triggers t_ex (ts_name t)) (\<lambda>b.
                    if b then Inr ((True, depth), cache1) else route_loop n w ts t ss cache1 depth))))"
  by pat_completeness auto

termination
  by (relation "measures [case_sum (\<lambda>(n, _). n) (\<lambda>(n, _). n), case_sum (\<lambda>_. 0) (\<lambda>_. 1),
       case_sum (\<lambda>_. 0) (\<lambda>(n, w, ts, t, ss, _). length ss)]") auto

text \<open>The state an inbound task induces, the depth, and the event.\<close>

definition get_induced_join_state ::
  "nat \<Rightarrow> workflow_spec \<Rightarrow> task_ex list \<Rightarrow> task_spec \<Rightarrow> task_ex option \<Rightarrow> task_spec \<Rightarrow> exec_cache \<Rightarrow>
   ((state \<times> int \<times> string option) \<times> exec_cache) res" where
  "get_induced_join_state n w ts in_spec in_ex join_spec cache =
     (case in_ex of
        None \<Rightarrow> bind_res (possible_route n w ts in_spec cache 1) (\<lambda>r.
          (case r of ((possible, depth), cache1) \<Rightarrow>
             Inr (if possible then (WAITING, depth, None) else (ERROR, depth, Some ''impossible route''), cache1)))
      | Some t \<Rightarrow>
          (if \<not> is_completed (te_state t) then Inr ((WAITING, 1, None), cache)
           else (let next_tasks = (case te_next_tasks t of None \<Rightarrow> [] | Some ns \<Rightarrow> ns);
                     next_dict = map_of (rev next_tasks)
                 in (case next_dict (ts_name join_spec) of
                       None \<Rightarrow> Inr ((ERROR, 1, Some ''not triggered''), cache)
                     | Some ev \<Rightarrow> Inr ((RUNNING, 1, ev), cache)))))"

record logical_state =
  ls_state :: state
  ls_info :: "string option"
  ls_cardinality :: int
  ls_triggered_by :: "trigger list"

record induced =
  in_name :: string
  in_exec :: "task_ex option"
  in_state :: state
  in_depth :: int
  in_event :: "string option"

text \<open>\<^verbatim>\<open>count\<close>: how many tasks induce the state, and the sum of their depths.\<close>

definition count_induced :: "induced list \<Rightarrow> state \<Rightarrow> int \<times> int" where
  "count_induced is s =
     (int (length (filter (\<lambda>i. in_state i = s) is)), sum_list (map in_depth (filter (\<lambda>i. in_state i = s) is)))"

definition names_in_state :: "induced list \<Rightarrow> state \<Rightarrow> string" where
  "names_in_state is s = ''['' @ join_str '', '' (map (\<lambda>i. squote (in_name i)) (filter (\<lambda>i. in_state i = s) is)) @ '']''"

definition triggered_by_state :: "induced list \<Rightarrow> state \<Rightarrow> trigger list" where
  "triggered_by_state is s =
     concat (map (\<lambda>i. case in_exec i of None \<Rightarrow> [] | Some t \<Rightarrow> [\<lparr>tr_task_id = te_id t, tr_event = in_event i\<rparr>])
       (filter (\<lambda>i. in_state i = s) is))"

definition join_decision :: "join_val \<Rightarrow> induced list \<Rightarrow> logical_state" where
  "join_decision j is =
     (let errors = count_induced is ERROR; runnings = count_induced is RUNNING; total = int (length is);
          blocked = ''Blocked by tasks: '' @ names_in_state is WAITING;
          failed = ''Failed by tasks: '' @ names_in_state is ERROR
      in case j of
           JoinAll \<Rightarrow>
             (if total = fst runnings then \<lparr>ls_state = RUNNING, ls_info = None, ls_cardinality = 0, ls_triggered_by = triggered_by_state is RUNNING\<rparr>
              else if fst errors > 0 then \<lparr>ls_state = ERROR, ls_info = Some failed, ls_cardinality = 0, ls_triggered_by = triggered_by_state is ERROR\<rparr>
              else \<lparr>ls_state = WAITING, ls_info = Some blocked, ls_cardinality = total - snd runnings, ls_triggered_by = []\<rparr>)
         | _ \<Rightarrow>
             (let spec_cardinality = (case j of JoinNum m \<Rightarrow> m | _ \<Rightarrow> 1)
              in if fst runnings \<ge> spec_cardinality then
                   \<lparr>ls_state = RUNNING, ls_info = None, ls_cardinality = 0, ls_triggered_by = triggered_by_state is RUNNING\<rparr>
                 else if fst errors > total - spec_cardinality then
                   \<lparr>ls_state = ERROR, ls_info = Some failed, ls_cardinality = 0, ls_triggered_by = []\<rparr>
                 else \<lparr>ls_state = WAITING, ls_info = Some blocked, ls_cardinality = spec_cardinality - fst runnings, ls_triggered_by = []\<rparr>))"

fun induced_loop :: "nat \<Rightarrow> workflow_spec \<Rightarrow> task_ex list \<Rightarrow> task_spec \<Rightarrow> task_spec list \<Rightarrow> exec_cache \<Rightarrow> induced list res" where
  "induced_loop n w ts t [] cache = Inr []"
| "induced_loop n w ts t (s # ss) cache =
     (case dget cache (ts_name s) of
        None \<Rightarrow> Inl (KeyError (ts_name s))
      | Some t_ex \<Rightarrow>
          bind_res (get_induced_join_state n w ts s t_ex t cache) (\<lambda>((st, depth, ev), cache1).
          bind_res (induced_loop n w ts t ss cache1) (\<lambda>is.
            Inr (\<lparr>in_name = ts_name s, in_exec = t_ex, in_state = st, in_depth = depth, in_event = ev\<rparr> # is))))"

definition induced_states :: "nat \<Rightarrow> workflow_spec \<Rightarrow> task_ex list \<Rightarrow> task_spec \<Rightarrow> induced list res" where
  "induced_states n w ts t =
     bind_res (find_inbound_task_specs w t) (\<lambda>ins.
     bind_res (prepare_task_executions_cache w ts t) (induced_loop n w ts t ins))"

definition get_join_logical_state :: "nat \<Rightarrow> workflow_spec \<Rightarrow> task_ex list \<Rightarrow> task_spec \<Rightarrow> logical_state res" where
  "get_join_logical_state n w ts t =
     bind_res (find_inbound_task_specs w t) (\<lambda>ins.
       if ins = [] then Inr \<lparr>ls_state = RUNNING, ls_info = None, ls_cardinality = 0, ls_triggered_by = []\<rparr>
       else bind_res (induced_states n w ts t) (\<lambda>is. Inr (join_decision (the (ts_join t)) is)))"

definition get_logical_task_state :: "nat \<Rightarrow> workflow_spec \<Rightarrow> task_ex list \<Rightarrow> task_ex \<Rightarrow> logical_state res" where
  "get_logical_task_state n w ts t =
     (case get_task w (te_name t) of
        None \<Rightarrow> Inl AttributeError
      | Some s \<Rightarrow>
          (if \<not> has_join s then
             Inr \<lparr>ls_state = te_state t, ls_info = te_state_info t, ls_cardinality = 0, ls_triggered_by = []\<rparr>
           else get_join_logical_state n w ts s))"

section \<open>Indirectly affected tasks\<close>

text \<open>
  The loop of \<^verbatim>\<open>find_indirectly_affected_task_executions\<close>. \<open>clauses\<close> is the set of names still to
  visit, as a list without duplicates, of which \<^verbatim>\<open>pop\<close> takes the first; \<open>stop\<close> tells the joins
  that have an execution.
\<close>

definition add_names :: "string list \<Rightarrow> string list \<Rightarrow> string list" where
  "add_names xs ys = xs @ filter (\<lambda>y. y \<notin> set xs) (remdups ys)"

lemma task_exists_dkeys: "task_exists w n \<longleftrightarrow> n \<in> set (dkeys (ws_tasks w))"
  by (auto simp: task_exists_def get_task_def map_of_eq_None_iff)

lemma unvisited_less:
  "n \<in> U \<Longrightarrow> n \<notin> V \<Longrightarrow> finite U \<Longrightarrow> card (U - insert n V) < card (U - V)"
  by (rule psubset_card_mono) auto

lemma unvisited_le: "finite U \<Longrightarrow> card (U - insert n V) \<le> card (U - V)"
  by (rule card_mono) auto

function affected_loop ::
  "workflow_spec \<Rightarrow> (string \<Rightarrow> bool) \<Rightarrow> string list \<Rightarrow> string \<Rightarrow> string list \<Rightarrow> string list \<Rightarrow> string list res" where
  "affected_loop w stop visited t_name [] acc = Inr acc"
| "affected_loop w stop visited t_name (n # clauses) acc =
     (if n \<in> set (t_name # visited) then affected_loop w stop (t_name # visited) n clauses acc
      else if \<not> task_exists w n then affected_loop w stop (t_name # visited) n clauses acc
      else if stop n then affected_loop w stop (t_name # visited) n clauses (add_names acc [n])
      else (case find_outbound_task_names w n of
              Inl x \<Rightarrow> Inl x
            | Inr outs \<Rightarrow> affected_loop w stop (t_name # visited) n (add_names clauses outs) acc))"
  by pat_completeness auto

termination
proof (relation "measures [\<lambda>(w, stop, visited, t, cl, acc). card (set (dkeys (ws_tasks w)) - insert t (set visited)),
       \<lambda>(w, stop, visited, t, cl, acc). length cl]", goal_cases)
  case 1
  then show ?case by simp
next
  case (2 w stop visited t_name n clauses acc)
  then show ?case using unvisited_le [of "set (dkeys (ws_tasks w))" n "insert t_name (set visited)"]
    by (auto simp: le_less insert_commute)
next
  case (3 w stop visited t_name n clauses acc)
  then show ?case using unvisited_le [of "set (dkeys (ws_tasks w))" n "insert t_name (set visited)"]
    by (auto simp: le_less insert_commute)
next
  case (4 w stop visited t_name n clauses acc)
  then show ?case using unvisited_le [of "set (dkeys (ws_tasks w))" n "insert t_name (set visited)"]
    by (auto simp: le_less insert_commute)
next
  case (5 w stop visited t_name n clauses acc outs)
  then show ?case using unvisited_less [of n "set (dkeys (ws_tasks w))" "insert t_name (set visited)"]
    by (auto simp: task_exists_dkeys insert_commute)
qed

definition find_indirectly_affected_task_executions :: "workflow_spec \<Rightarrow> task_ex list \<Rightarrow> string \<Rightarrow> task_ex list res" where
  "find_indirectly_affected_task_executions w ts t_name =
     (let all_joins = map ts_name (filter has_join (get_tasks w));
          cache = (\<lambda>n. if n \<in> set all_joins then exec_by_name ts n else None)
      in bind_res (find_outbound_task_names w t_name) (\<lambda>clauses.
         bind_res (affected_loop w (\<lambda>n. n \<in> set all_joins \<and> cache n \<noteq> None) [] t_name clauses []) (\<lambda>names.
           Inr (map (\<lambda>n. the (cache n)) names))))"

section \<open>Routes without the cache\<close>

text \<open>
  The cache of task executions never changes an answer: the recursion is the following one, over
  the rows themselves.
\<close>

function (sequential) route :: "nat \<Rightarrow> workflow_spec \<Rightarrow> task_ex list \<Rightarrow> task_spec \<Rightarrow> int \<Rightarrow> (bool \<times> int) res"
and route_list :: "nat \<Rightarrow> workflow_spec \<Rightarrow> task_ex list \<Rightarrow> task_spec \<Rightarrow> task_spec list \<Rightarrow> int \<Rightarrow> (bool \<times> int) res"
where
  "route 0 w ts t depth = Inl RecursionError"
| "route (Suc n) w ts t depth =
     (if inbound w t = [] then Inr (True, depth) else route_list n w ts t (inbound w t) depth)"
| "route_list n w ts t [] depth = Inr (False, depth)"
| "route_list n w ts t (s # ss) depth =
     (case exec_by_name ts (ts_name s) of
        None \<Rightarrow> bind_res (route n w ts s (depth + 1)) (\<lambda>(possible, depth1).
                  if possible then Inr (True, depth1) else route_list n w ts t ss depth1)
      | Some t_ex \<Rightarrow>
          (if \<not> is_completed (te_state t_ex) then Inr (True, depth)
           else bind_res (triggers t_ex (ts_name t)) (\<lambda>b. if b then Inr (True, depth) else route_list n w ts t ss depth)))"
  by pat_completeness auto

termination
  by (relation "measures [case_sum (\<lambda>(n, _). n) (\<lambda>(n, _). n), case_sum (\<lambda>_. 0) (\<lambda>_. 1),
       case_sum (\<lambda>_. 0) (\<lambda>(n, w, ts, t, ss, _). length ss)]") auto

definition exec_cache_ok :: "task_ex list \<Rightarrow> exec_cache \<Rightarrow> bool" where
  "exec_cache_ok ts c \<longleftrightarrow> (\<forall>k v. dget c k = Some v \<longrightarrow> v = exec_by_name ts k)"

lemma find_all_parents_total:
  "wf_spec_ok w \<Longrightarrow> \<exists>ns. find_all_parent_task_names d inner w t = Inr ns \<and> (inner \<longrightarrow> ts_name t \<in> set ns)"
proof (induction d inner w t rule: find_all_parent_task_names.induct)
  case (1 inner w t)
  then show ?case by simp
next
  case (2 d inner w t)
  show ?case
  proof (cases "inbound w t = []")
    case True
    with 2 show ?thesis by simp
  next
    case False
    have "\<exists>nss. map_res (find_all_parent_task_names d True w) (inbound w t) = Inr nss"
    proof -
      have "\<exists>ns. find_all_parent_task_names d True w s = Inr ns" if "s \<in> set (inbound w t)" for s
        using 2(1) [OF False that 2(2)] by blast
      then show ?thesis by (rule map_res_total_ex)
    qed
    with 2(2) False show ?thesis by auto
  qed
qed

lemma max_search_depth [simp]: "MAX_SEARCH_DEPTH - 1 = Suc 3"
  by (simp add: MAX_SEARCH_DEPTH_def)

lemma prepare_cache:
  assumes "wf_spec_ok w"
  shows "\<exists>c. prepare_task_executions_cache w ts t = Inr c \<and> exec_cache_ok ts c \<and> dict_ok c \<and>
    (\<forall>s \<in> set (inbound w t). dget c (ts_name s) = Some (exec_by_name ts (ts_name s)))"
proof -
  have get: "dget (map (\<lambda>n. (n, exec_by_name ts n)) ns) k = (if k \<in> set ns then Some (exec_by_name ts k) else None)" for ns k
    by (induction ns) auto
  obtain ns where ns: "find_all_parent_task_names (MAX_SEARCH_DEPTH - 1) False w t = Inr ns"
    using find_all_parents_total [OF assms] by blast
  have sub: "ts_name s \<in> set ns" if s: "s \<in> set (inbound w t)" for s
  proof -
    have ne: "inbound w t \<noteq> []" using s by auto
    from ns ne obtain nss where nss: "map_res (find_all_parent_task_names 3 True w) (inbound w t) = Inr nss"
      and nseq: "ns = remdups (concat nss)"
      unfolding max_search_depth find_all_parent_task_names.simps find_inbound_ok [OF assms]
      by (auto simp: bind_res_eq_Inr simp del: map_res.simps)
    from nss have all: "list_all2 (\<lambda>x y. find_all_parent_task_names 3 True w x = Inr y) (inbound w t) nss"
      by (simp add: map_res_Inr_iff)
    from s obtain i where i: "i < length (inbound w t)" "inbound w t ! i = s" by (auto simp: in_set_conv_nth)
    with all have "nss ! i \<in> set nss" "find_all_parent_task_names 3 True w s = Inr (nss ! i)"
      by (auto simp: list_all2_conv_all_nth)
    then obtain y where "y \<in> set nss" "find_all_parent_task_names 3 True w s = Inr y" by blast
    moreover have "ts_name s \<in> set y" using find_all_parents_total [OF assms, of 3 True s] calculation by auto
    ultimately show ?thesis using nseq by auto
  qed
  have "distinct ns" using ns
    unfolding max_search_depth find_all_parent_task_names.simps find_inbound_ok [OF assms]
    by (auto simp: bind_res_eq_Inr split: if_splits)
  then have "dict_ok (map (\<lambda>n. (n, exec_by_name ts n)) ns)" by (simp add: dict_ok_def comp_def)
  then show ?thesis using sub ns
    by (simp add: prepare_task_executions_cache_def get exec_cache_ok_def)
qed

lemma exec_cache_ok_dupdate: "exec_cache_ok ts a \<Longrightarrow> exec_cache_ok ts b \<Longrightarrow> dict_ok b \<Longrightarrow> exec_cache_ok ts (dupdate a b)"
  by (auto simp: exec_cache_ok_def dget_dupdate split: option.splits)

definition same_route :: "task_ex list \<Rightarrow> ((bool \<times> int) \<times> exec_cache) res \<Rightarrow> (bool \<times> int) res \<Rightarrow> bool" where
  "same_route ts a b \<longleftrightarrow> (case b of Inl e \<Rightarrow> a = Inl e | Inr r \<Rightarrow> \<exists>c. a = Inr (r, c) \<and> exec_cache_ok ts c)"

lemma same_route_simps [simp]:
  "same_route ts (Inl e) (Inl e') \<longleftrightarrow> e = e'" "same_route ts (Inr (r, c)) (Inr r') \<longleftrightarrow> r = r' \<and> exec_cache_ok ts c"
  by (auto simp: same_route_def)

lemma same_route_bind:
  "same_route ts a b \<Longrightarrow> (\<And>r c. exec_cache_ok ts c \<Longrightarrow> same_route ts (f (r, c)) (g r)) \<Longrightarrow>
   same_route ts (bind_res a f) (bind_res b g)"
proof (cases b)
  case (Inr r)
  assume "same_route ts a b" and f: "\<And>r c. exec_cache_ok ts c \<Longrightarrow> same_route ts (f (r, c)) (g r)"
  with Inr obtain c where "a = Inr (r, c)" "exec_cache_ok ts c" by (auto simp: same_route_def)
  with Inr f [of c r] show ?thesis by simp
qed (simp add: same_route_def)

lemma possible_route_cache:
  "wf_spec_ok w \<Longrightarrow> exec_cache_ok ts c \<Longrightarrow> same_route ts (possible_route n w ts t c depth) (route n w ts t depth)"
  "wf_spec_ok w \<Longrightarrow> exec_cache_ok ts c \<Longrightarrow> set ss \<subseteq> set (inbound w t) \<Longrightarrow>
   same_route ts (route_loop n w ts t ss c depth) (route_list n w ts t ss depth)"
proof (induction n w ts t c depth and n w ts t ss c depth rule: possible_route_route_loop.induct)
  case (1 w ts t cache depth)
  then show ?case by simp
next
  case (2 n w ts t cache depth)
  then show ?case by (auto simp: find_inbound_ok)
next
  case (3 n w ts t cache depth)
  then show ?case by simp
next
  case (4 n w ts t s ss cache depth)
  obtain p where p: "prepare_task_executions_cache w ts t = Inr p" "exec_cache_ok ts p" "dict_ok p"
    "dget p (ts_name s) = Some (exec_by_name ts (ts_name s))"
    using prepare_cache [OF "4.prems"(1), of ts t] "4.prems"(3) by (metis list.set_intros(1) subset_iff)
  define c1 where "c1 = (if dhas cache (ts_name s) then cache else dupdate cache p)"
  have c1: "(if dhas cache (ts_name s) then Inr cache
      else bind_res (prepare_task_executions_cache w ts t) (\<lambda>c. Inr (dupdate cache c))) = Inr c1"
    using p(1) by (simp add: c1_def)
  have ok: "exec_cache_ok ts c1" using "4.prems"(2) p by (simp add: c1_def exec_cache_ok_dupdate)
  have get: "dget c1 (ts_name s) = Some (exec_by_name ts (ts_name s))"
  proof (cases "dhas cache (ts_name s)")
    case True
    then obtain v where "dget cache (ts_name s) = Some v" unfolding dhas_def by blast
    with True "4.prems"(2) show ?thesis by (auto simp: c1_def exec_cache_ok_def)
  next
    case False
    with p show ?thesis by (simp add: c1_def dget_dupdate)
  qed
  note IH1 = "4.IH"(1)
  note IH2 = "4.IH"(2)
  note IH3 = "4.IH"(3)
  show ?case
  proof (cases "exec_by_name ts (ts_name s)")
    case None
    with get have g: "Option.bind (dget c1 (ts_name s)) (\<lambda>x. x) = None" by simp
    show ?thesis
      unfolding possible_route.simps route_loop.simps route_list.simps c1 bind_res_simps g None option.case
      using IH1 IH2 "4.prems" ok g None
      by (intro same_route_bind) (auto split: prod.splits)
  next
    case (Some y)
    with get have g: "Option.bind (dget c1 (ts_name s)) (\<lambda>x. x) = Some y" by simp
    show ?thesis
      unfolding route_loop.simps route_list.simps c1 bind_res_simps g Some option.case
      using IH3 [OF g] "4.prems" ok
      by (cases "triggers y (ts_name t)") auto
  qed
qed

end
