(* ===== verification/Join_Routes.thy ===== *)
theory Join_Routes
  imports Direct_Workflow
begin

text \<open>
  What the functions of \<open>Direct_Workflow\<close> compute: when a join may still start (the search for a
  possible route, its termination and its failure on cycles), when it runs, fails and waits, which
  joins a completion affects, and which transitions a task may take.
\<close>

section \<open>Possible routes\<close>

text \<open>
  The specification of the search: a task without an execution may still start if nothing precedes
  it, or a task before it is unfinished, or has triggered it, or may itself still start.
\<close>

inductive may_start :: "workflow_spec \<Rightarrow> task_ex list \<Rightarrow> task_spec \<Rightarrow> bool" for w ts where
  start: "inbound w t = [] \<Longrightarrow> may_start w ts t"
| unfinished: "s \<in> set (inbound w t) \<Longrightarrow> exec_by_name ts (ts_name s) = Some x \<Longrightarrow> \<not> is_completed (te_state x) \<Longrightarrow>
    may_start w ts t"
| triggered: "s \<in> set (inbound w t) \<Longrightarrow> exec_by_name ts (ts_name s) = Some x \<Longrightarrow> is_completed (te_state x) \<Longrightarrow>
    triggers x (ts_name t) = Inr True \<Longrightarrow> may_start w ts t"
| through: "s \<in> set (inbound w t) \<Longrightarrow> exec_by_name ts (ts_name s) = None \<Longrightarrow> may_start w ts s \<Longrightarrow> may_start w ts t"

lemma route_sound:
  "route n w ts t d = Inr (True, d') \<Longrightarrow> may_start w ts t"
  "set ss \<subseteq> set (inbound w t) \<Longrightarrow> route_list n w ts t ss d = Inr (True, d') \<Longrightarrow> may_start w ts t"
proof (induction n w ts t d and n w ts t ss d arbitrary: d' and d' rule: route_route_list.induct)
  case (2 n w ts t depth)
  then show ?case by (cases "inbound w t = []") (auto intro: may_start.start)
next
  case (4 n w ts t s ss depth)
  show ?case
  proof (cases "exec_by_name ts (ts_name s)")
    case None
    from 4(5) None obtain p d1 where r: "route n w ts s (depth + 1) = Inr (p, d1)"
      and rest: "(if p then Inr (True, d1) else route_list n w ts t ss d1) = Inr (True, d')"
      by (auto simp: bind_res_eq_Inr)
    show ?thesis
    proof (cases p)
      case True
      with 4(1) [OF None] r have "may_start w ts s" by simp
      with None 4(4) show ?thesis by (auto intro: may_start.through)
    next
      case False
      with 4(2) [OF None] rest 4(4) show ?thesis by auto
    qed
  next
    case (Some y)
    show ?thesis
    proof (cases "is_completed (te_state y)")
      case False
      with Some 4(4) show ?thesis by (auto intro: may_start.unfinished)
    next
      case True
      with 4(5) Some obtain b where b: "triggers y (ts_name t) = Inr b"
        and rest: "(if b then Inr (True, depth) else route_list n w ts t ss depth) = Inr (True, d')"
        by (auto simp: bind_res_eq_Inr)
      show ?thesis
      proof (cases b)
        case True
        with b Some \<open>is_completed (te_state y)\<close> 4(4) show ?thesis by (auto intro: may_start.triggered)
      next
        case False
        with rest b 4(3) [OF Some] True 4(4) show ?thesis by auto
      qed
    qed
  qed
qed auto

text \<open>What a negative answer of the loop says about each task it has looked at.\<close>

definition no_way_through :: "nat \<Rightarrow> workflow_spec \<Rightarrow> task_ex list \<Rightarrow> task_spec \<Rightarrow> task_spec \<Rightarrow> bool" where
  "no_way_through n w ts t s \<longleftrightarrow>
     (case exec_by_name ts (ts_name s) of
        None \<Rightarrow> (\<exists>d d'. route n w ts s d = Inr (False, d'))
      | Some x \<Rightarrow> is_completed (te_state x) \<and> triggers x (ts_name t) = Inr False)"

lemma route_list_False:
  "route_list n w ts t ss d = Inr (False, d') \<Longrightarrow> s \<in> set ss \<Longrightarrow> no_way_through n w ts t s"
proof (induction ss arbitrary: d)
  case (Cons s' ss)
  then show ?case
    by (auto simp: no_way_through_def bind_res_eq_Inr split: option.splits if_splits prod.splits) blast+
qed simp

lemma route_complete: "may_start w ts t \<Longrightarrow> route n w ts t d \<noteq> Inr (False, d')"
proof (induction t arbitrary: n d d' rule: may_start.induct)
  case (start t)
  then show ?case by (cases n) auto
next
  case (unfinished s t x)
  then show ?case by (cases n) (auto simp: no_way_through_def dest!: route_list_False [where s = s])
next
  case (triggered s t x)
  then show ?case by (cases n) (auto simp: no_way_through_def dest!: route_list_False [where s = s])
next
  case (through s t)
  then show ?case by (cases n) (auto simp: no_way_through_def dest!: route_list_False [where s = s])
qed

definition next_tasks_known :: "task_ex list \<Rightarrow> bool" where
  "next_tasks_known ts \<longleftrightarrow> list_all (\<lambda>t. is_completed (te_state t) \<longrightarrow> te_next_tasks t \<noteq> None) ts"

lemma exec_by_name_in: "exec_by_name ts k = Some t \<Longrightarrow> t \<in> set ts \<and> te_name t = k"
  by (auto simp: exec_by_name_def dest: find_Some_set)

lemma triggers_known:
  "next_tasks_known ts \<Longrightarrow> exec_by_name ts k = Some t \<Longrightarrow> is_completed (te_state t) \<Longrightarrow> \<exists>b. triggers t m = Inr b"
  using exec_by_name_in by (fastforce simp: next_tasks_known_def list_all_iff triggers_def split: option.splits)

definition ranked :: "(string \<Rightarrow> nat) \<Rightarrow> workflow_spec \<Rightarrow> bool" where
  "ranked f w \<longleftrightarrow> (\<forall>t \<in> set (get_tasks w). \<forall>s \<in> set (inbound w t). f (ts_name s) < f (ts_name t))"

lemma inbound_get_tasks: "s \<in> set (inbound w t) \<Longrightarrow> s \<in> set (get_tasks w)"
  by (simp add: inbound_set)

lemma route_total:
  "next_tasks_known ts \<Longrightarrow> ranked f w \<Longrightarrow> t \<in> set (get_tasks w) \<Longrightarrow> f (ts_name t) < n \<Longrightarrow> \<exists>r. route n w ts t d = Inr r"
  "next_tasks_known ts \<Longrightarrow> ranked f w \<Longrightarrow> t \<in> set (get_tasks w) \<Longrightarrow> f (ts_name t) \<le> n \<Longrightarrow> set ss \<subseteq> set (inbound w t) \<Longrightarrow>
   \<exists>r. route_list n w ts t ss d = Inr r"
proof (induction n w ts t d and n w ts t ss d rule: route_route_list.induct)
  case (2 n w ts t depth)
  then show ?case by (cases "inbound w t = []") auto
next
  case (4 n w ts t s ss depth)
  have s: "s \<in> set (inbound w t)" using "4.prems"(5) by simp
  then have lt: "f (ts_name s) < n" using "4.prems"(2,3,4) unfolding ranked_def by (meson less_le_trans)
  show ?case
  proof (cases "exec_by_name ts (ts_name s)")
    case None
    obtain p d1 where "route n w ts s (depth + 1) = Inr (p, d1)"
      using "4.IH"(1) [OF None "4.prems"(1,2) inbound_get_tasks [OF s] lt] by auto
    with None "4.IH"(2) [OF None, of p d1] "4.prems" show ?thesis by (cases p) auto
  next
    case (Some y)
    show ?thesis
    proof (cases "is_completed (te_state y)")
      case True
      with triggers_known [OF "4.prems"(1) Some] obtain b where "triggers y (ts_name t) = Inr b" by blast
      with Some True "4.IH"(3) [OF Some, of b] "4.prems" show ?thesis by (cases b) auto
    qed (auto simp: Some)
  qed
qed auto

text \<open>
  C35. In a workflow without cycles the search for a route to a task that has not run always
  ends, within as many nested calls as the task has ranks below it, and its answer is right: it
  finds a route exactly if the task may still start.
\<close>

theorem possible_route_correct:
  assumes "wf_spec_ok w" and "next_tasks_known ts" and "ranked f w" and "t \<in> set (get_tasks w)"
    and "f (ts_name t) < n"
  shows "\<exists>d c. possible_route n w ts t [] depth = Inr ((may_start w ts t, d), c)"
proof -
  obtain p d where r: "route n w ts t depth = Inr (p, d)" using route_total(1) [OF assms(2-5)] by (metis surj_pair)
  have "p = may_start w ts t"
  proof (cases p)
    case True
    with r have "may_start w ts t" using route_sound(1) by simp
    with True show ?thesis by simp
  next
    case False
    with r have "\<not> may_start w ts t" using route_complete [of w ts t n depth d] by auto
    with False show ?thesis by simp
  qed
  moreover have "same_route ts (possible_route n w ts t [] depth) (Inr (p, d))"
    using possible_route_cache(1) [OF assms(1), of ts "[]" n t depth] r by (simp add: exec_cache_ok_def)
  ultimately show ?thesis by (auto simp: same_route_def)
qed

theorem possible_route_correct_witness:
  "\<exists>d c. possible_route 2 chain_wf [] (mk_task ''a''\<lparr>ts_on_success := simple_clause [''b'']\<rparr>) [] 1 =
     Inr ((may_start chain_wf [] (mk_task ''a''\<lparr>ts_on_success := simple_clause [''b'']\<rparr>), d), c)"
proof (rule possible_route_correct [where f = "\<lambda>s. if s = ''a'' then 0 else 1"])
  show "wf_spec_ok chain_wf" by (rule chain_wf_ok)
  show "next_tasks_known []" by (simp add: next_tasks_known_def)
  show "ranked (\<lambda>s. if s = ''a'' then 0 else 1) chain_wf"
    by (auto simp: ranked_def inbound_def outbound_def chain_wf_def mk_wf_def mk_task_def get_tasks_def get_task_def
        find_outbound_task_names_def clause_getters clause_with_defaults_def simple_clause_def)
  show "mk_task ''a''\<lparr>ts_on_success := simple_clause [''b'']\<rparr> \<in> set (get_tasks chain_wf)"
    by (simp add: chain_wf_def mk_wf_def get_tasks_def)
qed (simp add: mk_task_def)

text \<open>
  If tasks that have not run precede each other in a cycle, and no task outside the cycle can
  start one of them, the search never ends: whatever the limit of the recursion, it is exceeded.
  The workflow is a valid one, and the refresh of the state of a join behind the cycle fails.
\<close>

theorem possible_route_diverges:
  assumes "wf_spec_ok w" and "t \<in> C"
    and "\<forall>c \<in> C. set (inbound w c) \<inter> {s \<in> C. exec_by_name ts (ts_name s) = None} \<noteq> {}"
    and "\<forall>c \<in> C. \<forall>s \<in> set (inbound w c). (s \<in> C \<and> exec_by_name ts (ts_name s) = None) \<or>
       (\<exists>x. exec_by_name ts (ts_name s) = Some x \<and> is_completed (te_state x) \<and> triggers x (ts_name c) = Inr False)"
  shows "possible_route n w ts t [] depth = Inl RecursionError"
proof -
  have "(\<forall>t d. t \<in> C \<longrightarrow> route n w ts t d = Inl RecursionError)" for n
  proof (induction n)
    case 0
    then show ?case by simp
  next
    case (Suc n)
    have loop: "route_list n w ts c ss d = Inl RecursionError"
      if "c \<in> C" "set ss \<subseteq> set (inbound w c)" "set ss \<inter> {s \<in> C. exec_by_name ts (ts_name s) = None} \<noteq> {}" for c ss d
      using that(2,3)
    proof (induction ss arbitrary: d)
      case (Cons s ss)
      show ?case
      proof (cases "s \<in> C \<and> exec_by_name ts (ts_name s) = None")
        case True
        with Suc.IH show ?thesis by simp
      next
        case False
        have "s \<in> set (inbound w c)" using Cons.prems by simp
        from assms(4) [THEN bspec, OF that(1), THEN bspec, OF this] False
        obtain x where x: "exec_by_name ts (ts_name s) = Some x"
          "is_completed (te_state x)" "triggers x (ts_name c) = Inr False" by auto
        have "set ss \<subseteq> set (inbound w c)" "set ss \<inter> {s \<in> C. exec_by_name ts (ts_name s) = None} \<noteq> {}"
          using Cons.prems False by auto
        then have "route_list n w ts c ss d = Inl RecursionError" by (rule Cons.IH)
        with x show ?thesis by simp
      qed
    qed simp
    show ?case
    proof (intro allI impI)
      fix c d
      assume c: "c \<in> C"
      then have cap: "set (inbound w c) \<inter> {s \<in> C. exec_by_name ts (ts_name s) = None} \<noteq> {}" using assms(3) by blast
      then have "inbound w c \<noteq> []" by auto
      then show "route (Suc n) w ts c d = Inl RecursionError" using loop [OF c subset_refl cap] by simp
    qed
  qed
  then have "route n w ts t depth = Inl RecursionError" using assms(2) by blast
  with possible_route_cache(1) [OF assms(1), of ts "[]" n t depth] show ?thesis
    by (simp add: exec_cache_ok_def same_route_def)
qed

text \<open>A retry loop \<open>b\<close>, \<open>c\<close> that its only entry \<open>a\<close> has not taken.\<close>

definition loop_wf :: workflow_spec where
  "loop_wf = mk_wf [(mk_task ''a'')\<lparr>ts_on_error := simple_clause [''b''], ts_on_success := simple_clause [''j'']\<rparr>,
     (mk_task ''b'')\<lparr>ts_on_success := simple_clause [''c'']\<rparr>,
     (mk_task ''c'')\<lparr>ts_on_error := simple_clause [''b''], ts_on_success := simple_clause [''j'']\<rparr>,
     (mk_task ''j'')\<lparr>ts_join := Some JoinAll\<rparr>]"

definition loop_execs :: "task_ex list" where
  "loop_execs = [(mk_task_ex ''1'' ''w'' (mk_task ''a'') SUCCESS)\<lparr>te_next_tasks := Some [(''j'', Some ''on-success'')]\<rparr>]"

definition loop_b :: task_spec where
  "loop_b = (mk_task ''b'')\<lparr>ts_on_success := simple_clause [''c'']\<rparr>"

definition loop_c :: task_spec where
  "loop_c = (mk_task ''c'')\<lparr>ts_on_error := simple_clause [''b''], ts_on_success := simple_clause [''j'']\<rparr>"

lemmas spec_eval = inbound_def outbound_def mk_wf_def mk_task_def get_tasks_def get_task_def
  find_outbound_task_names_def clause_getters clause_with_defaults_def simple_clause_def

lemma loop_inbound:
  "inbound loop_wf loop_b = [(mk_task ''a'')\<lparr>ts_on_error := simple_clause [''b''], ts_on_success := simple_clause [''j'']\<rparr>, loop_c]"
  "inbound loop_wf loop_c = [loop_b]"
  by (simp_all add: loop_wf_def loop_b_def loop_c_def spec_eval)

lemma loop_exec:
  "exec_by_name loop_execs ''b'' = None" "exec_by_name loop_execs ''c'' = None"
  "exec_by_name loop_execs ''a'' = Some (hd loop_execs)"
  by (simp_all add: exec_by_name_def loop_execs_def mk_task_ex_def mk_task_def)

lemma loop_not_triggered:
  "is_completed (te_state (hd loop_execs)) \<and> triggers (hd loop_execs) ''b'' = Inr False"
  by (simp add: loop_execs_def mk_task_ex_def triggers_def)

theorem possible_route_diverges_witness:
  "possible_route 1000 loop_wf loop_execs loop_c [] 1 = Inl RecursionError"
proof (rule possible_route_diverges [where C = "{loop_b, loop_c}"])
  show "wf_spec_ok loop_wf" by (simp add: loop_wf_def mk_wf_def mk_task_def wf_spec_ok_def dict_ok_def)
  have n: "ts_name loop_b = ''b''" "ts_name loop_c = ''c''" by (simp_all add: loop_b_def loop_c_def mk_task_def)
  show "\<forall>c \<in> {loop_b, loop_c}. set (inbound loop_wf c) \<inter>
      {s \<in> {loop_b, loop_c}. exec_by_name loop_execs (ts_name s) = None} \<noteq> {}"
    by (auto simp: loop_inbound n loop_exec)
  show "\<forall>c \<in> {loop_b, loop_c}. \<forall>s \<in> set (inbound loop_wf c).
      (s \<in> {loop_b, loop_c} \<and> exec_by_name loop_execs (ts_name s) = None) \<or>
      (\<exists>x. exec_by_name loop_execs (ts_name s) = Some x \<and> is_completed (te_state x) \<and> triggers x (ts_name c) = Inr False)"
    using loop_not_triggered by (simp add: loop_inbound n loop_exec) (simp add: mk_task_def loop_exec)
qed simp

section \<open>The decision of a join\<close>

definition induced_of :: "nat \<Rightarrow> workflow_spec \<Rightarrow> task_ex list \<Rightarrow> task_spec \<Rightarrow> task_spec \<Rightarrow> induced res" where
  "induced_of n w ts t s =
     (let mk = (\<lambda>(st, depth, ev). \<lparr>in_name = ts_name s, in_exec = exec_by_name ts (ts_name s), in_state = st, in_depth = depth, in_event = ev\<rparr>)
      in case exec_by_name ts (ts_name s) of
           None \<Rightarrow> bind_res (route n w ts s 1) (\<lambda>(possible, depth).
             Inr (mk (if possible then (WAITING, depth, None) else (ERROR, depth, Some ''impossible route''))))
         | Some x \<Rightarrow> Inr (mk
             (if \<not> is_completed (te_state x) then (WAITING, 1, None)
              else (case map_of (rev (case te_next_tasks x of None \<Rightarrow> [] | Some ns \<Rightarrow> ns)) (ts_name t) of
                      None \<Rightarrow> (ERROR, 1, Some ''not triggered'') | Some ev \<Rightarrow> (RUNNING, 1, ev)))))"

lemma possible_route_keys:
  "possible_route n w ts t c d = Inr (r, c') \<Longrightarrow> fst ` set c \<subseteq> fst ` set c'"
  "route_loop n w ts t ss c d = Inr (r, c') \<Longrightarrow> fst ` set c \<subseteq> fst ` set c'"
proof (induction n w ts t c d and n w ts t ss c d arbitrary: r c' and r c' rule: possible_route_route_loop.induct)
  case (2 n w ts t cache depth)
  from "2.prems" obtain ins where "find_inbound_task_specs w t = Inr ins"
    and rest: "(if ins = [] then Inr ((True, depth), cache) else route_loop n w ts t ins cache depth) = Inr (r, c')"
    by (auto simp: bind_res_eq_Inr)
  then show ?case using "2.IH" [of ins r c'] by (cases "ins = []") auto
next
  case (4 n w ts t s ss cache depth)
  let ?c = "if dhas cache (ts_name s) then Inr cache
     else bind_res (prepare_task_executions_cache w ts t) (\<lambda>c. Inr (dupdate cache c))"
  obtain c1 where f: "?c = Inr c1"
    and rest: "(case Option.bind (dget c1 (ts_name s)) (\<lambda>x. x) of
          None \<Rightarrow> bind_res (possible_route n w ts s c1 (depth + 1)) (\<lambda>r. case r of ((possible, depth1), cache2) \<Rightarrow>
                 if possible then Inr ((True, depth1), cache2) else route_loop n w ts t ss cache2 depth1)
        | Some t_ex \<Rightarrow> (if \<not> is_completed (te_state t_ex) then Inr ((True, depth), c1)
             else bind_res (triggers t_ex (ts_name t)) (\<lambda>b.
                    if b then Inr ((True, depth), c1) else route_loop n w ts t ss c1 depth))) = Inr (r, c')"
    using "4.prems" unfolding route_loop.simps by (rule bind_res_InrE)
  from f have c1: "fst ` set cache \<subseteq> fst ` set c1"
    using dkeys_dupdate_sub [of cache] by (cases "dhas cache (ts_name s)") (auto simp: bind_res_eq_Inr simp del: dhas_iff)
  show ?case
  proof (cases "Option.bind (dget c1 (ts_name s)) (\<lambda>x. x)")
    case None
    with rest obtain p d1 c2 where r2: "possible_route n w ts s c1 (depth + 1) = Inr ((p, d1), c2)"
      and l2: "(if p then Inr ((True, d1), c2) else route_loop n w ts t ss c2 d1) = Inr (r, c')"
      by (auto simp: bind_res_eq_Inr)
    from "4.IH"(1) [OF None r2] have "fst ` set c1 \<subseteq> fst ` set c2" .
    moreover have "fst ` set c2 \<subseteq> fst ` set c'"
    proof (cases p)
      case False
      with l2 have "route_loop n w ts t ss c2 d1 = Inr (r, c')" by simp
      from "4.IH"(2) [OF None refl _ this] False show ?thesis by simp
    qed (use l2 in simp)
    ultimately show ?thesis using c1 by (meson subset_trans)
  next
    case (Some y)
    show ?thesis
    proof (cases "c1 = c'")
      case True
      with c1 show ?thesis by simp
    next
      case False
      with rest Some have "route_loop n w ts t ss c1 depth = Inr (r, c')" "is_completed (te_state y)"
        by (auto simp: bind_res_eq_Inr split: if_splits)
      with rest Some False obtain b where "triggers y (ts_name t) = Inr b" "\<not> b"
        by (auto simp: bind_res_eq_Inr split: if_splits)
      with "4.IH"(3) [OF Some] \<open>is_completed (te_state y)\<close> \<open>route_loop n w ts t ss c1 depth = Inr (r, c')\<close>
      have "fst ` set c1 \<subseteq> fst ` set c'" by simp
      with c1 show ?thesis by (meson subset_trans)
    qed
  qed
qed auto

lemma induced_state_same:
  assumes "wf_spec_ok w" and "exec_cache_ok ts c"
  shows "case induced_of n w ts t s of
      Inl x \<Rightarrow> get_induced_join_state n w ts s (exec_by_name ts (ts_name s)) t c = Inl x
    | Inr i \<Rightarrow> \<exists>c'. get_induced_join_state n w ts s (exec_by_name ts (ts_name s)) t c = Inr ((in_state i, in_depth i, in_event i), c') \<and>
        i = \<lparr>in_name = ts_name s, in_exec = exec_by_name ts (ts_name s), in_state = in_state i, in_depth = in_depth i, in_event = in_event i\<rparr> \<and>
        exec_cache_ok ts c' \<and> fst ` set c \<subseteq> fst ` set c'"
proof (cases "exec_by_name ts (ts_name s)")
  case None
  note same = possible_route_cache(1) [OF assms, of n s 1]
  show ?thesis
  proof (cases "route n w ts s 1")
    case (Inl x)
    with same None show ?thesis by (simp add: induced_of_def get_induced_join_state_def same_route_def)
  next
    case (Inr r)
    with same obtain c' where c': "possible_route n w ts s c 1 = Inr (r, c')" "exec_cache_ok ts c'"
      by (auto simp: same_route_def)
    with None Inr possible_route_keys(1) [OF c'(1)] show ?thesis
      by (cases r) (auto simp: induced_of_def get_induced_join_state_def)
  qed
next
  case (Some x)
  with assms show ?thesis
    by (auto simp: induced_of_def get_induced_join_state_def Let_def split: option.split)
qed

lemma induced_loop_eq:
  "wf_spec_ok w \<Longrightarrow> exec_cache_ok ts c \<Longrightarrow> ts_name ` set ss \<subseteq> fst ` set c \<Longrightarrow>
   induced_loop n w ts t ss c = map_res (induced_of n w ts t) ss"
proof (induction ss arbitrary: c)
  case (Cons s ss)
  have "ts_name s \<in> fst ` set c" using Cons.prems by simp
  then obtain v where "dget c (ts_name s) = Some v" by (metis map_of_eq_None_iff not_Some_eq)
  with Cons.prems(2) have g: "dget c (ts_name s) = Some (exec_by_name ts (ts_name s))" by (simp add: exec_cache_ok_def)
  note st = induced_state_same [OF Cons.prems(1,2), where n = n and t = t and s = s]
  show ?case
  proof (cases "induced_of n w ts t s")
    case (Inl x)
    with st g show ?thesis by simp
  next
    case (Inr i)
    with st obtain c' where c': "get_induced_join_state n w ts s (exec_by_name ts (ts_name s)) t c =
        Inr ((in_state i, in_depth i, in_event i), c')" "exec_cache_ok ts c'" "fst ` set c \<subseteq> fst ` set c'"
      and i: "i = \<lparr>in_name = ts_name s, in_exec = exec_by_name ts (ts_name s), in_state = in_state i, in_depth = in_depth i, in_event = in_event i\<rparr>"
      by auto
    have "induced_loop n w ts t ss c' = map_res (induced_of n w ts t) ss"
    proof (rule Cons.IH [OF Cons.prems(1) c'(2)])
      have "ts_name ` set ss \<subseteq> fst ` set c" using Cons.prems(3) by simp
      also note c'(3)
      finally show "ts_name ` set ss \<subseteq> fst ` set c'" .
    qed
    with g c' i Inr show ?thesis by (auto simp: bind_res_def split: sum.splits)
  qed
qed simp

text \<open>The states that the inbound tasks of a join induce, read from the rows.\<close>

lemma induced_states_eq:
  "wf_spec_ok w \<Longrightarrow> induced_states n w ts t = map_res (induced_of n w ts t) (inbound w t)"
proof -
  assume ok: "wf_spec_ok w"
  obtain c where c: "prepare_task_executions_cache w ts t = Inr c" "exec_cache_ok ts c"
    "\<forall>s \<in> set (inbound w t). dget c (ts_name s) = Some (exec_by_name ts (ts_name s))"
    using prepare_cache [OF ok] by blast
  have "ts_name ` set (inbound w t) \<subseteq> fst ` set c"
    using c(3) by (metis (no_types, lifting) image_subset_iff map_of_eq_None_iff option.distinct(1))
  with induced_loop_eq [OF ok c(2)] show ?thesis by (simp add: induced_states_def ok c(1))
qed

end
