(* ===== verification/Join_Decision.thy ===== *)
theory Join_Decision
  imports Join_Routes
begin

text \<open>
  What the functions of \<open>Direct_Workflow\<close> decide: when a join runs, fails and waits, which joins
  the completion of a task affects, which transitions a task may take, and which tasks the context
  of a task comes from.
\<close>

section \<open>When a join runs\<close>

text \<open>An inbound task has triggered the join: it is complete and lists the join as a next task.\<close>

definition has_triggered :: "task_ex list \<Rightarrow> task_spec \<Rightarrow> task_spec \<Rightarrow> bool" where
  "has_triggered ts t s \<longleftrightarrow>
     (case exec_by_name ts (ts_name s) of
        None \<Rightarrow> False
      | Some x \<Rightarrow> is_completed (te_state x) \<and>
          ts_name t \<in> set (map fst (case te_next_tasks x of None \<Rightarrow> [] | Some ns \<Rightarrow> ns)))"

definition is_finished :: "task_ex list \<Rightarrow> task_spec \<Rightarrow> bool" where
  "is_finished ts s \<longleftrightarrow> (case exec_by_name ts (ts_name s) of None \<Rightarrow> False | Some x \<Rightarrow> is_completed (te_state x))"

lemma induced_running:
  "induced_of n w ts t s = Inr i \<Longrightarrow> in_state i = RUNNING \<longleftrightarrow> has_triggered ts t s"
  by (auto simp: induced_of_def has_triggered_def Let_def bind_res_eq_Inr map_of_eq_None_iff
      dest!: dget_in_keys split: option.splits if_splits)

lemma induced_finished:
  "induced_of n w ts t s = Inr i \<Longrightarrow> is_finished ts s \<Longrightarrow> in_state i = RUNNING \<or> in_state i = ERROR"
  by (auto simp: induced_of_def is_finished_def Let_def split: option.splits if_splits)

lemma list_all2_filter_length:
  "list_all2 (\<lambda>s i. f s = Inr i) ss is \<Longrightarrow> (\<And>s i. s \<in> set ss \<Longrightarrow> f s = Inr i \<Longrightarrow> P i \<longleftrightarrow> Q s) \<Longrightarrow>
   length (filter P is) = length (filter Q ss)"
  by (induction rule: list_all2_induct) auto

text \<open>How many inbound tasks a join needs.\<close>

definition needed :: "join_val \<Rightarrow> nat \<Rightarrow> int" where
  "needed j n = (case j of JoinAll \<Rightarrow> int n | JoinOne \<Rightarrow> 1 | JoinNum m \<Rightarrow> m)"

lemma join_decision_running:
  "ls_state (join_decision j is) = RUNNING \<longleftrightarrow>
     (case j of JoinAll \<Rightarrow> int (length is) = fst (count_induced is RUNNING)
      | _ \<Rightarrow> fst (count_induced is RUNNING) \<ge> needed j (length is))"
  by (auto simp: join_decision_def Let_def needed_def split: join_val.split)

lemma count_running_le: "fst (count_induced is s) \<le> int (length is)"
  by (simp add: count_induced_def)

text \<open>An inbound task will not trigger the join any more: it has completed without, or it has not run and cannot start.\<close>

definition given_up :: "workflow_spec \<Rightarrow> task_ex list \<Rightarrow> task_spec \<Rightarrow> task_spec \<Rightarrow> bool" where
  "given_up w ts t s \<longleftrightarrow>
     (case exec_by_name ts (ts_name s) of
        None \<Rightarrow> \<not> may_start w ts s
      | Some x \<Rightarrow> is_completed (te_state x) \<and> \<not> has_triggered ts t s)"

lemma route_answer:
  assumes "next_tasks_known ts" "ranked f w" "s \<in> set (get_tasks w)" "f (ts_name s) < n"
  shows "\<exists>d'. route n w ts s d = Inr (may_start w ts s, d')"
proof -
  obtain p d' where r: "route n w ts s d = Inr (p, d')" using route_total(1) [OF assms] by (metis surj_pair)
  then have "p = may_start w ts s" using route_sound(1) [of n w ts s d] route_complete [of w ts s n d] by (cases p) auto
  then show ?thesis using r by blast
qed

text \<open>What an inbound task induces: RUNNING if it has triggered the join, ERROR if it will not, WAITING otherwise.\<close>

lemma induced_answer:
  assumes "next_tasks_known ts" "ranked f w" "s \<in> set (get_tasks w)" "f (ts_name s) < n"
  shows "\<exists>i. induced_of n w ts t s = Inr i \<and>
    in_state i = (if has_triggered ts t s then RUNNING else if given_up w ts t s then ERROR else WAITING)"
proof (cases "exec_by_name ts (ts_name s)")
  case None
  then show ?thesis using route_answer [OF assms, of 1] by (auto simp: induced_of_def has_triggered_def given_up_def)
next
  case (Some x)
  then obtain i where i: "induced_of n w ts t s = Inr i" by (simp add: induced_of_def Let_def)
  have "in_state i = RUNNING \<longleftrightarrow> has_triggered ts t s" by (rule induced_running [OF i])
  moreover have "in_state i = (if \<not> is_completed (te_state x) then WAITING else if in_state i = RUNNING then RUNNING else ERROR)"
    using i Some by (auto simp: induced_of_def Let_def split: option.splits if_splits)
  ultimately show ?thesis using i Some by (auto simp: given_up_def has_triggered_def split: if_splits)
qed

lemma join_decision_state:
  assumes "0 \<le> fst (count_induced is RUNNING)" "fst (count_induced is RUNNING) + fst (count_induced is ERROR) \<le> int (length is)"
  shows "ls_state (join_decision j is) =
    (if fst (count_induced is RUNNING) \<ge> needed j (length is) then RUNNING
     else if fst (count_induced is ERROR) > int (length is) - needed j (length is) then ERROR else WAITING)"
  using assms count_running_le [of "is" RUNNING] by (auto simp: join_decision_def Let_def needed_def split: join_val.split)

lemma filter_disjoint_length: "(\<And>x. \<not> (P x \<and> Q x)) \<Longrightarrow> length (filter P xs) + length (filter Q xs) \<le> length xs"
  by (induction xs) auto

text \<open>
  C33. In a workflow without cycles the state of a join is decided, and it follows from its inbound tasks alone: it runs as soon as
  as many as it needs (all for \<^verbatim>\<open>join: all\<close>, one for \<^verbatim>\<open>join: one\<close>, else the given number) have completed and triggered it; it
  fails as soon as so many will not trigger it any more, since they have completed without or cannot start, that too few are left; and
  it waits otherwise.
\<close>

theorem join_runs_iff:
  assumes "wf_spec_ok w" "next_tasks_known ts" "ranked f w" "t \<in> set (get_tasks w)" "f (ts_name t) \<le> n" "inbound w t \<noteq> []"
  shows "\<exists>l. get_join_logical_state n w ts t = Inr l \<and>
    ls_state l =
      (if int (length (filter (has_triggered ts t) (inbound w t))) \<ge> needed (the (ts_join t)) (length (inbound w t)) then RUNNING
       else if int (length (filter (given_up w ts t) (inbound w t))) > int (length (inbound w t)) - needed (the (ts_join t)) (length (inbound w t))
       then ERROR else WAITING)"
proof -
  let ?i = "\<lambda>s. if has_triggered ts t s then RUNNING else if given_up w ts t s then ERROR else WAITING"
  have "\<forall>s \<in> set (inbound w t). \<exists>i. induced_of n w ts t s = Inr i \<and> in_state i = ?i s"
  proof
    fix s assume s: "s \<in> set (inbound w t)"
    then have "f (ts_name s) < n" using assms(3,4,5) unfolding ranked_def by (meson less_le_trans)
    then show "\<exists>i. induced_of n w ts t s = Inr i \<and> in_state i = ?i s" by (rule induced_answer [OF assms(2,3) inbound_get_tasks [OF s]])
  qed
  then obtain g where g: "\<forall>s \<in> set (inbound w t). induced_of n w ts t s = Inr (g s) \<and> in_state (g s) = ?i s" by metis
  define "is" where "is = map g (inbound w t)"
  have "map_res (induced_of n w ts t) (inbound w t) = Inr is" unfolding is_def by (rule map_res_total) (simp add: g)
  then have l: "get_join_logical_state n w ts t = Inr (join_decision (the (ts_join t)) is)"
    using assms(1,6) by (simp add: get_join_logical_state_def induced_states_eq)
  have apart: "\<not> (has_triggered ts t s \<and> given_up w ts t s)" for s
    by (auto simp: has_triggered_def given_up_def split: option.splits)
  have count: "fst (count_induced is st) = int (length (filter (\<lambda>s. ?i s = st) (inbound w t)))" for st
    using g by (simp add: count_induced_def is_def filter_map comp_def cong: filter_cong)
  have runs: "fst (count_induced is RUNNING) = int (length (filter (has_triggered ts t) (inbound w t)))"
    unfolding count by (rule arg_cong [where f = "\<lambda>xs. int (length xs)"], rule filter_cong) auto
  have errs: "fst (count_induced is ERROR) = int (length (filter (given_up w ts t) (inbound w t)))"
    unfolding count by (rule arg_cong [where f = "\<lambda>xs. int (length xs)"], rule filter_cong) (use apart in auto)
  have len: "length is = length (inbound w t)" by (simp add: is_def)
  have "fst (count_induced is RUNNING) + fst (count_induced is ERROR) \<le> int (length is)"
    unfolding runs errs len using filter_disjoint_length [of "has_triggered ts t" "given_up w ts t" "inbound w t", OF apart] by linarith
  then show ?thesis
    using join_decision_state [of "is" "the (ts_join t)"] l by (simp add: runs errs len)
qed

lemma no_waiting_sum:
  "(\<And>i. i \<in> set is \<Longrightarrow> in_state i = RUNNING \<or> in_state i = ERROR) \<Longrightarrow>
   fst (count_induced is RUNNING) + fst (count_induced is ERROR) = int (length is)"
  by (induction "is") (auto simp: count_induced_def)

text \<open>
  C34. A join does not wait for tasks that are finished: once every inbound task has a completed
  execution the join runs or fails.
\<close>

theorem join_never_stuck:
  assumes "wf_spec_ok w" and "list_all (is_finished ts) (inbound w t)" and "get_join_logical_state n w ts t = Inr l"
  shows "ls_state l = RUNNING \<or> ls_state l = ERROR"
proof (cases "inbound w t = []")
  case True
  with assms show ?thesis by (auto simp: get_join_logical_state_def)
next
  case False
  with assms obtain "is" where i: "map_res (induced_of n w ts t) (inbound w t) = Inr is"
    and l: "l = join_decision (the (ts_join t)) is"
    by (auto simp: get_join_logical_state_def induced_states_eq bind_res_eq_Inr)
  have "in_state y = RUNNING \<or> in_state y = ERROR" if "y \<in> set is" for y
  proof -
    obtain s where "s \<in> set (inbound w t)" "induced_of n w ts t s = Inr y"
      using map_res_Inr_in [OF i \<open>y \<in> set is\<close>] by blast
    with assms(2) show ?thesis by (intro induced_finished) (auto simp: list_all_iff)
  qed
  then have sum: "fst (count_induced is RUNNING) + fst (count_induced is ERROR) = int (length is)"
    by (rule no_waiting_sum)
  have nn: "fst (count_induced is s) \<ge> 0" for s by (simp add: count_induced_def)
  show ?thesis using sum nn [of RUNNING] nn [of ERROR]
    by (auto simp: l join_decision_def Let_def Suc_le_eq split: join_val.split)
qed

text \<open>A workflow with a join of two tasks, one of which has not triggered it.\<close>

definition join_wf :: workflow_spec where
  "join_wf = mk_wf [(mk_task ''a'')\<lparr>ts_on_success := simple_clause [''j'']\<rparr>,
     (mk_task ''b'')\<lparr>ts_on_error := simple_clause [''j'']\<rparr>, (mk_task ''j'')\<lparr>ts_join := Some JoinAll\<rparr>]"

definition join_j :: task_spec where
  "join_j = (mk_task ''j'')\<lparr>ts_join := Some JoinAll\<rparr>"

definition join_execs :: "task_ex list" where
  "join_execs = [(mk_task_ex ''1'' ''w'' (mk_task ''a'') SUCCESS)\<lparr>te_next_tasks := Some [(''j'', Some ''on-success'')]\<rparr>,
     (mk_task_ex ''2'' ''w'' (mk_task ''b'') SUCCESS)\<lparr>te_next_tasks := Some []\<rparr>]"

lemma join_wf_ok: "wf_spec_ok join_wf"
  by (simp add: join_wf_def mk_wf_def mk_task_def wf_spec_ok_def dict_ok_def)

lemma join_inbound: "inbound join_wf join_j =
    [(mk_task ''a'')\<lparr>ts_on_success := simple_clause [''j'']\<rparr>, (mk_task ''b'')\<lparr>ts_on_error := simple_clause [''j'']\<rparr>]"
  by (simp add: join_wf_def join_j_def spec_eval)

lemma join_exec: "exec_by_name join_execs ''a'' = Some (hd join_execs)" "exec_by_name join_execs ''b'' = Some (join_execs ! Suc 0)"
  by (simp_all add: exec_by_name_def join_execs_def mk_task_ex_def mk_task_def)

lemma join_result: "\<exists>l. get_join_logical_state 5 join_wf join_execs join_j = Inr l \<and> ls_state l = ERROR"
proof -
  have e: "te_state (hd join_execs) = SUCCESS" "te_state (join_execs ! Suc 0) = SUCCESS"
    "te_next_tasks (hd join_execs) = Some [(''j'', Some ''on-success'')]" "te_next_tasks (join_execs ! Suc 0) = Some []"
    by (simp_all add: join_execs_def mk_task_ex_def)
  have "\<exists>is. induced_states 5 join_wf join_execs join_j = Inr is \<and> ls_state (join_decision JoinAll is) = ERROR"
    unfolding induced_states_eq [OF join_wf_ok] join_inbound
    by (simp add: induced_of_def mk_task_def join_exec e join_j_def join_decision_def Let_def count_induced_def)
  then show ?thesis
    by (auto simp: get_join_logical_state_def find_inbound_ok [OF join_wf_ok] join_inbound)
      (simp add: join_j_def)
qed

lemma join_j_ranked: "ranked (\<lambda>s. if s = ''j'' then 1 else 0) join_wf"
  by (auto simp: ranked_def join_wf_def spec_eval)

theorem join_runs_iff_witness:
  "\<exists>l. get_join_logical_state 1 join_wf join_execs join_j = Inr l \<and> ls_state l = ERROR"
proof -
  have e: "te_state (hd join_execs) = SUCCESS" "te_state (join_execs ! Suc 0) = SUCCESS"
    "te_next_tasks (hd join_execs) = Some [(''j'', Some ''on-success'')]" "te_next_tasks (join_execs ! Suc 0) = Some []"
    by (simp_all add: join_execs_def mk_task_ex_def)
  have main: "\<exists>l. get_join_logical_state 1 join_wf join_execs join_j = Inr l \<and>
    ls_state l =
      (if int (length (filter (has_triggered join_execs join_j) (inbound join_wf join_j))) \<ge> needed (the (ts_join join_j)) (length (inbound join_wf join_j))
       then RUNNING
       else if int (length (filter (given_up join_wf join_execs join_j) (inbound join_wf join_j))) >
         int (length (inbound join_wf join_j)) - needed (the (ts_join join_j)) (length (inbound join_wf join_j)) then ERROR else WAITING)"
  proof (rule join_runs_iff [OF join_wf_ok _ join_j_ranked])
    show "next_tasks_known join_execs" by (simp add: next_tasks_known_def join_execs_def mk_task_ex_def)
    show "join_j \<in> set (get_tasks join_wf)" by (simp add: join_j_def join_wf_def mk_wf_def get_tasks_def)
  qed (simp_all add: join_inbound)
  have lists: "filter (has_triggered join_execs join_j) (inbound join_wf join_j) = [(mk_task ''a'')\<lparr>ts_on_success := simple_clause [''j'']\<rparr>]"
    "filter (given_up join_wf join_execs join_j) (inbound join_wf join_j) = [(mk_task ''b'')\<lparr>ts_on_error := simple_clause [''j'']\<rparr>]"
    unfolding join_inbound by (simp_all add: has_triggered_def given_up_def mk_task_def join_exec e join_j_def)
  have "the (ts_join join_j) = JoinAll" by (simp add: join_j_def)
  with main show ?thesis unfolding lists unfolding join_inbound by (simp add: needed_def)
qed

theorem join_never_stuck_witness:
  "\<exists>l. get_join_logical_state 5 join_wf join_execs join_j = Inr l \<and> (ls_state l = RUNNING \<or> ls_state l = ERROR)"
proof -
  obtain l where l: "get_join_logical_state 5 join_wf join_execs join_j = Inr l" using join_result by blast
  have "list_all (is_finished join_execs) (inbound join_wf join_j)"
    by (simp add: join_inbound is_finished_def mk_task_def join_exec) (simp add: join_execs_def mk_task_ex_def)
  from join_never_stuck [OF join_wf_ok this l] l show ?thesis by blast
qed

text \<open>The depth of a task that induces RUNNING is one, so the sum of depths is their number.\<close>

lemma running_depth:
  "induced_of n w ts t s = Inr i \<Longrightarrow> in_state i = RUNNING \<Longrightarrow> in_depth i = 1"
  by (auto simp: induced_of_def Let_def bind_res_eq_Inr split: option.splits if_splits)

section \<open>Transitions\<close>

definition event_allowed :: "state \<Rightarrow> string \<Rightarrow> bool" where
  "event_allowed s ev \<longleftrightarrow>
     (s = SUCCESS \<and> ev \<in> {''on-success'', ''on-complete''}) \<or> (s = ERROR \<and> ev \<in> {''on-error'', ''on-complete''}) \<or>
     (s = SKIPPED \<and> ev \<in> {''on-skip'', ''on-success''})"

lemma next_of_clause_spec:
  "next_of_clause e c ev items = Inr ns \<Longrightarrow>
   list_all (\<lambda>(n, p, ev'). ev' = ev \<and> n \<in> set (map fst items)) ns"
proof (induction items arbitrary: ns)
  case (Cons i items)
  obtain n cond p where i: "i = (n, cond, p)" by (metis prod_cases3)
  from Cons.prems obtain here more where "next_of_clause e c ev items = Inr more" "ns = here @ more"
    "list_all (\<lambda>(m, p, ev'). ev' = ev \<and> m = n) here"
    by (auto simp: i bind_res_eq_Inr split: if_splits)
  with Cons.IH i show ?case by (fastforce simp: list_all_iff)
qed simp

lemma clause_in_outbound:
  assumes "get \<in> {get_on_error_clause, get_on_success_clause, get_on_complete_clause, get_on_skip_clause}"
    and "get w n = Inr c" and "x \<in> set (map fst c)"
  shows "x \<in> set (outbound w n)"
proof -
  have "get_task w n \<noteq> None"
    using assms(1,2) by (auto simp: clause_getters clause_with_defaults_def split: option.splits)
  then obtain t where t: "get_task w n = Some t" by auto
  from find_outbound_known [OF t] obtain a b c' d where "get_on_error_clause w n = Inr a" "get_on_success_clause w n = Inr b"
    "get_on_complete_clause w n = Inr c'" "get_on_skip_clause w n = Inr d" "outbound w n = remdups (map fst (a @ b @ c' @ d))"
    by (auto simp: find_outbound_task_names_def bind_res_eq_Inr)
  with assms show ?thesis by auto
qed

text \<open>
  The transitions a task takes follow from its state: \<^verbatim>\<open>on-success\<close> and \<^verbatim>\<open>on-complete\<close> after
  SUCCESS, \<^verbatim>\<open>on-error\<close> and \<^verbatim>\<open>on-complete\<close> after ERROR, \<^verbatim>\<open>on-skip\<close> or else \<^verbatim>\<open>on-success\<close> after SKIPPED,
  and none in any other state, such as CANCELLED; and they lead along the transitions of the
  specification.
\<close>

theorem transitions_follow_state:
  assumes "find_next_tasks e root x w t ctx = Inr ns"
  shows "list_all (\<lambda>(n, p, ev). event_allowed (te_state t) ev \<and> n \<in> set (outbound w (te_name t))) ns"
proof -
  let ?c = "next_view e root x t ctx"
  have part: "list_all (\<lambda>(n, p, ev'). ev' = ev \<and> n \<in> set (outbound w (te_name t))) r"
    if "(if b then bind_res (get w (te_name t)) (next_of_clause e ?c ev) else Inr []) = Inr r"
      "get \<in> {get_on_error_clause, get_on_success_clause, get_on_complete_clause, get_on_skip_clause}" for get b ev r
  proof (cases b)
    case True
    with that obtain cl where "get w (te_name t) = Inr cl" "next_of_clause e ?c ev cl = Inr r" by (auto simp: bind_res_eq_Inr)
    with next_of_clause_spec [of e ?c ev cl r] clause_in_outbound [OF that(2)] show ?thesis
      by (fastforce simp: list_all_iff)
  qed (use that in simp)
  from assms obtain r1 r2 r3 r4 where
    r1: "(if te_state t = ERROR then bind_res (get_on_error_clause w (te_name t)) (next_of_clause e ?c ''on-error'') else Inr []) = Inr r1" and
    r2: "(if te_state t = SKIPPED then bind_res (get_on_skip_clause w (te_name t)) (next_of_clause e ?c ''on-skip'') else Inr []) = Inr r2" and
    r3: "(if te_state t = SUCCESS \<or> (te_state t = SKIPPED \<and> r1 @ r2 = []) then bind_res (get_on_success_clause w (te_name t)) (next_of_clause e ?c ''on-success'') else Inr []) = Inr r3" and
    r4: "(if is_completed (te_state t) \<and> \<not> is_cancelled_or_skipped (te_state t) then bind_res (get_on_complete_clause w (te_name t)) (next_of_clause e ?c ''on-complete'') else Inr []) = Inr r4" and
    ns: "ns = r1 @ r2 @ r3 @ r4"
    unfolding find_next_tasks_def Let_def by (elim bind_res_InrE) (simp only: sum.inject)
  note parts = part [where get = get_on_error_clause and ev = "''on-error''" and r = r1, OF r1]
    part [where get = get_on_skip_clause and ev = "''on-skip''" and r = r2, OF r2]
    part [where get = get_on_success_clause and ev = "''on-success''" and r = r3, OF r3]
    part [where get = get_on_complete_clause and ev = "''on-complete''" and r = r4, OF r4]
  have e1: "te_state t = ERROR \<or> r1 = []" and e2: "te_state t = SKIPPED \<or> r2 = []"
    and e3: "te_state t = SUCCESS \<or> te_state t = SKIPPED \<or> r3 = []"
    and e4: "te_state t = SUCCESS \<or> te_state t = ERROR \<or> r4 = []"
    using r1 r2 r3 r4 by (auto simp: completed_cases is_cancelled_or_skipped_def is_cancelled_def is_skipped_def split: if_splits)
  show ?thesis
    using parts e1 e2 e3 e4 unfolding ns by (fastforce simp: list_all_iff event_allowed_def)
qed

theorem transitions_follow_state_witness:
  "list_all (\<lambda>(n, p, ev). event_allowed SUCCESS ev \<and> n \<in> set (outbound join_wf ''a'')) [(''j'', [], ''on-success'')]"
proof -
  let ?t = "mk_task_ex ''1'' ''w'' ((mk_task ''a'')\<lparr>ts_on_success := simple_clause [''j'']\<rparr>) SUCCESS"
  have "find_next_tasks plain_env None (mk_wf_ex ''w'' join_wf RUNNING) join_wf ?t [] = Inr [(''j'', [], ''on-success'')]"
    by (simp add: find_next_tasks_def Let_def mk_task_ex_def mk_task_def join_wf_def spec_eval
        is_cancelled_or_skipped_def is_cancelled_def is_skipped_def evaluate_recursively_def val_opt_dict_def)
  from transitions_follow_state [OF this] show ?thesis by (simp add: mk_task_ex_def mk_task_def)
qed

section \<open>Indirectly affected joins\<close>

text \<open>The names that can be reached from a task along transitions that pass no stopping join.\<close>

inductive reached :: "workflow_spec \<Rightarrow> (string \<Rightarrow> bool) \<Rightarrow> string \<Rightarrow> string \<Rightarrow> bool" for w stop t0 where
  direct: "n \<in> set (outbound w t0) \<Longrightarrow> reached w stop t0 n"
| further: "reached w stop t0 m \<Longrightarrow> task_exists w m \<Longrightarrow> \<not> stop m \<Longrightarrow> n \<in> set (outbound w m) \<Longrightarrow> reached w stop t0 n"

lemma set_add_names [simp]: "set (add_names xs ys) = set xs \<union> set ys"
  by (auto simp: add_names_def)

lemma reached_closed:
  assumes "reached w stop t0 n" and "t0 \<in> V"
    and "\<And>m. m \<in> V \<Longrightarrow> m = t0 \<or> (task_exists w m \<and> \<not> stop m) \<Longrightarrow> set (outbound w m) \<subseteq> V"
  shows "n \<in> V"
  using assms by (induction rule: reached.induct) blast+

lemma affected_loop_spec:
  assumes "affected_loop w stop visited t clauses acc = Inr res"
    and "insert t (set visited) \<subseteq> insert t0 {n. reached w stop t0 n}" and "set clauses \<subseteq> {n. reached w stop t0 n}"
    and "t0 \<in> insert t (set visited)"
    and "\<And>m. m \<in> insert t (set visited) \<Longrightarrow> m = t0 \<or> (task_exists w m \<and> \<not> stop m) \<Longrightarrow>
      set (outbound w m) \<subseteq> insert t (set visited) \<union> set clauses"
    and "set acc = {j \<in> insert t (set visited). j \<noteq> t0 \<and> task_exists w j \<and> stop j}"
  shows "set res = {j. reached w stop t0 j \<and> j \<noteq> t0 \<and> task_exists w j \<and> stop j}"
  using assms
proof (induction w stop visited t clauses acc rule: affected_loop.induct)
  case (1 w stop visited t_name acc)
  have "reached w stop t0 j \<Longrightarrow> j \<in> insert t_name (set visited)" for j
    using reached_closed [of w stop t0 j "insert t_name (set visited)"] "1.prems"(4,5) by auto
  with "1.prems" show ?case by auto
next
  case (2 w stop visited t_name n clauses acc)
  let ?V = "insert t_name (set visited)"
  have rn: "reached w stop t0 n" using "2.prems"(3) by simp
  consider "n \<in> ?V" | "n \<notin> ?V" "\<not> task_exists w n" | "n \<notin> ?V" "task_exists w n" "stop n"
    | "n \<notin> ?V" "task_exists w n" "\<not> stop n" by blast
  then show ?case
  proof cases
    case 1
    then show ?thesis using "2.prems" by (intro "2.IH"(1)) (auto simp: insert_absorb)
  next
    case 2
    then show ?thesis using "2.prems" rn by (intro "2.IH"(2)) (auto simp: insert_commute)
  next
    case 3
    then show ?thesis using "2.prems" rn by (intro "2.IH"(3)) (auto simp: insert_commute)
  next
    case 4
    then obtain spec where "get_task w n = Some spec" by (auto simp: task_exists_def)
    then have outs: "find_outbound_task_names w n = Inr (outbound w n)" by (rule find_outbound_known)
    have nxt: "set (outbound w n) \<subseteq> {n. reached w stop t0 n}"
      using rn 4 by (auto intro: reached.further)
    show ?thesis
      using "2.prems" rn 4 outs nxt by (intro "2.IH"(4) [OF _ _ _ outs]) (auto simp: insert_commute)
  qed
qed

lemma affected_loop_total: "\<exists>r. affected_loop w stop visited t clauses acc = Inr r"
proof (induction w stop visited t clauses acc rule: affected_loop.induct)
  case (2 w stop visited t_name n clauses acc)
  show ?case
  proof (cases "n \<in> set (t_name # visited) \<or> \<not> task_exists w n \<or> stop n")
    case False
    then obtain spec where "get_task w n = Some spec" by (auto simp: task_exists_def)
    then have "find_outbound_task_names w n = Inr (outbound w n)" by (rule find_outbound_known)
    with 2 False show ?thesis by auto
  qed (use 2 in auto)
qed simp

text \<open>
  After a task completes, the joins whose state is refreshed are exactly the joins with an
  execution that can be reached from it along transitions without passing another such join,
  whatever the order in which the set of names is worked off.
\<close>

theorem affected_joins_exact:
  assumes "task_exists w t"
  shows "\<exists>r. find_indirectly_affected_task_executions w ts t = Inr r \<and>
    set (map te_name r) = {j. reached w (\<lambda>n. n \<in> set (map ts_name (filter has_join (get_tasks w))) \<and> exec_by_name ts n \<noteq> None) t j \<and>
      j \<noteq> t \<and> task_exists w j \<and> j \<in> set (map ts_name (filter has_join (get_tasks w))) \<and> exec_by_name ts j \<noteq> None}"
proof -
  let ?joins = "set (map ts_name (filter has_join (get_tasks w)))"
  let ?stop = "\<lambda>n. n \<in> ?joins \<and> exec_by_name ts n \<noteq> None"
  let ?stop' = "\<lambda>n. n \<in> ?joins \<and> (if n \<in> ?joins then exec_by_name ts n else None) \<noteq> None"
  have st: "?stop' = ?stop" by auto
  obtain spec where "get_task w t = Some spec" using assms by (auto simp: task_exists_def)
  then have out: "find_outbound_task_names w t = Inr (outbound w t)" by (rule find_outbound_known)
  obtain names where names: "affected_loop w ?stop [] t (outbound w t) [] = Inr names" using affected_loop_total by blast
  have set: "set names = {j. reached w ?stop t j \<and> j \<noteq> t \<and> task_exists w j \<and> ?stop j}"
    using names by (rule affected_loop_spec) (auto intro: reached.direct)
  have m: "map (\<lambda>n. te_name (the (if n \<in> ?joins then exec_by_name ts n else None))) names = names"
  proof (rule map_idI)
    fix n
    assume "n \<in> set names"
    then have "n \<in> ?joins" "exec_by_name ts n \<noteq> None" using set by auto
    then show "te_name (the (if n \<in> ?joins then exec_by_name ts n else None)) = n"
      using exec_by_name_in by fastforce
  qed
  let ?r = "map (\<lambda>n. the (if n \<in> ?joins then exec_by_name ts n else None)) names"
  have r: "find_indirectly_affected_task_executions w ts t = Inr ?r"
    unfolding find_indirectly_affected_task_executions_def Let_def st out bind_res_simps names by (rule refl)
  have "map te_name ?r = names" using m by (simp only: map_map comp_def)
  then have "set (map te_name ?r) = {j. reached w ?stop t j \<and> j \<noteq> t \<and> task_exists w j \<and> ?stop j}"
    using set by (simp only:)
  with r show ?thesis by (intro exI [of _ ?r] conjI)
qed

theorem affected_joins_exact_witness:
  "\<exists>r. find_indirectly_affected_task_executions join_wf [] ''a'' = Inr r \<and>
    set (map te_name r) = {j. reached join_wf (\<lambda>n. n \<in> set (map ts_name (filter has_join (get_tasks join_wf))) \<and> exec_by_name [] n \<noteq> None) ''a'' j \<and>
      j \<noteq> ''a'' \<and> task_exists join_wf j \<and> j \<in> set (map ts_name (filter has_join (get_tasks join_wf))) \<and> exec_by_name [] j \<noteq> None}"
  by (rule affected_joins_exact) (simp add: task_exists_def join_wf_def mk_wf_def get_task_def mk_task_def)

section \<open>Where a context comes from\<close>

text \<open>
  A skipped task is never upstream of another: what it publishes does not reach the context
  that a join computes from the tasks before it.
\<close>

theorem skipped_never_upstream:
  assumes "get_upstream_task_executions w ts t ids = Inr us"
  shows "filter (\<lambda>u. te_state u = SKIPPED) us = [] \<and> set us \<subseteq> set ts"
proof -
  have "u \<in> set ts \<and> upstream_state (te_state u)" if "u \<in> set us" for u
  proof -
    obtain ins where i: "find_inbound_task_specs w t = Inr ins"
      using assms by (auto simp: get_upstream_task_executions_def bind_res_eq_Inr)
    show ?thesis using assms that i
      by (cases "map ts_name ins"; cases "has_join t")
        (auto simp: get_upstream_task_executions_def dest!: filter_res_subset)
  qed
  then show ?thesis by (fastforce simp: filter_empty_conv upstream_state_def)
qed

theorem skipped_never_upstream_witness:
  "\<exists>us. get_upstream_task_executions join_wf join_execs join_j [] = Inr us \<and>
     filter (\<lambda>u. te_state u = SKIPPED) us = [] \<and> set us \<subseteq> set join_execs"
proof -
  have "has_join join_j" by (simp add: has_join_def join_j_def)
  moreover have "\<exists>us. filter_res (\<lambda>x. triggers x n) (filter P join_execs) = Inr us" for n P
    by (simp add: join_execs_def mk_task_ex_def triggers_def)
  ultimately have "\<exists>us. get_upstream_task_executions join_wf join_execs join_j [] = Inr us"
    by (simp add: get_upstream_task_executions_def join_wf_ok join_inbound)
  then show ?thesis using skipped_never_upstream by blast
qed

end
