(* ===== verification/Reverse_Workflow.thy ===== *)
theory Reverse_Workflow
  imports Direct_Workflow
begin

text \<open>
  \<^verbatim>\<open>mistral/workflow/reverse_workflow.py\<close>: the controller that runs a target task after everything it
  requires. The traversal of the dependency graph is \<^verbatim>\<open>networkx\<close>'s \<^verbatim>\<open>dfs_postorder_nodes\<close>, the
  argument \<open>dfs\<close>: from the nodes, the edges and the source, here names of tasks, to the nodes in
  the order in which the search leaves them.
\<close>

type_synonym traversal = "string list \<Rightarrow> (string \<times> string) list \<Rightarrow> string \<Rightarrow> string list"

definition get_target_task_specification :: "wf_ex \<Rightarrow> workflow_spec \<Rightarrow> task_spec res" where
  "get_target_task_specification x w =
     (case dget (we_params x) ''task_name'' of
        Some (VStr n) \<Rightarrow> (case get_task w n of Some t \<Rightarrow> Inr t | None \<Rightarrow> Inl (WorkflowException ''Invalid task name''))
      | _ \<Rightarrow> Inl (WorkflowException ''Invalid task name''))"

definition reverse_upstream :: "workflow_spec \<Rightarrow> task_ex list \<Rightarrow> task_spec \<Rightarrow> task_ex list" where
  "reverse_upstream w ts t =
     filter (\<lambda>x. te_state x = SUCCESS) (filter (\<lambda>x. te_name x \<in> set (get_task_requires w t)) ts)"

definition reverse_inbound_context :: "env \<Rightarrow> workflow_spec \<Rightarrow> task_ex list \<Rightarrow> task_spec \<Rightarrow> val dict res" where
  "reverse_inbound_context e w ts t = evaluate_upstream_context e (reverse_upstream w ts t) []"

definition get_dependency_tasks :: "workflow_spec \<Rightarrow> task_spec \<Rightarrow> task_spec list" where
  "get_dependency_tasks w t = filter (\<lambda>s. ts_name s \<in> set (get_task_requires w t)) (get_tasks w)"

text \<open>\<^verbatim>\<open>_build_graph\<close>: an edge from every dependency to the task that has it.\<close>

definition build_graph :: "workflow_spec \<Rightarrow> string list \<times> (string \<times> string) list" where
  "build_graph w =
     (map ts_name (get_tasks w),
      concat (map (\<lambda>t. map (\<lambda>d. (ts_name d, ts_name t)) (get_dependency_tasks w t)) (get_tasks w)))"

definition reverse_graph :: "string list \<times> (string \<times> string) list \<Rightarrow> string list \<times> (string \<times> string) list" where
  "reverse_graph g = (fst g, map (\<lambda>(a, b). (b, a)) (snd g))"

definition is_satisfied_task :: "workflow_spec \<Rightarrow> task_ex list \<Rightarrow> task_spec \<Rightarrow> bool" where
  "is_satisfied_task w ts t \<longleftrightarrow>
     \<not> (\<exists>x \<in> set ts. te_name x = ts_name t) \<and>
     (let success = map te_name (filter (\<lambda>x. te_state x = SUCCESS) ts)
      in get_task_requires w t = [] \<or> set (get_task_requires w t) - set success = {})"

definition find_task_specs_with_satisfied_dependencies ::
  "traversal \<Rightarrow> wf_ex \<Rightarrow> workflow_spec \<Rightarrow> task_ex list \<Rightarrow> task_spec list res" where
  "find_task_specs_with_satisfied_dependencies dfs x w ts =
     (let g = reverse_graph (build_graph w)
      in bind_res (get_target_task_specification x w) (\<lambda>target.
           Inr (filter (is_satisfied_task w ts)
                  (concat (map (\<lambda>n. case get_task w n of None \<Rightarrow> [] | Some t \<Rightarrow> [t]) (dfs (fst g) (snd g) (ts_name target)))))))"

definition reverse_next_commands ::
  "env \<Rightarrow> traversal \<Rightarrow> wf_ex \<Rightarrow> workflow_spec \<Rightarrow> task_ex list \<Rightarrow> task_ex option \<Rightarrow> command list res" where
  "reverse_next_commands e dfs x w ts t =
     bind_res (find_task_specs_with_satisfied_dependencies dfs x w ts) (\<lambda>specs.
     bind_res (map_res (\<lambda>s. bind_res (reverse_inbound_context e w ts s) (\<lambda>ctx.
         Inr \<lparr>cmd_kind = RunTask None, cmd_spec = Some s, cmd_ctx = ctx, cmd_triggered_by = None, cmd_handles_error = False\<rparr>))
       specs) (\<lambda>cmds. Inr (base_next_commands ts t @ cmds)))"

definition reverse_continue_workflow ::
  "env \<Rightarrow> traversal \<Rightarrow> wf_ex \<Rightarrow> workflow_spec \<Rightarrow> task_ex list \<Rightarrow> task_ex option \<Rightarrow> command list res" where
  "reverse_continue_workflow e dfs x w ts t =
     (if is_completed (we_state x) then Inr [] else reverse_next_commands e dfs x w ts t)"

definition reverse_final_context :: "env \<Rightarrow> wf_ex \<Rightarrow> workflow_spec \<Rightarrow> task_ex list \<Rightarrow> val dict res" where
  "reverse_final_context e x w ts =
     bind_res (get_target_task_specification x w) (\<lambda>target.
       (case filter (\<lambda>t. te_name t = ts_name target) ts of
          [] \<Rightarrow> Inr []
        | [t] \<Rightarrow> bind_res (evaluate_task_outbound_context e t) (\<lambda>o1. Inr (fst o1))
        | _ \<Rightarrow> Inl AssertionError))"

definition reverse_logical_task_state :: "task_ex \<Rightarrow> logical_state" where
  "reverse_logical_task_state t =
     \<lparr>ls_state = te_state t, ls_info = te_state_info t, ls_cardinality = 0, ls_triggered_by = []\<rparr>"

definition reverse_all_errors_handled :: "task_ex list \<Rightarrow> bool" where
  "reverse_all_errors_handled ts \<longleftrightarrow> length (filter (\<lambda>t. te_state t = ERROR) ts) = 0"

definition reverse_may_complete_workflow :: "task_ex \<Rightarrow> bool" where
  "reverse_may_complete_workflow t \<longleftrightarrow> is_completed (te_state t)"

section \<open>Lemmas\<close>












end
