(* ===== verification/Engine_Config.thy ===== *)
theory Engine_Config
  imports Notification_Events Dispatcher Join_Decision Reverse_Workflow
begin

text \<open>
  What the engine gets from outside the modelled code, as the record \<open>sys\<close> (configuration,
  identifiers, the action provider, the graph traversal, the stored workflow definitions and environments, the text of
  an exception), and the functions by which the engine's modules call each other in a circle, as
  the record \<open>handlers\<close>: every module takes the handlers it calls as an argument, and the theory
  \<open>Engine\<close> ties the knot.
\<close>

text \<open>The result of an action (\<^verbatim>\<open>mistral_lib.actions.Result\<close>).\<close>

datatype action_result = SuccessResult val | ErrorResult val | CancelResult val

text \<open>
  An action descriptor of the action provider: the parameter check, the instantiation (which tells
  whether the action is synchronous), and the dictionary of the post-processed result.
\<close>

record action_desc =
  ad_name :: string
  ad_namespace :: string
  ad_check_parameters :: "val dict \<Rightarrow> unit res"
  ad_instantiate :: "val dict \<Rightarrow> ctx_view \<Rightarrow> bool res"
  ad_result_dict :: "action_result \<Rightarrow> val dict res"

record wf_def =
  wd_id :: string
  wd_name :: string
  wd_namespace :: string
  wd_workbook_name :: "string option"
  wd_spec :: workflow_spec

record sys =
  sy_env :: env
  sy_uuid :: "nat \<Rightarrow> string"
  sy_integrity_delay :: int
  sy_integrity_batch :: nat
  sy_via_rpc :: bool
  sy_cut :: "val \<Rightarrow> val"
  sy_cut_char :: "int \<Rightarrow> val \<Rightarrow> val"
  sy_limit_chars :: int
  sy_str_bytes :: "val \<Rightarrow> int"
  sy_str :: "val \<Rightarrow> string"
  sy_json :: "val \<Rightarrow> string"
  sy_error_text :: "exn \<Rightarrow> string"
  sy_find_action :: "string \<Rightarrow> string \<Rightarrow> action_desc option"
  sy_execute :: "string \<Rightarrow> val dict \<Rightarrow> action_result res"
  sy_result_dict :: "action_result \<Rightarrow> val dict"
  sy_notify :: "val list"
  sy_wf_defs :: "wf_def list"
  sy_environment :: "string \<Rightarrow> val dict option"
  sy_security :: "val dict option"
  sy_depth :: nat
  sy_dfs :: traversal

text \<open>
  \<open>sy_cut\<close> and \<open>sy_cut_char\<close> are the shortening functions of \<^verbatim>\<open>mistral_lib\<close>, \<open>sy_str\<close> and \<open>sy_json\<close> the
  texts of a value, \<open>sy_execute\<close> a synchronous run on the executor, \<open>sy_error_text\<close> the message the
  handlers build from an exception and its traceback, \<open>sy_depth\<close> the recursion limit for routes.

  \<open>hd_resume\<close> takes the environment given to \<^verbatim>\<open>resume\<close>; \<open>hd_start\<close> the definition, the input and
  the parameters of the new workflow execution.
\<close>

record handlers =
  hd_dispatch :: "string \<Rightarrow> command list \<Rightarrow> unit eng"
  hd_pause :: "string \<Rightarrow> val \<Rightarrow> unit eng"
  hd_resume :: "string \<Rightarrow> val dict \<Rightarrow> unit eng"
  hd_stop :: "string \<Rightarrow> state \<Rightarrow> val \<Rightarrow> unit eng"
  hd_start :: "wf_def \<Rightarrow> val dict \<Rightarrow> val dict \<Rightarrow> unit eng"

text \<open>A new identifier (\<^verbatim>\<open>generate_unicode_uuid\<close>).\<close>

definition new_id :: "sys \<Rightarrow> string eng" where
  "new_id sy = (\<lambda>w. (Inr (sy_uuid sy (w_next_id w)), w\<lparr>w_next_id := Suc (w_next_id w)\<rparr>))"

text \<open>\<^verbatim>\<open>json.dumps(state_info) if isinstance(state_info, dict) else state_info\<close>, as text.\<close>

definition info_text :: "sys \<Rightarrow> val \<Rightarrow> string option" where
  "info_text sy v = (case v of VNone \<Rightarrow> None | VStr s \<Rightarrow> Some s | VDict _ \<Rightarrow> Some (sy_json sy v) | _ \<Rightarrow> Some (sy_str sy v))"

definition val_of_info :: "string option \<Rightarrow> val" where
  "val_of_info i = (case i of None \<Rightarrow> VNone | Some s \<Rightarrow> VStr s)"

text \<open>A concrete configuration, for the witnesses; its traversal takes the graphs to have no edges.\<close>

definition noop_desc :: action_desc where
  "noop_desc = \<lparr>ad_name = ''std.noop'', ad_namespace = [], ad_check_parameters = (\<lambda>_. Inr ()), ad_instantiate = (\<lambda>_ _. Inr True),
     ad_result_dict = (\<lambda>r. Inr [(''result'', case r of SuccessResult v \<Rightarrow> v | ErrorResult v \<Rightarrow> v | CancelResult v \<Rightarrow> v)])\<rparr>"

definition plain_sys :: sys where
  "plain_sys = \<lparr>sy_env = plain_env, sy_uuid = (\<lambda>n. ''id-'' @ digits_nat n), sy_integrity_delay = 20, sy_integrity_batch = 5, sy_via_rpc = False,
     sy_cut = id, sy_cut_char = (\<lambda>_ v. v), sy_limit_chars = 1000000, sy_str_bytes = (\<lambda>_. 0),
     sy_str = (\<lambda>_. []), sy_json = (\<lambda>_. []), sy_error_text = (\<lambda>_. ''error''),
     sy_find_action = (\<lambda>n ns. if n = ''std.noop'' then Some noop_desc else None),
     sy_execute = (\<lambda>_ _. Inr (SuccessResult VNone)), sy_result_dict = (\<lambda>_. []), sy_notify = [], sy_wf_defs = [],
     sy_environment = (\<lambda>_. None), sy_security = None, sy_depth = 10, sy_dfs = (\<lambda>_ _ s. [s])\<rparr>"

definition no_engine :: handlers where
  "no_engine = \<lparr>hd_dispatch = (\<lambda>_ _. raise_e RecursionError), hd_pause = (\<lambda>_ _. raise_e RecursionError),
     hd_resume = (\<lambda>_ _. raise_e RecursionError), hd_stop = (\<lambda>_ _ _. raise_e RecursionError),
     hd_start = (\<lambda>_ _ _. raise_e RecursionError)\<rparr>"

end
