(* ===== verification/Engine_Utils.thy ===== *)
theory Engine_Utils
  imports Engine_Config
begin

text \<open>
  \<^verbatim>\<open>mistral/engine/utils.py\<close>: checking the input of a workflow against its declaration and finding the
  definition of a sub-workflow; with \<^verbatim>\<open>load_workflow_definition\<close> and \<^verbatim>\<open>get_workflow_definition\<close> of
  \<^verbatim>\<open>mistral/db/v2/sqlalchemy/api.py\<close> on the stored definitions of the project, and
  \<^verbatim>\<open>update_workflow_execution_env\<close> of \<^verbatim>\<open>mistral/services/workflows.py\<close>.
\<close>

section \<open>Validating an input\<close>

text \<open>An expected parameter without a default has the value None here. \<^verbatim>\<open>remove\<close> takes out the first occurrence.\<close>

fun compare_parameters_loop :: "val option dict \<Rightarrow> string list \<Rightarrow> string list \<Rightarrow> string list \<times> string list" where
  "compare_parameters_loop [] missing unexpected = (missing, unexpected)"
| "compare_parameters_loop ((p, v) # r) missing unexpected =
     compare_parameters_loop r (if v = None \<and> p \<notin> set unexpected then missing @ [p] else missing)
       (if p \<in> set unexpected then remove1 p unexpected else unexpected)"

definition compare_parameters :: "val option dict \<Rightarrow> val dict \<Rightarrow> string list \<times> string list" where
  "compare_parameters expected actual = compare_parameters_loop expected [] (dkeys actual)"

definition validate_input :: "val option dict \<Rightarrow> val dict \<Rightarrow> string \<Rightarrow> unit res" where
  "validate_input expected actual name =
     (case compare_parameters expected actual of (missing, unexpected) \<Rightarrow>
        if missing \<noteq> [] \<or> unexpected \<noteq> [] then Inl (InputException (''Invalid input [name='' @ name @ '']'')) else Inr ())"

section \<open>Workflow definitions\<close>

text \<open>
  The first definition in the namespace, else in the default one: the query orders them by
  descending namespace.
\<close>

definition load_workflow_definition :: "sys \<Rightarrow> string \<Rightarrow> string \<Rightarrow> wf_def option" where
  "load_workflow_definition sy name namespace =
     (case find (\<lambda>d. wd_name d = name \<and> wd_namespace d = namespace) (sy_wf_defs sy) of
        Some d \<Rightarrow> Some d
      | None \<Rightarrow> find (\<lambda>d. wd_name d = name \<and> wd_namespace d = []) (sy_wf_defs sy))"

definition get_workflow_definition :: "sys \<Rightarrow> string \<Rightarrow> string \<Rightarrow> wf_def res" where
  "get_workflow_definition sy identifier namespace =
     (case find (\<lambda>d. wd_id d = identifier) (sy_wf_defs sy) of
        Some d \<Rightarrow> Inr d
      | None \<Rightarrow> (case load_workflow_definition sy identifier namespace of
            Some d \<Rightarrow> Inr d | None \<Rightarrow> Inl (DBEntityNotFoundError identifier)))"

text \<open>\<^verbatim>\<open>s.rstrip(chars)\<close> and \<^verbatim>\<open>s[:-1]\<close>.\<close>

definition rstrip_chars :: "string \<Rightarrow> string \<Rightarrow> string" where
  "rstrip_chars s chars = rev (dropWhile (\<lambda>c. c \<in> set chars) (rev s))"

definition resolve_workflow_definition :: "sys \<Rightarrow> string \<Rightarrow> string \<Rightarrow> string \<Rightarrow> string \<Rightarrow> wf_def res" where
  "resolve_workflow_definition sy parent_name parent_spec_name namespace spec_name =
     (let in_workbook =
        (if parent_name \<noteq> parent_spec_name
         then load_workflow_definition sy (butlast (rstrip_chars parent_name parent_spec_name) @ ''.'' @ spec_name) namespace
         else None)
      in case in_workbook of
           Some d \<Rightarrow> Inr d
         | None \<Rightarrow> (case load_workflow_definition sy spec_name namespace of
               Some d \<Rightarrow> Inr d
             | None \<Rightarrow> Inl (WorkflowException (''Failed to find workflow [name='' @ spec_name @ '']''))))"

section \<open>The environment of a workflow execution\<close>

definition update_workflow_execution_env :: "env \<Rightarrow> string \<Rightarrow> val dict \<Rightarrow> unit eng" where
  "update_workflow_execution_env e wid ev =
     (if ev = [] then ret ()
      else ebind (get_workflow_execution wid) (\<lambda>x.
        if we_state x \<notin> {IDLE, PAUSED, ERROR}
        then raise_e (NotAllowedException ''Updating env to workflow execution is only permitted if it is in IDLE, PAUSED, or ERROR state.'')
        else
          (case dget (we_params x) ''env'' of
             Some (VDict d) \<Rightarrow> upd_wf wid (\<lambda>x. x\<lparr>we_params := dset ''env'' (VDict (merge_dicts e True d (Some ev))) (we_params x)\<rparr>)
           | Some _ \<Rightarrow> raise_e AttributeError
           | None \<Rightarrow> raise_e (KeyError ''env''))))"

section \<open>Lemmas\<close>

lemma set_remove1_distinct: "distinct xs \<Longrightarrow> set (if p \<in> set xs then remove1 p xs else xs) = set xs - {p}"
  by auto

lemma compare_loop_set:
  "distinct unexpected \<Longrightarrow> dict_ok expected \<Longrightarrow>
   set (fst (compare_parameters_loop expected missing unexpected)) =
     set missing \<union> {p. dget expected p = Some None \<and> p \<notin> set unexpected} \<and>
   set (snd (compare_parameters_loop expected missing unexpected)) = set unexpected - set (dkeys expected)"
proof (induction expected arbitrary: missing unexpected)
  case (Cons q r)
  obtain p v where q: "q = (p, v)" by fastforce
  let ?u = "if p \<in> set unexpected then remove1 p unexpected else unexpected"
  have p: "p \<notin> fst ` set r" "dict_ok r" using Cons.prems(2) by (simp_all add: q dict_ok_Cons)
  then have np: "dget r p = None" by (simp add: map_of_eq_None_iff)
  have u: "distinct ?u" "set ?u = set unexpected - {p}" using Cons.prems(1) by auto
  from Cons.IH [OF u(1) p(2)] u(2) np show ?case by (auto simp: q split: if_splits)
qed simp

text \<open>
  An input is accepted exactly when every declared parameter without a default is given and
  nothing undeclared is.
\<close>

theorem validate_input_iff:
  assumes "dict_ok expected" and "dict_ok actual"
  shows "validate_input expected actual n = Inr () \<longleftrightarrow>
     (\<forall>p. dget expected p = Some None \<longrightarrow> dhas actual p) \<and> (\<forall>p. dhas actual p \<longrightarrow> dhas expected p)"
proof -
  let ?c = "compare_parameters expected actual"
  have d: "distinct (dkeys actual)" using assms(2) by (simp only: dict_ok_def)
  have c: "set (fst ?c) = {p. dget expected p = Some None \<and> p \<notin> set (dkeys actual)}"
    "set (snd ?c) = set (dkeys actual) - set (dkeys expected)"
    using compare_loop_set [OF d assms(1), of "[]"] unfolding compare_parameters_def by (simp_all only: list.set Un_empty_left)
  have "{p. dget expected p = Some None \<and> p \<notin> A} = {} \<longleftrightarrow> (\<forall>p. dget expected p = Some None \<longrightarrow> p \<in> A)" for A
    by blast
  moreover have "A - B = {} \<longleftrightarrow> (\<forall>p. p \<in> A \<longrightarrow> p \<in> B)" for A B :: "string set" by blast
  moreover have "validate_input expected actual n = Inr () \<longleftrightarrow> set (fst ?c) = {} \<and> set (snd ?c) = {}"
    by (cases "compare_parameters expected actual") (simp add: validate_input_def)
  ultimately show ?thesis by (simp only: dhas_iff c)
qed

theorem validate_input_iff_witness:
  "(validate_input [(''a'', None), (''b'', Some (VInt 1))] [(''a'', VInt 2)] ''w'' = Inr ()) =
     ((\<forall>p. dget [(''a'', None), (''b'', Some (VInt 1))] p = Some None \<longrightarrow> dhas [(''a'', VInt 2)] p) \<and>
      (\<forall>p. dhas [(''a'', VInt 2)] p \<longrightarrow> dhas [(''a'', None), (''b'', Some (VInt 1))] p)) \<and>
   validate_input [(''a'', None), (''b'', Some (VInt 1))] [(''a'', VInt 2)] ''w'' = Inr ()"
  by (rule conjI, rule validate_input_iff) (simp_all add: dict_ok_def validate_input_def compare_parameters_def)

lemma rstrip_workbook:
  "CHR ''.'' \<notin> set spec \<Longrightarrow> butlast (rstrip_chars (wb @ ''.'' @ spec) spec) = wb"
proof -
  assume a: "CHR ''.'' \<notin> set spec"
  have "dropWhile (\<lambda>c. c \<in> set spec) (rev spec @ CHR ''.'' # rev wb) = CHR ''.'' # rev wb"
    by (subst dropWhile_append2) (simp_all add: a)
  then show ?thesis by (simp add: rstrip_chars_def)
qed

text \<open>
  A workflow of a workbook that calls a workflow by its short name gets the one of the same
  workbook if there is one, in its namespace before the default one, and otherwise the one with that
  very name.
\<close>

theorem workbook_workflow_first:
  assumes "CHR ''.'' \<notin> set spec"
  shows "resolve_workflow_definition sy (wb @ ''.'' @ spec) spec ns name =
     (case load_workflow_definition sy (wb @ ''.'' @ name) ns of
        Some d \<Rightarrow> Inr d
      | None \<Rightarrow> (case load_workflow_definition sy name ns of
          Some d \<Rightarrow> Inr d | None \<Rightarrow> Inl (WorkflowException (''Failed to find workflow [name='' @ name @ '']''))))"
proof -
  have "wb @ ''.'' @ spec \<noteq> spec"
  proof
    assume "wb @ ''.'' @ spec = spec"
    then have "length (wb @ ''.'' @ spec) = length spec" by (rule arg_cong)
    then show False by simp
  qed
  then show ?thesis using rstrip_workbook [OF assms, of wb] by (simp add: resolve_workflow_definition_def Let_def)
qed

definition book_sys :: sys where
  "book_sys = plain_sys\<lparr>sy_wf_defs := [\<lparr>wd_id = ''1'', wd_name = ''b.sub'', wd_namespace = [], wd_workbook_name = Some ''b'', wd_spec = chain_wf\<rparr>]\<rparr>"

theorem workbook_workflow_first_witness:
  "resolve_workflow_definition book_sys (''b'' @ ''.'' @ ''w1'') ''w1'' [] ''sub'' = Inr (hd (sy_wf_defs book_sys))"
  by (subst workbook_workflow_first) (simp_all add: book_sys_def load_workflow_definition_def)

end
