(* ===== verification/Controllers.thy ===== *)
theory Controllers
  imports Engine_Config
begin

text \<open>
  \<^verbatim>\<open>get_controller\<close> of \<^verbatim>\<open>mistral/workflow/base.py\<close>: every method of a workflow controller that the
  engine calls, on the rows of the database, by the type of the workflow.
\<close>

definition ctrl_continue_workflow :: "sys \<Rightarrow> string \<Rightarrow> task_ex option \<Rightarrow> command list eng" where
  "ctrl_continue_workflow sy wid t =
     ebind (get_workflow_execution wid) (\<lambda>x. ebind (gets (root_of x)) (\<lambda>root. ebind (gets (wf_tasks wid)) (\<lambda>ts.
       lift_res (if ws_type (we_spec x) = Direct then continue_workflow (sy_env sy) root x (we_spec x) ts t
                 else reverse_continue_workflow (sy_env sy) (sy_dfs sy) x (we_spec x) ts t))))"

definition ctrl_rerun_tasks :: "string \<Rightarrow> task_ex list \<Rightarrow> bool \<Rightarrow> command list eng" where
  "ctrl_rerun_tasks wid t_exs reset =
     ebind (get_workflow_execution wid) (\<lambda>x.
       ret (if ws_type (we_spec x) = Direct then rerun_tasks x t_exs reset else base_rerun_tasks x t_exs reset))"

definition ctrl_skip_tasks :: "string \<Rightarrow> task_ex list \<Rightarrow> command list eng" where
  "ctrl_skip_tasks wid t_exs = ebind (get_workflow_execution wid) (\<lambda>x. ret (skip_tasks x t_exs))"

definition ctrl_task_inbound_context :: "env \<Rightarrow> workflow_spec \<Rightarrow> task_ex list \<Rightarrow> task_spec \<Rightarrow> string list \<Rightarrow> val dict res" where
  "ctrl_task_inbound_context e w ts t triggered_by =
     (if ws_type w = Direct then get_task_inbound_context e w ts t triggered_by else reverse_inbound_context e w ts t)"

definition ctrl_may_complete_workflow :: "workflow_spec \<Rightarrow> task_ex \<Rightarrow> bool" where
  "ctrl_may_complete_workflow w t =
     (if ws_type w = Direct then may_complete_workflow t else reverse_may_complete_workflow t)"

definition ctrl_logical_task_state :: "nat \<Rightarrow> workflow_spec \<Rightarrow> task_ex list \<Rightarrow> task_ex \<Rightarrow> logical_state res" where
  "ctrl_logical_task_state n w ts t =
     (if ws_type w = Direct then get_logical_task_state n w ts t else Inr (reverse_logical_task_state t))"

definition ctrl_affected_task_executions :: "workflow_spec \<Rightarrow> task_ex list \<Rightarrow> string \<Rightarrow> task_ex list res" where
  "ctrl_affected_task_executions w ts n =
     (if ws_type w = Direct then find_indirectly_affected_task_executions w ts n else Inr [])"

definition ctrl_error_handled_for :: "workflow_spec \<Rightarrow> task_ex \<Rightarrow> bool res" where
  "ctrl_error_handled_for w t =
     (if ws_type w = Direct then is_error_handled_for w t else Inr (te_state t \<noteq> ERROR))"

definition ctrl_all_errors_handled :: "workflow_spec \<Rightarrow> task_ex list \<Rightarrow> bool" where
  "ctrl_all_errors_handled w ts =
     (if ws_type w = Direct then all_errors_handled ts else reverse_all_errors_handled ts)"

definition ctrl_final_context :: "env \<Rightarrow> wf_ex \<Rightarrow> task_ex list \<Rightarrow> val dict res" where
  "ctrl_final_context e x ts =
     (if ws_type (we_spec x) = Direct then evaluate_workflow_final_context e ts
      else reverse_final_context e x (we_spec x) ts)"

end
