(* ===== verification/Task_Base.thy ===== *)
theory Task_Base
  imports Controllers
begin

text \<open>
  The methods of \<^verbatim>\<open>mistral/engine/tasks.py\<close>, class \<^verbatim>\<open>Task\<close>, that do not depend on policies and
  actions: reading the task, its expression and runtime contexts, changing its state, deferring a
  join task and creating the task execution. A method that changes fields of the object returns the
  changed object. \<^verbatim>\<open>self.task_ex\<close> is the row with the id \<open>to_task_id\<close>; named locks are not modelled.
\<close>

definition task_row :: "task_obj \<Rightarrow> task_ex eng" where
  "task_row t = (case to_task_id t of None \<Rightarrow> raise_e AssertionError | Some i \<Rightarrow> get_task_execution i)"

definition task_id :: "task_obj \<Rightarrow> string" where
  "task_id t = (case to_task_id t of None \<Rightarrow> [] | Some i \<Rightarrow> i)"

definition on_row :: "task_obj \<Rightarrow> (task_ex \<Rightarrow> task_ex) \<Rightarrow> unit eng" where
  "on_row t f = upd_task (task_id t) f"

definition get_state :: "task_obj \<Rightarrow> state option eng" where
  "get_state t = (case to_task_id t of None \<Rightarrow> ret None | Some i \<Rightarrow> ebind (get_task_execution i) (\<lambda>r. ret (Some (te_state r))))"

definition is_task_completed :: "task_obj \<Rightarrow> bool eng" where
  "is_task_completed t = (case to_task_id t of None \<Rightarrow> ret False
     | Some i \<Rightarrow> ebind (get_task_execution i) (\<lambda>r. ret (is_completed (te_state r))))"

definition task_wf :: "task_obj \<Rightarrow> wf_ex eng" where
  "task_wf t = get_workflow_execution (to_wf_id t)"

text \<open>\<^verbatim>\<open>get_expression_context(ctx)\<close>.\<close>

definition get_expression_context :: "env \<Rightarrow> task_obj \<Rightarrow> val dict \<Rightarrow> ctx_view eng" where
  "get_expression_context e t ctx =
     ebind (task_row t) (\<lambda>r. ebind (task_wf t) (\<lambda>x. ebind (gets (root_of x)) (\<lambda>root.
       ret (context_view e [Some (get_current_task_dict r), Some (get_workflow_environment_dict root (Some x)),
              Some ctx, Some (te_in_context r), Some (we_context x), Some (we_input x)]))))"

definition evaluate_in_task :: "env \<Rightarrow> task_obj \<Rightarrow> val \<Rightarrow> val dict \<Rightarrow> val eng" where
  "evaluate_in_task e t data ctx =
     ebind (get_expression_context e t ctx) (\<lambda>c. lift_res (evaluate_recursively e data c))"

section \<open>The runtime context\<close>

definition set_runtime_context_value :: "task_obj \<Rightarrow> string \<Rightarrow> val \<Rightarrow> unit eng" where
  "set_runtime_context_value t k v =
     eseq (assert_e (to_task_id t \<noteq> None)) (on_row t (\<lambda>r. r\<lparr>te_rt := dset k v (te_rt r)\<rparr>))"

definition cleanup_runtime_context :: "task_obj \<Rightarrow> unit eng" where
  "cleanup_runtime_context t = on_row t (\<lambda>r. r\<lparr>te_rt := [], te_triggered_by := None\<rparr>)"

text \<open>The dictionary \<^verbatim>\<open>get_policy_context(key)\<close> refers to, created empty, and its replacement.\<close>

definition policy_ctx :: "string \<Rightarrow> task_ex \<Rightarrow> val dict" where
  "policy_ctx k r = (case dget (te_rt r) k of Some (VDict d) \<Rightarrow> d | _ \<Rightarrow> [])"

definition put_policy_ctx :: "string \<Rightarrow> val dict \<Rightarrow> task_ex \<Rightarrow> task_ex" where
  "put_policy_ctx k d r = r\<lparr>te_rt := dset k (VDict d) (te_rt r)\<rparr>"

definition get_policy_context :: "task_obj \<Rightarrow> string \<Rightarrow> val dict eng" where
  "get_policy_context t k =
     ebind (task_row t) (\<lambda>r. eseq (when_e (\<not> dhas (te_rt r) k) (on_row t (put_policy_ctx k []))) (ret (policy_ctx k r)))"

definition invalidate_result :: "task_obj \<Rightarrow> unit eng" where
  "invalidate_result t = (case to_task_id t of None \<Rightarrow> ret ()
     | Some i \<Rightarrow> ebind (get_task_execution i) (\<lambda>r. ebind (gets (executions_of r)) (\<lambda>cs. for_each cs unaccept)))"

section \<open>State changes\<close>

text \<open>
  What \<^verbatim>\<open>set_state\<close> writes to the row after the UPDATE went through (\<open>cur\<close> is the state before).
\<close>

definition after_state_update ::
  "int \<Rightarrow> bool \<Rightarrow> state \<Rightarrow> state \<Rightarrow> string option \<Rightarrow> bool option \<Rightarrow> task_ex \<Rightarrow> task_ex" where
  "after_state_update now rerun cur s info processed r =
     r\<lparr>te_state_info := info,
       te_started_at := (if s = RUNNING \<and> (cur \<in> {WAITING, IDLE} \<or> rerun) then Some now else te_started_at r),
       te_finished_at := (if rerun then None else if is_completed s then Some now else te_finished_at r),
       te_processed := (case processed of None \<Rightarrow> te_processed r | Some p \<Rightarrow> p)\<rparr>"

definition set_state :: "task_obj \<Rightarrow> state \<Rightarrow> string option \<Rightarrow> bool option \<Rightarrow> bool \<Rightarrow> (bool \<times> task_obj) eng" where
  "set_state t s info processed first_run =
     ebind (task_row t) (\<lambda>r.
       if te_state r \<noteq> s \<or> te_state_info r \<noteq> info then
         ebind (update_task_execution_state (te_id r) (te_state r) s) (\<lambda>ok.
           if \<not> ok then ret (False, t)
           else
             ebind (gets w_now) (\<lambda>now.
             eseq (on_row t (after_state_update now (to_rerun t) (te_state r) s info processed))
             (ebind (task_wf t) (\<lambda>x.
             eseq (notify (we_params x) (te_id r) (identify_task_event (if first_run then None else Some (te_state r)) s))
               (ret (True, t\<lparr>to_changed := True\<rparr>))))))
       else ret (True, t))"

text \<open>\<^verbatim>\<open>_create_task_execution\<close>.\<close>

definition create_task_execution :: "sys \<Rightarrow> task_obj \<Rightarrow> state \<Rightarrow> string option \<Rightarrow> task_obj eng" where
  "create_task_execution sy t s info =
     ebind (new_id sy) (\<lambda>i. ebind (gets w_now) (\<lambda>now.
       eseq (create_task_row \<lparr>te_id = i, te_name = ts_name (to_spec t), te_wf_id = to_wf_id t, te_spec = to_spec t, te_state = s,
           te_db_state = s, te_state_info = info, te_unique_key = to_unique_key t, te_in_context = to_ctx t,
           te_published = Some [], te_rt = [],
           te_triggered_by = (case to_triggered_by t of None \<Rightarrow> None | Some ts \<Rightarrow> (if ts = [] then None else Some ts)),
           te_processed = False, te_has_next = Some False, te_next_tasks = None, te_error_handled = Some False,
           te_started_at = None, te_finished_at = None, te_updated_at = now\<rparr>)
         (ret (t\<lparr>to_task_id := Some i, to_created := True\<rparr>))))"

definition defer_task :: "sys \<Rightarrow> task_obj \<Rightarrow> task_obj eng" where
  "defer_task sy t =
     (if to_task_id t \<noteq> None then ret t
      else ebind (gets (wf_tasks (to_wf_id t))) (\<lambda>ts.
        (case filter (\<lambda>r. te_unique_key r = to_unique_key t \<and> te_state r = WAITING) ts of
           r # _ \<Rightarrow> ret (t\<lparr>to_task_id := Some (te_id r)\<rparr>)
         | [] \<Rightarrow>
             (case filter (\<lambda>r. te_unique_key r = to_unique_key t) ts of
                [] \<Rightarrow> create_task_execution sy t WAITING (Some ''Task is waiting.'')
              | r # _ \<Rightarrow>
                  (let t1 = t\<lparr>to_task_id := Some (te_id r)\<rparr>
                   in if te_state r \<noteq> WAITING
                      then ebind (set_state t1 WAITING (Some ''Task is waiting.'') None False) (\<lambda>p. ret (snd p))
                      else ret t1)))))"

definition create_new :: "sys \<Rightarrow> task_obj \<Rightarrow> task_obj eng" where
  "create_new sy t = (if to_waiting t then defer_task sy t else create_task_execution sy t IDLE None)"

definition update_inbound_context :: "env \<Rightarrow> task_obj \<Rightarrow> task_obj eng" where
  "update_inbound_context e t =
     ebind (task_row t) (\<lambda>r. ebind (gets (wf_tasks (to_wf_id t))) (\<lambda>ts.
     ebind (lift_res (ctrl_task_inbound_context e (to_wf_spec t) ts (to_spec t)
         (case te_triggered_by r of None \<Rightarrow> [] | Some trs \<Rightarrow> map tr_task_id trs))) (\<lambda>ctx.
     eseq (on_row t (\<lambda>r. r\<lparr>te_in_context := update_dict e (te_in_context r) (Some ctx)\<rparr>))
       (ret (t\<lparr>to_ctx := ctx\<rparr>)))))"

definition update_triggered_by :: "task_obj \<Rightarrow> unit eng" where
  "update_triggered_by t =
     eseq (assert_e (to_task_id t \<noteq> None))
       (case to_triggered_by t of None \<Rightarrow> ret ()
        | Some trs \<Rightarrow> when_e (trs \<noteq> []) (on_row t (\<lambda>r. r\<lparr>te_triggered_by := Some trs\<rparr>)))"

definition get_safe_rerun :: "task_obj \<Rightarrow> val" where
  "get_safe_rerun t = (case ts_safe_rerun (to_spec t) of
      Some v \<Rightarrow> v
    | None \<Rightarrow> (case ws_task_defaults (to_wf_spec t) of
        None \<Rightarrow> VBool False
      | Some d \<Rightarrow> (case td_safe_rerun d of Some v \<Rightarrow> v | None \<Rightarrow> VBool False)))"

text \<open>\<^verbatim>\<open>env.get('__actions', {}).get(action_name, {})\<close>.\<close>

definition get_action_defaults :: "task_obj \<Rightarrow> wf_ex \<Rightarrow> val res" where
  "get_action_defaults t x = (case get_action_name (to_spec t) of
      None \<Rightarrow> Inr (VDict [])
    | Some n \<Rightarrow> bind_res (dindex (we_params x) ''env'') (\<lambda>env.
        (case env of
           VDict d \<Rightarrow> (case dget_default d ''__actions'' (VDict []) of
               VDict a \<Rightarrow> Inr (dget_default a n (VDict []))
             | _ \<Rightarrow> Inl AttributeError)
         | _ \<Rightarrow> Inl AttributeError)))"

text \<open>\<^verbatim>\<open>task_handler._schedule_refresh_task_state\<close>, which policies use too.\<close>

definition get_refresh_state_job_key :: "string \<Rightarrow> string" where
  "get_refresh_state_job_key i = ''th_r_t_s-'' @ i"

definition schedule_refresh_task_state :: "string \<Rightarrow> int \<Rightarrow> unit eng" where
  "schedule_refresh_task_state i delay =
     schedule_job \<lparr>job_run_after = delay, job_func = RefreshTaskState i, job_key = Some (get_refresh_state_job_key i),
       job_processing = False\<rparr>"

section \<open>Lemmas\<close>

lemma task_row_run:
  "to_task_id t = Some i \<Longrightarrow> dget (w_tasks w) i = Some r \<Longrightarrow> task_row t w = (Inr r, w)"
  by (simp add: task_row_def get_task_execution_def)

lemma on_row_run:
  "to_task_id t = Some i \<Longrightarrow> dget (w_tasks w) i = Some r \<Longrightarrow>
   on_row t f w = (Inr (), w\<lparr>w_tasks := dset i (f r) (w_tasks w)\<rparr>)"
  by (simp add: on_row_def task_id_def upd_task_def upd_row_def)

lemma task_wf_run: "dget (w_wfs w) (to_wf_id t) = Some x \<Longrightarrow> task_wf t w = (Inr x, w)"
  by (simp add: task_wf_def get_workflow_execution_def)

text \<open>
  A task changes its state only if the database still has the state the engine has read:
  when a concurrent transaction has changed it, \<^verbatim>\<open>set_state\<close> answers False and changes nothing, so
  that of two transactions that complete a task one carries on.
\<close>

theorem set_state_lost_race:
  assumes "to_task_id t = Some i" and "dget (w_tasks w) i = Some r" and "te_id r = i"
    and "te_db_state r \<noteq> te_state r" and "te_state r \<noteq> s"
  shows "set_state t s info processed first_run w = (Inr (False, t), w)"
  using assms
  by (simp add: set_state_def ebind_run task_row_run update_task_execution_state_def)

definition one_task_world :: "state \<Rightarrow> state \<Rightarrow> world" where
  "one_task_world s db = empty_world\<lparr>w_wfs := [(''w'', mk_wf_ex ''w'' chain_wf RUNNING)],
     w_tasks := [(''1'', (mk_task_ex ''1'' ''w'' (mk_task ''b'') s)\<lparr>te_db_state := db\<rparr>)]\<rparr>"

definition task_b :: task_obj where
  "task_b = \<lparr>to_wf_id = ''w'', to_wf_spec = chain_wf, to_spec = mk_task ''b'', to_ctx = [], to_task_id = Some ''1'',
     to_unique_key = None, to_waiting = False, to_triggered_by = None, to_rerun = False, to_reset = False,
     to_created = False, to_changed = False\<rparr>"

theorem set_state_lost_race_witness:
  "set_state task_b SUCCESS None None False (one_task_world RUNNING ERROR) = (Inr (False, task_b), one_task_world RUNNING ERROR)"
  by (rule set_state_lost_race [where i = "''1''" and r = "(mk_task_ex ''1'' ''w'' (mk_task ''b'') RUNNING)\<lparr>te_db_state := ERROR\<rparr>"])
    (simp_all add: task_b_def one_task_world_def empty_world_def mk_task_ex_def)

text \<open>What a successful change of the state leaves in the world.\<close>

lemma set_state_run:
  assumes "to_task_id t = Some i" and "dget (w_tasks w) i = Some r" and "te_id r = i" and "te_db_state r = te_state r"
    and "te_state r \<noteq> s \<or> te_state_info r \<noteq> info" and "dget (w_wfs w) (to_wf_id t) = Some x"
    and "filter_publishers (dget (we_params x) ''notify'') (identify_task_event (if first_run then None else Some (te_state r)) s) = Inr ps"
  shows "set_state t s info processed first_run w =
    (Inr (True, t\<lparr>to_changed := True\<rparr>),
     w\<lparr>w_tasks := dset i (after_state_update (w_now w) (to_rerun t) (te_state r) s info processed
          (r\<lparr>te_state := s, te_db_state := s, te_updated_at := w_now w\<rparr>)) (w_tasks w),
       w_ops := w_ops w @ (if ps = [] then [] else
          [(NotifyOp i (identify_task_event (if first_run then None else Some (te_state r)) s) ps, False)])\<rparr>)"
proof -
  let ?r = "r\<lparr>te_state := s, te_db_state := s, te_updated_at := w_now w\<rparr>"
  let ?w = "w\<lparr>w_tasks := dset i ?r (w_tasks w)\<rparr>"
  have "on_row t f ?w = (Inr (), ?w\<lparr>w_tasks := dset i (f ?r) (w_tasks ?w)\<rparr>)" for f
    by (rule on_row_run) (simp_all add: assms)
  with assms show ?thesis
    by (auto simp: set_state_def ebind_run eseq_run task_row_run update_task_execution_state_def
        task_wf_def get_workflow_execution_def notify_def when_e_run register_operation_def)
qed

lemma set_state_same:
  assumes "to_task_id t = Some i" and "dget (w_tasks w) i = Some r" and "te_state r = s" and "te_state_info r = info"
  shows "set_state t s info processed first_run w = (Inr (True, t), w)"
  using assms by (simp add: set_state_def ebind_run task_row_run)

end
