(* ===== verification/Actions.thy ===== *)
theory Actions
  imports Engine_Utils Task_Base
begin

text \<open>
  \<^verbatim>\<open>mistral/engine/actions.py\<close>: completing, failing and updating the execution of an action,
  scheduling an action on an executor, running one synchronously, and starting a sub-workflow. The
  descriptor of an action comes from the action provider (see \<open>action_desc\<close>).
\<close>

datatype action = RegularAction action_desc | WorkflowAction string

definition fail_action :: "sys \<Rightarrow> string \<Rightarrow> string \<Rightarrow> unit eng" where
  "fail_action sy i msg =
     upd_action i (\<lambda>a. a\<lparr>ae_state := ERROR, ae_output := Some [(''result'', sy_cut sy (VStr msg))]\<rparr>)"

definition update_action :: "action_desc \<Rightarrow> string \<Rightarrow> state \<Rightarrow> unit eng" where
  "update_action desc i s =
     ebind (get_action_execution i) (\<lambda>a.
     ebind (lift_res (ad_instantiate desc (ae_input a) [])) (\<lambda>is_sync.
       if s = PAUSED \<and> is_sync
       then raise_e (InvalidStateTransitionException ''Transition to the PAUSED state is only supported for asynchronous action execution.'')
       else
         ebind (lift_res (is_valid_transition (ae_state a) s)) (\<lambda>ok.
           if \<not> ok
           then raise_e (InvalidStateTransitionException (''Invalid state transition from '' @ state_str (ae_state a) @ '' to '' @ state_str s @ ''.''))
           else upd_action i (\<lambda>a. a\<lparr>ae_state := s\<rparr>))))"

fun result_state :: "action_result \<Rightarrow> state" where
  "result_state (SuccessResult _) = SUCCESS"
| "result_state (CancelResult _) = CANCELLED"
| "result_state (ErrorResult _) = ERROR"

definition complete_action :: "action_desc \<Rightarrow> string \<Rightarrow> action_result \<Rightarrow> unit eng" where
  "complete_action desc i result =
     ebind (get_action_execution i) (\<lambda>a.
       if is_completed (ae_state a) then raise_e (ValueError (''Action '' @ i @ '' is already completed''))
       else
         eseq (upd_action i (\<lambda>a. a\<lparr>ae_state := result_state result\<rparr>))
         (ebind (lift_res (ad_result_dict desc result)) (\<lambda>out.
           upd_action i (\<lambda>a. a\<lparr>ae_output := Some out, ae_accepted := True\<rparr>))))"

section \<open>Scheduling and running a regular action\<close>

definition prepare_runtime_context_of :: "int \<Rightarrow> val \<Rightarrow> val dict" where
  "prepare_runtime_context_of index safe_rerun = [(''index'', VInt index), (''safe_rerun'', safe_rerun)]"

text \<open>The task and the namespace of its workflow, if the action belongs to a task.\<close>

definition create_action_execution ::
  "sys \<Rightarrow> action_desc \<Rightarrow> (string \<times> string) option \<Rightarrow> val dict \<Rightarrow> val dict \<Rightarrow> bool \<Rightarrow> string eng" where
  "create_action_execution sy desc task input rt is_sync =
     ebind (new_id sy) (\<lambda>i. ebind (gets w_now) (\<lambda>now.
       eseq (create_action_row \<lparr>ae_id = i, ae_name = ad_name desc,
           ae_namespace = (case task of None \<Rightarrow> ad_namespace desc | Some (_, ns) \<Rightarrow> ns),
           ae_task_id = map_option fst task, ae_state = RUNNING, ae_accepted = False, ae_input = input, ae_output = None,
           ae_rt = rt, ae_is_sync = is_sync, ae_last_heartbeat = None, ae_updated_at = now\<rparr>)
         (ret i)))"

text \<open>\<^verbatim>\<open>except Exception\<close>: whatever the instantiation raises becomes an \<open>InvalidActionException\<close>.\<close>

definition instantiate_action :: "action_desc \<Rightarrow> val dict \<Rightarrow> ctx_view \<Rightarrow> bool eng" where
  "instantiate_action desc input c =
     try_e (lift_res (ad_instantiate desc input c)) (\<lambda>_. True)
       (\<lambda>_. raise_e (InvalidActionException (''Failed to instantiate an action [action_desc='' @ ad_name desc @ '']'')))"

definition schedule_regular :: "sys \<Rightarrow> action_desc \<Rightarrow> task_obj \<Rightarrow> val dict \<Rightarrow> val option \<Rightarrow> int \<Rightarrow> val \<Rightarrow> val option \<Rightarrow> unit eng" where
  "schedule_regular sy desc t input target index safe_rerun timeout =
     ebind (lift_res (ad_check_parameters desc input)) (\<lambda>_.
     ebind (task_wf t) (\<lambda>x. ebind (gets (root_of x)) (\<lambda>root.
     ebind (instantiate_action desc input (context_view (sy_env sy)
         [Some (to_ctx t), Some (get_workflow_environment_dict root (Some x)), Some (we_context x)])) (\<lambda>is_sync.
     ebind (create_action_execution sy desc (Some (task_id t, we_namespace x)) input
         (prepare_runtime_context_of index safe_rerun) is_sync) (\<lambda>i.
       register_operation (RunActionOp i safe_rerun target timeout) False)))))"

text \<open>\<^verbatim>\<open>RegularAction.run\<close>, for an action without a task; it returns the result of the executor.\<close>

definition run_regular :: "sys \<Rightarrow> action_desc \<Rightarrow> val dict \<Rightarrow> bool \<Rightarrow> int \<Rightarrow> val \<Rightarrow> (string option \<times> action_result) eng" where
  "run_regular sy desc input save index safe_rerun =
     ebind (lift_res (ad_check_parameters desc input)) (\<lambda>_.
     ebind (instantiate_action desc input []) (\<lambda>is_sync.
     ebind (if save then ebind (create_action_execution sy desc None input (prepare_runtime_context_of index safe_rerun) is_sync)
                           (\<lambda>i. ret (Some i))
            else ret None) (\<lambda>i.
     ebind (lift_res (sy_execute sy (ad_name desc) input)) (\<lambda>result. ret (i, result)))))"

section \<open>Starting a sub-workflow\<close>

text \<open>
  The parameters of the sub-workflow: what the engine passes, and then every input that the
  sub-workflow does not declare, which may override it.
\<close>

definition subworkflow_params :: "wf_ex \<Rightarrow> string \<Rightarrow> int \<Rightarrow> workflow_spec \<Rightarrow> val dict \<Rightarrow> val dict res" where
  "subworkflow_params parent tid index spec input =
     bind_res (dindex (we_params parent) ''namespace'') (\<lambda>ns.
       Inr (fold (\<lambda>(k, v) p. if dhas (ws_input spec) k then p else dset k v p) input
         ([(''root_execution_id'', VStr (case we_root_id parent of Some i \<Rightarrow> i | None \<Rightarrow> we_id parent)),
           (''task_execution_id'', VStr tid), (''index'', VInt index), (''namespace'', ns)] @
          (case dget (we_params parent) ''notify'' of None \<Rightarrow> [] | Some v \<Rightarrow> [(''notify'', v)]))))"

definition declared_input :: "workflow_spec \<Rightarrow> val dict \<Rightarrow> val dict" where
  "declared_input spec input = filter (\<lambda>p. dhas (ws_input spec) (fst p)) input"

definition schedule_workflow :: "sys \<Rightarrow> handlers \<Rightarrow> string \<Rightarrow> task_obj \<Rightarrow> val dict \<Rightarrow> int \<Rightarrow> unit eng" where
  "schedule_workflow sy h name t input index =
     ebind (task_wf t) (\<lambda>parent.
     ebind (lift_res (dindex (we_params parent) ''namespace'')) (\<lambda>ns.
     ebind (lift_res (case ns of VStr s \<Rightarrow> resolve_workflow_definition sy (we_name parent) (ws_name (we_spec parent)) s name
                      | _ \<Rightarrow> Inl (WorkflowException (''Failed to find workflow [name='' @ name @ '']'')))) (\<lambda>d.
     ebind (lift_res (subworkflow_params parent (task_id t) index (wd_spec d) input)) (\<lambda>params.
       if sy_via_rpc sy
       then register_operation (StartSubworkflowOp (wd_id d) (wd_namespace d) (declared_input (wd_spec d) input) params) False
       else hd_start h d (declared_input (wd_spec d) input) params))))"

definition schedule_action ::
  "sys \<Rightarrow> handlers \<Rightarrow> action \<Rightarrow> task_obj \<Rightarrow> val dict \<Rightarrow> val option \<Rightarrow> int \<Rightarrow> val \<Rightarrow> val option \<Rightarrow> unit eng" where
  "schedule_action sy h a t input target index safe_rerun timeout =
     (case a of
        RegularAction desc \<Rightarrow> schedule_regular sy desc t input target index safe_rerun timeout
      | WorkflowAction name \<Rightarrow> schedule_workflow sy h name t input index)"

end
