(* ===== verification/Policies.thy ===== *)
theory Policies
  imports Task_Base
begin

text \<open>
  \<^verbatim>\<open>mistral/engine/policies.py\<close> with the base class \<^verbatim>\<open>TaskPolicy\<close> of \<^verbatim>\<open>mistral/engine/base.py\<close>: which
  policies a task has, the evaluation and validation of their fields, and what each does before the
  task starts and after it completes. The jobs that \<^verbatim>\<open>_continue_task\<close>, \<^verbatim>\<open>_complete_task\<close> and
  \<^verbatim>\<open>_fail_task_if_incomplete\<close> run are in the theory \<open>Task_Handler\<close>.
\<close>

section \<open>Building the policies of a task\<close>

datatype policy =
    PauseBeforePolicy val
  | WaitBeforePolicy val
  | WaitAfterPolicy val
  | FailOnPolicy val
  | RetryPolicy val val val val
  | TimeoutPolicy val
  | ConcurrencyPolicy val

text \<open>\<^verbatim>\<open>isinstance(x, str) or x > 0\<close>.\<close>

definition str_or_positive :: "val \<Rightarrow> bool res" where
  "str_or_positive v = (case v of VStr _ \<Rightarrow> Inr True | VInt i \<Rightarrow> Inr (i > 0) | VBool b \<Rightarrow> Inr b | _ \<Rightarrow> Inl TypeError)"

definition build_if :: "bool res \<Rightarrow> policy \<Rightarrow> policy option res" where
  "build_if c p = bind_res c (\<lambda>b. Inr (if b then Some p else None))"

definition build_pause_before_policy :: "policies_spec \<Rightarrow> policy option res" where
  "build_pause_before_policy s =
     build_if (Inr (truthy (ps_pause_before s))) (PauseBeforePolicy (ps_pause_before s))"

definition build_wait_before_policy :: "policies_spec \<Rightarrow> policy option res" where
  "build_wait_before_policy s =
     build_if (str_or_positive (ps_wait_before s)) (WaitBeforePolicy (ps_wait_before s))"

definition build_wait_after_policy :: "policies_spec \<Rightarrow> policy option res" where
  "build_wait_after_policy s =
     build_if (str_or_positive (ps_wait_after s)) (WaitAfterPolicy (ps_wait_after s))"

definition build_fail_on_policy :: "policies_spec \<Rightarrow> policy option res" where
  "build_fail_on_policy s =
     build_if (Inr (truthy (ps_fail_on s))) (FailOnPolicy (ps_fail_on s))"

definition build_retry_policy :: "policies_spec \<Rightarrow> policy option res" where
  "build_retry_policy s =
     Inr (case ps_retry s of None \<Rightarrow> None
     | Some r \<Rightarrow> Some (RetryPolicy (rs_count r) (rs_delay r) (rs_break_on r) (rs_continue_on r)))"

definition build_timeout_policy :: "policies_spec \<Rightarrow> policy option res" where
  "build_timeout_policy s =
     build_if (str_or_positive (ps_timeout s)) (TimeoutPolicy (ps_timeout s))"

definition build_concurrency_policy :: "policies_spec \<Rightarrow> policy option res" where
  "build_concurrency_policy s =
     build_if (Inr (truthy (ps_concurrency s))) (ConcurrencyPolicy (ps_concurrency s))"

definition get_policy_factories :: "(policies_spec \<Rightarrow> policy option res) list" where
  "get_policy_factories =
     [build_pause_before_policy, build_wait_before_policy, build_wait_after_policy, 
      build_fail_on_policy, build_retry_policy, build_timeout_policy, build_concurrency_policy]"

definition apply_factory ::
  "policies_spec \<Rightarrow> policies_spec option \<Rightarrow> (policies_spec \<Rightarrow> policy option res) \<Rightarrow> policy option res" where
  "apply_factory own dflt f =
     bind_res (f own) (\<lambda>p. case (p, dflt) of (None, Some d) \<Rightarrow> f d | _ \<Rightarrow> Inr p)"

definition construct_policies_list :: "policies_spec \<Rightarrow> policies_spec option \<Rightarrow> policy list res" where
  "construct_policies_list own dflt =
     bind_res (map_res (apply_factory own dflt) get_policy_factories) (\<lambda>ps. Inr (concat (map (\<lambda>p. case p of None \<Rightarrow> [] | Some q \<Rightarrow> [q]) ps)))"

definition build_policies :: "policies_spec \<Rightarrow> workflow_spec \<Rightarrow> policy list res" where
  "build_policies own w = construct_policies_list own (map_option td_policies (ws_task_defaults w))"

section \<open>Evaluating and validating the fields\<close>

fun public_fields :: "policy \<Rightarrow> val dict" where
  "public_fields (PauseBeforePolicy x) = [(''expr'', x)]"
| "public_fields (FailOnPolicy x) = [(''fail_on'', x)]"
| "public_fields (RetryPolicy n d _ _) = [(''count'', n), (''delay'', d)]"
| "public_fields (ConcurrencyPolicy x) = [(''concurrency'', x)]"
| "public_fields (WaitBeforePolicy x) = [(''delay'', x)]"
| "public_fields (WaitAfterPolicy x) = [(''delay'', x)]"
| "public_fields (TimeoutPolicy x) = [(''delay'', x)]"

fun set_fields :: "(string \<Rightarrow> val) \<Rightarrow> policy \<Rightarrow> policy" where
  "set_fields f (PauseBeforePolicy x) = PauseBeforePolicy (f ''expr'')"
| "set_fields f (FailOnPolicy x) = FailOnPolicy (f ''fail_on'')"
| "set_fields f (RetryPolicy n d b c) = RetryPolicy (f ''count'') (f ''delay'') b c"
| "set_fields f (ConcurrencyPolicy x) = ConcurrencyPolicy (f ''concurrency'')"
| "set_fields f (WaitBeforePolicy x) = WaitBeforePolicy (f ''delay'')"
| "set_fields f (WaitAfterPolicy x) = WaitAfterPolicy (f ''delay'')"
| "set_fields f (TimeoutPolicy x) = TimeoutPolicy (f ''delay'')"

definition evaluate_object_fields :: "env \<Rightarrow> policy \<Rightarrow> ctx_view \<Rightarrow> policy res" where
  "evaluate_object_fields e p c =
     bind_res (evaluate_recursively e (VDict (public_fields p)) c) (\<lambda>v.
       (case v of VDict d \<Rightarrow> Inr (set_fields (\<lambda>k. dget_default d k VNone) p) | _ \<Rightarrow> Inl AttributeError))"

text \<open>The types that the schemas use, and the schema of every policy: property names with their types.\<close>

datatype field_type = NonNegativeInteger | Boolean

fun has_type :: "field_type \<Rightarrow> val \<Rightarrow> bool" where
  "has_type NonNegativeInteger v = (case v of VInt i \<Rightarrow> i \<ge> 0 | _ \<Rightarrow> False)"
| "has_type Boolean v = (case v of VBool _ \<Rightarrow> True | _ \<Rightarrow> False)"

fun policy_schema :: "policy \<Rightarrow> (string \<times> field_type) list" where
  "policy_schema (PauseBeforePolicy _) = [(''expr'', Boolean)]"
| "policy_schema (FailOnPolicy _) = [(''fail-on'', Boolean)]"
| "policy_schema (RetryPolicy _ _ _ _) = [(''delay'', NonNegativeInteger), (''count'', NonNegativeInteger)]"
| "policy_schema (ConcurrencyPolicy _) = [(''concurrency'', NonNegativeInteger)]"
| "policy_schema _ = [(''delay'', NonNegativeInteger)]"

definition policy_valid :: "policy \<Rightarrow> bool" where
  "policy_valid p = list_all (\<lambda>(k, ty). case dget (public_fields p) k of None \<Rightarrow> True | Some v \<Rightarrow> has_type ty v) (policy_schema p)"

text \<open>What the base class does in \<^verbatim>\<open>before_task_start\<close> and \<^verbatim>\<open>after_task_complete\<close> alike.\<close>

definition evaluate_and_validate :: "env \<Rightarrow> task_obj \<Rightarrow> policy \<Rightarrow> policy eng" where
  "evaluate_and_validate e t p =
     ebind (get_expression_context e t []) (\<lambda>c.
     ebind (lift_res (evaluate_object_fields e p c)) (\<lambda>q.
       if policy_valid q then ret q else raise_e (InvalidModelException ''Invalid data type in policy'')))"

text \<open>The value of a validated integer field.\<close>

definition int_of :: "val \<Rightarrow> int" where
  "int_of v = (case v of VInt i \<Rightarrow> i | _ \<Rightarrow> 0)"

definition delay_text :: "string \<Rightarrow> val \<Rightarrow> string option" where
  "delay_text name d = Some (''Delayed by '' @ squote name @ '' policy [delay='' @ str_int (int_of d) @ '']'')"

definition plain_job :: "int \<Rightarrow> job_func \<Rightarrow> job" where
  "plain_job delay f = \<lparr>job_run_after = delay, job_func = f, job_key = None, job_processing = False\<rparr>"

section \<open>Before the start of a task\<close>

definition wait_before :: "task_obj \<Rightarrow> val \<Rightarrow> task_obj eng" where
  "wait_before t d =
     (if int_of d = 0 then ret t
      else ebind (get_policy_context t ''wait_before_policy'') (\<lambda>pc.
        if truthy (dget_default pc ''skip'' VNone)
        then ebind (set_state t RUNNING None None False) (\<lambda>p. ret (snd p))
        else ebind (get_state t) (\<lambda>s.
          if s \<noteq> Some IDLE then
            eseq (on_row t (put_policy_ctx ''wait_before_policy'' (dset ''skip'' (VBool True) pc)))
            (ebind (set_state t RUNNING_DELAYED (delay_text ''wait-before'' d) None False) (\<lambda>p.
             eseq (schedule_job (plain_job (int_of d) (ContinueTask (task_id t)))) (ret (snd p))))
          else ret t)))"

definition pause_before :: "handlers \<Rightarrow> task_obj \<Rightarrow> val \<Rightarrow> task_obj eng" where
  "pause_before h t x =
     (if \<not> truthy x then ret t
      else ebind (set_state t IDLE (Some (''Set by '' @ squote ''pause-before'' @ '' policy'')) None False) (\<lambda>p.
        eseq (hd_pause h (to_wf_id t) VNone) (ret (snd p))))"

definition timeout_before :: "task_obj \<Rightarrow> val \<Rightarrow> task_obj eng" where
  "timeout_before t d =
     (if int_of d = 0 then ret t
      else eseq (schedule_job (plain_job (int_of d) (FailTaskIfIncomplete (task_id t) (int_of d)))) (ret t))"

definition concurrency_before :: "task_obj \<Rightarrow> val \<Rightarrow> task_obj eng" where
  "concurrency_before t c =
     (if int_of c = 0 then ret t else eseq (set_runtime_context_value t ''concurrency'' c) (ret t))"

definition before_task_start :: "env \<Rightarrow> handlers \<Rightarrow> task_obj \<Rightarrow> policy \<Rightarrow> task_obj eng" where
  "before_task_start e h t p =
     (case p of
        FailOnPolicy _ \<Rightarrow> ret t
      | _ \<Rightarrow> ebind (evaluate_and_validate e t p) (\<lambda>q.
          (case q of
             WaitBeforePolicy d \<Rightarrow> wait_before t d
           | TimeoutPolicy d \<Rightarrow>
               timeout_before t d
           | PauseBeforePolicy x \<Rightarrow> pause_before h t x
           | ConcurrencyPolicy c \<Rightarrow>
               concurrency_before t c
           | _ \<Rightarrow> ret t)))"

section \<open>After the completion of a task\<close>

definition wait_after :: "task_obj \<Rightarrow> val \<Rightarrow> task_obj eng" where
  "wait_after t d =
     (if int_of d = 0 then ret t
      else ebind (get_policy_context t ''wait_after_policy'') (\<lambda>pc.
        if truthy (dget_default pc ''skip'' VNone) then ret t
        else
          eseq (on_row t (put_policy_ctx ''wait_after_policy'' (dset ''skip'' (VBool True) pc)))
          (ebind (task_row t) (\<lambda>r.
           ebind (set_state t RUNNING_DELAYED (delay_text ''wait-after'' d) None False) (\<lambda>p.
           eseq (schedule_job (plain_job (int_of d) (CompleteTask (task_id t) (te_state r) (te_state_info r))))
             (ret (snd p)))))))"

text \<open>
  The counter \<^verbatim>\<open>retry_no\<close>: read and deleted, and written back increased only if the task is to be
  repeated.
\<close>

definition retry_no :: "val dict \<Rightarrow> int" where
  "retry_no pc = int_of (dget_default pc ''retry_no'' (VInt 0))"

definition retry_stops :: "val \<Rightarrow> val \<Rightarrow> val \<Rightarrow> val \<Rightarrow> state \<Rightarrow> int \<Rightarrow> bool" where
  "retry_stops cnt continue_on continue_evaluation break_evaluation s n \<longleftrightarrow>
     \<not> n < int_of cnt
     \<or> (s = ERROR \<and> truthy break_evaluation)
     \<or> (s = SUCCESS \<and> \<not> truthy continue_on)
     \<or> (truthy continue_on \<and> \<not> truthy continue_evaluation)"

definition retry_again :: "task_obj \<Rightarrow> val \<Rightarrow> task_obj eng" where
  "retry_again t d =
     (if has_join (to_spec t) then
        ebind (set_state t WAITING (delay_text ''retry'' d) None False) (\<lambda>p.
        eseq (schedule_refresh_task_state (task_id t) (int_of d)) (ret (snd p)))
      else
        ebind (set_state t RUNNING_DELAYED (delay_text ''retry'' d) None False) (\<lambda>p.
        eseq (schedule_job (plain_job (int_of d) (ContinueTask (task_id t)))) (ret (snd p))))"

definition retry :: "env \<Rightarrow> task_obj \<Rightarrow> val \<Rightarrow> val \<Rightarrow> val \<Rightarrow> val \<Rightarrow> task_obj eng" where
  "retry e t cnt d break_on continue_on =
     (if int_of cnt = 0 then ret t
      else
        ebind (task_row t) (\<lambda>r.
        ebind (lift_res (evaluate_task_outbound_context e r)) (\<lambda>out.
        eseq (on_row t (\<lambda>r. r\<lparr>te_in_context := te_in_context (snd out)\<rparr>))
        (ebind (get_expression_context e t (fst out)) (\<lambda>c.
        ebind (lift_res (evaluate e continue_on c)) (\<lambda>cv.
        ebind (lift_res (evaluate e break_on c)) (\<lambda>bv.
        if \<not> is_completed (te_state r) \<or> is_cancelled (te_state r) then ret t
        else
          ebind (get_policy_context t ''retry_task_policy'') (\<lambda>pc.
          eseq (on_row t (put_policy_ctx ''retry_task_policy'' (ddel ''retry_no'' pc)))
          (if retry_stops cnt continue_on cv bv (te_state r) (retry_no pc) then ret t
           else
             eseq (invalidate_result t)
             (eseq (on_row t (put_policy_ctx ''retry_task_policy'' (dset ''retry_no'' (VInt (retry_no pc + 1)) (ddel ''retry_no'' pc))))
               (retry_again t d)))))))))))"

definition fail_on_after :: "task_obj \<Rightarrow> val \<Rightarrow> task_obj eng" where
  "fail_on_after t x =
     ebind (get_state t) (\<lambda>s.
       if s = Some SUCCESS \<and> truthy x
       then ebind (set_state t ERROR (Some (''Failed by '' @ squote ''fail-on'' @ '' policy'')) None False) (\<lambda>p. ret (snd p))
       else ret t)"

definition after_task_complete :: "env \<Rightarrow> task_obj \<Rightarrow> policy \<Rightarrow> task_obj eng" where
  "after_task_complete e t p =
     ebind (evaluate_and_validate e t p) (\<lambda>q.
       (case q of
          WaitAfterPolicy d \<Rightarrow> wait_after t d
        | RetryPolicy n d b c \<Rightarrow> retry e t n d b c
        | FailOnPolicy x \<Rightarrow>
            fail_on_after t x
        | _ \<Rightarrow> ret t))"

text \<open>\<^verbatim>\<open>Task._before_task_start\<close> and \<^verbatim>\<open>Task._after_task_complete\<close>.\<close>

fun each_policy :: "(task_obj \<Rightarrow> policy \<Rightarrow> task_obj eng) \<Rightarrow> policy list \<Rightarrow> task_obj \<Rightarrow> task_obj eng" where
  "each_policy f [] t = ret t"
| "each_policy f (p # ps) t = ebind (f t p) (each_policy f ps)"

definition task_before_start :: "env \<Rightarrow> handlers \<Rightarrow> task_obj \<Rightarrow> task_obj eng" where
  "task_before_start e h t =
     ebind (lift_res (build_policies (ts_policies (to_spec t)) (to_wf_spec t))) (\<lambda>ps. each_policy (before_task_start e h) ps t)"

definition task_after_complete :: "env \<Rightarrow> task_obj \<Rightarrow> task_obj eng" where
  "task_after_complete e t =
     ebind (lift_res (build_policies (ts_policies (to_spec t)) (to_wf_spec t))) (\<lambda>ps. each_policy (after_task_complete e) ps t)"

section \<open>Lemmas\<close>

lemma for_each_unaccept:
  "\<exists>A W. for_each cs unaccept w = (Inr (), w\<lparr>w_wfs := W, w_actions := A\<rparr>) \<and>
     (\<forall>j. map_option we_params (dget W j) = map_option we_params (dget (w_wfs w) j))"
proof (induction cs arbitrary: w)
  case Nil
  then show ?case by (intro exI [of _ "w_actions w"] exI [of _ "w_wfs w"]) simp
next
  case (Cons c cs)
  obtain A W where s: "unaccept c w = (Inr (), w\<lparr>w_wfs := W, w_actions := A\<rparr>)"
    and p: "\<forall>j. map_option we_params (dget W j) = map_option we_params (dget (w_wfs w) j)"
  proof (cases "ce_is_wf c")
    case True
    show ?thesis by (rule that [of "w_actions w" "upd_row (\<lambda>_ x. x\<lparr>we_accepted := False\<rparr>) (ce_id c) (w_wfs w)"])
      (simp_all add: True unaccept_def upd_wf_def dget_upd_row option.map_comp comp_def)
  next
    case False
    show ?thesis by (rule that [where W = "w_wfs w"]) (simp_all add: False unaccept_def upd_action_def)
  qed
  from Cons.IH [of "w\<lparr>w_wfs := W, w_actions := A\<rparr>"] s p show ?case
    by (auto simp: eseq_run)
qed

text \<open>A task object with its row, in a workflow without notifications.\<close>

definition quiet_task :: "task_obj \<Rightarrow> string \<Rightarrow> world \<Rightarrow> bool" where
  "quiet_task t i w \<longleftrightarrow> to_task_id t = Some i \<and> (\<exists>r. dget (w_tasks w) i = Some r \<and> te_id r = i) \<and>
     map_option (\<lambda>x. dget (we_params x) ''notify'') (dget (w_wfs w) (to_wf_id t)) = Some None"

lemma set_state_quiet:
  assumes "quiet_task t i w" and "dget (w_tasks w) i = Some r" and "te_db_state r = te_state r"
    and "te_state r \<noteq> s \<or> te_state_info r \<noteq> info"
  shows "set_state t s info processed first_run w =
    (Inr (True, t\<lparr>to_changed := True\<rparr>),
     w\<lparr>w_tasks := dset i (after_state_update (w_now w) (to_rerun t) (te_state r) s info processed
          (r\<lparr>te_state := s, te_db_state := s, te_updated_at := w_now w\<rparr>)) (w_tasks w)\<rparr>)"
proof -
  from assms(1,2) obtain x where "dget (w_wfs w) (to_wf_id t) = Some x" "dget (we_params x) ''notify'' = None"
    "to_task_id t = Some i" "te_id r = i"
    by (auto simp: quiet_task_def)
  with assms(2-4) show ?thesis
    by (subst set_state_run [where i = i and r = r and x = x and ps = "[]"]) (simp_all add: filter_publishers_def)
qed

text \<open>The row after the action of the task has failed again, as the policies find it.\<close>

definition fail_again :: "string \<Rightarrow> world \<Rightarrow> world" where
  "fail_again i w = w\<lparr>w_tasks := upd_row (\<lambda>_ r. r\<lparr>te_state := ERROR, te_db_state := ERROR\<rparr>) i (w_tasks w)\<rparr>"

primrec retry_rounds :: "env \<Rightarrow> task_obj \<Rightarrow> string \<Rightarrow> val \<Rightarrow> val \<Rightarrow> nat \<Rightarrow> world \<Rightarrow> world" where
  "retry_rounds e t i n d 0 w = w"
| "retry_rounds e t i n d (Suc k) w = snd (retry e t n d VNone VNone (fail_again i (retry_rounds e t i n d k w)))"

definition retries_used :: "string \<Rightarrow> world \<Rightarrow> int" where
  "retries_used i w = (case dget (w_tasks w) i of None \<Rightarrow> 0 | Some r \<Rightarrow> retry_no (policy_ctx ''retry_task_policy'' r))"

definition state_of_task :: "string \<Rightarrow> world \<Rightarrow> state option" where
  "state_of_task i w = map_option te_state (dget (w_tasks w) i)"

lemma policy_ctx_put [simp]: "policy_ctx k (put_policy_ctx k d r) = d"
  by (simp add: policy_ctx_def put_policy_ctx_def)

lemma put_policy_ctx_same [simp]:
  "te_id (put_policy_ctx k d r) = te_id r" "te_state (put_policy_ctx k d r) = te_state r"
  "te_db_state (put_policy_ctx k d r) = te_db_state r" "te_in_context (put_policy_ctx k d r) = te_in_context r"
  by (simp_all add: put_policy_ctx_def)

lemma policy_ctx_other [simp]:
  "policy_ctx k (r\<lparr>te_in_context := a\<rparr>) = policy_ctx k r" "policy_ctx k (r\<lparr>te_state := s\<rparr>) = policy_ctx k r"
  "policy_ctx k (r\<lparr>te_db_state := s\<rparr>) = policy_ctx k r" "policy_ctx k (r\<lparr>te_updated_at := u\<rparr>) = policy_ctx k r"
  "policy_ctx k (after_state_update now b c s info p r) = policy_ctx k r"
  by (simp_all add: policy_ctx_def after_state_update_def)

lemma retry_no_simps [simp]:
  "retry_no (dset ''retry_no'' (VInt n) pc) = n" "retry_no (ddel ''retry_no'' pc) = 0" "retry_no [] = 0"
  by (simp_all add: retry_no_def dget_default_def int_of_def)

lemma after_state_update_state [simp]:
  "te_state (after_state_update now b c s info p r) = te_state r" "te_id (after_state_update now b c s info p r) = te_id r"
  "te_db_state (after_state_update now b c s info p r) = te_db_state r"
  by (simp_all add: after_state_update_def)

lemma get_policy_context_run:
  assumes "to_task_id t = Some i" and "dget (w_tasks w) i = Some r"
  shows "\<exists>r'. get_policy_context t k w = (Inr (policy_ctx k r), w\<lparr>w_tasks := dset i r' (w_tasks w)\<rparr>) \<and>
    r' = (if dhas (te_rt r) k then r else put_policy_ctx k [] r)"
  using assms by (auto simp: get_policy_context_def run_simps task_row_run on_row_run dset_same)

lemma policy_ctx_ensured: "policy_ctx k (if dhas (te_rt r) k then r else put_policy_ctx k [] r) = policy_ctx k r"
  by (auto simp: policy_ctx_def put_policy_ctx_def map_of_eq_None_iff [symmetric] split: option.split)

lemma quiet_task_frame:
  assumes "quiet_task t i w" and "w_wfs w' = W"
    and "\<forall>j. map_option we_params (dget W j) = map_option we_params (dget (w_wfs w) j)"
    and "dget (w_tasks w') i = Some r" and "te_id r = i"
  shows "quiet_task t i w'"
  using assms(1,2,4,5) spec [OF assms(3), of "to_wf_id t"] by (cases "dget W (to_wf_id t)") (auto simp: quiet_task_def)

lemma retry_again_run:
  assumes q: "quiet_task t i w" and r: "dget (w_tasks w) i = Some r" "te_db_state r = te_state r" "te_state r = ERROR"
    and j: "\<not> has_join (to_spec t)"
  shows "\<exists>r'. retry_again t (VInt d) w = (Inr (t\<lparr>to_changed := True\<rparr>),
       w\<lparr>w_tasks := dset i r' (w_tasks w), w_jobs := w_jobs w @ [plain_job d (ContinueTask i)]\<rparr>) \<and>
     te_state r' = RUNNING_DELAYED \<and> te_db_state r' = RUNNING_DELAYED \<and> te_id r' = i \<and>
     policy_ctx ''retry_task_policy'' r' = policy_ctx ''retry_task_policy'' r"
  using q j by (simp add: retry_again_def run_simps set_state_quiet [OF q r(1,2)] r schedule_job_def int_of_def quiet_task_def task_id_def)
    (use r in auto)

lemma retry_round:
  assumes q: "quiet_task t i w" and r: "dget (w_tasks w) i = Some r" "te_db_state r = te_state r" "te_state r = ERROR"
    and j: "\<not> has_join (to_spec t)" and e: "\<not> context_versioning e" and n: "0 < n"
  shows "(if retries_used i w < n
          then \<exists>w'. snd (retry e t (VInt n) (VInt d) VNone VNone w) = w' \<and> quiet_task t i w' \<and>
             state_of_task i w' = Some RUNNING_DELAYED \<and> retries_used i w' = retries_used i w + 1 \<and>
             w_jobs w' = w_jobs w @ [plain_job d (ContinueTask i)]
          else \<exists>w'. snd (retry e t (VInt n) (VInt d) VNone VNone w) = w' \<and> quiet_task t i w' \<and>
             state_of_task i w' = Some ERROR \<and> w_jobs w' = w_jobs w)"
proof -
  let ?k = "''retry_task_policy''"
  have i: "to_task_id t = Some i" "te_id r = i" using q r(1) by (auto simp: quiet_task_def)
  obtain x where x: "dget (w_wfs w) (to_wf_id t) = Some x" using q by (auto simp: quiet_task_def)
  obtain out r1 where out: "evaluate_task_outbound_context e r = Inr (out, r1)"
    by (simp add: evaluate_task_outbound_context_def get_in_context_with_versions_def e Let_def)
  define W where "W = (\<lambda>r'. w\<lparr>w_tasks := dset i r' (w_tasks w)\<rparr>)"
  have row: "dget (w_tasks (W a)) i = Some a" "w_jobs (W a) = w_jobs w" "w_wfs (W a) = w_wfs w" for a
    by (simp_all add: W_def)
  have o0: "on_row t f w = (Inr (), W (f r))" for f using i r by (simp add: on_row_run W_def)
  have o: "on_row t f (W a) = (Inr (), W (f a))" for f a
    using i by (simp add: on_row_run W_def)
  have tr: "task_row t (W a) = (Inr a, W a)" for a using i by (simp add: task_row_run W_def)
  obtain ec where ec: "get_expression_context e t ctx (W a) = (Inr (ec ctx a), W a)" for ctx a
    using x by (simp add: get_expression_context_def run_simps tr task_wf_def get_workflow_execution_def row root_of_def split: option.split)
  define a1 where "a1 = r\<lparr>te_in_context := te_in_context r1\<rparr>"
  define a2 where "a2 = (if dhas (te_rt a1) ?k then a1 else put_policy_ctx ?k [] a1)"
  define pc where "pc = policy_ctx ?k r"
  have pc: "policy_ctx ?k a1 = pc" by (simp add: a1_def pc_def)
  define a3 where "a3 = put_policy_ctx ?k (ddel ''retry_no'' pc) a2"
  have a3: "te_id a3 = i" "te_state a3 = ERROR" "te_db_state a3 = ERROR"
    using i r by (auto simp: a3_def a2_def a1_def)
  have g: "get_policy_context t ?k (W a1) = (Inr pc, W a2)"
    using get_policy_context_run [OF i(1), of "W a1" a1 ?k] by (simp add: row pc a2_def) (simp add: W_def)
  define stop where "stop \<longleftrightarrow> \<not> retry_no pc < n"
  have used: "retries_used i w = retry_no pc" by (simp add: retries_used_def r pc_def)
  have run: "retry e t (VInt n) (VInt d) VNone VNone w =
     (if stop then (Inr t, W a3)
      else eseq (invalidate_result t)
        (eseq (on_row t (put_policy_ctx ?k (dset ''retry_no'' (VInt (retry_no pc + 1)) (ddel ''retry_no'' pc)))) (retry_again t (VInt d))) (W a3))"
    using i n r by (simp add: retry_def int_of_def run_simps task_row_run [OF i(1) r(1)] out o0 o ec a1_def [symmetric]
        evaluate_def g is_cancelled_def retry_stops_def stop_def a3_def [symmetric])
  show ?thesis
  proof (cases stop)
    case True
    have "quiet_task t i (W a3)" by (rule quiet_task_frame [OF q refl, where r = a3]) (simp_all add: row a3)
    with True show ?thesis by (simp add: run used stop_def state_of_task_def row a3)
  next
    case False
    let ?a4 = "put_policy_ctx ?k (dset ''retry_no'' (VInt (retry_no pc + 1)) (ddel ''retry_no'' pc)) a3"
    obtain A V where inv: "invalidate_result t (W a3) = (Inr (), (W a3)\<lparr>w_wfs := V, w_actions := A\<rparr>)"
      and V: "\<forall>j. map_option we_params (dget V j) = map_option we_params (dget (w_wfs w) j)"
      using for_each_unaccept [of "executions_of a3 (W a3)" "W a3"] i
      by (auto simp: invalidate_result_def run_simps get_task_execution_def row)
    let ?w4 = "(W ?a4)\<lparr>w_wfs := V, w_actions := A\<rparr>"
    have q4: "quiet_task t i ?w4" by (rule quiet_task_frame [OF q _ V, where r = ?a4]) (simp_all add: row a3)
    have on4: "on_row t f ((W a3)\<lparr>w_wfs := V, w_actions := A\<rparr>) = (Inr (), (W (f a3))\<lparr>w_wfs := V, w_actions := A\<rparr>)" for f
      using i by (subst on_row_run [where i = i and r = a3]) (simp_all add: row, simp add: W_def)
    obtain r' where again: "retry_again t (VInt d) ?w4 = (Inr (t\<lparr>to_changed := True\<rparr>),
        ?w4\<lparr>w_tasks := dset i r' (w_tasks ?w4), w_jobs := w_jobs ?w4 @ [plain_job d (ContinueTask i)]\<rparr>)"
      and r': "te_state r' = RUNNING_DELAYED" "te_id r' = i" "policy_ctx ?k r' = policy_ctx ?k ?a4"
      using retry_again_run [OF q4, of ?a4 d] a3 j by (auto simp: row)
    let ?w5 = "?w4\<lparr>w_tasks := dset i r' (w_tasks ?w4), w_jobs := w_jobs ?w4 @ [plain_job d (ContinueTask i)]\<rparr>"
    have "quiet_task t i ?w5" by (rule quiet_task_frame [OF q _ V, where r = r']) (simp_all add: r')
    with False show ?thesis
      by (simp add: run run_simps inv on4 again stop_def state_of_task_def retries_used_def r' row r(1) pc_def [symmetric])
  qed
qed

lemma fail_again_same:
  assumes "quiet_task t i w"
  shows "quiet_task t i (fail_again i w) \<and> w_jobs (fail_again i w) = w_jobs w \<and> retries_used i (fail_again i w) = retries_used i w \<and>
    (\<exists>r. dget (w_tasks (fail_again i w)) i = Some r \<and> te_state r = ERROR \<and> te_db_state r = ERROR)"
  using assms by (auto simp: fail_again_def quiet_task_def dget_upd_row retries_used_def)

lemma retry_rounds_run:
  assumes "quiet_task t i w" and "retries_used i w = 0" and "\<not> has_join (to_spec t)" and "\<not> context_versioning e"
    and "k \<le> n" and "0 < n"
  shows "let w' = retry_rounds e t i (VInt (int n)) (VInt d) k w
    in quiet_task t i w' \<and> retries_used i w' = int k \<and> w_jobs w' = w_jobs w @ replicate k (plain_job d (ContinueTask i)) \<and>
       (k > 0 \<longrightarrow> state_of_task i w' = Some RUNNING_DELAYED)"
  using assms(5)
proof (induction k)
  case 0
  then show ?case using assms by simp
next
  case (Suc k)
  let ?w = "retry_rounds e t i (VInt (int n)) (VInt d) k w"
  from Suc have q: "quiet_task t i ?w" and u: "retries_used i ?w = int k"
    and jobs: "w_jobs ?w = w_jobs w @ replicate k (plain_job d (ContinueTask i))" by (simp_all add: Let_def)
  from fail_again_same [OF q] obtain r where r: "dget (w_tasks (fail_again i ?w)) i = Some r" "te_state r = ERROR" "te_db_state r = ERROR"
    and f: "quiet_task t i (fail_again i ?w)" "w_jobs (fail_again i ?w) = w_jobs ?w" "retries_used i (fail_again i ?w) = int k"
    using u by auto
  from retry_round [OF f(1) r(1) _ r(2) assms(3,4), of "int n" d] Suc.prems assms(6) r f jobs
  show ?case by (simp add: Let_def replicate_append_same)
qed

text \<open>
  C31. A task with \<^verbatim>\<open>retry: count=n\<close> whose action always fails is repeated exactly n times: each of the
  first n failures puts it to RUNNING_DELAYED with one job that continues it, and after the next
  failure it stays in ERROR and no job is scheduled. (Failing again and again is the loop \<open>retry_rounds\<close> around the policy, for a
  task without join.)
\<close>

theorem retry_exactly_count:
  assumes "quiet_task t i w" and "retries_used i w = 0" and "\<not> has_join (to_spec t)" and "\<not> context_versioning e" and "0 < n"
  shows "state_of_task i (retry_rounds e t i (VInt (int n)) (VInt d) n w) = Some RUNNING_DELAYED \<and>
     w_jobs (retry_rounds e t i (VInt (int n)) (VInt d) n w) = w_jobs w @ replicate n (plain_job d (ContinueTask i)) \<and>
     state_of_task i (retry_rounds e t i (VInt (int n)) (VInt d) (Suc n) w) = Some ERROR \<and>
     w_jobs (retry_rounds e t i (VInt (int n)) (VInt d) (Suc n) w) = w_jobs w @ replicate n (plain_job d (ContinueTask i))"
proof -
  let ?w = "retry_rounds e t i (VInt (int n)) (VInt d) n w"
  from retry_rounds_run [OF assms(1-4) order_refl assms(5), of d] assms(5)
  have q: "quiet_task t i ?w" and u: "retries_used i ?w = int n" and s: "state_of_task i ?w = Some RUNNING_DELAYED"
    and jobs: "w_jobs ?w = w_jobs w @ replicate n (plain_job d (ContinueTask i))" by (simp_all add: Let_def)
  from fail_again_same [OF q] obtain r where r: "dget (w_tasks (fail_again i ?w)) i = Some r" "te_state r = ERROR" "te_db_state r = ERROR"
    and f: "quiet_task t i (fail_again i ?w)" "w_jobs (fail_again i ?w) = w_jobs ?w" "retries_used i (fail_again i ?w) = int n"
    using u by auto
  from retry_round [OF f(1) r(1) _ r(2) assms(3,4), of "int n" d] assms(5) r f jobs s show ?thesis by simp
qed

theorem retry_exactly_count_witness:
  "state_of_task ''1'' (retry_rounds plain_env task_b ''1'' (VInt (int 2)) (VInt 5) 2 (one_task_world RUNNING RUNNING)) = Some RUNNING_DELAYED \<and>
   w_jobs (retry_rounds plain_env task_b ''1'' (VInt (int 2)) (VInt 5) 2 (one_task_world RUNNING RUNNING)) =
     w_jobs (one_task_world RUNNING RUNNING) @ replicate 2 (plain_job 5 (ContinueTask ''1'')) \<and>
   state_of_task ''1'' (retry_rounds plain_env task_b ''1'' (VInt (int 2)) (VInt 5) (Suc 2) (one_task_world RUNNING RUNNING)) = Some ERROR \<and>
   w_jobs (retry_rounds plain_env task_b ''1'' (VInt (int 2)) (VInt 5) (Suc 2) (one_task_world RUNNING RUNNING)) =
     w_jobs (one_task_world RUNNING RUNNING) @ replicate 2 (plain_job 5 (ContinueTask ''1''))"
  by (rule retry_exactly_count)
    (simp_all add: quiet_task_def task_b_def one_task_world_def mk_ex_defs empty_world_def retries_used_def policy_ctx_def
      has_join_def mk_task_def plain_env_def)

end
