(* ===== verification/With_Items.thy ===== *)
theory With_Items
  imports Executions
begin

text \<open>
  The bookkeeping of \<^verbatim>\<open>WithItemsTask\<close> in \<^verbatim>\<open>mistral/engine/tasks.py\<close>: the record that the runtime
  context of the task keeps under \<^verbatim>\<open>with_items\<close> (count and capacity), which indexes to run next,
  when all items are done and what state the task gets. \<open>r\<close> is the row of the task, \<open>cs\<close> are its
  child executions. The class attribute \<^verbatim>\<open>_DEFAULT_WITH_ITEMS\<close> is taken as a constant.
\<close>

definition default_with_items :: "val dict" where
  "default_with_items = [(''count'', VInt 0), (''concurrency'', VInt 0), (''capacity'', VInt 0)]"

definition get_with_items_context :: "task_ex \<Rightarrow> val dict res" where
  "get_with_items_context r = (case dget (te_rt r) ''with_items'' of
      None \<Rightarrow> Inr default_with_items | Some (VDict d) \<Rightarrow> Inr d | Some _ \<Rightarrow> Inl TypeError)"

definition get_with_items_count :: "task_ex \<Rightarrow> val res" where
  "get_with_items_count r = bind_res (get_with_items_context r) (\<lambda>d. dindex d ''count'')"

definition get_with_items_capacity :: "task_ex \<Rightarrow> val res" where
  "get_with_items_capacity r = bind_res (get_with_items_context r) (\<lambda>d. dindex d ''capacity'')"

definition get_concurrency :: "task_ex \<Rightarrow> val" where
  "get_concurrency r = dget_default (te_rt r) ''concurrency'' VNone"

definition int_val :: "val \<Rightarrow> int res" where
  "int_val v = (case v of VInt i \<Rightarrow> Inr i | _ \<Rightarrow> Inl TypeError)"

section \<open>Completion\<close>

definition accepted_in :: "state \<Rightarrow> child_ex list \<Rightarrow> child_ex list" where
  "accepted_in s cs = filter (\<lambda>c. ce_accepted c \<and> ce_state c = s) cs"

definition is_with_items_completed :: "task_ex \<Rightarrow> child_ex list \<Rightarrow> bool res" where
  "is_with_items_completed r cs =
     (if accepted_in CANCELLED cs \<noteq> [] then Inr True
      else
        bind_res (get_with_items_count r) (\<lambda>n0.
        bind_res (if truthy (get_concurrency r)
                  then bind_res (get_with_items_capacity r) (\<lambda>cap. Inr (cap = get_concurrency r)) else Inr True) (\<lambda>full.
          Inr ((if truthy n0 then n0 else VInt 1) = VInt (int (length (filter ce_accepted cs))) \<and> full))))"

definition get_final_state :: "child_ex list \<Rightarrow> state" where
  "get_final_state cs =
     (if accepted_in CANCELLED cs \<noteq> [] then CANCELLED else if accepted_in ERROR cs \<noteq> [] then ERROR else SUCCESS)"

definition has_more_iterations :: "task_ex \<Rightarrow> child_ex list \<Rightarrow> bool res" where
  "has_more_iterations r cs =
     bind_res (get_with_items_count r) (\<lambda>v. bind_res (int_val v) (\<lambda>n.
       Inr (n > int (length (filter (\<lambda>c. ce_accepted c \<or> ce_state c = RUNNING) cs)))))"

section \<open>The next indexes\<close>

definition get_accepted_executions :: "child_ex list \<Rightarrow> child_ex list" where
  "get_accepted_executions cs = filter (\<lambda>c. ce_accepted c \<and> is_completed (ce_state c)) cs"

definition get_unaccepted_executions :: "child_ex list \<Rightarrow> child_ex list" where
  "get_unaccepted_executions cs = filter (\<lambda>c. \<not> ce_accepted c \<and> is_completed (ce_state c)) cs"

definition get_next_start_index :: "child_ex list \<Rightarrow> int" where
  "get_next_start_index cs =
     int (length (filter (\<lambda>c. ce_accepted c \<or> is_running (ce_state c) \<or> is_idle (ce_state c)) cs))"

text \<open>\<^verbatim>\<open>sorted(set([ex.runtime_context['index'] for ex in exs]))\<close>.\<close>

definition child_index_res :: "child_ex \<Rightarrow> int res" where
  "child_index_res c = bind_res (dindex (ce_rt c) ''index'') int_val"

definition get_indexes :: "child_ex list \<Rightarrow> int list res" where
  "get_indexes cs = bind_res (map_res child_index_res cs) (\<lambda>is. Inr (sort (remdups is)))"

text \<open>\<^verbatim>\<open>xs[:capacity]\<close>.\<close>

definition slice_to :: "val \<Rightarrow> 'a list \<Rightarrow> 'a list res" where
  "slice_to cap xs = (case cap of
      VNone \<Rightarrow> Inr xs
    | VInt k \<Rightarrow> Inr (if k \<ge> 0 then take (nat k) xs else take (length xs - nat (- k)) xs)
    | _ \<Rightarrow> Inl TypeError)"

definition candidate_indexes :: "int list \<Rightarrow> int list \<Rightarrow> int list" where
  "candidate_indexes unaccepted accepted = filter (\<lambda>i. i \<notin> set accepted) unaccepted"

definition indexes_from :: "int list \<Rightarrow> int \<Rightarrow> int \<Rightarrow> int list" where
  "indexes_from candidates start n =
     (if candidates \<noteq> []
      then candidates @ (if last candidates < n - 1 then [last candidates + 1 .. n - 1] else [])
      else [start .. n - 1])"

definition get_next_indexes :: "task_ex \<Rightarrow> child_ex list \<Rightarrow> int list res" where
  "get_next_indexes r cs =
     bind_res (get_with_items_capacity r) (\<lambda>cap.
     bind_res (bind_res (get_with_items_count r) int_val) (\<lambda>n.
     bind_res (get_indexes (get_accepted_executions cs)) (\<lambda>accepted.
     bind_res (get_indexes (get_unaccepted_executions cs)) (\<lambda>unaccepted.
       slice_to cap (indexes_from (candidate_indexes unaccepted accepted) (get_next_start_index cs) n)))))"

section \<open>Capacity\<close>

definition put_with_items :: "val dict \<Rightarrow> task_ex \<Rightarrow> task_ex" where
  "put_with_items d r = r\<lparr>te_rt := dset ''with_items'' (VDict d) (te_rt r)\<rparr>"

definition is_new :: "task_ex \<Rightarrow> bool" where
  "is_new r \<longleftrightarrow> \<not> truthy (dget_default (te_rt r) ''with_items'' VNone)"

definition prepare_runtime_context :: "int \<Rightarrow> task_ex \<Rightarrow> task_ex" where
  "prepare_runtime_context n r =
     (if is_new r then put_with_items [(''capacity'', get_concurrency r), (''count'', VInt n)] r else r)"

definition increase_capacity :: "task_ex \<Rightarrow> task_ex res" where
  "increase_capacity r =
     bind_res (get_with_items_context r) (\<lambda>d.
       if \<not> truthy (get_concurrency r) then Inr r
       else
         bind_res (bind_res (dindex d ''capacity'') int_val) (\<lambda>cap. bind_res (int_val (get_concurrency r)) (\<lambda>con.
           Inr (if cap < con then put_with_items (dset ''capacity'' (VInt (cap + 1)) d) r else r))))"

definition decrease_capacity :: "int \<Rightarrow> task_ex \<Rightarrow> task_ex res" where
  "decrease_capacity k r =
     bind_res (get_with_items_context r) (\<lambda>d.
     bind_res (dindex d ''capacity'') (\<lambda>cap.
       (case cap of
          VNone \<Rightarrow> Inr (put_with_items d r)
        | _ \<Rightarrow> bind_res (int_val cap) (\<lambda>c.
            if c \<ge> k then Inr (put_with_items (dset ''capacity'' (VInt (c - k)) d) r)
            else Inl (RuntimeError ''Can't decrease with-items capacity'')))))"

section \<open>The items\<close>

definition iterate_val :: "val \<Rightarrow> val list res" where
  "iterate_val v = (case v of
      VList xs \<Rightarrow> Inr xs | VDict d \<Rightarrow> Inr (map VStr (dkeys d)) | VStr s \<Rightarrow> Inr (map (\<lambda>c. VStr [c]) s)
    | _ \<Rightarrow> Inl (InputException ''Wrong input format: an iterable is expected for each value.''))"

text \<open>The loop over the evaluated expressions; \<open>required_len\<close> is negative before the first.\<close>

fun items_loop :: "val dict \<Rightarrow> int \<Rightarrow> val list dict \<Rightarrow> val list dict res" where
  "items_loop [] required_len acc = Inr acc"
| "items_loop ((var, items) # r) required_len acc =
     bind_res (iterate_val items) (\<lambda>xs.
       if required_len < 0 then items_loop r (int (length xs)) (dset var xs acc)
       else if int (length xs) \<noteq> required_len
         then Inl (InputException ''Wrong input format: all arrays must have the same length.'')
       else items_loop r required_len (dset var xs acc))"

text \<open>\<^verbatim>\<open>v[i]\<close> for every variable.\<close>

definition item_at :: "val list \<Rightarrow> int \<Rightarrow> val res" where
  "item_at xs i =
     (if 0 \<le> i \<and> i < int (length xs) then Inr (xs ! nat i)
      else if i < 0 \<and> - i \<le> int (length xs) then Inr (xs ! nat (int (length xs) + i))
      else Inl IndexError)"

definition item_context :: "val list dict \<Rightarrow> int \<Rightarrow> val dict res" where
  "item_context values i = map_res (\<lambda>p. bind_res (item_at (snd p) i) (\<lambda>v. Inr (fst p, v))) values"

section \<open>Lemmas\<close>

lemma slice_to_prefix: "slice_to cap xs = Inr ys \<Longrightarrow> \<exists>m. ys = take m xs"
proof -
  assume "slice_to cap xs = Inr ys"
  then consider "ys = take (length xs) xs" | k where "ys = take (nat k) xs" | k where "ys = take (length xs - nat (- k)) xs"
    by (auto simp: slice_to_def split: val.splits if_splits)
  then show ?thesis by cases blast+
qed

lemma slice_to_length: "slice_to (VInt k) xs = Inr ys \<Longrightarrow> 0 \<le> k \<Longrightarrow> int (length ys) \<le> k"
  by (auto simp: slice_to_def)

lemma sorted_upto: "sorted [i..j]"
  by (induction i j rule: upto.induct) (subst upto.simps, auto)

lemma indexes_from_ok:
  assumes "sorted cand" and "distinct cand" and "\<forall>i \<in> set cand. 0 \<le> i \<and> i < n" and "0 \<le> start"
  shows "sorted (indexes_from cand start n) \<and> distinct (indexes_from cand start n) \<and>
         (\<forall>i \<in> set (indexes_from cand start n). 0 \<le> i \<and> i < n)"
proof (cases "cand = []")
  case True
  with assms(4) show ?thesis by (simp add: indexes_from_def sorted_upto)
next
  case False
  have le: "i \<le> last cand" if "i \<in> set cand" for i
    using assms(1) False that by (induction cand) (auto split: if_splits)
  have "0 \<le> last cand" "last cand < n" using assms(3) False by (meson last_in_set)+
  then have tail: "0 \<le> i \<and> last cand < i \<and> i < n" if "i \<in> set [last cand + 1..n - 1]" for i using that by simp
  have "sorted (cand @ [last cand + 1..n - 1]) \<and> distinct (cand @ [last cand + 1..n - 1])"
    using assms(1,2) le tail by (simp add: sorted_append sorted_upto del: set_upto) (meson order.strict_trans1 order.strict_iff_order less_irrefl disjoint_iff)
  then show ?thesis using False assms(1-3) tail by (auto simp: indexes_from_def simp del: set_upto)
qed

lemma get_indexes_ok:
  "get_indexes cs = Inr is \<Longrightarrow> sorted is \<and> distinct is \<and> set is = {i. \<exists>c \<in> set cs. child_index_res c = Inr i}"
proof -
  assume "get_indexes cs = Inr is"
  then obtain js where js: "map_res child_index_res cs = Inr js" "is = sort (remdups js)"
    by (auto simp: get_indexes_def res_simps)
  have "set js = {i. \<exists>c \<in> set cs. child_index_res c = Inr i}"
    using js(1) by (induction cs arbitrary: js) (auto split: sum.splits)
  with js(2) show ?thesis by simp
qed

definition item_indexes :: "child_ex list \<Rightarrow> int set" where
  "item_indexes cs = {i. \<exists>c \<in> set cs. child_index_res c = Inr i}"

text \<open>Children that hold their index: accepted, running or idle.\<close>

definition active_children :: "child_ex list \<Rightarrow> child_ex list" where
  "active_children cs = filter (\<lambda>c. ce_accepted c \<or> is_running (ce_state c) \<or> is_idle (ce_state c)) cs"

lemma next_indexes_cases:
  assumes "get_next_indexes r cs = Inr is" and "get_with_items_count r = Inr (VInt n)"
  obtains cap acc un where "get_with_items_capacity r = Inr cap"
    "get_indexes (get_accepted_executions cs) = Inr acc" "get_indexes (get_unaccepted_executions cs) = Inr un"
    "slice_to cap (indexes_from (candidate_indexes un acc) (get_next_start_index cs) n) = Inr is"
  using assms by (auto simp: get_next_indexes_def res_simps int_val_def)

text \<open>
  The indexes of the next portion of a with-items task are in range, increasing, without
  repetition and no more than the capacity. If no item has failed and been reset, and the items that
  are accepted, running or idle are the first ones, no index is taken that one of them has.
\<close>

theorem next_indexes_bounds:
  assumes "get_next_indexes r cs = Inr is" and "get_with_items_count r = Inr (VInt n)"
    and "get_with_items_capacity r = Inr (VInt k)" and "0 \<le> k" and "item_indexes cs \<subseteq> {0..<n}"
  shows "sorted is \<and> distinct is \<and> set is \<subseteq> {0..<n} \<and> int (length is) \<le> k \<and>
     (get_unaccepted_executions cs = [] \<and> item_indexes (active_children cs) = {0..<int (length (active_children cs))} \<longrightarrow>
        set is \<inter> item_indexes (active_children cs) = {})"
proof -
  from assms(1-3) obtain acc un where acc: "get_indexes (get_accepted_executions cs) = Inr acc"
    and un: "get_indexes (get_unaccepted_executions cs) = Inr un"
    and slice: "slice_to (VInt k) (indexes_from (candidate_indexes un acc) (get_next_start_index cs) n) = Inr is"
    by (auto elim: next_indexes_cases)
  let ?c = "candidate_indexes un acc" and ?f = "indexes_from (candidate_indexes un acc) (get_next_start_index cs) n"
  have un_ok: "sorted un" "distinct un" "set un = item_indexes (get_unaccepted_executions cs)"
    using get_indexes_ok [OF un] by (auto simp: item_indexes_def)
  then have "set un \<subseteq> {0..<n}" using assms(5) by (auto simp: item_indexes_def get_unaccepted_executions_def)
  then have "sorted ?c" "distinct ?c" "\<forall>i \<in> set ?c. 0 \<le> i \<and> i < n"
    using un_ok by (auto simp: candidate_indexes_def intro: sorted_wrt_filter)
  then have f: "sorted ?f \<and> distinct ?f \<and> (\<forall>i \<in> set ?f. 0 \<le> i \<and> i < n)"
    by (rule indexes_from_ok) (simp add: get_next_start_index_def)
  obtain m where m: "is = take m ?f" using slice_to_prefix [OF slice] by blast
  have "set is \<inter> item_indexes (active_children cs) = {}"
    if "get_unaccepted_executions cs = []" "item_indexes (active_children cs) = {0..<int (length (active_children cs))}"
  proof -
    have "un = []" using that(1) un_ok(3) by (simp add: item_indexes_def)
    then have "?f = [int (length (active_children cs))..n - 1]"
      by (simp add: candidate_indexes_def indexes_from_def get_next_start_index_def active_children_def)
    with m that(2) show ?thesis by (auto dest!: in_set_takeD)
  qed
  with f m slice_to_length [OF slice assms(4)] show ?thesis
    by (auto intro: sorted_wrt_take distinct_take dest: in_set_takeD)
qed

definition items_task :: "nat \<Rightarrow> val \<Rightarrow> task_ex" where
  "items_task n con = (mk_task_ex ''1'' ''w'' (mk_task ''t'') RUNNING)\<lparr>te_rt := [(''concurrency'', con),
     (''with_items'', VDict [(''capacity'', con), (''count'', VInt (int n))])]\<rparr>"

theorem next_indexes_bounds_witness:
  "get_next_indexes (items_task 4 (VInt 2)) [mk_child ''a'' SUCCESS True 0] = Inr [1, 2] \<and>
   sorted [1, 2 :: int] \<and> distinct [1, 2 :: int] \<and> set [1, 2 :: int] \<subseteq> {0..<4} \<and> int (length [1, 2 :: int]) \<le> 2"
proof -
  have run: "get_next_indexes (items_task 4 (VInt 2)) [mk_child ''a'' SUCCESS True 0] = Inr [1, 2]"
    by (simp add: get_next_indexes_def items_task_def mk_ex_defs get_with_items_capacity_def get_with_items_count_def
        get_with_items_context_def dindex_def int_val_def get_indexes_def get_accepted_executions_def get_unaccepted_executions_def
        child_index_res_def candidate_indexes_def indexes_from_def get_next_start_index_def slice_to_def upto.simps numeral_eq_Suc)
  have "sorted [1, 2 :: int] \<and> distinct [1, 2 :: int] \<and> set [1, 2 :: int] \<subseteq> {0..<4} \<and> int (length [1, 2 :: int]) \<le> 2"
    using next_indexes_bounds [OF run, of 4 2]
    by (simp add: items_task_def mk_ex_defs get_with_items_capacity_def get_with_items_count_def
        get_with_items_context_def dindex_def item_indexes_def child_index_res_def int_val_def)
  with run show ?thesis by blast
qed

text \<open>
  When a with-items task is run again without reset, every item after the last failed one is
  run again, although its first run has succeeded and is accepted.
\<close>

theorem rerun_repeats_accepted:
  assumes "get_next_indexes r cs = Inr is" and "get_with_items_count r = Inr (VInt n)"
    and "get_with_items_capacity r = Inr VNone"
    and "f \<in> item_indexes (get_unaccepted_executions cs)" and "f \<notin> item_indexes (get_accepted_executions cs)"
    and "j \<in> item_indexes (get_accepted_executions cs)" and "j < n"
    and "\<forall>i \<in> item_indexes (get_unaccepted_executions cs). i < j"
  shows "j \<in> set is"
proof -
  from assms(1-3) obtain acc un where acc: "get_indexes (get_accepted_executions cs) = Inr acc"
    and un: "get_indexes (get_unaccepted_executions cs) = Inr un"
    and res: "is = indexes_from (candidate_indexes un acc) (get_next_start_index cs) n"
    by (auto elim!: next_indexes_cases simp: slice_to_def)
  have sets: "set un = item_indexes (get_unaccepted_executions cs)" "set acc = item_indexes (get_accepted_executions cs)"
    using get_indexes_ok [OF un] get_indexes_ok [OF acc] by (auto simp: item_indexes_def)
  then have f: "f \<in> set (candidate_indexes un acc)" using assms(4,5) by (simp add: candidate_indexes_def)
  then have "last (candidate_indexes un acc) \<in> set (candidate_indexes un acc)" by (intro last_in_set) auto
  then have "last (candidate_indexes un acc) < j" using assms(8) sets by (auto simp: candidate_indexes_def)
  with f res assms(7) show ?thesis by (auto simp: indexes_from_def)
qed

theorem rerun_repeats_accepted_witness:
  "get_next_indexes (items_task 3 VNone) [mk_child ''a'' ERROR False 0, mk_child ''b'' SUCCESS True 1, mk_child ''c'' SUCCESS True 2]
     = Inr [0, 1, 2] \<and> 2 \<in> set [0, 1, 2 :: int]"
proof -
  let ?cs = "[mk_child ''a'' ERROR False 0, mk_child ''b'' SUCCESS True 1, mk_child ''c'' SUCCESS True 2]"
  note defs = get_next_indexes_def items_task_def mk_ex_defs get_with_items_capacity_def get_with_items_count_def
        get_with_items_context_def dindex_def int_val_def get_indexes_def get_accepted_executions_def get_unaccepted_executions_def
        child_index_res_def candidate_indexes_def indexes_from_def get_next_start_index_def slice_to_def upto.simps numeral_eq_Suc
        item_indexes_def
  have run: "get_next_indexes (items_task 3 VNone) ?cs = Inr [0, 1, 2]" by (simp add: defs)
  have "2 \<in> set [0, 1, 2 :: int]"
    by (rule rerun_repeats_accepted [OF run, where n = 3 and f = 0]) (auto simp: defs)
  with run show ?thesis by blast
qed

section \<open>Concurrency\<close>

text \<open>The loop of \<^verbatim>\<open>_schedule_actions\<close> as far as the capacity goes: one less for every scheduled item.\<close>

fun decrease_each :: "int list \<Rightarrow> task_ex \<Rightarrow> task_ex res" where
  "decrease_each [] r = Inr r"
| "decrease_each (i # is) r = bind_res (decrease_capacity 1 r) (decrease_each is)"

text \<open>The life of a with-items task with a concurrency: \<open>k\<close> counts the items in flight.\<close>

inductive with_items_runs :: "int \<Rightarrow> task_ex \<Rightarrow> nat \<Rightarrow> bool" for con :: int where
  start: "is_new r \<Longrightarrow> get_concurrency r = VInt con \<Longrightarrow> con > 0 \<Longrightarrow> with_items_runs con (prepare_runtime_context n r) 0"
| schedule: "with_items_runs con r k \<Longrightarrow> get_next_indexes r cs = Inr is \<Longrightarrow> decrease_each is r = Inr r' \<Longrightarrow>
    with_items_runs con r' (k + length is)"
| complete: "with_items_runs con r (Suc k) \<Longrightarrow> increase_capacity r = Inr r' \<Longrightarrow> with_items_runs con r' k"

definition capacity_left :: "int \<Rightarrow> nat \<Rightarrow> task_ex \<Rightarrow> bool" where
  "capacity_left con k r \<longleftrightarrow> int k \<le> con \<and> get_concurrency r = VInt con \<and> con > 0 \<and>
     (\<exists>d. dget (te_rt r) ''with_items'' = Some (VDict d) \<and> dget d ''capacity'' = Some (VInt (con - int k)))"

lemma get_concurrency_put [simp]: "get_concurrency (put_with_items d r) = get_concurrency r"
  by (simp add: get_concurrency_def put_with_items_def dget_default_def)

lemma dget_put_with_items [simp]: "dget (te_rt (put_with_items d r)) ''with_items'' = Some (VDict d)"
  by (simp add: put_with_items_def)

lemma decrease_each_left:
  "capacity_left con k r \<Longrightarrow> int (k + length is) \<le> con \<Longrightarrow>
   \<exists>r'. decrease_each is r = Inr r' \<and> capacity_left con (k + length is) r'"
proof (induction "is" arbitrary: k r)
  case (Cons i "is")
  then obtain d where d: "dget (te_rt r) ''with_items'' = Some (VDict d)" "dget d ''capacity'' = Some (VInt (con - int k))"
    by (auto simp: capacity_left_def)
  let ?r = "put_with_items (dset ''capacity'' (VInt (con - int k - 1)) d) r"
  have "decrease_capacity 1 r = Inr ?r"
    using d Cons.prems(2) by (simp add: decrease_capacity_def get_with_items_context_def dindex_def int_val_def)
  moreover have "capacity_left con (Suc k) ?r" using Cons.prems by (simp add: capacity_left_def algebra_simps)
  ultimately show ?case using Cons.IH [of "Suc k" ?r] Cons.prems(2) by simp
qed simp

lemma increase_left: "capacity_left con (Suc k) r \<Longrightarrow> increase_capacity r = Inr r' \<Longrightarrow> capacity_left con k r'"
  by (auto simp: capacity_left_def increase_capacity_def get_with_items_context_def dindex_def int_val_def split: if_splits)

lemma next_indexes_left: "capacity_left con k r \<Longrightarrow> get_next_indexes r cs = Inr is \<Longrightarrow> int (k + length is) \<le> con"
  by (auto simp: capacity_left_def get_next_indexes_def get_with_items_capacity_def get_with_items_context_def dindex_def res_simps
      dest!: slice_to_length)

text \<open>
  C3. However the items of a with-items task with a concurrency are scheduled and completed, no more
  than that many are in flight at the same time, and the capacity is never exceeded, so that
  decreasing it never raises. (In flight are those started and not yet completed; the count is kept beside the runtime context. The
  concurrency does not change while the task runs.)
\<close>

theorem concurrency_respected:
  assumes "with_items_runs con r k"
  shows "int k \<le> con \<and> (\<forall>cs is. get_next_indexes r cs = Inr is \<longrightarrow> (\<exists>r'. decrease_each is r = Inr r'))"
proof -
  have "capacity_left con k r" using assms
  proof induction
    case (start r n)
    then show ?case by (simp add: capacity_left_def prepare_runtime_context_def)
  next
    case (schedule r k cs "is" r')
    from decrease_each_left [OF schedule.IH next_indexes_left [OF schedule.IH schedule.hyps(2)]] schedule.hyps(3)
    show ?case by simp
  next
    case (complete r k r')
    then show ?case by (blast intro: increase_left)
  qed
  then show ?thesis using decrease_each_left next_indexes_left by (fastforce simp: capacity_left_def)
qed

definition new_items_task :: task_ex where
  "new_items_task = (mk_task_ex ''1'' ''w'' (mk_task ''t'') RUNNING)\<lparr>te_rt := [(''concurrency'', VInt 2)]\<rparr>"

theorem concurrency_respected_witness:
  "int 0 \<le> 2 \<and> (\<exists>r'. decrease_each [0, 1] (prepare_runtime_context 3 new_items_task) = Inr r')"
proof -
  have s: "with_items_runs 2 (prepare_runtime_context 3 new_items_task) 0"
    by (rule with_items_runs.start)
      (simp_all add: new_items_task_def is_new_def dget_default_def get_concurrency_def)
  have run: "get_next_indexes (prepare_runtime_context 3 new_items_task) [] = Inr [0, 1]"
    by (simp add: get_next_indexes_def new_items_task_def is_new_def dget_default_def get_concurrency_def prepare_runtime_context_def
        put_with_items_def get_with_items_capacity_def get_with_items_count_def get_with_items_context_def dindex_def int_val_def
        get_indexes_def get_accepted_executions_def get_unaccepted_executions_def candidate_indexes_def indexes_from_def
        get_next_start_index_def slice_to_def upto.simps numeral_eq_Suc)
  from concurrency_respected [OF s] run show ?thesis by blast
qed

end
