(* ===== verification/Tasks.thy ===== *)
theory Tasks
  imports Actions Policies With_Items
begin

text \<open>
  \<^verbatim>\<open>mistral/engine/tasks.py\<close>: completing and updating a task, running it for the first time and
  again, and the scheduling of its actions, for regular tasks and for tasks with items
  (\<^verbatim>\<open>RegularTask\<close>, \<^verbatim>\<open>WithItemsTask\<close>). The class is told by the specification, as in
  \<^verbatim>\<open>task_handler._create_task\<close>. The dispatcher and the workflow handler come in as \<open>h\<close>. What
  \<^verbatim>\<open>get_publish\<close> changes in the specification object is not kept.
\<close>

text \<open>\<^verbatim>\<open>e.message\<close> of the exceptions that the engine catches.\<close>

fun exn_message :: "exn \<Rightarrow> string" where
  "exn_message (DSLParsingException m) = m"
| "exn_message (ExpressionGrammarException m) = m"
| "exn_message (InvalidModelException m) = m"
| "exn_message (EvaluationException m) = m"
| "exn_message (InvalidActionException m) = m"
| "exn_message (WorkflowException m) = m"
| "exn_message (InputException m) = m"
| "exn_message (NotAllowedException m) = m"
| "exn_message (InvalidStateTransitionException m) = m"
| "exn_message (MistralException m) = m"
| "exn_message _ = []"

definition change_row :: "task_obj \<Rightarrow> (task_ex \<Rightarrow> task_ex res) \<Rightarrow> unit eng" where
  "change_row t f = ebind (task_row t) (\<lambda>r. ebind (lift_res (f r)) (\<lambda>r'. on_row t (\<lambda>_. r')))"

section \<open>Completing a task\<close>

definition publish_of_task :: "env \<Rightarrow> task_obj \<Rightarrow> unit eng" where
  "publish_of_task e t =
     ebind (task_row t) (\<lambda>r. ebind (task_wf t) (\<lambda>x. ebind (gets (root_of x)) (\<lambda>root.
     ebind (lift_res (publish_variables e root r (to_spec t) x)) (\<lambda>(r', _, x').
       eseq (on_row t (\<lambda>r. r\<lparr>te_published := te_published r'\<rparr>))
         (upd_wf (to_wf_id t) (\<lambda>x. x\<lparr>we_context := we_context x'\<rparr>))))))"

definition destroy_result :: "task_obj \<Rightarrow> unit eng" where
  "destroy_result t =
     when_e (\<not> truthy (ts_keep_result (to_spec t)))
       (ebind (gets (task_actions (task_id t))) (\<lambda>as. for_each as (\<lambda>a. upd_action (ae_id a) (\<lambda>a. a\<lparr>ae_output := Some []\<rparr>))))"

definition next_task_of :: "command \<Rightarrow> (string \<times> string option) res" where
  "next_task_of c = (case cmd_spec c of
      None \<Rightarrow> Inl AttributeError
    | Some s \<Rightarrow> Inr (ts_name s, case cmd_triggered_by c of Some (tr # _) \<Rightarrow> tr_event tr | _ \<Rightarrow> None))"

text \<open>What the completed task stores about the commands that follow.\<close>

definition record_next_tasks :: "command list \<Rightarrow> task_ex \<Rightarrow> task_ex res" where
  "record_next_tasks cmds r =
     bind_res (map_res next_task_of (filter (\<lambda>c. \<not> is_engine_command c) cmds)) (\<lambda>ns.
       Inr (r\<lparr>te_next_tasks := Some ns, te_has_next := Some (ns \<noteq> []),
              te_error_handled := (if te_state r = ERROR then Some (\<exists>c \<in> set cmds. cmd_handles_error c) else te_error_handled r)\<rparr>))"

definition register_workflow_completion_check :: "task_obj \<Rightarrow> unit eng" where
  "register_workflow_completion_check t =
     ebind (task_row t) (\<lambda>r.
       when_e (ctrl_may_complete_workflow (to_wf_spec t) r) (register_operation (CheckAndCompleteOp (to_wf_id t)) True))"

definition after_policies :: "sys \<Rightarrow> handlers \<Rightarrow> task_obj \<Rightarrow> unit eng" where
  "after_policies sy h t =
     ebind (task_row t) (\<lambda>r.
       if te_state r = RUNNING_DELAYED then ret ()
       else
         ebind (ctrl_continue_workflow sy (to_wf_id t) (Some r)) (\<lambda>cmds.
         eseq (change_row t (record_next_tasks cmds))
         (ebind (task_wf t) (\<lambda>x.
           if is_paused (we_state x) then ret ()
           else
             eseq (on_row t (\<lambda>r. r\<lparr>te_processed := True\<rparr>))
             (eseq (register_workflow_completion_check t)
               (hd_dispatch h (to_wf_id t) cmds))))))"

definition task_complete :: "sys \<Rightarrow> handlers \<Rightarrow> task_obj \<Rightarrow> state \<Rightarrow> string option \<Rightarrow> unit eng" where
  "task_complete sy h t s info =
     eseq (assert_e (to_task_id t \<noteq> None))
     (ebind (is_task_completed t) (\<lambda>done.
       if done \<and> \<not> is_skipped s then ret ()
       else
         ebind (set_state t s info None False) (\<lambda>p.
           if \<not> fst p then ret ()
           else
             ebind (update_inbound_context (sy_env sy) (snd p)) (\<lambda>t2.
             eseq (publish_of_task (sy_env sy) t2)
             (eseq (destroy_result t2)
             (eseq (when_e (\<not> is_skipped s) (ebind (task_after_complete (sy_env sy) t2) (\<lambda>_. ret ())))
               (after_policies sy h t2)))))))"

definition task_update :: "task_obj \<Rightarrow> state \<Rightarrow> string option \<Rightarrow> unit eng" where
  "task_update t s info =
     ebind (task_row t) (\<lambda>r.
       if is_completed (te_state r) then ret ()
       else
         ebind (lift_res (is_valid_transition (te_state r) s)) (\<lambda>ok.
           if \<not> ok then ret ()
           else
             ebind (gets (executions_of r)) (\<lambda>cs.
               if s = RUNNING \<and> PAUSED \<in> set (map ce_state cs) then ret ()
               else
                 ebind (set_state t s info None False) (\<lambda>p.
                 ebind (task_row t) (\<lambda>r1.
                   when_e (is_completed (te_state r1)) (register_workflow_completion_check (snd p)))))))"

section \<open>The action of a task\<close>

definition get_target :: "env \<Rightarrow> task_obj \<Rightarrow> val dict \<Rightarrow> val option eng" where
  "get_target e t input =
     (if \<not> truthy (ts_target (to_spec t)) then ret None
      else ebind (task_wf t) (\<lambda>x. ebind (gets (root_of x)) (\<lambda>root.
        ebind (lift_res (evaluate_recursively e (ts_target (to_spec t)) (context_view e
            [Some input, Some (to_ctx t), Some (get_workflow_environment_dict root (Some x)), Some (we_context x), Some (we_input x)])))
          (\<lambda>v. ret (Some v)))))"

definition get_action_input :: "env \<Rightarrow> task_obj \<Rightarrow> val dict \<Rightarrow> val dict eng" where
  "get_action_input e t ctx =
     ebind (if truthy (ts_input (to_spec t)) then evaluate_in_task e t (ts_input (to_spec t)) ctx else ret (VDict [])) (\<lambda>v.
       (case v of
          VDict d \<Rightarrow> ebind (task_wf t) (\<lambda>x. ebind (lift_res (get_action_defaults t x)) (\<lambda>dflt.
            (case dflt of VDict a \<Rightarrow> ret (merge_dicts e False d (Some a)) | VNone \<Rightarrow> ret (merge_dicts e False d None)
             | _ \<Rightarrow> raise_e AttributeError)))
        | _ \<Rightarrow> raise_e (InputException (''Wrong dynamic input for task: '' @ ts_name (to_spec t)))))"

definition task_action_name :: "sys \<Rightarrow> task_obj \<Rightarrow> string eng" where
  "task_action_name sy t = (case get_action_name (to_spec t) of
      None \<Rightarrow> ret ''std.noop''
    | Some n \<Rightarrow> ebind (evaluate_in_task (sy_env sy) t (VStr n) []) (\<lambda>v.
        ret (if \<not> truthy v then ''std.noop'' else (case v of VStr s \<Rightarrow> s | _ \<Rightarrow> sy_str sy v))))"

definition get_action_descriptor :: "sys \<Rightarrow> task_obj \<Rightarrow> action_desc eng" where
  "get_action_descriptor sy t =
     ebind (task_action_name sy t) (\<lambda>n. ebind (task_wf t) (\<lambda>x.
       let in_workbook = (case dget (we_rt x) ''wb_name'' of
             Some (VStr wb) \<Rightarrow> (if wb = [] then None else sy_find_action sy (wb @ ''.'' @ n) (we_namespace x))
           | _ \<Rightarrow> None)
       in case in_workbook of
            Some d \<Rightarrow> ret d
          | None \<Rightarrow> (case sy_find_action sy n (we_namespace x) of
              Some d \<Rightarrow> ret d
            | None \<Rightarrow> raise_e (MistralException (''Failed to find action [action_name='' @ n @ '', namespace='' @ we_namespace x @ '']'')))))"

definition build_action :: "sys \<Rightarrow> task_obj \<Rightarrow> action eng" where
  "build_action sy t =
     (if runs_workflow (to_spec t)
      then ebind (evaluate_in_task (sy_env sy) t (VStr (the (ts_workflow (to_spec t)))) []) (\<lambda>v.
             ret (WorkflowAction (case v of VStr s \<Rightarrow> s | _ \<Rightarrow> sy_str sy v)))
      else ebind (get_action_descriptor sy t) (\<lambda>d. ret (RegularAction d)))"

definition get_timeout :: "env \<Rightarrow> task_obj \<Rightarrow> val option eng" where
  "get_timeout e t =
     (let tm = ps_timeout (ts_policies (to_spec t))
      in ebind (case tm of VInt _ \<Rightarrow> ret tm | VBool _ \<Rightarrow> ret tm
                | _ \<Rightarrow> ebind (task_row t) (\<lambda>r. ebind (task_wf t) (\<lambda>x.
                     lift_res (evaluate_recursively e tm (context_view e [Some (te_in_context r), Some (we_context x), Some (we_input x)])))))
         (\<lambda>v. (case v of
             VInt i \<Rightarrow> ret (if i > 0 then Some v else None)
           | VBool b \<Rightarrow> ret (if b then Some v else None)
           | _ \<Rightarrow> raise_e TypeError)))"

text \<open>The call \<^verbatim>\<open>action.schedule(..., safe_rerun=..., timeout=...)\<close>.\<close>

definition schedule_task_action :: "sys \<Rightarrow> handlers \<Rightarrow> task_obj \<Rightarrow> action \<Rightarrow> val dict \<Rightarrow> val option \<Rightarrow> int \<Rightarrow> unit eng" where
  "schedule_task_action sy h t a input target index =
     ebind (get_timeout (sy_env sy) t) (\<lambda>timeout. schedule_action sy h a t input target index (get_safe_rerun t) timeout)"

section \<open>Scheduling the actions\<close>

definition fail_with_message :: "sys \<Rightarrow> handlers \<Rightarrow> task_obj \<Rightarrow> exn \<Rightarrow> unit eng" where
  "fail_with_message sy h t x = task_complete sy h t ERROR (Some (exn_message x))"

definition schedule_regular_actions :: "sys \<Rightarrow> handlers \<Rightarrow> task_obj \<Rightarrow> unit eng" where
  "schedule_regular_actions sy h t =
     ebind (get_action_input (sy_env sy) t []) (\<lambda>input.
     ebind (get_target (sy_env sy) t input) (\<lambda>target.
     ebind (build_action sy t) (\<lambda>a.
       try_e (schedule_task_action sy h t a input target 0) is_mistral_exception (fail_with_message sy h t))))"

definition get_with_items_values :: "env \<Rightarrow> task_obj \<Rightarrow> val list dict eng" where
  "get_with_items_values e t =
     ebind (evaluate_in_task e t (VDict (ts_with_items (to_spec t))) []) (\<lambda>v.
       (case v of VDict d \<Rightarrow> lift_res (items_loop d (- 1) []) | _ \<Rightarrow> raise_e AttributeError))"

text \<open>\<^verbatim>\<open>utils.merge_dicts(ctx, self.ctx)\<close>: the context of the task over the variables of the item.\<close>

definition item_action_context :: "env \<Rightarrow> task_obj \<Rightarrow> val list dict \<Rightarrow> int \<Rightarrow> val dict res" where
  "item_action_context e t values i = bind_res (item_context values i) (\<lambda>ctx. Inr (merge_dicts e True ctx (Some (to_ctx t))))"

definition get_input_dicts :: "env \<Rightarrow> task_obj \<Rightarrow> val list dict \<Rightarrow> (int \<times> val dict) list eng" where
  "get_input_dicts e t values =
     ebind (task_row t) (\<lambda>r. ebind (gets (executions_of r)) (\<lambda>cs.
     ebind (lift_res (get_next_indexes r cs)) (\<lambda>is.
       map_e (\<lambda>i. ebind (lift_res (item_action_context e t values i)) (\<lambda>ctx.
                 ebind (get_action_input e t ctx) (\<lambda>d. ret (i, d)))) is)))"

definition schedule_item :: "sys \<Rightarrow> handlers \<Rightarrow> task_obj \<Rightarrow> int \<times> val dict \<Rightarrow> unit eng" where
  "schedule_item sy h t p =
     ebind (get_target (sy_env sy) t (snd p)) (\<lambda>target.
     ebind (build_action sy t) (\<lambda>a.
     eseq (schedule_task_action sy h t a (snd p) target (fst p)) (change_row t (decrease_capacity 1))))"

definition schedule_with_items_actions :: "sys \<Rightarrow> handlers \<Rightarrow> task_obj \<Rightarrow> unit eng" where
  "schedule_with_items_actions sy h t =
     ebind (get_with_items_values (sy_env sy) t) (\<lambda>values.
     ebind (task_row t) (\<lambda>r.
     eseq (if is_new r
           then (case values of [] \<Rightarrow> raise_e (OtherException ''StopIteration'')
                 | (_, xs) # _ \<Rightarrow> on_row t (prepare_runtime_context (int (length xs))))
           else ret ())
     (ebind (get_input_dicts (sy_env sy) t values) (\<lambda>ds.
       if ds = [] then task_complete sy h t SUCCESS None
       else try_e (for_each ds (schedule_item sy h t)) is_mistral_exception (fail_with_message sy h t)))))"

definition schedule_actions :: "sys \<Rightarrow> handlers \<Rightarrow> task_obj \<Rightarrow> unit eng" where
  "schedule_actions sy h t =
     (if ts_with_items (to_spec t) \<noteq> [] then schedule_with_items_actions sy h t else schedule_regular_actions sy h t)"

section \<open>Running a task\<close>

definition reset_actions :: "task_obj \<Rightarrow> unit eng" where
  "reset_actions t =
     ebind (task_row t) (\<lambda>r. ebind (gets (executions_of r)) (\<lambda>cs.
       for_each (if to_reset t then cs else filter (\<lambda>c. ce_accepted c \<and> ce_state c \<in> {ERROR, CANCELLED}) cs) unaccept))"

definition run_new :: "sys \<Rightarrow> handlers \<Rightarrow> task_obj \<Rightarrow> unit eng" where
  "run_new sy h t =
     (if to_waiting t then ret ()
      else ebind (task_row t) (\<lambda>r.
        if \<not> is_idle (te_state r) then ret ()
        else
          ebind (set_state t RUNNING (te_state_info r) None True) (\<lambda>p.
          ebind (task_before_start (sy_env sy) h (snd p)) (\<lambda>t1.
          ebind (task_row t1) (\<lambda>r1.
            if te_state r1 \<noteq> RUNNING then ret () else schedule_actions sy h t1)))))"

definition run_existing :: "sys \<Rightarrow> handlers \<Rightarrow> task_obj \<Rightarrow> unit eng" where
  "run_existing sy h t =
     (if to_waiting t then ret ()
      else ebind (task_row t) (\<lambda>r.
        if te_state r = SUCCESS then raise_e (MistralError ''Rerunning succeeded tasks is not supported.'')
        else
          ebind (set_state t RUNNING None (Some False) False) (\<lambda>p.
          ebind (if to_rerun t then task_before_start (sy_env sy) h (snd p) else ret (snd p)) (\<lambda>t1.
          ebind (task_row t1) (\<lambda>r1.
            if to_rerun t \<and> te_state r1 \<noteq> RUNNING then ret ()
            else
              ebind (update_inbound_context (sy_env sy) t1) (\<lambda>t2.
              eseq (update_triggered_by t2)
              (eseq (reset_actions t2)
                (schedule_actions sy h t2))))))))"

definition run_task_obj :: "sys \<Rightarrow> handlers \<Rightarrow> task_obj \<Rightarrow> bool \<Rightarrow> unit eng" where
  "run_task_obj sy h t first_run = (if first_run then run_new sy h t else run_existing sy h t)"

section \<open>Results of actions\<close>

definition action_result_text :: "sys \<Rightarrow> child_ex \<Rightarrow> string option res" where
  "action_result_text sy c = (case ce_output c of
      None \<Rightarrow> Inl AttributeError
    | Some d \<Rightarrow> (let v = dget_default d ''result'' VNone in Inr (if truthy v then Some (sy_str sy v) else None)))"

definition on_regular_action_complete :: "sys \<Rightarrow> handlers \<Rightarrow> task_obj \<Rightarrow> child_ex \<Rightarrow> unit eng" where
  "on_regular_action_complete sy h t c =
     ebind (lift_res (if ce_state c = SUCCESS then Inr None else action_result_text sy c)) (task_complete sy h t (ce_state c))"

fun final_state_info :: "state \<Rightarrow> string option" where
  "final_state_info ERROR = Some ''One or more actions had failed.''"
| "final_state_info CANCELLED = Some ''One or more actions was cancelled.''"
| "final_state_info _ = None"

definition on_items_action_complete :: "sys \<Rightarrow> handlers \<Rightarrow> task_obj \<Rightarrow> unit eng" where
  "on_items_action_complete sy h t =
     eseq (assert_e (to_task_id t \<noteq> None))
     (ebind (is_task_completed t) (\<lambda>done.
       if done then ret ()
       else
         eseq (change_row t increase_capacity)
         (ebind (task_row t) (\<lambda>r. ebind (gets (executions_of r)) (\<lambda>cs.
          ebind (lift_res (is_with_items_completed r cs)) (\<lambda>all_done.
            if all_done then task_complete sy h t (get_final_state cs) (final_state_info (get_final_state cs))
            else
              ebind (lift_res (has_more_iterations r cs)) (\<lambda>more.
                when_e (more \<and> truthy (get_concurrency r)) (schedule_actions sy h t))))))))"

definition task_on_action_complete :: "sys \<Rightarrow> handlers \<Rightarrow> task_obj \<Rightarrow> child_ex \<Rightarrow> unit eng" where
  "task_on_action_complete sy h t c =
     (if ts_with_items (to_spec t) \<noteq> [] then on_items_action_complete sy h t else on_regular_action_complete sy h t c)"

definition task_on_action_update :: "task_obj \<Rightarrow> child_ex \<Rightarrow> unit eng" where
  "task_on_action_update t c = task_update t (ce_state c) None"

end
