(* ===== verification/Task_Handler.thy ===== *)
theory Task_Handler
  imports Tasks
begin

text \<open>
  \<^verbatim>\<open>mistral/engine/task_handler.py\<close> and the job functions of \<^verbatim>\<open>mistral/engine/policies.py\<close>: building
  the task object, running, skipping, continuing and completing tasks, the results of actions, the
  forced failure after an error in the workflow, and the refreshing of join tasks. An exception
  that the code turns into a message with its traceback is \<open>sy_error_text\<close>.
\<close>

section \<open>Building a task\<close>

definition create_task_obj ::
  "string \<Rightarrow> workflow_spec \<Rightarrow> task_spec \<Rightarrow> val dict \<Rightarrow> string option \<Rightarrow> string option \<Rightarrow> bool \<Rightarrow> trigger list option \<Rightarrow> bool \<Rightarrow> task_obj" where
  "create_task_obj wid w s ctx i key waiting triggered_by rerun =
     \<lparr>to_wf_id = wid, to_wf_spec = w, to_spec = s, to_ctx = ctx, to_task_id = i, to_unique_key = key, to_waiting = waiting,
      to_triggered_by = triggered_by, to_rerun = rerun, to_reset = False, to_created = False, to_changed = False\<rparr>"

definition reset_task :: "bool \<Rightarrow> task_obj \<Rightarrow> task_obj" where
  "reset_task reset t = (if reset then t\<lparr>to_reset := True\<rparr> else t)"

definition spec_of_execution :: "string \<Rightarrow> workflow_spec eng" where
  "spec_of_execution wid = ebind (get_workflow_execution wid) (\<lambda>x. ret (we_spec x))"

definition known_task :: "workflow_spec \<Rightarrow> string \<Rightarrow> task_spec res" where
  "known_task w n = (case get_task w n of None \<Rightarrow> Inl AttributeError | Some s \<Rightarrow> Inr s)"

definition build_task_from_execution :: "task_ex \<Rightarrow> task_obj eng" where
  "build_task_from_execution r =
     ebind (spec_of_execution (te_wf_id r)) (\<lambda>w.
     ebind (lift_res (known_task w (te_name r))) (\<lambda>s.
       ret (create_task_obj (te_wf_id r) w s (te_in_context r) (Some (te_id r)) None False None False)))"

text \<open>
  \<^verbatim>\<open>waiting == states.WAITING\<close> compares the Boolean that the dispatcher sends with the name of a
  state, which is never true.
\<close>

definition build_task_after_rpc :: "task_ex \<Rightarrow> bool \<Rightarrow> trigger list option \<Rightarrow> bool \<Rightarrow> bool \<Rightarrow> task_obj eng" where
  "build_task_after_rpc r waiting triggered_by rerun reset =
     ebind (spec_of_execution (te_wf_id r)) (\<lambda>w.
     ebind (lift_res (known_task w (te_name r))) (\<lambda>s.
       ret (reset_task reset
         (create_task_obj (te_wf_id r) w s (te_in_context r) (Some (te_id r)) None (VBool waiting = VStr ''WAITING'') triggered_by rerun))))"

definition build_task_from_command :: "string \<Rightarrow> command \<Rightarrow> task_obj eng" where
  "build_task_from_command wid c =
     ebind (spec_of_execution wid) (\<lambda>w.
       (case cmd_kind c of
          RunExistingTask r0 reset _ rerun \<Rightarrow>
            ebind (get_task_execution (te_id r0)) (\<lambda>r. ret (reset_task reset (create_task_obj wid w (te_spec r) (cmd_ctx c) (Some (te_id r)) (te_unique_key r)
              (te_state r = WAITING) (cmd_triggered_by c) rerun)))
        | RunTask key \<Rightarrow>
            (case cmd_spec c of
               None \<Rightarrow> raise_e AttributeError
             | Some s \<Rightarrow> ret (create_task_obj wid w s (cmd_ctx c) None key (key \<noteq> None) (cmd_triggered_by c) False))
        | SkipTask r \<Rightarrow>
            ret (create_task_obj wid w (te_spec r) (cmd_ctx c) (Some (te_id r)) (te_unique_key r) False (cmd_triggered_by c) False)
        | _ \<Rightarrow> raise_e (MistralError ''Unsupported workflow command'')))"

section \<open>Affected tasks and forced failures\<close>

definition check_affected_tasks :: "task_obj \<Rightarrow> unit eng" where
  "check_affected_tasks t =
     ebind (is_task_completed t) (\<lambda>done.
       if \<not> done then ret ()
       else
         ebind (task_row t) (\<lambda>r. ebind (get_workflow_execution (te_wf_id r)) (\<lambda>x.
           if is_completed (we_state x) then ret ()
           else
             ebind (gets (wf_tasks (te_wf_id r))) (\<lambda>ts.
             ebind (lift_res (ctrl_affected_task_executions (we_spec x) ts (te_name r))) (\<lambda>affected.
               for_each affected (\<lambda>a. register_operation (ScheduleRefreshIfNeededOp (te_id a)) True))))))"

definition schedule_if_needed :: "string \<Rightarrow> unit eng" where
  "schedule_if_needed i =
     ebind (gets (has_scheduled_jobs (get_refresh_state_job_key i) False)) (\<lambda>jobs_exist.
       when_e (\<not> jobs_exist) (schedule_refresh_task_state i 0))"

definition force_fail_task :: "handlers \<Rightarrow> task_ex \<Rightarrow> string \<Rightarrow> task_obj option \<Rightarrow> unit eng" where
  "force_fail_task h r msg t0 =
     ebind (case t0 of Some t \<Rightarrow> ret t | None \<Rightarrow> build_task_from_execution r) (\<lambda>t.
     ebind (set_state t ERROR (Some msg) None False) (\<lambda>_.
       hd_stop h (te_wf_id r) ERROR (VStr msg)))"

text \<open>
  \<^verbatim>\<open>try: body except MistralException: force_fail_task(...); return\<close>, followed by
  \<^verbatim>\<open>_check_affected_tasks(task)\<close>.
\<close>

definition guarded :: "sys \<Rightarrow> handlers \<Rightarrow> task_ex \<Rightarrow> task_obj \<Rightarrow> unit eng \<Rightarrow> unit eng" where
  "guarded sy h r t body =
     ebind (try_e (eseq body (ret True)) is_mistral_exception
              (\<lambda>x. eseq (force_fail_task h r (sy_error_text sy x) (Some t)) (ret False)))
       (\<lambda>ok. when_e ok (check_affected_tasks t))"

section \<open>Running tasks\<close>

definition put_to_waiting :: "task_obj \<Rightarrow> unit eng" where
  "put_to_waiting t =
     when_e (to_waiting t \<and> to_rerun t)
       (ebind (set_state t WAITING (Some ''Task is waiting.'') None False) (\<lambda>_. schedule_refresh_task_state (task_id t) 0))"

definition run_task :: "sys \<Rightarrow> handlers \<Rightarrow> string \<Rightarrow> bool \<Rightarrow> trigger list option \<Rightarrow> bool \<Rightarrow> bool \<Rightarrow> bool \<Rightarrow> unit eng" where
  "run_task sy h i waiting triggered_by rerun reset first_run =
     ebind (get_task_execution i) (\<lambda>r.
     ebind (build_task_after_rpc r waiting triggered_by rerun reset) (\<lambda>t.
       guarded sy h r t (eseq (put_to_waiting t) (run_task_obj sy h t first_run))))"

definition skip_task :: "sys \<Rightarrow> handlers \<Rightarrow> string \<Rightarrow> command \<Rightarrow> unit eng" where
  "skip_task sy h wid c =
     ebind (build_task_from_command wid c) (\<lambda>t.
     eseq (task_complete sy h t SKIPPED (Some ''Task was skipped.'')) (check_affected_tasks t))"

definition create_task :: "sys \<Rightarrow> string \<Rightarrow> command \<Rightarrow> bool \<Rightarrow> task_obj eng" where
  "create_task sy wid c first_run =
     ebind (build_task_from_command wid c) (\<lambda>t.
     eseq (put_to_waiting t) (if first_run then create_new sy t else ret t))"

definition mark_task_running :: "task_ex \<Rightarrow> unit eng" where
  "mark_task_running r =
     ebind (build_task_from_execution r) (\<lambda>t. ebind (set_state t RUNNING None (Some False) False) (\<lambda>_. ret ()))"

definition continue_task :: "sys \<Rightarrow> handlers \<Rightarrow> task_ex option \<Rightarrow> unit eng" where
  "continue_task sy h r0 = (case r0 of
      None \<Rightarrow> ret ()
    | Some r \<Rightarrow> ebind (build_task_from_execution r) (\<lambda>t.
        guarded sy h r t (ebind (set_state t RUNNING None None False) (\<lambda>p. run_task_obj sy h (snd p) False))))"

definition complete_task :: "sys \<Rightarrow> handlers \<Rightarrow> task_ex option \<Rightarrow> state \<Rightarrow> string option \<Rightarrow> unit eng" where
  "complete_task sy h r0 s info = (case r0 of
      None \<Rightarrow> ret ()
    | Some r \<Rightarrow> ebind (build_task_from_execution r) (\<lambda>t. guarded sy h r t (task_complete sy h t s info)))"

section \<open>Results and updates of actions\<close>

definition task_of_child :: "task_ex \<Rightarrow> task_obj eng" where
  "task_of_child r =
     ebind (spec_of_execution (te_wf_id r)) (\<lambda>w.
       ret (create_task_obj (te_wf_id r) w (te_spec r) (te_in_context r) (Some (te_id r)) None False None False))"

definition on_action_complete_of_task :: "sys \<Rightarrow> handlers \<Rightarrow> child_ex \<Rightarrow> string option \<Rightarrow> unit eng" where
  "on_action_complete_of_task sy h c tid = (case tid of
      None \<Rightarrow> ret ()
    | Some i \<Rightarrow> ebind (get_task_execution i) (\<lambda>r. ebind (task_of_child r) (\<lambda>t.
        guarded sy h r t (task_on_action_complete sy h t c))))"

text \<open>
  \<^verbatim>\<open>_on_action_update\<close>: the body answers False where the code returns before the check of the
  affected tasks.
\<close>

definition update_body :: "handlers \<Rightarrow> task_obj \<Rightarrow> child_ex \<Rightarrow> bool eng" where
  "update_body h t c =
     eseq (task_on_action_update t c)
     (eseq (when_e (is_paused (ce_state c)) (hd_pause h (to_wf_id t) VNone))
       (if \<not> is_running (ce_state c) then ret True
        else ebind (gets (wf_tasks (to_wf_id t))) (\<lambda>ts.
          if \<exists>r \<in> set ts. is_paused (te_state r) then ret False
          else eseq (hd_resume h (to_wf_id t) []) (ret True))))"

definition on_action_update_of_task :: "sys \<Rightarrow> handlers \<Rightarrow> child_ex \<Rightarrow> string option \<Rightarrow> unit eng" where
  "on_action_update_of_task sy h c tid = (case tid of
      None \<Rightarrow> ret ()
    | Some i \<Rightarrow> ebind (get_task_execution i) (\<lambda>r. ebind (task_of_child r) (\<lambda>t.
        ebind (try_e (update_body h t c) is_mistral_exception
                 (\<lambda>x. eseq (force_fail_task h r (sy_error_text sy x) (Some t)) (ret False)))
          (\<lambda>ok. when_e ok (check_affected_tasks t)))))"

definition keyed_job :: "int \<Rightarrow> job_func \<Rightarrow> string \<Rightarrow> job" where
  "keyed_job delay f key = \<lparr>job_run_after = delay, job_func = f, job_key = Some key, job_processing = False\<rparr>"

definition schedule_on_action_complete :: "sys \<Rightarrow> handlers \<Rightarrow> child_ex \<Rightarrow> string \<Rightarrow> int \<Rightarrow> unit eng" where
  "schedule_on_action_complete sy h c tid delay =
     ebind (get_task_execution tid) (\<lambda>r.
       if ts_with_items (te_spec r) = [] then on_action_complete_of_task sy h c (Some tid)
       else schedule_job (keyed_job delay (ScheduledOnActionComplete (ce_id c) (ce_is_wf c)) (''th_on_a_c-'' @ tid)))"

definition schedule_on_action_update :: "sys \<Rightarrow> handlers \<Rightarrow> child_ex \<Rightarrow> string \<Rightarrow> int \<Rightarrow> unit eng" where
  "schedule_on_action_update sy h c tid delay =
     ebind (get_task_execution tid) (\<lambda>r.
       if ts_with_items (te_spec r) = [] then on_action_update_of_task sy h c (Some tid)
       else schedule_job (keyed_job delay (ScheduledOnActionUpdate (ce_id c) (ce_is_wf c)) (''th_on_a_u-'' @ tid)))"

text \<open>\<^verbatim>\<open>load_workflow_execution\<close> or \<^verbatim>\<open>load_action_execution\<close>, with the id of the task.\<close>

definition load_child :: "string \<Rightarrow> bool \<Rightarrow> world \<Rightarrow> (child_ex \<times> string option) option" where
  "load_child i is_wf w =
     (if is_wf then map_option (\<lambda>x. (child_of_wf x, we_task_id x)) (dget (w_wfs w) i)
      else map_option (\<lambda>a. (child_of_action a, ae_task_id a)) (dget (w_actions w) i))"

definition scheduled_on_action_complete :: "sys \<Rightarrow> handlers \<Rightarrow> string \<Rightarrow> bool \<Rightarrow> unit eng" where
  "scheduled_on_action_complete sy h i is_wf =
     ebind (gets (load_child i is_wf)) (\<lambda>c. case c of None \<Rightarrow> ret () | Some (c, tid) \<Rightarrow> on_action_complete_of_task sy h c tid)"

definition scheduled_on_action_update :: "sys \<Rightarrow> handlers \<Rightarrow> string \<Rightarrow> bool \<Rightarrow> unit eng" where
  "scheduled_on_action_update sy h i is_wf =
     ebind (gets (load_child i is_wf)) (\<lambda>c. case c of None \<Rightarrow> ret () | Some (c, tid) \<Rightarrow> on_action_update_of_task sy h c tid)"

section \<open>Refreshing the state of a join task\<close>

definition refresh_task_state :: "sys \<Rightarrow> handlers \<Rightarrow> string \<Rightarrow> unit eng" where
  "refresh_task_state sy h i =
     ebind (load_task_execution i) (\<lambda>r0.
       (case r0 of
          None \<Rightarrow> ret ()
        | Some r \<Rightarrow>
            (if is_completed (te_state r) \<or> te_state r = RUNNING then ret ()
             else
               ebind (get_workflow_execution (te_wf_id r)) (\<lambda>x.
                 if is_completed (we_state x) then ret ()
                 else
                   ebind (gets (wf_tasks (te_wf_id r))) (\<lambda>ts.
                   ebind (lift_res (ctrl_logical_task_state (sy_depth sy) (we_spec x) ts r)) (\<lambda>l.
                   eseq (upd_task i (\<lambda>r. r\<lparr>te_triggered_by := Some (ls_triggered_by l)\<rparr>))
                   (ebind (load_task_execution i) (\<lambda>r1.
                     if ls_state l = RUNNING then continue_task sy h r1
                     else if ls_state l = ERROR then complete_task sy h r1 ERROR (ls_info l)
                     else if ls_state l = WAITING then ret ()
                     else raise_e (RuntimeError ''Unexpected logical task state'')))))))))"

section \<open>The jobs of the policies\<close>

definition continue_task_job :: "sys \<Rightarrow> handlers \<Rightarrow> string \<Rightarrow> unit eng" where
  "continue_task_job sy h i = ebind (load_task_execution i) (continue_task sy h)"

definition complete_task_job :: "sys \<Rightarrow> handlers \<Rightarrow> string \<Rightarrow> state \<Rightarrow> string option \<Rightarrow> unit eng" where
  "complete_task_job sy h i s info = ebind (load_task_execution i) (\<lambda>r. complete_task sy h r s info)"

definition fail_task_if_incomplete :: "sys \<Rightarrow> handlers \<Rightarrow> string \<Rightarrow> int \<Rightarrow> unit eng" where
  "fail_task_if_incomplete sy h i timeout =
     ebind (load_task_execution i) (\<lambda>r0.
       (case r0 of
          None \<Rightarrow> raise_e AttributeError
        | Some r \<Rightarrow> when_e (\<not> is_completed (te_state r))
            (complete_task sy h r0 ERROR (Some (''Task timed out [timeout(s)='' @ str_int timeout @ ''].'')))))"

end
