(* ===== verification/Workflows.thy ===== *)
theory Workflows
  imports Task_Handler
begin

text \<open>
  \<^verbatim>\<open>mistral/engine/workflows.py\<close>, class \<^verbatim>\<open>Workflow\<close>: starting, stopping, pausing, resuming and
  rerunning a workflow execution, its state changes, its completion with the output, and the result
  for the parent workflow. The workflow execution is the row with the id \<open>wid\<close>. The deletion of
  trusts after a triggered workflow (\<^verbatim>\<open>triggers.on_workflow_complete\<close>) is not modelled, locks are not
  either. The recursion to the parent workflows is bounded by the recursion limit.
\<close>

section \<open>State changes\<close>

definition wf_set_state :: "sys \<Rightarrow> string \<Rightarrow> state \<Rightarrow> val \<Rightarrow> bool eng" where
  "wf_set_state sy wid s info =
     ebind (get_workflow_execution wid) (\<lambda>x.
     ebind (lift_res (is_valid_transition (we_state x) s)) (\<lambda>valid.
       if \<not> valid
       then raise_e (WorkflowException (''Can't change workflow execution state from '' @ state_str (we_state x) @ '' to '' @ state_str s))
       else
         ebind (update_workflow_execution_state wid (we_state x) s) (\<lambda>ok.
           if \<not> ok then ret False
           else
             eseq (upd_wf wid (\<lambda>x. x\<lparr>we_state_info := info_text sy info\<rparr>))
             (eseq (notify (we_params x) wid (identify_workflow_event (Some (we_state x)) s))
             (eseq (upd_wf wid (\<lambda>x. x\<lparr>we_accepted := is_completed s\<rparr>))
               (ret True))))))"

definition send_result_to_parent_workflow :: "string \<Rightarrow> unit eng" where
  "send_result_to_parent_workflow wid =
     ebind (get_workflow_execution wid) (\<lambda>x.
       let text = (\<lambda>dflt. case we_state_info x of Some (c # cs) \<Rightarrow> c # cs | _ \<Rightarrow> dflt @ '' subworkflow [execution_id='' @ wid @ '']'')
       in (case we_state x of
             SUCCESS \<Rightarrow> register_operation (SendResultOp wid None) False
           | ERROR \<Rightarrow> register_operation (SendResultOp wid (Some (text ''Failed'', False))) False
           | CANCELLED \<Rightarrow> register_operation (SendResultOp wid (Some (text ''Cancelled'', True))) False
           | _ \<Rightarrow> raise_e (RuntimeError ''Method _send_result_to_parent_workflow() must never be called'')))"

definition send_if_subworkflow :: "string \<Rightarrow> unit eng" where
  "send_if_subworkflow wid =
     ebind (get_workflow_execution wid) (\<lambda>x. when_e (we_task_id x \<noteq> None) (send_result_to_parent_workflow wid))"

section \<open>The ends of a workflow\<close>

definition workflow_output_of :: "sys \<Rightarrow> string \<Rightarrow> val dict \<Rightarrow> val dict \<Rightarrow> val dict eng" where
  "workflow_output_of sy wid out ctx =
     ebind (get_workflow_execution wid) (\<lambda>x. ebind (gets (root_of x)) (\<lambda>root.
       lift_res (evaluate_workflow_output (sy_env sy) root x out ctx)))"

definition succeed_workflow :: "sys \<Rightarrow> string \<Rightarrow> val dict \<Rightarrow> val \<Rightarrow> unit eng" where
  "succeed_workflow sy wid final_context msg =
     ebind (spec_of_execution wid) (\<lambda>w.
     ebind (workflow_output_of sy wid (ws_output w) final_context) (\<lambda>output.
     ebind (wf_set_state sy wid SUCCESS msg) (\<lambda>ok.
       if \<not> ok then ret ()
       else eseq (upd_wf wid (\<lambda>x. x\<lparr>we_output := Some output\<rparr>)) (send_if_subworkflow wid))))"

definition fail_workflow :: "sys \<Rightarrow> string \<Rightarrow> val dict \<Rightarrow> val \<Rightarrow> unit eng" where
  "fail_workflow sy wid final_context msg =
     ebind (get_workflow_execution wid) (\<lambda>x.
       if is_paused_or_completed (we_state x) then ret ()
       else
         ebind (try_e (ebind (workflow_output_of sy wid (ws_output_on_error (we_spec x)) final_context) (\<lambda>o1. ret (o1, msg)))
                  is_mistral_exception (\<lambda>e. ret ([], VStr (sy_error_text sy e)))) (\<lambda>(output_on_error, msg1).
         ebind (wf_set_state sy wid ERROR msg1) (\<lambda>ok.
           if \<not> ok then ret ()
           else
             (let len = sy_str_bytes sy (VDict output_on_error);
                  msg2 = (if len < sy_limit_chars sy then sy_cut_char sy (sy_limit_chars sy - len) msg1 else sy_cut sy msg1)
              in eseq (upd_wf wid (\<lambda>x. x\<lparr>we_output := Some (merge_dicts (sy_env sy) True [(''result'', msg2)] (Some output_on_error))\<rparr>))
                   (send_if_subworkflow wid)))))"

definition cancel_workflow :: "sys \<Rightarrow> string \<Rightarrow> val \<Rightarrow> unit eng" where
  "cancel_workflow sy wid msg =
     ebind (get_workflow_execution wid) (\<lambda>x.
       if is_completed (we_state x) then ret ()
       else
         ebind (wf_set_state sy wid CANCELLED msg) (\<lambda>ok.
           if \<not> ok then ret ()
           else eseq (upd_wf wid (\<lambda>x. x\<lparr>we_output := Some [(''result'', sy_cut sy msg)]\<rparr>)) (send_if_subworkflow wid)))"

definition get_final_context :: "sys \<Rightarrow> string \<Rightarrow> val dict eng" where
  "get_final_context sy wid =
     ebind (get_workflow_execution wid) (\<lambda>x. ebind (gets (wf_tasks wid)) (\<lambda>ts.
       try_e (lift_res (ctrl_final_context (sy_env sy) x ts)) (\<lambda>_. True) (\<lambda>_. ret [])))"

definition stop :: "sys \<Rightarrow> string \<Rightarrow> state \<Rightarrow> val \<Rightarrow> unit eng" where
  "stop sy wid s msg =
     (case s of
        SUCCESS \<Rightarrow> ebind (get_final_context sy wid) (\<lambda>c. succeed_workflow sy wid c msg)
      | ERROR \<Rightarrow> ebind (get_final_context sy wid) (\<lambda>c. fail_workflow sy wid c msg)
      | CANCELLED \<Rightarrow> cancel_workflow sy wid msg
      | _ \<Rightarrow> ret ())"

section \<open>Completion\<close>

definition by_name :: "task_ex list \<Rightarrow> task_ex list" where
  "by_name = sort_key te_name"

definition build_cancel_info_message :: "task_ex list \<Rightarrow> string" where
  "build_cancel_info_message ts =
     ''Cancelled tasks: '' @ join_str '', '' (map te_name (by_name (filter (\<lambda>t. te_state t = CANCELLED) ts)))"

definition newline :: string where
  "newline = [CHR 0x0A]"

definition child_line :: "sys \<Rightarrow> string \<Rightarrow> nat \<Rightarrow> child_ex \<Rightarrow> string" where
  "child_line sy label i c =
     (if ce_state c \<noteq> ERROR then []
      else ''    ['' @ label @ ''='' @ ce_id c @ '', idx='' @ digits_nat i @ '']: '' @
        sy_str sy (dget_default (case ce_output c of None \<Rightarrow> [] | Some d \<Rightarrow> d) ''result'' (VStr ''Unknown'')) @ newline)"

definition child_lines :: "sys \<Rightarrow> string \<Rightarrow> child_ex list \<Rightarrow> string" where
  "child_lines sy label cs = concat (map (\<lambda>(i, c). child_line sy label i c) (zip [0..<length cs] cs))"

definition failed_task_lines :: "sys \<Rightarrow> world \<Rightarrow> task_ex \<Rightarrow> string" where
  "failed_task_lines sy w t =
     newline @ ''  '' @ te_name t @ '' [task_ex_id='' @ te_id t @ ''] -> '' @
     (case te_state_info t of None \<Rightarrow> ''None'' | Some s \<Rightarrow> s) @ newline @
     child_lines sy ''action_ex_id'' (map child_of_action (task_actions (te_id t) w)) @
     child_lines sy ''wf_ex_id'' (map child_of_wf (sub_workflows (te_id t) w))"

definition build_fail_info_message :: "sys \<Rightarrow> wf_ex \<Rightarrow> world \<Rightarrow> string res" where
  "build_fail_info_message sy x w =
     bind_res (filter_res (\<lambda>t. bind_res (ctrl_error_handled_for (we_spec x) t) (\<lambda>b. Inr (\<not> b)))
         (by_name (filter (\<lambda>t. te_state t = ERROR) (wf_tasks (we_id x) w)))) (\<lambda>failed.
       Inr (''Failure caused by error in tasks: '' @ join_str '', '' (map te_name failed) @ newline @
            concat (map (failed_task_lines sy w) failed)))"

definition incomplete_tasks :: "string \<Rightarrow> world \<Rightarrow> task_ex list" where
  "incomplete_tasks wid w = filter (\<lambda>t. \<not> is_completed (te_state t)) (wf_tasks wid w)"

text \<open>\<^verbatim>\<open>check_and_complete\<close> with the number it returns.\<close>

definition wf_check_and_complete :: "sys \<Rightarrow> string \<Rightarrow> nat eng" where
  "wf_check_and_complete sy wid =
     ebind (get_workflow_execution wid) (\<lambda>x.
       if is_paused_or_completed (we_state x) then ret 0
       else
         ebind (gets (\<lambda>w. length (incomplete_tasks wid w))) (\<lambda>n.
           if n > 0 then ret n
           else
             ebind (gets (wf_tasks wid)) (\<lambda>ts.
             eseq
               (if any_cancels ts then cancel_workflow sy wid (VStr (build_cancel_info_message ts))
                else if ctrl_all_errors_handled (we_spec x) ts
                then ebind (lift_res (ctrl_final_context (sy_env sy) x ts)) (\<lambda>c. succeed_workflow sy wid c VNone)
                else
                  ebind (gets (build_fail_info_message sy x)) (\<lambda>m. ebind (lift_res m) (\<lambda>msg.
                  ebind (lift_res (ctrl_final_context (sy_env sy) x ts)) (\<lambda>c. fail_workflow sy wid c (VStr msg)))))
               (ret 0))))"

section \<open>Starting\<close>

definition prepare_input :: "workflow_spec \<Rightarrow> val dict \<Rightarrow> val dict" where
  "prepare_input w input =
     fold (\<lambda>(k, v) d. if dhas d k then d else (case v of None \<Rightarrow> d | Some x \<Rightarrow> dset k x d)) (ws_input w) input"

definition get_environment :: "sys \<Rightarrow> val dict \<Rightarrow> val dict res" where
  "get_environment sy params =
     (let ev = dget_default params ''env'' (VDict [])
      in if \<not> truthy ev then Inr []
         else bind_res (case ev of
             VDict d \<Rightarrow> Inr d
           | VStr n \<Rightarrow> (case sy_environment sy n of Some d \<Rightarrow> Inr d | None \<Rightarrow> Inl (InputException (''Environment is not found: '' @ n)))
           | _ \<Rightarrow> Inl (InputException ''Unexpected value type for environment'')) (\<lambda>d.
           if dhas params ''evaluate_env'' \<and> \<not> truthy (dget_default params ''evaluate_env'' VNone) then Inr d
           else bind_res (evaluate_recursively (sy_env sy) (VDict d) [[(''__env'', VDict d)]]) (\<lambda>v.
             case v of VDict r \<Rightarrow> Inr r | _ \<Rightarrow> Inl TypeError)))"

definition str_param :: "val dict \<Rightarrow> string \<Rightarrow> string option" where
  "str_param p k = (case dget p k of Some (VStr s) \<Rightarrow> Some s | _ \<Rightarrow> None)"

definition new_wf_row :: "string \<Rightarrow> wf_def \<Rightarrow> val dict \<Rightarrow> int \<Rightarrow> wf_ex" where
  "new_wf_row i d params now =
     \<lparr>we_id = i, we_name = wd_name d, we_namespace = wd_namespace d, we_spec = wd_spec d, we_state = IDLE, we_db_state = IDLE,
      we_state_info = None, we_task_id = str_param params ''task_execution_id'', we_root_id = str_param params ''root_execution_id'',
      we_params = [], we_input = [], we_output = Some [], we_context = [],
      we_rt = (''index'', dget_default params ''index'' (VInt 0)) #
        (case wd_workbook_name d of None \<Rightarrow> [] | Some n \<Rightarrow> (if n = [] then [] else [(''wb_name'', VStr n)])),
      we_backlog = None, we_accepted = False, we_updated_at = now\<rparr>"

definition create_execution :: "sys \<Rightarrow> wf_def \<Rightarrow> string option \<Rightarrow> val dict \<Rightarrow> val dict \<Rightarrow> string eng" where
  "create_execution sy d given_id input params =
     ebind (case given_id of Some i \<Rightarrow> ret i | None \<Rightarrow> new_id sy) (\<lambda>i.
     ebind (gets w_now) (\<lambda>now.
     eseq (create_wf_row (new_wf_row i d params now))
     (eseq (upd_wf i (\<lambda>x. x\<lparr>we_input := input\<rparr>))
     (ebind (lift_res (get_environment sy params)) (\<lambda>ev.
      eseq (upd_wf i (\<lambda>x. x\<lparr>we_params := dset ''env'' (VDict ev) params\<rparr>))
      (eseq (upd_wf i (add_openstack_data_to_context (sy_security sy)))
      (eseq (upd_wf i add_execution_to_context)
      (ebind (get_workflow_execution i) (\<lambda>x. ebind (gets (root_of x)) (\<lambda>root.
       ebind (lift_res (add_workflow_variables_to_context (sy_env sy) root x (wd_spec d))) (\<lambda>x'.
       eseq (upd_wf i (\<lambda>x. x\<lparr>we_context := we_context x'\<rparr>)) (ret i))))))))))))"

definition start :: "sys \<Rightarrow> handlers \<Rightarrow> wf_def \<Rightarrow> string option \<Rightarrow> val dict \<Rightarrow> val dict \<Rightarrow> string eng" where
  "start sy h d given_id input params =
     ebind (lift_res (validate_input (ws_input (wd_spec d)) input (ws_name (wd_spec d)))) (\<lambda>_.
     ebind (create_execution sy d given_id (prepare_input (wd_spec d) input) params) (\<lambda>i.
     ebind (wf_set_state sy i RUNNING VNone) (\<lambda>_.
     ebind (ctrl_continue_workflow sy i None) (\<lambda>cmds.
     eseq (hd_dispatch h i cmds) (ret i)))))"

section \<open>Pausing, resuming, rerunning\<close>

definition update_parent_task :: "sys \<Rightarrow> handlers \<Rightarrow> string \<Rightarrow> unit eng" where
  "update_parent_task sy h wid =
     ebind (get_workflow_execution wid) (\<lambda>x. (case we_task_id x of
        None \<Rightarrow> ret () | Some tid \<Rightarrow> schedule_on_action_update sy h (child_of_wf x) tid 0))"

definition pause :: "sys \<Rightarrow> handlers \<Rightarrow> string \<Rightarrow> val \<Rightarrow> unit eng" where
  "pause sy h wid msg =
     ebind (get_workflow_execution wid) (\<lambda>x.
       if is_paused (we_state x) then ret ()
       else ebind (wf_set_state sy wid PAUSED msg) (\<lambda>_. update_parent_task sy h wid))"

definition mark_processed :: "string \<Rightarrow> unit eng" where
  "mark_processed wid =
     ebind (gets (wf_tasks wid)) (\<lambda>ts.
       for_each (filter (\<lambda>t. is_completed (te_state t) \<and> \<not> te_processed t) ts) (\<lambda>t. upd_task (te_id t) (\<lambda>t. t\<lparr>te_processed := True\<rparr>)))"

definition continue_with :: "sys \<Rightarrow> handlers \<Rightarrow> string \<Rightarrow> command list \<Rightarrow> unit eng" where
  "continue_with sy h wid cmds0 =
     (let cmds = filter (\<lambda>c. \<not> is_pause c) cmds0
      in eseq (mark_processed wid)
         (ebind (get_workflow_execution wid) (\<lambda>x.
           if cmds \<noteq> [] \<or> (case we_backlog x of None \<Rightarrow> False | Some b \<Rightarrow> b \<noteq> [])
           then hd_dispatch h wid cmds
           else ebind (wf_check_and_complete sy wid) (\<lambda>_. ret ()))))"

definition resume :: "sys \<Rightarrow> handlers \<Rightarrow> string \<Rightarrow> val dict \<Rightarrow> unit eng" where
  "resume sy h wid ev =
     eseq (update_workflow_execution_env (sy_env sy) wid ev)
     (ebind (wf_set_state sy wid RUNNING VNone) (\<lambda>_.
      ebind (ctrl_continue_workflow sy wid None) (\<lambda>cmds.
      eseq (continue_with sy h wid cmds) (update_parent_task sy h wid))))"

definition get_integrity_check_key :: "string \<Rightarrow> string" where
  "get_integrity_check_key wid = ''wfh_c_a_f_i-'' @ wid"

definition schedule_check_and_fix_integrity :: "sys \<Rightarrow> string \<Rightarrow> int \<Rightarrow> unit eng" where
  "schedule_check_and_fix_integrity sy wid delay =
     (if sy_integrity_delay sy < 0 then ret ()
      else schedule_job (keyed_job delay (CheckAndFixIntegrity wid) (get_integrity_check_key wid)))"

primrec recursive_rerun :: "nat \<Rightarrow> sys \<Rightarrow> string \<Rightarrow> unit eng" where
  "recursive_rerun 0 sy wid = raise_e RecursionError"
| "recursive_rerun (Suc n) sy wid =
     ebind (wf_set_state sy wid RUNNING VNone) (\<lambda>_.
     eseq (schedule_check_and_fix_integrity sy wid 0)
     (ebind (get_workflow_execution wid) (\<lambda>x.
       (case we_task_id x of
          None \<Rightarrow> ret ()
        | Some tid \<Rightarrow> ebind (get_task_execution tid) (\<lambda>r.
            eseq (recursive_rerun n sy (te_wf_id r)) (mark_task_running r))))))"

definition rerun :: "sys \<Rightarrow> handlers \<Rightarrow> string \<Rightarrow> task_obj \<Rightarrow> bool \<Rightarrow> bool \<Rightarrow> val dict \<Rightarrow> unit eng" where
  "rerun sy h wid t reset skip ev =
     eseq (update_workflow_execution_env (sy_env sy) wid ev)
     (eseq (recursive_rerun (sy_depth sy) sy wid)
     (ebind (task_row t) (\<lambda>r.
      ebind (if skip then ctrl_skip_tasks wid [r] else ctrl_rerun_tasks wid [r] reset) (\<lambda>cmds.
      eseq (when_e (cmds \<noteq> []) (cleanup_runtime_context t)) (continue_with sy h wid cmds)))))"

end
