(* ===== verification/Workflow_Handler.thy ===== *)
theory Workflow_Handler
  imports Workflows
begin

text \<open>
  \<^verbatim>\<open>mistral/engine/workflow_handler.py\<close> and \<^verbatim>\<open>mistral/engine/action_handler.py\<close>: the operations on a
  workflow execution with its sub-workflows, the check of the integrity of a running workflow, and
  the completion and update of action executions. The recursion into sub-workflows is bounded by
  the recursion limit.
\<close>

section \<open>Starting and stopping\<close>

definition start_workflow :: "sys \<Rightarrow> handlers \<Rightarrow> string \<Rightarrow> string \<Rightarrow> string option \<Rightarrow> val dict \<Rightarrow> val dict \<Rightarrow> string eng" where
  "start_workflow sy h identifier namespace given_id input params0 =
     ebind (lift_res (get_workflow_definition sy identifier namespace)) (\<lambda>d.
     ebind (start sy h d given_id input
         (if dhas params0 ''namespace'' then params0 else dset ''namespace'' (VStr (wd_namespace d)) params0)) (\<lambda>i.
     eseq (schedule_check_and_fix_integrity sy i 10) (ret i)))"

text \<open>The sub-workflow executions of a workflow, task by task, in the order in which the loops read them.\<close>

definition sub_workflows_of :: "string \<Rightarrow> world \<Rightarrow> string list" where
  "sub_workflows_of wid w = concat (map (\<lambda>t. map we_id (sub_workflows (te_id t) w)) (wf_tasks wid w))"

definition for_incomplete :: "string list \<Rightarrow> (string \<Rightarrow> unit eng) \<Rightarrow> unit eng" where
  "for_incomplete ids f =
     for_each ids (\<lambda>i. ebind (get_workflow_execution i) (\<lambda>x. when_e (\<not> is_completed (we_state x)) (f i)))"

primrec stop_workflow :: "nat \<Rightarrow> sys \<Rightarrow> string \<Rightarrow> state \<Rightarrow> val \<Rightarrow> unit eng" where
  "stop_workflow 0 sy wid s msg = raise_e RecursionError"
| "stop_workflow (Suc n) sy wid s msg =
     eseq (stop sy wid s msg)
       (when_e (s = CANCELLED)
         (ebind (gets (sub_workflows_of wid)) (\<lambda>subs. for_incomplete subs (\<lambda>i. stop_workflow n sy i s msg))))"

definition force_fail_workflow :: "sys \<Rightarrow> string \<Rightarrow> val \<Rightarrow> unit eng" where
  "force_fail_workflow sy wid msg = stop_workflow (sy_depth sy) sy wid ERROR msg"

definition check_and_complete :: "sys \<Rightarrow> string \<Rightarrow> unit eng" where
  "check_and_complete sy wid =
     ebind (load_workflow_execution wid) (\<lambda>x.
       (case x of
          None \<Rightarrow> ret ()
        | Some x \<Rightarrow>
            (if is_completed (we_state x) then ret ()
             else try_e (ebind (wf_check_and_complete sy wid) (\<lambda>_. ret ())) is_mistral_exception
                    (\<lambda>e. force_fail_workflow sy wid (VStr (sy_error_text sy e))))))"

section \<open>Pausing, resuming, rerunning\<close>

primrec pause_workflow :: "nat \<Rightarrow> sys \<Rightarrow> handlers \<Rightarrow> string \<Rightarrow> val \<Rightarrow> unit eng" where
  "pause_workflow 0 sy h wid msg = raise_e RecursionError"
| "pause_workflow (Suc n) sy h wid msg =
     eseq (ebind (gets (sub_workflows_of wid)) (\<lambda>subs. for_incomplete subs (\<lambda>i. pause_workflow n sy h i msg)))
       (pause sy h wid msg)"

primrec resume_workflow :: "nat \<Rightarrow> sys \<Rightarrow> handlers \<Rightarrow> string \<Rightarrow> val dict \<Rightarrow> unit eng" where
  "resume_workflow 0 sy h wid ev = raise_e RecursionError"
| "resume_workflow (Suc n) sy h wid ev =
     ebind (get_workflow_execution wid) (\<lambda>x.
       if \<not> is_paused_or_idle (we_state x) then ret ()
       else
         eseq (ebind (gets (sub_workflows_of wid)) (\<lambda>subs. for_incomplete subs (\<lambda>i. resume_workflow n sy h i [])))
           (resume sy h wid ev))"

definition rerun_workflow :: "sys \<Rightarrow> handlers \<Rightarrow> string \<Rightarrow> task_ex \<Rightarrow> bool \<Rightarrow> bool \<Rightarrow> val dict \<Rightarrow> unit eng" where
  "rerun_workflow sy h wid r reset skip ev =
     ebind (get_workflow_execution wid) (\<lambda>x.
       if we_state x = PAUSED then ret ()
       else
         ebind (build_task_from_execution r) (\<lambda>t.
         eseq (rerun sy h wid t reset skip ev)
         (eseq (schedule_check_and_fix_integrity sy wid (sy_integrity_delay sy))
           (case we_task_id x of
              None \<Rightarrow> ret ()
            | Some tid \<Rightarrow> ebind (get_task_execution tid) (\<lambda>p.
                schedule_check_and_fix_integrity sy (te_wf_id p) (sy_integrity_delay sy))))))"

definition set_workflow_state :: "sys \<Rightarrow> handlers \<Rightarrow> string \<Rightarrow> state \<Rightarrow> val \<Rightarrow> unit eng" where
  "set_workflow_state sy h wid s msg =
     (if is_completed s then stop_workflow (sy_depth sy) sy wid s msg
      else if is_paused s then pause_workflow (sy_depth sy) sy h wid msg
      else raise_e (MistralError ''Invalid workflow execution state''))"

section \<open>The check of the integrity\<close>

text \<open>A task is stuck if it is RUNNING and all its children have been finished for long enough.\<close>

definition stuck_task :: "sys \<Rightarrow> int \<Rightarrow> task_ex \<Rightarrow> child_ex list \<Rightarrow> bool" where
  "stuck_task sy now r cs \<longleftrightarrow>
     \<not> (now - te_updated_at r < sy_integrity_delay sy) \<and> cs \<noteq> [] \<and> list_all (\<lambda>c. is_completed (ce_state c)) cs \<and>
     now - Max (set (map ce_updated_at cs)) > sy_integrity_delay sy"

definition fix_task :: "sys \<Rightarrow> handlers \<Rightarrow> task_ex \<Rightarrow> unit eng" where
  "fix_task sy h r =
     ebind (gets (executions_of r)) (\<lambda>cs. ebind (gets w_now) (\<lambda>now.
       when_e (stuck_task sy now r cs) (schedule_on_action_complete sy h (last cs) (te_id r) 0)))"

definition check_and_fix_integrity :: "sys \<Rightarrow> handlers \<Rightarrow> string \<Rightarrow> unit eng" where
  "check_and_fix_integrity sy h wid =
     (if sy_integrity_delay sy < 0 then ret ()
      else
        ebind (load_workflow_execution wid) (\<lambda>x.
          (case x of
             None \<Rightarrow> ret ()
           | Some x \<Rightarrow>
               (if is_completed (we_state x) then ret ()
                else
                  eseq (schedule_check_and_fix_integrity sy wid 120)
                  (ebind (gets (wf_tasks wid)) (\<lambda>ts.
                   for_each (take (sy_integrity_batch sy) (filter (\<lambda>t. te_state t = RUNNING) ts)) (fix_task sy h)))))))"

section \<open>Actions\<close>

definition find_action_desc :: "sys \<Rightarrow> string \<Rightarrow> string \<Rightarrow> action_desc res" where
  "find_action_desc sy name namespace = (case sy_find_action sy name namespace of
      None \<Rightarrow> Inl (InvalidActionException (''Failed to find action [action_name='' @ name @ '']'')) | Some d \<Rightarrow> Inr d)"

text \<open>
  \<^verbatim>\<open>except exc.MistralException\<close> around \<^verbatim>\<open>action.complete\<close>; the message names the task, so that
  without one building it fails. The answer tells whether the action has been completed.
\<close>

definition complete_or_fail :: "sys \<Rightarrow> handlers \<Rightarrow> action_ex \<Rightarrow> action_desc \<Rightarrow> action_result \<Rightarrow> bool eng" where
  "complete_or_fail sy h a desc result =
     try_e (eseq (complete_action desc (ae_id a) result) (ret True)) is_mistral_exception
       (\<lambda>e. (case ae_task_id a of
          None \<Rightarrow> raise_e AttributeError
        | Some tid \<Rightarrow>
            eseq (fail_action sy (ae_id a) (sy_error_text sy e))
            (ebind (get_task_execution tid) (\<lambda>r.
             eseq (force_fail_task h r (sy_error_text sy e) None) (ret False)))))"

definition on_action_complete :: "sys \<Rightarrow> handlers \<Rightarrow> string \<Rightarrow> action_result \<Rightarrow> unit eng" where
  "on_action_complete sy h i result =
     ebind (get_action_execution i) (\<lambda>a.
     ebind (lift_res (find_action_desc sy (ae_name a) (ae_namespace a))) (\<lambda>desc.
     ebind (complete_or_fail sy h a desc result) (\<lambda>ok.
       if \<not> ok then ret ()
       else (case ae_task_id a of
          None \<Rightarrow> ret ()
        | Some tid \<Rightarrow> ebind (get_action_execution i) (\<lambda>a1.
            schedule_on_action_complete sy h (child_of_action a1) tid 0)))))"

text \<open>The same for a sub-workflow, whose result is already in its row.\<close>

definition on_workflow_action_complete :: "sys \<Rightarrow> handlers \<Rightarrow> string \<Rightarrow> unit eng" where
  "on_workflow_action_complete sy h wid =
     ebind (get_workflow_execution wid) (\<lambda>x. (case we_task_id x of
        None \<Rightarrow> ret () | Some tid \<Rightarrow> schedule_on_action_complete sy h (child_of_wf x) tid 0))"

text \<open>The message of the error handler names the task here too.\<close>

definition on_action_update :: "sys \<Rightarrow> handlers \<Rightarrow> string \<Rightarrow> state \<Rightarrow> unit eng" where
  "on_action_update sy h i s =
     ebind (get_action_execution i) (\<lambda>a.
     ebind (lift_res (find_action_desc sy (ae_name a) (ae_namespace a))) (\<lambda>desc.
     eseq (try_e (update_action desc i s) is_mistral_exception
             (\<lambda>e. if ae_task_id a = None then raise_e AttributeError else raise_e e))
       (case ae_task_id a of
          None \<Rightarrow> ret ()
        | Some tid \<Rightarrow> ebind (get_action_execution i) (\<lambda>a1.
            schedule_on_action_update sy h (child_of_action a1) tid 0))))"

end
