(* ===== verification/Default_Engine.thy ===== *)
theory Default_Engine
  imports Workflow_Handler
begin

text \<open>
  \<^verbatim>\<open>mistral/engine/default_engine.py\<close>, the interface of the engine, each operation in a database
  transaction; \<^verbatim>\<open>mistral/engine/post_tx_queue.py\<close>, which runs the operations registered on the way
  once the transaction is over; and the knot of the modules that call each other: \<open>engine n\<close> can
  nest dispatcher calls \<open>n\<close> deep, beyond that the code exceeds Python's recursion limit.
\<close>

section \<open>Tying the knot\<close>

definition cmd_handlers_of :: "sys \<Rightarrow> handlers \<Rightarrow> string \<Rightarrow> cmd_handlers" where
  "cmd_handlers_of sy h wid =
     \<lparr>h_create_task = create_task sy wid, h_skip_task = skip_task sy h wid, h_set_workflow_state = set_workflow_state sy h\<rparr>"

primrec engine :: "nat \<Rightarrow> sys \<Rightarrow> handlers" where
  "engine 0 sy = no_engine"
| "engine (Suc n) sy =
     \<lparr>hd_dispatch = (\<lambda>wid cmds. dispatch_workflow_commands (cmd_handlers_of sy (engine n sy) wid) wid cmds),
      hd_pause = pause_workflow (sy_depth sy) sy (engine n sy),
      hd_resume = resume_workflow (sy_depth sy) sy (engine n sy),
      hd_stop = stop_workflow (sy_depth sy) sy,
      hd_start = (\<lambda>d input params.
        ebind (start_workflow sy (engine n sy) (wd_id d) (wd_namespace d) None input params) (\<lambda>_. ret ()))\<rparr>"

section \<open>Transactions\<close>

text \<open>An exception rolls everything back; the operations registered so far are dropped.\<close>

definition transaction :: "'a eng \<Rightarrow> 'a eng" where
  "transaction m = (\<lambda>w. case m w of (Inl x, _) \<Rightarrow> (Inl x, w) | (Inr a, w') \<Rightarrow> (Inr a, w'))"

section \<open>The operations of the engine\<close>

definition with_notify :: "sys \<Rightarrow> val dict \<Rightarrow> val dict res" where
  "with_notify sy params =
     (if sy_notify sy = [] then Inr params
      else (let old = dget_default params ''notify'' VNone
            in if \<not> truthy old then Inr (dset ''notify'' (VList (sy_notify sy)) params)
               else (case old of VList xs \<Rightarrow> Inr (dset ''notify'' (VList (xs @ sy_notify sy)) params) | _ \<Rightarrow> Inl AttributeError)))"

definition engine_start_workflow :: "sys \<Rightarrow> handlers \<Rightarrow> string \<Rightarrow> string \<Rightarrow> string option \<Rightarrow> val dict \<Rightarrow> val dict \<Rightarrow> wf_ex eng" where
  "engine_start_workflow sy h identifier namespace given_id input params0 =
     (let params1 = (if namespace \<noteq> [] then dset ''namespace'' (VStr namespace) params0 else params0)
      in ebind (lift_res (with_notify sy params1)) (\<lambda>params.
           try_e
             (transaction (ebind (start_workflow sy h identifier namespace given_id input params) (\<lambda>i.
                eseq (check_and_complete sy i) (get_workflow_execution i))))
             (\<lambda>e. case e of DBDuplicateEntryError _ \<Rightarrow> True | _ \<Rightarrow> False)
             (\<lambda>_. case given_id of None \<Rightarrow> raise_e (DBEntityNotFoundError ''None'') | Some i \<Rightarrow> transaction (get_workflow_execution i))))"

definition engine_start_task :: "sys \<Rightarrow> handlers \<Rightarrow> string \<Rightarrow> bool \<Rightarrow> bool \<Rightarrow> trigger list option \<Rightarrow> bool \<Rightarrow> bool \<Rightarrow> unit eng" where
  "engine_start_task sy h i first_run waiting triggered_by again reset =
     transaction (run_task sy h i waiting triggered_by again reset first_run)"

text \<open>\<^verbatim>\<open>RegularAction.schedule\<close> of an action without a task.\<close>

definition schedule_detached :: "sys \<Rightarrow> action_desc \<Rightarrow> val dict \<Rightarrow> val option \<Rightarrow> val option \<Rightarrow> string eng" where
  "schedule_detached sy desc input target timeout =
     ebind (lift_res (ad_check_parameters desc input)) (\<lambda>_.
     ebind (instantiate_action desc input (context_view (sy_env sy) [None, Some (get_workflow_environment_dict None None), Some []])) (\<lambda>is_sync.
     ebind (create_action_execution sy desc None input (prepare_runtime_context_of 0 (VBool False)) is_sync) (\<lambda>i.
     eseq (register_operation (RunActionOp i (VBool False) target timeout) False) (ret i))))"

definition result_row :: "string \<Rightarrow> string \<Rightarrow> string \<Rightarrow> val dict \<Rightarrow> val dict \<Rightarrow> state \<Rightarrow> bool \<Rightarrow> int \<Rightarrow> action_ex" where
  "result_row i name namespace input output s is_sync now =
     \<lparr>ae_id = i, ae_name = name, ae_namespace = namespace, ae_task_id = None, ae_state = s, ae_accepted = False,
      ae_input = input, ae_output = Some output, ae_rt = [], ae_is_sync = is_sync, ae_last_heartbeat = None, ae_updated_at = now\<rparr>"

definition engine_start_action :: "sys \<Rightarrow> string \<Rightarrow> val dict \<Rightarrow> string \<Rightarrow> bool \<Rightarrow> bool \<Rightarrow> val option \<Rightarrow> val option \<Rightarrow> action_ex eng" where
  "engine_start_action sy name input namespace run_sync save target timeout =
     transaction
      (ebind (lift_res (find_action_desc sy name namespace)) (\<lambda>desc.
       ebind (lift_res (ad_check_parameters desc input)) (\<lambda>_.
       ebind (lift_res (ad_instantiate desc input [])) (\<lambda>is_sync.
         if run_sync \<and> \<not> is_sync then raise_e (InputException ''Action does not support synchronous execution.'')
         else if \<not> run_sync \<and> (save \<or> \<not> is_sync)
         then ebind (schedule_detached sy desc input target timeout) get_action_execution
         else
           ebind (run_regular sy desc input False 0 (VBool False)) (\<lambda>(_, output).
             let s = (case output of SuccessResult _ \<Rightarrow> SUCCESS | _ \<Rightarrow> ERROR)
             in ebind (gets w_now) (\<lambda>now.
                if \<not> save then ret (result_row [] name namespace input (sy_result_dict sy output) s True now)
                else ebind (new_id sy) (\<lambda>i.
                  let a = result_row i name namespace input (sy_result_dict sy output) s is_sync now
                  in eseq (create_action_row a) (ret a))))))))"

definition engine_on_action_complete :: "sys \<Rightarrow> handlers \<Rightarrow> string \<Rightarrow> action_result \<Rightarrow> bool \<Rightarrow> unit eng" where
  "engine_on_action_complete sy h i result wf_action =
     transaction (if wf_action then on_workflow_action_complete sy h i else on_action_complete sy h i result)"

definition engine_on_action_update :: "sys \<Rightarrow> handlers \<Rightarrow> string \<Rightarrow> state \<Rightarrow> bool \<Rightarrow> unit eng" where
  "engine_on_action_update sy h i s wf_action =
     transaction (if wf_action then ebind (get_workflow_execution i) (\<lambda>_. raise_e AttributeError) else on_action_update sy h i s)"

definition engine_pause_workflow :: "sys \<Rightarrow> handlers \<Rightarrow> string \<Rightarrow> unit eng" where
  "engine_pause_workflow sy h i =
     transaction (ebind (get_workflow_execution i) (\<lambda>_. pause_workflow (sy_depth sy) sy h i VNone))"

definition engine_rerun_workflow :: "sys \<Rightarrow> handlers \<Rightarrow> string \<Rightarrow> bool \<Rightarrow> bool \<Rightarrow> val dict \<Rightarrow> unit eng" where
  "engine_rerun_workflow sy h tid reset skip ev =
     transaction (ebind (get_task_execution tid) (\<lambda>r. rerun_workflow sy h (te_wf_id r) r reset skip ev))"

definition engine_resume_workflow :: "sys \<Rightarrow> handlers \<Rightarrow> string \<Rightarrow> val dict \<Rightarrow> unit eng" where
  "engine_resume_workflow sy h i ev =
     transaction (ebind (get_workflow_execution i) (\<lambda>_. resume_workflow (sy_depth sy) sy h i ev))"

definition engine_stop_workflow :: "sys \<Rightarrow> string \<Rightarrow> state \<Rightarrow> val \<Rightarrow> unit eng" where
  "engine_stop_workflow sy i s msg =
     transaction (ebind (get_workflow_execution i) (\<lambda>_. stop_workflow (sy_depth sy) sy i s msg))"

definition update_action_execution_heartbeat :: "string \<Rightarrow> unit eng" where
  "update_action_execution_heartbeat i =
     (if i = [] then raise_e (DBEntityNotFoundError [])
      else ebind (gets w_now) (\<lambda>now. upd_action i (\<lambda>a. a\<lparr>ae_last_heartbeat := Some now\<rparr>)))"

definition process_action_heartbeats :: "string list \<Rightarrow> unit eng" where
  "process_action_heartbeats ids =
     transaction (for_each ids (\<lambda>i. try_e (update_action_execution_heartbeat i)
       (\<lambda>e. case e of DBEntityNotFoundError _ \<Rightarrow> True | _ \<Rightarrow> False) (\<lambda>_. ret ())))"

section \<open>Jobs and registered operations\<close>

text \<open>The function of a job of the scheduler; each opens its own transaction.\<close>

definition run_job_func :: "sys \<Rightarrow> handlers \<Rightarrow> job_func \<Rightarrow> unit eng" where
  "run_job_func sy h f = transaction (case f of
      ContinueTask i \<Rightarrow> continue_task_job sy h i
    | CompleteTask i s info \<Rightarrow> complete_task_job sy h i s info
    | FailTaskIfIncomplete i timeout \<Rightarrow> fail_task_if_incomplete sy h i timeout
    | RefreshTaskState i \<Rightarrow> refresh_task_state sy h i
    | ScheduledOnActionComplete i is_wf \<Rightarrow> scheduled_on_action_complete sy h i is_wf
    | ScheduledOnActionUpdate i is_wf \<Rightarrow> scheduled_on_action_update sy h i is_wf
    | CheckAndFixIntegrity i \<Rightarrow> check_and_fix_integrity sy h i)"

text \<open>
  The arguments of \<^verbatim>\<open>EngineClient.start_workflow\<close>. A sub-workflow is started with its parameters as keywords of this
  call, which passes \<^verbatim>\<open>async_\<close> too: a parameter of one of these names is a \<^verbatim>\<open>TypeError\<close>.
\<close>

definition start_keywords :: "string list" where
  "start_keywords = [''self'', ''wf_identifier'', ''wf_namespace'', ''wf_ex_id'', ''wf_input'', ''description'']"

definition call_subworkflow :: "sys \<Rightarrow> handlers \<Rightarrow> string \<Rightarrow> string \<Rightarrow> val dict \<Rightarrow> val dict \<Rightarrow> unit eng" where
  "call_subworkflow sy h i ns input params =
     (if list_ex (\<lambda>k. k = ''async_'' \<or> k \<in> set start_keywords) (dkeys params) then raise_e TypeError
      else ebind (engine_start_workflow sy h i ns None input params) (\<lambda>_. ret ()))"

text \<open>
  What a registered operation does to the world. The calls that go through RPC are taken as delivered
  at once; running an action on an executor and sending a notification change nothing here.
\<close>

definition run_operation :: "sys \<Rightarrow> handlers \<Rightarrow> operation \<Rightarrow> unit eng" where
  "run_operation sy h f = (case f of
      StartTaskOp i first_run waiting triggered_by again reset \<Rightarrow> engine_start_task sy h i first_run waiting triggered_by again reset
    | RunActionOp _ _ _ _ \<Rightarrow> ret ()
    | CheckAndCompleteOp i \<Rightarrow> check_and_complete sy i
    | ScheduleRefreshIfNeededOp i \<Rightarrow> schedule_if_needed i
    | SendResultOp i _ \<Rightarrow> engine_on_action_complete sy h i (SuccessResult VNone) True
    | StartSubworkflowOp i ns input params \<Rightarrow> call_subworkflow sy h i ns input params
    | NotifyOp _ _ _ \<Rightarrow> ret ())"

fun process_queue :: "(operation \<Rightarrow> unit eng) \<Rightarrow> (operation \<times> bool) list \<Rightarrow> unit eng" where
  "process_queue run [] = ret ()"
| "process_queue run ((f, in_tx) # r) =
     eseq (if in_tx then transaction (run f) else try_e (run f) (\<lambda>_. True) (\<lambda>_. ret ())) (process_queue run r)"

definition take_ops :: "(operation \<times> bool) list eng" where
  "take_ops = (\<lambda>w. (Inr (w_ops w), w\<lparr>w_ops := []\<rparr>))"

text \<open>
  The decorator \<^verbatim>\<open>post_tx_queue.run\<close>: an empty queue, the function, and then in a new thread the
  queue, decorated itself, so that what is registered there is run after it. \<open>n\<close> bounds the number
  of rounds; an exception in the new thread is lost.
\<close>

primrec drain :: "nat \<Rightarrow> (operation \<Rightarrow> unit eng) \<Rightarrow> unit eng" where
  "drain 0 run = ret ()"
| "drain (Suc n) run =
     ebind take_ops (\<lambda>q.
       if q = [] then ret ()
       else ebind (try_e (eseq (process_queue run q) (ret True)) (\<lambda>_. True) (\<lambda>_. ebind take_ops (\<lambda>_. ret False)))
              (\<lambda>ok. if ok then drain n run else ret ()))"

definition with_post_tx :: "nat \<Rightarrow> (operation \<Rightarrow> unit eng) \<Rightarrow> 'a eng \<Rightarrow> 'a eng" where
  "with_post_tx n run m =
     ebind take_ops (\<lambda>_. ebind m (\<lambda>a. eseq (drain n run) (ret a)))"

end
