(* ===== verification/Engine_Steps.thy ===== *)
theory Engine_Steps
  imports Default_Engine
begin

text \<open>
  What every operation of the engine keeps. A relation between the world before and after is an
  \<open>engine_frame\<close> if the database operations keep it: then all operations of the engine keep it,
  however deeply the modules call each other.
\<close>

section \<open>The fields that only their own operations change\<close>

definition task_identity :: "task_ex \<Rightarrow> string \<times> string \<times> string \<times> string option" where
  "task_identity r = (te_id r, te_wf_id r, te_name r, te_unique_key r)"

definition wf_identity :: "wf_ex \<Rightarrow> string \<times> string \<times> workflow_spec \<times> string option \<times> string option" where
  "wf_identity x = (we_id x, we_name x, we_spec x, we_task_id x, we_root_id x)"

definition action_identity :: "action_ex \<Rightarrow> string \<times> string \<times> string option" where
  "action_identity a = (ae_id a, ae_name a, ae_task_id a)"

definition keeps_task :: "(task_ex \<Rightarrow> task_ex) \<Rightarrow> bool" where
  "keeps_task f \<longleftrightarrow> (\<forall>r. task_identity (f r) = task_identity r \<and> te_state (f r) = te_state r \<and> te_db_state (f r) = te_db_state r)"

definition keeps_wf :: "(wf_ex \<Rightarrow> wf_ex) \<Rightarrow> bool" where
  "keeps_wf f \<longleftrightarrow> (\<forall>x. wf_identity (f x) = wf_identity x \<and> we_state (f x) = we_state x \<and> we_db_state (f x) = we_db_state x)"

definition keeps_action :: "(action_ex \<Rightarrow> action_ex) \<Rightarrow> bool" where
  "keeps_action f \<longleftrightarrow> (\<forall>a. action_identity (f a) = action_identity a)"

lemmas keeps_defs = keeps_task_def keeps_wf_def keeps_action_def task_identity_def wf_identity_def action_identity_def

definition handlers_keep :: "(world \<Rightarrow> world \<Rightarrow> bool) \<Rightarrow> handlers \<Rightarrow> bool" where
  "handlers_keep R h \<longleftrightarrow>
     (\<forall>wid cs. steps R (hd_dispatch h wid cs)) \<and> (\<forall>wid m. steps R (hd_pause h wid m)) \<and>
     (\<forall>wid ev. steps R (hd_resume h wid ev)) \<and> (\<forall>wid s m. steps R (hd_stop h wid s m)) \<and>
     (\<forall>d i p. steps R (hd_start h d i p))"

locale engine_frame = world_relation +
  assumes same_tables: "w_wfs w' = w_wfs w \<Longrightarrow> w_tasks w' = w_tasks w \<Longrightarrow> w_actions w' = w_actions w \<Longrightarrow> R w w'"
    and on_task: "keeps_task f \<Longrightarrow> steps R (upd_task i f)"
    and on_wf: "keeps_wf g \<Longrightarrow> steps R (upd_wf i g)"
    and on_action: "keeps_action k \<Longrightarrow> steps R (upd_action i k)"
    and new_task: "te_db_state r = te_state r \<Longrightarrow> steps R (create_task_row r)"
    and new_wf: "we_db_state x = we_state x \<Longrightarrow> steps R (create_wf_row x)"
    and new_action: "steps R (create_action_row a)"
    and task_state: "steps R (update_task_execution_state i cur s)"
    and wf_state: "is_valid_transition cur s = Inr True \<Longrightarrow> steps R (update_workflow_execution_state i cur s)"
begin

lemma steps_bind_res: "(\<And>v. r = Inr v \<Longrightarrow> steps R (f v)) \<Longrightarrow> steps R (ebind (lift_res r) f)"
  by (cases r) (auto simp: steps_def ebind_run R_refl)

lemma steps_prod: "(\<And>a b. steps R (f a b)) \<Longrightarrow> steps R (case p of (a, b) \<Rightarrow> f a b)"
  by (cases p) simp

lemma steps_modify: "(\<And>w. w_wfs (f w) = w_wfs w \<and> w_tasks (f w) = w_tasks w \<and> w_actions (f w) = w_actions w) \<Longrightarrow> steps R (modify f)"
  by (simp add: steps_def same_tables)

lemma steps_outside: "steps R (register_operation f b)" "steps R (schedule_job j)" "steps R (new_id sy)" "steps R take_ops"
  by (simp_all add: register_operation_def schedule_job_def steps_modify)
    (simp_all add: steps_def new_id_def take_ops_def same_tables)

lemma steps_transaction: "steps R m \<Longrightarrow> steps R (transaction m)"
  by (auto simp: steps_def transaction_def R_refl split: prod.splits sum.splits) (metis snd_conv)

lemma steps_unaccept: "steps R (unaccept c)"
  by (simp add: unaccept_def on_wf on_action keeps_defs)

lemma steps_on_row: "keeps_task f \<Longrightarrow> steps R (on_row t f)"
  by (simp add: on_row_def on_task)

lemmas frame = steps_bind steps_seq steps_try steps_when steps_if steps_option steps_let steps_prod steps_pure steps_for_each
  steps_map_e steps_read steps_outside steps_transaction steps_unaccept steps_on_row on_task on_wf on_action new_task new_wf
  new_action task_state

lemma steps_notify: "steps R (notify p i ev)"
  unfolding notify_def by (intro frame)

lemma steps_task_row: "steps R (task_row t)" "steps R (get_state t)" "steps R (is_task_completed t)" "steps R (task_wf t)"
  unfolding task_row_def get_state_def is_task_completed_def task_wf_def by (intro frame)+

lemma steps_set_state: "steps R (set_state t s info p fr)"
  unfolding set_state_def by (intro frame steps_notify steps_task_row) (simp add: keeps_defs after_state_update_def)

lemma steps_change_row:
  assumes "\<And>r r'. f r = Inr r' \<Longrightarrow> task_identity r' = task_identity r \<and> te_state r' = te_state r \<and> te_db_state r' = te_db_state r"
  shows "steps R (change_row t f)"
proof (cases "to_task_id t")
  case None
  then show ?thesis by (simp add: change_row_def task_row_def steps_def ebind_run R_refl)
next
  case (Some i)
  define g where "g = (\<lambda>r. case f r of Inr r' \<Rightarrow> r' | Inl _ \<Rightarrow> r)"
  have "keeps_task g" using assms by (auto simp: keeps_task_def g_def split: sum.split)
  then have g: "R w (snd (upd_task i g w))" for w using on_task by (simp add: steps_def)
  have "R w (snd (change_row t f w))" for w
  proof (cases "dget (w_tasks w) i")
    case None
    then show ?thesis by (simp add: change_row_def ebind_run task_row_def Some get_task_execution_def R_refl)
  next
    case r: (Some r)
    show ?thesis
    proof (cases "f r")
      case (Inl e)
      then show ?thesis using r by (simp add: change_row_def ebind_run task_row_def Some get_task_execution_def R_refl)
    next
      case (Inr r')
      then have "snd (change_row t f w) = snd (upd_task i g w)"
        using r by (simp add: change_row_def ebind_run task_row_def Some get_task_execution_def on_row_def task_id_def upd_task_def upd_row_def g_def)
      with g show ?thesis by simp
    qed
  qed
  then show ?thesis by (simp add: steps_def)
qed

lemmas frame1 = frame steps_notify steps_task_row steps_set_state

section \<open>Tasks and policies\<close>

lemma steps_context: "steps R (get_expression_context e t ctx)" "steps R (evaluate_in_task e t v ctx)"
  "steps R (get_policy_context t k)" "steps R (invalidate_result t)" "steps R (set_runtime_context_value t k v)"
  unfolding get_expression_context_def evaluate_in_task_def get_policy_context_def invalidate_result_def set_runtime_context_value_def
  by (intro frame1; simp add: keeps_defs put_policy_ctx_def)+

lemma steps_new_task: "steps R (create_task_execution sy t s info)" "steps R (defer_task sy t)" "steps R (create_new sy t)"
  unfolding create_new_def defer_task_def create_task_execution_def
  by (intro frame1; simp split: list.split; intro conjI allI impI frame1; simp)+

lemma steps_context2: "steps R (update_inbound_context e t)" "steps R (update_triggered_by t)" "steps R (cleanup_runtime_context t)"
  "steps R (schedule_refresh_task_state i d)"
  unfolding update_inbound_context_def update_triggered_by_def cleanup_runtime_context_def schedule_refresh_task_state_def
  by (intro frame1; simp add: keeps_defs)+

lemmas frame2 = frame1 steps_context steps_new_task steps_context2

lemma steps_handlers:
  assumes "handlers_keep R h"
  shows "steps R (hd_dispatch h wid cs)" "steps R (hd_pause h wid m)" "steps R (hd_resume h wid ev)"
    "steps R (hd_stop h wid s m)" "steps R (hd_start h d inp p)"
  using assms by (simp_all add: handlers_keep_def)

lemma steps_each_policy: "(\<And>t p. steps R (f t p)) \<Longrightarrow> steps R (each_policy f ps t)"
  by (induction ps arbitrary: t) (simp_all add: steps_pure steps_bind)

lemma steps_policies:
  assumes h: "handlers_keep R h"
  shows "steps R (wait_before t d)" "steps R (wait_after t d)" "steps R (timeout_before t d)" "steps R (concurrency_before t d)"
    "steps R (fail_on_after t d)" "steps R (pause_before h t d)" "steps R (retry_again t d)" "steps R (evaluate_and_validate e t p)"
  unfolding wait_before_def wait_after_def timeout_before_def concurrency_before_def fail_on_after_def pause_before_def retry_again_def
    evaluate_and_validate_def
  by (intro frame2 steps_handlers [OF h]; simp add: keeps_defs put_policy_ctx_def)+

lemma steps_retry: "steps R (retry e t n d b c)"
proof -
  have "steps R (retry_again t d)" unfolding retry_again_def by (intro frame2)
  then show ?thesis unfolding retry_def by (intro frame2; simp add: keeps_defs put_policy_ctx_def)
qed

lemma steps_before_task_start: "handlers_keep R h \<Longrightarrow> steps R (before_task_start e h t p)"
  unfolding before_task_start_def
  by (cases p; simp; intro frame2 steps_policies; assumption?; simp split: policy.split; intro conjI allI impI steps_pure steps_policies; assumption)

lemma steps_after_task_complete: "handlers_keep R h \<Longrightarrow> steps R (after_task_complete e t p)"
  unfolding after_task_complete_def
  by (intro steps_bind steps_policies; assumption?; simp split: policy.split; intro conjI allI impI steps_pure steps_policies steps_retry; assumption)

lemma steps_task_policies:
  assumes h: "handlers_keep R h"
  shows "steps R (task_before_start e h t)" "steps R (task_after_complete e t)"
  unfolding task_before_start_def task_after_complete_def
  by (intro frame2 steps_each_policy steps_before_task_start [OF h] steps_after_task_complete [OF h])+

lemma steps_ctrl: "steps R (ctrl_continue_workflow sy wid t)" "steps R (ctrl_rerun_tasks wid ts reset)" "steps R (ctrl_skip_tasks wid ts)"
  unfolding ctrl_continue_workflow_def ctrl_rerun_tasks_def ctrl_skip_tasks_def by (intro frame2)+

section \<open>Actions\<close>

lemma steps_actions: "steps R (fail_action sy i m)" "steps R (complete_action desc i res)" "steps R (update_action desc i s)"
  unfolding fail_action_def complete_action_def update_action_def by (intro frame2; simp add: keeps_defs)+

lemma steps_create_action: "steps R (create_action_execution sy desc task inp rt b)" "steps R (instantiate_action desc inp c)"
  unfolding create_action_execution_def instantiate_action_def by (intro frame2)+

lemma steps_run_action: "steps R (schedule_regular sy desc t inp tg ix sr tm)" "steps R (run_regular sy desc inp sv ix sr)"
  unfolding schedule_regular_def run_regular_def by (intro frame2 steps_create_action)+

lemma steps_schedule_action: "handlers_keep R h \<Longrightarrow> steps R (schedule_action sy h a t inp tg ix sr tm)"
  unfolding schedule_action_def schedule_workflow_def
  by (cases a; simp; intro frame2 steps_run_action steps_handlers)

section \<open>Running and completing tasks\<close>

lemma steps_task_parts:
  "steps R (publish_of_task e t)" "steps R (destroy_result t)" "steps R (register_workflow_completion_check t)"
  "steps R (task_update t s info)" "steps R (reset_actions t)"
  unfolding publish_of_task_def destroy_result_def register_workflow_completion_check_def task_update_def reset_actions_def
  by (intro frame2; simp add: keeps_defs)+

lemma steps_record: "steps R (change_row t (record_next_tasks cmds))"
  by (rule steps_change_row) (auto simp: record_next_tasks_def task_identity_def res_simps)

lemma put_keeps: "task_identity (put_with_items d r) = task_identity r \<and> te_state (put_with_items d r) = te_state r \<and>
  te_db_state (put_with_items d r) = te_db_state r"
  by (simp add: put_with_items_def task_identity_def)

lemma steps_capacity: "steps R (change_row t increase_capacity)" "steps R (change_row t (decrease_capacity n))"
proof -
  show "steps R (change_row t increase_capacity)"
    by (rule steps_change_row) (auto simp: increase_capacity_def res_simps put_keeps split: if_splits)
  have "task_identity r' = task_identity r \<and> te_state r' = te_state r \<and> te_db_state r' = te_db_state r"
    if c: "decrease_capacity n r = Inr r'" for r r'
  proof -
    from c obtain d where d: "get_with_items_context r = Inr d"
      by (cases "get_with_items_context r") (simp_all add: decrease_capacity_def)
    with c obtain cap where "dindex d ''capacity'' = Inr cap"
      by (cases "dindex d ''capacity''") (simp_all add: decrease_capacity_def)
    with c d show ?thesis by (cases cap) (auto simp: decrease_capacity_def int_val_def put_keeps split: if_splits)
  qed
  then show "steps R (change_row t (decrease_capacity n))" by (rule steps_change_row)
qed

lemma steps_task_complete:
  assumes h: "handlers_keep R h"
  shows "steps R (task_complete sy h t s info)"
  unfolding task_complete_def after_policies_def
  by (intro frame2 steps_task_parts steps_task_policies [OF h] steps_ctrl steps_record steps_handlers [OF h]; simp add: keeps_defs)

lemma steps_action_of_task:
  "steps R (get_target e t inp)" "steps R (get_action_input e t ctx)" "steps R (task_action_name sy t)" "steps R (get_timeout e t)"
  "steps R (get_action_descriptor sy t)"
  unfolding get_target_def get_action_input_def task_action_name_def get_timeout_def get_action_descriptor_def
  by (intro frame2 | (simp split: val.split; intro conjI allI impI frame2))+

lemma steps_build_action: "steps R (build_action sy t)"
  unfolding build_action_def by (intro frame2 steps_action_of_task)

lemma steps_keeps_rows: "keeps_task (prepare_runtime_context n)"
  by (simp add: keeps_task_def prepare_runtime_context_def put_keeps)

lemma steps_schedule_parts:
  assumes h: "handlers_keep R h"
  shows "steps R (schedule_task_action sy h t a inp tg ix)" "steps R (fail_with_message sy h t x)"
  unfolding schedule_task_action_def fail_with_message_def
  by (intro frame2 steps_action_of_task steps_schedule_action [OF h] steps_task_complete [OF h])+

lemma steps_items_input: "steps R (get_with_items_values e t)" "steps R (get_input_dicts e t vs)"
  unfolding get_with_items_values_def get_input_dicts_def
  by (intro frame2 steps_action_of_task | (simp split: val.split; intro conjI allI impI frame2))+

lemma steps_schedule_item: "handlers_keep R h \<Longrightarrow> steps R (schedule_item sy h t p)"
  unfolding schedule_item_def
  by (intro frame2 steps_action_of_task steps_build_action steps_schedule_parts steps_capacity; assumption)

lemma steps_schedule_actions: "handlers_keep R h \<Longrightarrow> steps R (schedule_actions sy h t)"
  unfolding schedule_actions_def schedule_regular_actions_def schedule_with_items_actions_def
  by (intro frame2 steps_action_of_task steps_build_action steps_schedule_parts steps_items_input steps_task_complete
      steps_schedule_item; (assumption | simp add: steps_keeps_rows frame2 split: list.split prod.split))

lemma steps_run_task_obj: "handlers_keep R h \<Longrightarrow> steps R (run_task_obj sy h t b)"
  unfolding run_task_obj_def run_new_def run_existing_def
  by (intro frame2 steps_task_policies steps_task_parts steps_schedule_actions; assumption)

lemma steps_task_on_action: "handlers_keep R h \<Longrightarrow> steps R (task_on_action_complete sy h t c)" "steps R (task_on_action_update t c)"
  unfolding task_on_action_complete_def on_items_action_complete_def on_regular_action_complete_def task_on_action_update_def
  by (intro frame2 steps_capacity steps_task_complete steps_schedule_actions steps_task_parts; assumption)+

section \<open>The task handler\<close>

lemma steps_build_task: "steps R (spec_of_execution i)" "steps R (build_task_from_execution r)"
  "steps R (build_task_after_rpc r b tr again reset)" "steps R (build_task_from_command i c)" "steps R (task_of_child r)"
  unfolding build_task_from_execution_def build_task_after_rpc_def build_task_from_command_def task_of_child_def spec_of_execution_def
  by (intro frame2 | (simp split: cmd_kind.split; intro conjI allI impI frame2))+

lemma steps_affected: "steps R (check_affected_tasks t)" "steps R (schedule_if_needed i)" "steps R (put_to_waiting t)"
  "steps R (create_task sy i c b)" "steps R (mark_task_running r)"
  unfolding check_affected_tasks_def schedule_if_needed_def put_to_waiting_def create_task_def mark_task_running_def
  by (intro frame2 steps_build_task)+

lemma steps_force_fail: "handlers_keep R h \<Longrightarrow> steps R (force_fail_task h r msg t0)"
  unfolding force_fail_task_def by (intro frame2 steps_build_task steps_handlers)

lemma steps_guarded: "handlers_keep R h \<Longrightarrow> steps R m \<Longrightarrow> steps R (guarded sy h r t m)"
  unfolding guarded_def by (intro frame2 steps_force_fail steps_affected)

lemma steps_run_tasks:
  assumes h: "handlers_keep R h"
  shows "steps R (run_task sy h i b tr again reset first)" "steps R (skip_task sy h i c)" "steps R (continue_task sy h r0)"
    "steps R (complete_task sy h r0 s info)"
  unfolding run_task_def skip_task_def continue_task_def complete_task_def
  by (intro frame2 steps_build_task steps_affected steps_guarded [OF h] steps_run_task_obj [OF h] steps_task_complete [OF h])+

lemma steps_action_results:
  assumes h: "handlers_keep R h"
  shows "steps R (on_action_complete_of_task sy h c tid)" "steps R (on_action_update_of_task sy h c tid)"
  unfolding on_action_complete_of_task_def on_action_update_of_task_def update_body_def
  by (intro frame2 steps_build_task steps_affected steps_guarded [OF h] steps_task_on_action(1) [OF h] steps_task_on_action(2) steps_force_fail [OF h]
      steps_handlers [OF h])+

lemma steps_scheduled_results:
  assumes h: "handlers_keep R h"
  shows "steps R (schedule_on_action_complete sy h c i d)" "steps R (schedule_on_action_update sy h c i d)"
    "steps R (scheduled_on_action_complete sy h j b)" "steps R (scheduled_on_action_update sy h j b)"
  unfolding schedule_on_action_complete_def schedule_on_action_update_def scheduled_on_action_complete_def scheduled_on_action_update_def
  by (intro frame2 steps_action_results [OF h])+

lemma steps_jobs:
  assumes h: "handlers_keep R h"
  shows "steps R (refresh_task_state sy h i)" "steps R (continue_task_job sy h i)" "steps R (complete_task_job sy h i s info)"
    "steps R (fail_task_if_incomplete sy h i tm)"
  unfolding refresh_task_state_def continue_task_job_def complete_task_job_def fail_task_if_incomplete_def
  by (intro frame2 steps_run_tasks [OF h]; simp add: keeps_defs)+

section \<open>Workflows\<close>

lemma steps_wf_set_state: "steps R (wf_set_state sy i s info)"
proof -
  have "steps R (eseq (upd_wf i (\<lambda>x. x\<lparr>we_state_info := info_text sy info\<rparr>))
      (eseq (notify p i ev) (eseq (upd_wf i (\<lambda>x. x\<lparr>we_accepted := b\<rparr>)) (ret True))))" for p ev b
    by (intro frame1; simp add: keeps_defs)
  then show ?thesis
    unfolding wf_set_state_def by (intro steps_bind steps_read steps_bind_res steps_if steps_pure wf_state) simp_all
qed

lemma steps_workflow_ends: "steps R (send_if_subworkflow i)" "steps R (workflow_output_of sy i out ctx)" "steps R (get_final_context sy i)"
  unfolding send_if_subworkflow_def send_result_to_parent_workflow_def workflow_output_of_def get_final_context_def
  by (intro frame2 | (simp add: Let_def split: state.split; intro conjI allI impI frame2))+

lemma steps_ends: "steps R (succeed_workflow sy i c m)" "steps R (fail_workflow sy i c m)" "steps R (cancel_workflow sy i m)"
  unfolding succeed_workflow_def fail_workflow_def cancel_workflow_def Let_def
  by (intro frame2 steps_build_task steps_workflow_ends steps_wf_set_state; simp add: keeps_defs)+

lemma steps_stop: "steps R (stop sy i s m)"
  unfolding stop_def by (cases s; simp; intro frame2 steps_ends steps_workflow_ends)

lemma steps_wf_check: "steps R (wf_check_and_complete sy i)"
  unfolding wf_check_and_complete_def by (intro frame2 steps_ends)

lemma keeps_context_parts: "keeps_wf (add_openstack_data_to_context sec)" "keeps_wf add_execution_to_context"
  by (auto simp: keeps_defs add_openstack_data_to_context_def add_execution_to_context_def split: option.split)

lemma steps_create_execution: "steps R (create_execution sy d i inp p)"
  unfolding create_execution_def
  by (intro frame2 keeps_context_parts; simp add: keeps_defs new_wf_row_def)

lemma steps_start: "handlers_keep R h \<Longrightarrow> steps R (start sy h d i inp p)"
  unfolding start_def by (intro frame2 steps_create_execution steps_wf_set_state steps_ctrl steps_handlers)

lemma steps_wf_env: "steps R (update_workflow_execution_env e i d)" "steps R (mark_processed i)" "steps R (schedule_check_and_fix_integrity sy i n)"
proof -
  show "steps R (update_workflow_execution_env e i d)"
    unfolding update_workflow_execution_env_def
    by (intro frame2 | (simp split: val.split add: on_wf keeps_defs steps_pure))+
  show "steps R (mark_processed i)" unfolding mark_processed_def by (intro frame2; simp add: keeps_defs)
  show "steps R (schedule_check_and_fix_integrity sy i n)" unfolding schedule_check_and_fix_integrity_def by (intro frame2)
qed

lemma steps_pause_resume:
  assumes h: "handlers_keep R h"
  shows "steps R (update_parent_task sy h i)" "steps R (pause sy h i m)" "steps R (continue_with sy h i cs)" "steps R (resume sy h i ev)"
  unfolding update_parent_task_def pause_def continue_with_def resume_def Let_def
  by (intro frame2 steps_scheduled_results [OF h] steps_wf_set_state steps_wf_env steps_ctrl steps_wf_check steps_handlers [OF h])+

lemma steps_recursive_rerun: "steps R (recursive_rerun n sy i)"
  by (induction n arbitrary: i) (simp_all, (intro frame2 steps_wf_set_state steps_wf_env steps_affected; assumption)+)

lemma steps_rerun: "handlers_keep R h \<Longrightarrow> steps R (rerun sy h i t reset skip ev)"
  unfolding rerun_def by (intro frame2 steps_wf_env steps_recursive_rerun steps_ctrl steps_pause_resume)

section \<open>The workflow handler\<close>

lemma steps_start_workflow: "handlers_keep R h \<Longrightarrow> steps R (start_workflow sy h d ns i inp p)"
  unfolding start_workflow_def by (intro frame2 steps_start steps_wf_env)

lemma steps_for_incomplete: "(\<And>i. steps R (f i)) \<Longrightarrow> steps R (for_incomplete ids f)"
  unfolding for_incomplete_def by (intro frame2)

lemma steps_stop_workflow: "steps R (stop_workflow n sy i s m)"
  by (induction n arbitrary: i) (simp_all, (intro frame2 steps_stop steps_for_incomplete; assumption)+)

lemma steps_check_and_complete: "steps R (check_and_complete sy i)"
  unfolding check_and_complete_def force_fail_workflow_def by (intro frame2 steps_wf_check steps_stop_workflow)

lemma steps_pause_workflow: "handlers_keep R h \<Longrightarrow> steps R (pause_workflow n sy h i m)"
  by (induction n arbitrary: i) (simp_all, (intro frame2 steps_pause_resume steps_for_incomplete; assumption)+)

lemma steps_resume_workflow: "handlers_keep R h \<Longrightarrow> steps R (resume_workflow n sy h i ev)"
  by (induction n arbitrary: i ev) (simp_all, (intro frame2 steps_pause_resume steps_for_incomplete; assumption)+)

lemma steps_rerun_workflow: "handlers_keep R h \<Longrightarrow> steps R (rerun_workflow sy h i r reset skip ev)"
  unfolding rerun_workflow_def by (intro frame2 steps_build_task steps_rerun steps_wf_env)

lemma steps_set_workflow_state: "handlers_keep R h \<Longrightarrow> steps R (set_workflow_state sy h i s m)"
  unfolding set_workflow_state_def by (intro frame2 steps_stop_workflow steps_pause_workflow)

lemma steps_integrity: "handlers_keep R h \<Longrightarrow> steps R (check_and_fix_integrity sy h i)"
  unfolding check_and_fix_integrity_def fix_task_def by (intro frame2 steps_scheduled_results steps_wf_env)

lemma steps_complete_or_fail: "handlers_keep R h \<Longrightarrow> steps R (complete_or_fail sy h a desc res)"
  unfolding complete_or_fail_def by (intro frame2 steps_actions steps_force_fail)

lemma steps_on_action:
  assumes h: "handlers_keep R h"
  shows "steps R (on_action_complete sy h i res)" "steps R (on_workflow_action_complete sy h i)" "steps R (on_action_update sy h i s)"
  unfolding on_action_complete_def on_workflow_action_complete_def on_action_update_def
  by (intro frame2 steps_actions steps_complete_or_fail [OF h] steps_scheduled_results [OF h])+

section \<open>The dispatcher\<close>

lemma steps_backlog: "steps R (save_command_to_backlog i c)" "steps R (poll_commands_from_backlog i)"
  unfolding save_command_to_backlog_def poll_commands_from_backlog_def
  by (intro frame2; simp add: keeps_defs)+

lemma steps_dispatch_command:
  assumes "handlers_keep R h"
  shows "steps R (dispatch_command (cmd_handlers_of sy h wid) i c)"
  unfolding dispatch_command_def cmd_handlers_of_def register_start_task_def
  by (cases "cmd_kind c"; simp; intro frame2 steps_affected steps_run_tasks steps_set_workflow_state assms)

lemma steps_process_loop: "handlers_keep R h \<Longrightarrow> steps R (process_loop (cmd_handlers_of sy h wid) i cs)"
  by (induction cs) (simp_all, (intro frame2 steps_backlog steps_dispatch_command; assumption)+)

lemma steps_dispatch_commands: "handlers_keep R h \<Longrightarrow> steps R (dispatch_workflow_commands (cmd_handlers_of sy h wid) i cs)"
  unfolding dispatch_workflow_commands_def process_commands_def by (intro frame2 steps_backlog steps_process_loop)

section \<open>The engine\<close>

lemma engine_keeps: "handlers_keep R (engine n sy)"
proof (induction n)
  case 0
  then show ?case by (simp add: handlers_keep_def no_engine_def steps_pure)
next
  case (Suc n)
  show ?case
    unfolding handlers_keep_def [of R "engine (Suc n) sy"]
    by (simp, intro conjI allI frame2 steps_dispatch_commands [OF Suc] steps_pause_workflow [OF Suc] steps_resume_workflow [OF Suc]
        steps_stop_workflow steps_start_workflow [OF Suc])
qed

lemma steps_requests:
  assumes h: "handlers_keep R h"
  shows "steps R (engine_start_workflow sy h d ns i inp p)" "steps R (engine_start_task sy h j b1 b2 tr b3 b4)"
    "steps R (engine_start_action sy nm inp ns b1 b2 tg tm)" "steps R (engine_on_action_complete sy h j res b)"
    "steps R (engine_on_action_update sy h j s b)" "steps R (engine_pause_workflow sy h j)"
    "steps R (engine_rerun_workflow sy h j b1 b2 ev)" "steps R (engine_resume_workflow sy h j ev)"
    "steps R (engine_stop_workflow sy j s m)" "steps R (process_action_heartbeats ids)"
  unfolding engine_start_workflow_def engine_start_task_def engine_start_action_def engine_on_action_complete_def
    engine_on_action_update_def engine_pause_workflow_def engine_rerun_workflow_def engine_resume_workflow_def
    engine_stop_workflow_def process_action_heartbeats_def update_action_execution_heartbeat_def schedule_detached_def Let_def
  by (intro frame2 steps_start_workflow [OF h] steps_check_and_complete steps_run_tasks [OF h] steps_create_action steps_run_action
      steps_on_action [OF h] steps_pause_workflow [OF h] steps_rerun_workflow [OF h] steps_resume_workflow [OF h] steps_stop_workflow;
      simp add: keeps_defs)+

lemma steps_job: "handlers_keep R h \<Longrightarrow> steps R (run_job_func sy h f)"
  unfolding run_job_func_def
  by (intro steps_transaction) (cases f; simp; intro steps_jobs steps_scheduled_results steps_integrity; assumption)

lemma steps_call_subworkflow: "handlers_keep R h \<Longrightarrow> steps R (call_subworkflow sy h i ns input params)"
  unfolding call_subworkflow_def by (intro frame2 steps_requests)

lemma steps_operation: "handlers_keep R h \<Longrightarrow> steps R (run_operation sy h f)"
  unfolding run_operation_def
  by (cases f; simp; intro frame2 steps_requests steps_check_and_complete steps_affected steps_call_subworkflow; assumption)

lemma steps_process_queue: "(\<And>f. steps R (run f)) \<Longrightarrow> steps R (process_queue run q)"
  by (induction run q rule: process_queue.induct) (auto intro!: steps_pure steps_seq steps_try steps_transaction)

lemma steps_drain: "(\<And>f. steps R (run f)) \<Longrightarrow> steps R (drain n run)"
  by (induction n) (simp_all, (intro frame2 steps_process_queue; assumption)+)

lemma steps_post_tx: "(\<And>f. steps R (run f)) \<Longrightarrow> steps R m \<Longrightarrow> steps R (with_post_tx n run m)"
  unfolding with_post_tx_def by (intro frame2 steps_drain)

end

end
