(* ===== verification/Engine_Invariants.thy ===== *)
theory Engine_Invariants
  imports Engine_Steps
begin

text \<open>
  What holds under every sequence of requests to the engine: the tables stay well formed, executions
  never vanish nor change their identity, and a workflow only moves along the valid transitions.
  The three relations are interpretations of \<open>engine_frame\<close>.
\<close>

section \<open>Sequences of requests\<close>

text \<open>
  What reaches the engine: the calls of its clients and executors, the jobs of the scheduler, and
  the operations registered in the transactions, each with the post-transaction queue around it.
\<close>

datatype request =
    StartWorkflow string string "string option" "val dict" "val dict"
  | StartTask string bool bool "trigger list option" bool bool
  | StartAction string "val dict" string bool bool "val option" "val option"
  | OnActionComplete string action_result bool
  | OnActionUpdate string state bool
  | PauseWorkflow string
  | RerunWorkflow string bool bool "val dict"
  | ResumeWorkflow string "val dict"
  | StopWorkflow string state val
  | ReportHeartbeats "string list"
  | RunJob job_func

definition to_unit :: "'a eng \<Rightarrow> unit eng" where
  "to_unit m = ebind m (\<lambda>_. ret ())"

fun request_body :: "sys \<Rightarrow> handlers \<Rightarrow> request \<Rightarrow> unit eng" where
  "request_body sy h (StartWorkflow d ns i input params) = to_unit (engine_start_workflow sy h d ns i input params)"
| "request_body sy h (StartTask i first_run waiting trs again reset) = engine_start_task sy h i first_run waiting trs again reset"
| "request_body sy h (StartAction name input ns run_sync save target timeout) =
     to_unit (engine_start_action sy name input ns run_sync save target timeout)"
| "request_body sy h (OnActionComplete i result wf_action) = engine_on_action_complete sy h i result wf_action"
| "request_body sy h (OnActionUpdate i s wf_action) = engine_on_action_update sy h i s wf_action"
| "request_body sy h (PauseWorkflow i) = engine_pause_workflow sy h i"
| "request_body sy h (RerunWorkflow i reset skip ev) = engine_rerun_workflow sy h i reset skip ev"
| "request_body sy h (ResumeWorkflow i ev) = engine_resume_workflow sy h i ev"
| "request_body sy h (StopWorkflow i s msg) = engine_stop_workflow sy i s msg"
| "request_body sy h (ReportHeartbeats ids) = process_action_heartbeats ids"
| "request_body sy h (RunJob f) = run_job_func sy h f"

text \<open>\<open>n\<close> bounds the nesting of the modules and the rounds of the queue.\<close>

definition handle :: "nat \<Rightarrow> sys \<Rightarrow> request \<Rightarrow> world \<Rightarrow> world" where
  "handle n sy q w = snd (with_post_tx n (run_operation sy (engine n sy)) (request_body sy (engine n sy) q) w)"

inductive engine_runs :: "nat \<Rightarrow> sys \<Rightarrow> world \<Rightarrow> world \<Rightarrow> bool" for n sy where
  engine_idle: "engine_runs n sy w w"
| engine_request: "engine_runs n sy w v \<Longrightarrow> engine_runs n sy w (handle n sy q v)"
| engine_clock: "engine_runs n sy w v \<Longrightarrow> w_now v \<le> t \<Longrightarrow> engine_runs n sy w (v\<lparr>w_now := t\<rparr>)"

context engine_frame begin

lemma steps_request: "handlers_keep R h \<Longrightarrow> steps R (request_body sy h q)"
  by (cases q) (simp_all add: to_unit_def steps_requests steps_job, (intro frame2 steps_requests; assumption)+)

lemma R_handle: "R w (handle n sy q w)"
proof -
  have "steps R (with_post_tx n (run_operation sy (engine n sy)) (request_body sy (engine n sy) q))"
    by (intro steps_post_tx steps_operation steps_request engine_keeps)
  then show ?thesis by (simp add: handle_def steps_def)
qed

theorem R_engine_runs: "engine_runs n sy w v \<Longrightarrow> R w v"
proof (induction rule: engine_runs.induct)
  case (engine_idle w)
  then show ?case by (rule R_refl)
next
  case (engine_request w v q)
  then show ?case using R_trans R_handle by blast
next
  case (engine_clock w v t)
  then show ?case using R_trans same_tables by (metis (no_types, lifting) world.ext_inject world.surjective world.update_convs(6))
qed

end

section \<open>Rows\<close>

lemma map_dset_same: "dget d i = Some r \<Longrightarrow> g (i, r') = g (i, r) \<Longrightarrow> map g (dset i r' d) = map g d"
  by (induction i r' d rule: dset.induct) (auto split: if_splits)

lemma list_all_dset: "list_all P d \<Longrightarrow> P (i, r) \<Longrightarrow> list_all P (dset i r d)"
  by (induction i r d rule: dset.induct) auto

lemma list_all_dget: "list_all P d \<Longrightarrow> dget d i = Some r \<Longrightarrow> P (i, r)"
  by (auto simp: list_all_iff dest: map_of_SomeD)

text \<open>Every row of \<open>d\<close> is still in \<open>d'\<close>, as \<open>Q\<close> says.\<close>

definition kept :: "('r \<Rightarrow> 'r \<Rightarrow> bool) \<Rightarrow> 'r dict \<Rightarrow> 'r dict \<Rightarrow> bool" where
  "kept Q d d' \<longleftrightarrow> (\<forall>i r. dget d i = Some r \<longrightarrow> (\<exists>r'. dget d' i = Some r' \<and> Q r r'))"

lemma kept_refl: "(\<And>r. Q r r) \<Longrightarrow> kept Q d d"
  by (simp add: kept_def)

lemma kept_trans: "(\<And>a b c. Q a b \<Longrightarrow> Q b c \<Longrightarrow> Q a c) \<Longrightarrow> kept Q d e \<Longrightarrow> kept Q e f \<Longrightarrow> kept Q d f"
  unfolding kept_def by metis

lemma kept_upd_row: "(\<And>r. Q r r) \<Longrightarrow> (\<And>r. Q r (f i r)) \<Longrightarrow> kept Q d (upd_row f i d)"
  by (simp add: kept_def dget_upd_row)

lemma kept_dset: "(\<And>r. Q r r) \<Longrightarrow> (\<And>r. dget d i = Some r \<Longrightarrow> Q r r') \<Longrightarrow> kept Q d (dset i r' d)"
  by (simp add: kept_def)

lemma kept_new: "(\<And>r. Q r r) \<Longrightarrow> i \<notin> set (dkeys d) \<Longrightarrow> kept Q d (dset i r' d)"
  by (rule kept_dset) (auto dest: dget_in_keys)

section \<open>Executions keep their identity, workflows move along the valid transitions\<close>

definition workflow_moves :: "(state \<times> state) set" where
  "workflow_moves = {(a, b). is_valid_transition a b = Inr True}"

definition wf_moved :: "wf_ex \<Rightarrow> wf_ex \<Rightarrow> bool" where
  "wf_moved x x' \<longleftrightarrow> wf_identity x' = wf_identity x \<and> (we_db_state x, we_db_state x') \<in> workflow_moves\<^sup>*"

definition same_task :: "task_ex \<Rightarrow> task_ex \<Rightarrow> bool" where
  "same_task r r' \<longleftrightarrow> task_identity r' = task_identity r"

definition same_action :: "action_ex \<Rightarrow> action_ex \<Rightarrow> bool" where
  "same_action a a' \<longleftrightarrow> action_identity a' = action_identity a"

definition history_kept :: "world \<Rightarrow> world \<Rightarrow> bool" where
  "history_kept w w' \<longleftrightarrow>
     kept wf_moved (w_wfs w) (w_wfs w') \<and> kept same_task (w_tasks w) (w_tasks w') \<and> kept same_action (w_actions w) (w_actions w')"

lemma moved_refl [simp]: "wf_moved x x" "same_task r r" "same_action a a"
  by (simp_all add: wf_moved_def same_task_def same_action_def)

lemma moved_trans: "wf_moved x y \<Longrightarrow> wf_moved y z \<Longrightarrow> wf_moved x z" "same_task r s \<Longrightarrow> same_task s t \<Longrightarrow> same_task r t"
  "same_action a b \<Longrightarrow> same_action b c \<Longrightarrow> same_action a c"
  by (auto simp: wf_moved_def same_task_def same_action_def)

lemma kept_moved_trans:
  "kept wf_moved a b \<Longrightarrow> kept wf_moved b c \<Longrightarrow> kept wf_moved a c"
  "kept same_task d e \<Longrightarrow> kept same_task e f \<Longrightarrow> kept same_task d f"
  "kept same_action g h \<Longrightarrow> kept same_action h k \<Longrightarrow> kept same_action g k"
  by (rule kept_trans, erule (1) moved_trans, assumption+)+

lemma history_kept_refl: "history_kept w w"
  by (simp add: history_kept_def kept_refl)

interpretation history: engine_frame history_kept
proof
  show "history_kept w w" for w by (rule history_kept_refl)
  show "history_kept u v \<Longrightarrow> history_kept v w \<Longrightarrow> history_kept u w" for u v w
    unfolding history_kept_def using kept_moved_trans by blast
  show "w_wfs w' = w_wfs w \<Longrightarrow> w_tasks w' = w_tasks w \<Longrightarrow> w_actions w' = w_actions w \<Longrightarrow> history_kept w w'" for w w'
    by (simp add: history_kept_def kept_refl)
  show "keeps_task f \<Longrightarrow> steps history_kept (upd_task i f)" for f i
    by (simp add: steps_def upd_task_def history_kept_def kept_refl kept_upd_row keeps_task_def same_task_def)
  show "keeps_wf f \<Longrightarrow> steps history_kept (upd_wf i f)" for f i
    by (simp add: steps_def upd_wf_def history_kept_def kept_refl kept_upd_row keeps_wf_def wf_moved_def)
  show "keeps_action f \<Longrightarrow> steps history_kept (upd_action i f)" for f i
    by (simp add: steps_def upd_action_def history_kept_def kept_refl kept_upd_row keeps_action_def same_action_def)
  show "steps history_kept (create_task_row r)" for r
    by (simp add: steps_def create_task_row_def history_kept_def kept_refl kept_new)
  show "steps history_kept (create_wf_row x)" for x
    by (simp add: steps_def create_wf_row_def history_kept_def kept_refl kept_new)
  show "steps history_kept (create_action_row a)" for a
    by (simp add: steps_def create_action_row_def history_kept_def kept_refl kept_new)
  show "steps history_kept (update_task_execution_state i cur s)" for i cur s
    by (auto simp: steps_def update_task_execution_state_def history_kept_def kept_refl same_task_def task_identity_def
        intro!: kept_dset split: option.split)
  show "is_valid_transition cur s = Inr True \<Longrightarrow> steps history_kept (update_workflow_execution_state i cur s)" for i cur s
    by (auto simp: steps_def update_workflow_execution_state_def history_kept_def kept_refl wf_moved_def wf_identity_def workflow_moves_def
        intro!: kept_dset split: option.split)
qed

section \<open>The tables are well formed\<close>

definition task_row_ok :: "string \<times> task_ex \<Rightarrow> bool" where
  "task_row_ok p \<longleftrightarrow> te_id (snd p) = fst p \<and> te_db_state (snd p) = te_state (snd p)"

definition wf_row_ok :: "string \<times> wf_ex \<Rightarrow> bool" where
  "wf_row_ok p \<longleftrightarrow> we_id (snd p) = fst p \<and> we_db_state (snd p) = we_state (snd p)"

definition action_row_ok :: "string \<times> action_ex \<Rightarrow> bool" where
  "action_row_ok p \<longleftrightarrow> ae_id (snd p) = fst p"

definition unique_keys :: "task_ex dict \<Rightarrow> string option list" where
  "unique_keys d = filter (\<lambda>k. k \<noteq> None) (map (te_unique_key \<circ> snd) d)"

text \<open>
  Rows are stored once, under their ids, with the state the database has, and no two task executions
  have the same \<^verbatim>\<open>unique_key\<close>.
\<close>

definition well_formed :: "world \<Rightarrow> bool" where
  "well_formed w \<longleftrightarrow>
     dict_ok (w_wfs w) \<and> dict_ok (w_tasks w) \<and> dict_ok (w_actions w) \<and>
     list_all wf_row_ok (w_wfs w) \<and> list_all task_row_ok (w_tasks w) \<and> list_all action_row_ok (w_actions w) \<and>
     distinct (unique_keys (w_tasks w))"

definition keeps_well_formed :: "world \<Rightarrow> world \<Rightarrow> bool" where
  "keeps_well_formed w w' \<longleftrightarrow> (well_formed w \<longrightarrow> well_formed w')"

lemma unique_keys_same: "dget d i = Some r \<Longrightarrow> te_unique_key r' = te_unique_key r \<Longrightarrow> unique_keys (dset i r' d) = unique_keys d"
  by (simp add: unique_keys_def map_dset_same)

lemma unique_keys_new:
  "distinct (unique_keys d) \<Longrightarrow> i \<notin> fst ` set d \<Longrightarrow>
   te_unique_key r = None \<or> te_unique_key r \<notin> (\<lambda>x. te_unique_key (snd x)) ` set d \<Longrightarrow> distinct (unique_keys (dset i r d))"
  by (auto simp: unique_keys_def dkeys_dset_new)

lemma rows_upd:
  "dict_ok d \<Longrightarrow> dict_ok (upd_row (\<lambda>_. f) i d)"
  "list_all P d \<Longrightarrow> (\<And>r. P (i, r) \<Longrightarrow> P (i, f r)) \<Longrightarrow> list_all P (upd_row (\<lambda>_. f) i d)"
  using list_all_dget [of P d i] by (auto simp: upd_row_def list_all_dset split: option.split)

lemma unique_keys_upd: "(\<And>r. te_unique_key (f r) = te_unique_key r) \<Longrightarrow> unique_keys (upd_row (\<lambda>_. f) i d) = unique_keys d"
  by (simp add: upd_row_def unique_keys_same split: option.split)

lemma row_ok_kept:
  "keeps_task f \<Longrightarrow> task_row_ok (i, r) \<Longrightarrow> task_row_ok (i, f r)"
  "keeps_wf g \<Longrightarrow> wf_row_ok (i, x) \<Longrightarrow> wf_row_ok (i, g x)"
  "keeps_action k \<Longrightarrow> action_row_ok (i, a) \<Longrightarrow> action_row_ok (i, k a)"
  by (simp_all add: task_row_ok_def wf_row_ok_def action_row_ok_def keeps_defs)

lemma unique_keys_kept: "keeps_task f \<Longrightarrow> unique_keys (upd_row (\<lambda>_. f) i d) = unique_keys d"
  by (simp add: unique_keys_upd keeps_defs)

lemma row_ids:
  "list_all task_row_ok d \<Longrightarrow> dget d i = Some r \<Longrightarrow> te_id r = i"
  "list_all wf_row_ok e \<Longrightarrow> dget e i = Some x \<Longrightarrow> we_id x = i"
  by (drule (1) list_all_dget, simp add: task_row_ok_def wf_row_ok_def)+

lemma row_ok_state:
  "list_all task_row_ok d \<Longrightarrow> dget d i = Some r \<Longrightarrow> task_row_ok (i, r\<lparr>te_state := s, te_db_state := s, te_updated_at := t\<rparr>)"
  "list_all wf_row_ok e \<Longrightarrow> dget e i = Some x \<Longrightarrow> wf_row_ok (i, x\<lparr>we_state := s, we_db_state := s, we_updated_at := t\<rparr>)"
  by (simp_all add: task_row_ok_def wf_row_ok_def row_ids)

interpretation tables: engine_frame keeps_well_formed
proof
  show "keeps_well_formed w w" for w by (simp add: keeps_well_formed_def)
  show "keeps_well_formed u v \<Longrightarrow> keeps_well_formed v w \<Longrightarrow> keeps_well_formed u w" for u v w by (simp add: keeps_well_formed_def)
  show "w_wfs w' = w_wfs w \<Longrightarrow> w_tasks w' = w_tasks w \<Longrightarrow> w_actions w' = w_actions w \<Longrightarrow> keeps_well_formed w w'" for w w'
    by (simp add: keeps_well_formed_def well_formed_def)
  show "keeps_task f \<Longrightarrow> steps keeps_well_formed (upd_task i f)" for f i
    by (simp add: steps_def upd_task_def keeps_well_formed_def well_formed_def rows_upd row_ok_kept unique_keys_kept)
  show "keeps_wf f \<Longrightarrow> steps keeps_well_formed (upd_wf i f)" for f i
    by (simp add: steps_def upd_wf_def keeps_well_formed_def well_formed_def rows_upd row_ok_kept)
  show "keeps_action f \<Longrightarrow> steps keeps_well_formed (upd_action i f)" for f i
    by (simp add: steps_def upd_action_def keeps_well_formed_def well_formed_def rows_upd row_ok_kept)
  show "te_db_state r = te_state r \<Longrightarrow> steps keeps_well_formed (create_task_row r)" for r
    by (simp add: steps_def create_task_row_def keeps_well_formed_def well_formed_def list_all_dset task_row_ok_def unique_key_taken_def
        unique_keys_new)
  show "we_db_state x = we_state x \<Longrightarrow> steps keeps_well_formed (create_wf_row x)" for x
    by (simp add: steps_def create_wf_row_def keeps_well_formed_def well_formed_def list_all_dset wf_row_ok_def)
  show "steps keeps_well_formed (create_action_row a)" for a
    by (simp add: steps_def create_action_row_def keeps_well_formed_def well_formed_def list_all_dset action_row_ok_def)
  show "steps keeps_well_formed (update_task_execution_state i cur s)" for i cur s
    by (auto simp: steps_def update_task_execution_state_def keeps_well_formed_def well_formed_def unique_keys_same
        intro!: list_all_dset elim: row_ok_state split: option.split)
  show "steps keeps_well_formed (update_workflow_execution_state i cur s)" for i cur s
    by (auto simp: steps_def update_workflow_execution_state_def keeps_well_formed_def well_formed_def
        intro!: list_all_dset elim: row_ok_state split: option.split)
qed

section \<open>Under every sequence of requests\<close>

lemma moves_from_success: "(SUCCESS, s) \<in> workflow_moves\<^sup>* \<Longrightarrow> s = SUCCESS"
  by (induction rule: rtrancl_induct) (simp_all add: workflow_moves_def valid_transition_simps)

lemma engine_runs_wf:
  assumes "engine_runs n sy w v" and "dget (w_wfs w) i = Some x"
  shows "\<exists>x'. dget (w_wfs v) i = Some x' \<and> wf_moved x x'"
  using history.R_engine_runs [OF assms(1)] assms(2) by (simp add: history_kept_def kept_def)

lemma unique_key_rows:
  assumes "distinct (unique_keys d)" and "dget d i = Some r" and "dget d j = Some s" and "te_unique_key r = Some k"
    and "te_unique_key s = Some k"
  shows "i = j"
  using assms
proof (induction d)
  case (Cons p d)
  have elsewhere: "Some k \<in> set (unique_keys d)" if "dget d l = Some t" "te_unique_key t = Some k" for l t
    using map_of_SomeD [OF that(1)] that(2) by (force simp: unique_keys_def)
  show ?case using Cons elsewhere by (cases p) (auto simp: unique_keys_def split: if_splits)
qed simp

text \<open>
  C1. Whatever requests reach the engine, in whatever order: a workflow execution stays in the table
  with its identity, and its state only moves along the valid transitions; in particular one that has
  succeeded stays so.
\<close>

theorem workflow_states_move_validly:
  assumes "engine_runs n sy w v" and "dget (w_wfs w) i = Some x"
  shows "\<exists>x'. dget (w_wfs v) i = Some x' \<and> wf_identity x' = wf_identity x \<and>
    (we_db_state x, we_db_state x') \<in> workflow_moves\<^sup>* \<and> (we_db_state x \<noteq> SUCCESS \<or> we_db_state x' = SUCCESS)"
proof -
  obtain x' where x': "dget (w_wfs v) i = Some x'" "wf_moved x x'" using engine_runs_wf [OF assms] by blast
  then have "we_db_state x = SUCCESS \<Longrightarrow> we_db_state x' = SUCCESS" using moves_from_success by (simp add: wf_moved_def)
  with x' show ?thesis by (auto simp: wf_moved_def)
qed

text \<open>
  Whatever requests reach the engine: the tables stay well formed, rows under their ids, states
  in step with the database, and a \<^verbatim>\<open>unique_key\<close> belongs to one task execution, so that the
  join task of a workflow exists once.
\<close>

theorem tables_stay_well_formed:
  assumes "engine_runs n sy w v" and "well_formed w"
  shows "well_formed v \<and>
    (\<forall>i j r s k. \<not> (dget (w_tasks v) i = Some r \<and> dget (w_tasks v) j = Some s \<and> te_unique_key r = Some k \<and>
       te_unique_key s = Some k \<and> i \<noteq> j))"
proof -
  have "well_formed v" using tables.R_engine_runs [OF assms(1)] assms(2) by (simp add: keeps_well_formed_def)
  then show ?thesis using unique_key_rows by (auto simp: well_formed_def)
qed

text \<open>
  Whatever requests reach the engine: a task execution never vanishes nor changes its name, its
  workflow or its key, and an action execution never its task.
\<close>

theorem executions_keep_identity:
  assumes "engine_runs n sy w v" and "dget (w_tasks w) i = Some r" and "dget (w_actions w) j = Some a"
  shows "\<exists>r' a'. dget (w_tasks v) i = Some r' \<and> task_identity r' = task_identity r \<and>
    dget (w_actions v) j = Some a' \<and> action_identity a' = action_identity a"
  using history.R_engine_runs [OF assms(1)] assms(2,3)
  by (fastforce simp: history_kept_def kept_def same_task_def same_action_def)

text \<open>A workflow with one running task and its action; it is stopped, and then a rerun is asked for.\<close>

definition busy_world :: world where
  "busy_world = empty_world
     \<lparr>w_wfs := [(''w'', mk_wf_ex ''w'' (mk_wf [mk_task ''t'']) RUNNING)],
      w_tasks := [(''1'', mk_task_ex ''1'' ''w'' (mk_task ''t'') RUNNING)],
      w_actions := [(''a'', mk_action_ex ''a'' ''1'' RUNNING 0)]\<rparr>"

definition later_world :: world where
  "later_world = handle 2 plain_sys (RerunWorkflow ''1'' True False []) (handle 2 plain_sys (StopWorkflow ''w'' SUCCESS VNone) busy_world)"

lemma later_world_runs: "engine_runs 2 plain_sys busy_world later_world"
  unfolding later_world_def by (intro engine_request engine_idle)

lemma busy_rows:
  "dget (w_wfs busy_world) ''w'' = Some (mk_wf_ex ''w'' (mk_wf [mk_task ''t'']) RUNNING)"
  "dget (w_tasks busy_world) ''1'' = Some (mk_task_ex ''1'' ''w'' (mk_task ''t'') RUNNING)"
  "dget (w_actions busy_world) ''a'' = Some (mk_action_ex ''a'' ''1'' RUNNING 0)"
  by (simp_all add: busy_world_def)

lemma busy_well_formed: "well_formed busy_world"
  by (simp add: well_formed_def busy_world_def empty_world_def wf_row_ok_def task_row_ok_def action_row_ok_def mk_wf_ex_def mk_task_ex_def
      mk_action_ex_def unique_keys_def dict_ok_def)

theorem workflow_states_move_validly_witness:
  "\<exists>x'. dget (w_wfs later_world) ''w'' = Some x' \<and>
     wf_identity x' = wf_identity (mk_wf_ex ''w'' (mk_wf [mk_task ''t'']) RUNNING) \<and>
     (we_db_state (mk_wf_ex ''w'' (mk_wf [mk_task ''t'']) RUNNING), we_db_state x') \<in> workflow_moves\<^sup>* \<and>
     (we_db_state (mk_wf_ex ''w'' (mk_wf [mk_task ''t'']) RUNNING) \<noteq> SUCCESS \<or> we_db_state x' = SUCCESS)"
  by (rule workflow_states_move_validly [OF later_world_runs busy_rows(1)])

theorem tables_stay_well_formed_witness:
  "well_formed later_world \<and>
    (\<forall>i j r s k. \<not> (dget (w_tasks later_world) i = Some r \<and> dget (w_tasks later_world) j = Some s \<and> te_unique_key r = Some k \<and>
       te_unique_key s = Some k \<and> i \<noteq> j))"
  by (rule tables_stay_well_formed [OF later_world_runs busy_well_formed])

theorem executions_keep_identity_witness:
  "\<exists>r' a'. dget (w_tasks later_world) ''1'' = Some r' \<and>
     task_identity r' = task_identity (mk_task_ex ''1'' ''w'' (mk_task ''t'') RUNNING) \<and>
     dget (w_actions later_world) ''a'' = Some a' \<and> action_identity a' = action_identity (mk_action_ex ''a'' ''1'' RUNNING 0)"
  by (rule executions_keep_identity [OF later_world_runs busy_rows(2,3)])

end
