(* ===== verification/Engine_Properties.thy ===== *)
theory Engine_Properties
  imports Engine_Invariants
begin

text \<open>
  Properties of whole requests: a request that fails leaves nothing behind, a workflow with a given
  identifier is started once, what the variables of a task with items are, and a join whose inbound
  tasks finish while the workflow is paused.
\<close>

section \<open>Requests that fail\<close>

lemma transaction_fails: "transaction m w = (Inl e, v) \<Longrightarrow> v = w"
  by (auto simp: transaction_def split: prod.splits sum.splits)

lemma to_unit_fails: "(\<And>e v. m w = (Inl e, v) \<Longrightarrow> v = w) \<Longrightarrow> to_unit m w = (Inl e, v) \<Longrightarrow> v = w"
  by (auto simp: to_unit_def ebind_run split: prod.splits sum.splits)

lemma start_workflow_fails: "engine_start_workflow sy h d ns i input params w = (Inl e, v) \<Longrightarrow> v = w"
  by (auto simp: engine_start_workflow_def ebind_run try_e_run Let_def dest!: transaction_fails split: prod.splits sum.splits if_splits option.splits exn.splits)

lemma request_body_fails:
  assumes r: "request_body sy h q w = (Inl e, v)"
  shows "v = w"
proof (cases q)
  case (StartWorkflow d ns i input params)
  then show ?thesis using r start_workflow_fails by (simp, elim to_unit_fails [rotated])
next
  case (StartAction name input ns run_sync save target timeout)
  have "v = w" if "engine_start_action sy name input ns run_sync save target timeout w = (Inl e, v)" for e v
    using that unfolding engine_start_action_def by (rule transaction_fails)
  then show ?thesis using r StartAction by (simp, elim to_unit_fails [rotated])
qed (use r in \<open>auto simp: engine_start_task_def engine_on_action_complete_def engine_on_action_update_def
    engine_pause_workflow_def engine_rerun_workflow_def engine_resume_workflow_def engine_stop_workflow_def
    process_action_heartbeats_def run_job_func_def simp del: if_split elim: transaction_fails\<close>)

text \<open>
  A request that raises leaves the world as it was, with no operation left to run.
\<close>

theorem failed_request_changes_nothing:
  assumes "request_body sy (engine n sy) q (w\<lparr>w_ops := []\<rparr>) = (Inl e, v)"
  shows "handle n sy q w = w\<lparr>w_ops := []\<rparr>"
  using assms request_body_fails [OF assms] by (simp add: handle_def with_post_tx_def ebind_run take_ops_def)

section \<open>Starting a workflow twice\<close>

lemma ebind_raises: "fst (m w) = Inl e \<Longrightarrow> fst (ebind m f w) = Inl e"
  by (cases "m w") (simp add: ebind_run)

lemma transaction_raises: "fst (m w) = Inl e \<Longrightarrow> transaction m w = (Inl e, w)"
  by (cases "m w") (simp add: transaction_def)

lemma create_execution_again:
  "dget (w_wfs w) i = Some x \<Longrightarrow> fst (create_execution sy d (Some i) input params w) = Inl (DBDuplicateEntryError i)"
  using dget_in_keys [of "w_wfs w" i x]
  by (simp add: create_execution_def ebind_run eseq_run create_wf_row_def new_wf_row_def)

lemma start_workflow_again:
  assumes "dget (w_wfs w) i = Some x" and "get_workflow_definition sy identifier namespace = Inr d"
    and "validate_input (ws_input (wd_spec d)) input (ws_name (wd_spec d)) = Inr u" and "sy_notify sy = []"
  shows "engine_start_workflow sy h identifier namespace (Some i) input params w = (Inr x, w)"
proof -
  have "fst (start sy h d (Some i) input p w) = Inl (DBDuplicateEntryError i)" for p
    using assms(3) create_execution_again [OF assms(1)] by (simp add: start_def ebind_run [of "lift_res r" for r] ebind_raises)
  then have "fst (start_workflow sy h identifier namespace (Some i) input p w) = Inl (DBDuplicateEntryError i)" for p
    using assms(2) by (simp add: start_workflow_def ebind_run [of "lift_res r" for r] ebind_raises)
  then have "transaction (ebind (start_workflow sy h identifier namespace (Some i) input p) f) w = (Inl (DBDuplicateEntryError i), w)"
    for p and f :: "string \<Rightarrow> wf_ex eng"
    by (intro transaction_raises ebind_raises)
  then show ?thesis
    using assms(1,4)
    by (simp add: engine_start_workflow_def with_notify_def ebind_run [of "lift_res r" for r] try_e_run Let_def)
      (simp add: transaction_def get_workflow_execution_def)
qed

text \<open>
  Starting a workflow with the identifier of an execution that exists answers that execution and
  changes nothing, whatever the identifier, the input or the parameters are now.
\<close>

theorem start_workflow_idempotent:
  assumes "dget (w_wfs w) i = Some x" and "get_workflow_definition sy identifier namespace = Inr d"
    and "validate_input (ws_input (wd_spec d)) input (ws_name (wd_spec d)) = Inr u" and "sy_notify sy = []"
  shows "engine_start_workflow sy h identifier namespace (Some i) input params w = (Inr x, w)"
  using assms by (rule start_workflow_again)

section \<open>The variables of an item\<close>

text \<open>
  A variable of the context of the task (one that an earlier task has published) overrides the
  variable of the same name that \<^verbatim>\<open>with-items\<close> binds: every item is run with it.
\<close>

theorem item_variable_shadowed:
  assumes "merge_dicts_doc (sy_env sy)" and "item_action_context (sy_env sy) t vs i = Inr ctx"
    and "dget (to_ctx t) k = Some v" and "\<not> is_vdict v" and "dict_ok (to_ctx t)"
  shows "dget ctx k = Some v"
proof -
  obtain c where "item_context vs i = Inr c" "ctx = merge_dicts (sy_env sy) True c (Some (to_ctx t))"
    using assms(2) by (auto simp: item_action_context_def elim: bind_res_InrE)
  then show ?thesis using assms unfolding merge_dicts_doc_def by (cases "dget c k") auto
qed

section \<open>A join and a pause\<close>

text \<open>What is visible of a world: the states, the jobs and the operations left.\<close>

definition overview :: "world \<Rightarrow> state list \<times> (string \<times> state) list \<times> state list \<times> job_func list \<times> nat" where
  "overview w = (map (we_state \<circ> snd) (w_wfs w), map (\<lambda>p. (te_name (snd p), te_state (snd p))) (w_tasks w),
     map (ae_state \<circ> snd) (w_actions w), map job_func (w_jobs w), length (w_ops w))"

text \<open>Task \<open>a\<close> is running its action, the join \<open>b\<close> comes after it.\<close>

definition chain_world :: "state \<Rightarrow> world" where
  "chain_world s = empty_world
     \<lparr>w_wfs := [(''w'', mk_wf_ex ''w'' chain_wf s)],
      w_tasks := [(''1'', mk_task_ex ''1'' ''w'' ((mk_task ''a'')\<lparr>ts_on_success := simple_clause [''b'']\<rparr>) RUNNING)],
      w_actions := [(''x'', mk_action_ex ''x'' ''1'' RUNNING 0)], w_next_id := 2\<rparr>"

definition action_done :: "world \<Rightarrow> world" where
  "action_done w = handle 3 plain_sys (OnActionComplete ''x'' (SuccessResult VNone) False) w"

lemma chain_continues:
  "overview (action_done (chain_world RUNNING)) =
     ([RUNNING], [(''a'', SUCCESS), (''b'', WAITING)], [SUCCESS], [RefreshTaskState ''id-2''], 0)"
  by code_simp

lemma chain_stranded:
  "overview (handle 3 plain_sys (ResumeWorkflow ''w'' []) (action_done (chain_world PAUSED))) =
     ([RUNNING], [(''a'', SUCCESS), (''b'', WAITING)], [SUCCESS], [], 0)"
  by code_simp

text \<open>
  An example of a run: when the task before a join completes, the join is created and a job to refresh its state is
  scheduled. When the task completes while the workflow is paused, the join is created on resuming,
  and no job refreshes it: nothing is left to run, and the workflow stays RUNNING with a WAITING task.
\<close>

theorem join_stranded_by_pause:
  "overview (action_done (chain_world RUNNING)) =
     ([RUNNING], [(''a'', SUCCESS), (''b'', WAITING)], [SUCCESS], [RefreshTaskState ''id-2''], 0) \<and>
   overview (handle 3 plain_sys (ResumeWorkflow ''w'' []) (action_done (chain_world PAUSED))) =
     ([RUNNING], [(''a'', SUCCESS), (''b'', WAITING)], [SUCCESS], [], 0)"
  using chain_continues chain_stranded by simp

section \<open>Witnesses\<close>

text \<open>A rerun is asked for in a workflow that has succeeded: it fails when the state is to change.\<close>

definition done_world :: world where
  "done_world = empty_world
     \<lparr>w_wfs := [(''w'', mk_wf_ex ''w'' (mk_wf [mk_task ''t'']) SUCCESS)],
      w_tasks := [(''1'', mk_task_ex ''1'' ''w'' (mk_task ''t'') ERROR)], w_ops := [(CheckAndCompleteOp ''w'', True)]\<rparr>"

theorem failed_request_changes_nothing_witness:
  "handle 2 plain_sys (RerunWorkflow ''1'' True False []) done_world = done_world\<lparr>w_ops := []\<rparr>"
  by (rule failed_request_changes_nothing [where e = "WorkflowException ''Can't change workflow execution state from SUCCESS to RUNNING''"
        and v = "done_world\<lparr>w_ops := []\<rparr>"]) code_simp

theorem start_workflow_idempotent_witness:
  "engine_start_workflow book_sys (engine 2 book_sys) ''1'' [] (Some ''w'') [] [(''x'', VInt 1)] (chain_world PAUSED) =
     (Inr (mk_wf_ex ''w'' chain_wf PAUSED), chain_world PAUSED)"
  by (rule start_workflow_idempotent [where d = "hd (sy_wf_defs book_sys)" and u = "()"])
    (simp_all add: chain_world_def book_sys_def get_workflow_definition_def plain_sys_def validate_input_def compare_parameters_def
      chain_wf_def mk_wf_def)

definition item_task :: task_obj where
  "item_task = create_task_obj ''w'' (mk_wf []) (mk_task ''t'') [(''i'', VStr ''published'')] None None False None False"

theorem item_variable_shadowed_witness:
  "dget (merge_dicts plain_env True [(''i'', VInt 7)] (Some (to_ctx item_task))) ''i'' = Some (VStr ''published'')"
  by (rule item_variable_shadowed [where sy = plain_sys and t = item_task and vs = "[(''i'', [VInt 5, VInt 7])]" and i = 1])
    (simp_all add: plain_sys_def plain_merge_doc item_task_def create_task_obj_def item_action_context_def item_context_def item_at_def dict_ok_def)

end
