(* ===== verification/Background_Services.thy ===== *)
theory Background_Services
  imports Engine_Invariants
begin

text \<open>
  Two services that work on the tables of executions beside the engine: the checker of heartbeats
  (\<^verbatim>\<open>services/action_heartbeat_checker.py\<close>), which fails the running actions whose executor does not report
  any more, and the policy that deletes old executions (\<^verbatim>\<open>services/expiration_policy.py\<close>), with their
  queries (\<^verbatim>\<open>db/v2/sqlalchemy/api.py\<close>). Timers, threads and security contexts are not modelled.
\<close>

section \<open>Heartbeats\<close>

text \<open>The query; \<^verbatim>\<open>query.limit(limit)\<close> is not assigned, so that the limit has no effect.\<close>

definition expired_action :: "int \<Rightarrow> action_ex \<Rightarrow> bool" where
  "expired_action exp a \<longleftrightarrow>
     (case ae_last_heartbeat a of None \<Rightarrow> False | Some t \<Rightarrow> t < exp) \<and> ae_is_sync a \<and> ae_state a = RUNNING"

definition get_running_expired_sync_action_executions :: "int \<Rightarrow> nat \<Rightarrow> world \<Rightarrow> action_ex list" where
  "get_running_expired_sync_action_executions exp lim w = filter (expired_action exp) (map snd (w_actions w))"

definition heartbeat_lost :: action_result where
  "heartbeat_lost = ErrorResult (VStr ''Heartbeat wasn't received.'')"

definition not_found :: "exn \<Rightarrow> bool" where
  "not_found e = (case e of DBEntityNotFoundError _ \<Rightarrow> True | _ \<Rightarrow> False)"

text \<open>One action: its task and its workflow must still exist, else it is skipped.\<close>

definition fail_expired_action :: "sys \<Rightarrow> handlers \<Rightarrow> action_ex \<Rightarrow> unit eng" where
  "fail_expired_action sy h a =
     ebind (try_e
        (ebind (case ae_task_id a of None \<Rightarrow> raise_e (DBEntityNotFoundError ''None'') | Some t \<Rightarrow> get_task_execution t) (\<lambda>r.
           ebind (get_workflow_execution (te_wf_id r)) (\<lambda>_. ret True)))
        not_found (\<lambda>_. ret False))
       (\<lambda>ok. if ok then on_action_complete sy h (ae_id a) heartbeat_lost else ret ())"

definition handle_expired_actions :: "sys \<Rightarrow> handlers \<Rightarrow> int \<Rightarrow> int \<Rightarrow> nat \<Rightarrow> unit eng" where
  "handle_expired_actions sy h check_interval max_missed lim =
     ebind (gets w_now) (\<lambda>now.
       transaction (ebind (gets (get_running_expired_sync_action_executions (now - max_missed * check_interval) lim)) (\<lambda>acts.
         for_each acts (fail_expired_action sy h))))"

text \<open>An iteration of the checker, with the operations that it registers.\<close>

definition check_heartbeats :: "nat \<Rightarrow> sys \<Rightarrow> int \<Rightarrow> int \<Rightarrow> nat \<Rightarrow> world \<Rightarrow> world" where
  "check_heartbeats n sy check_interval max_missed lim w =
     snd (with_post_tx n (run_operation sy (engine n sy))
       (handle_expired_actions sy (engine n sy) check_interval max_missed lim) w)"

section \<open>Deleting a workflow execution\<close>

text \<open>The rows that the foreign keys delete with a workflow execution: its tasks, their actions and their
  sub-workflows, and so on; \<open>n\<close> is the depth of the nesting.\<close>

definition tasks_of_wfs :: "string list \<Rightarrow> world \<Rightarrow> string list" where
  "tasks_of_wfs ids w = map fst (filter (\<lambda>(_, t). te_wf_id t \<in> set ids) (w_tasks w))"

definition subworkflows_of :: "string list \<Rightarrow> world \<Rightarrow> string list" where
  "subworkflows_of ids w =
     map fst (filter (\<lambda>(_, x). case we_task_id x of None \<Rightarrow> False | Some t \<Rightarrow> t \<in> set (tasks_of_wfs ids w)) (w_wfs w))"

primrec cascade :: "nat \<Rightarrow> string list \<Rightarrow> world \<Rightarrow> string list" where
  "cascade 0 ids w = ids"
| "cascade (Suc n) ids w = ids @ (if subworkflows_of ids w = [] then [] else cascade n (subworkflows_of ids w) w)"

text \<open>The column \<^verbatim>\<open>root_execution_id\<close> is set to NULL when its execution is gone.\<close>

definition forget_root :: "string list \<Rightarrow> wf_ex \<Rightarrow> wf_ex" where
  "forget_root ids x = (case we_root_id x of None \<Rightarrow> x | Some r \<Rightarrow> if r \<in> set ids then x\<lparr>we_root_id := None\<rparr> else x)"

definition remove_workflows :: "string list \<Rightarrow> world \<Rightarrow> world" where
  "remove_workflows ids w =
     (let tids = tasks_of_wfs ids w
      in w\<lparr>w_wfs := map (\<lambda>(i, x). (i, forget_root ids x)) (filter (\<lambda>(i, _). i \<notin> set ids) (w_wfs w)),
           w_tasks := filter (\<lambda>(i, _). i \<notin> set tids) (w_tasks w),
           w_actions := filter (\<lambda>(_, a). case ae_task_id a of None \<Rightarrow> True | Some t \<Rightarrow> t \<notin> set tids) (w_actions w)\<rparr>)"

text \<open>\<open>broken\<close> says whether the database fails to delete the row.\<close>

definition delete_workflow_execution :: "(string \<Rightarrow> bool) \<Rightarrow> string \<Rightarrow> unit eng" where
  "delete_workflow_execution broken i w =
     (if \<not> dhas (w_wfs w) i then (Inl (DBEntityNotFoundError i), w)
      else if broken i then (Inl (OtherException ''DBError''), w)
      else (Inr (), remove_workflows (cascade (length (w_wfs w)) [i] w) w))"

section \<open>Expiration\<close>

definition terminal_states :: "state list" where
  "terminal_states = [SUCCESS, ERROR, CANCELLED]"

definition completed_root :: "state list \<Rightarrow> wf_ex \<Rightarrow> bool" where
  "completed_root ignored x \<longleftrightarrow> we_task_id x = None \<and> we_state x \<in> set terminal_states - set ignored"

definition limit_rows :: "nat \<Rightarrow> 'a list \<Rightarrow> 'a list" where
  "limit_rows n xs = (if n = 0 then xs else take n xs)"

definition get_expired_executions :: "state list \<Rightarrow> int \<Rightarrow> nat \<Rightarrow> world \<Rightarrow> wf_ex list" where
  "get_expired_executions ignored exp n w =
     limit_rows n (filter (\<lambda>x. completed_root ignored x \<and> we_updated_at x < exp) (map snd (w_wfs w)))"

definition get_superfluous_executions :: "state list \<Rightarrow> nat option \<Rightarrow> nat \<Rightarrow> world \<Rightarrow> wf_ex list" where
  "get_superfluous_executions ignored max_finished n w =
     (case max_finished of
        None \<Rightarrow> []
      | Some k \<Rightarrow> if k = 0 then []
          else limit_rows n (drop k (sort_key (\<lambda>x. - we_updated_at x) (filter (completed_root ignored) (map snd (w_wfs w))))))"

text \<open>\<^verbatim>\<open>_delete\<close>: exceptions are logged.\<close>

definition delete_all :: "(string \<Rightarrow> bool) \<Rightarrow> wf_ex list \<Rightarrow> world \<Rightarrow> world" where
  "delete_all broken xs w = fold (\<lambda>x w. snd (delete_workflow_execution broken (we_id x) w)) xs w"

text \<open>\<open>n\<close> bounds the rounds of the loop; None is a loop that has not returned.\<close>

primrec delete_until_depleted :: "nat \<Rightarrow> (string \<Rightarrow> bool) \<Rightarrow> (world \<Rightarrow> wf_ex list) \<Rightarrow> world \<Rightarrow> world option" where
  "delete_until_depleted 0 broken fetch w = None"
| "delete_until_depleted (Suc n) broken fetch w =
     (let execs = fetch w in if execs = [] then Some w else delete_until_depleted n broken fetch (delete_all broken execs w))"

record expiration_conf =
  xc_older_than :: int
  xc_batch_size :: nat
  xc_max_finished :: "nat option"
  xc_ignored_states :: "state list"

definition run_execution_expiration_policy :: "nat \<Rightarrow> (string \<Rightarrow> bool) \<Rightarrow> expiration_conf \<Rightarrow> world \<Rightarrow> world option" where
  "run_execution_expiration_policy n broken c w =
     (case delete_until_depleted n broken
          (get_expired_executions (xc_ignored_states c) (w_now w - xc_older_than c * 60) (xc_batch_size c)) w of
        None \<Rightarrow> None
      | Some w1 \<Rightarrow> delete_until_depleted n broken
          (get_superfluous_executions (xc_ignored_states c) (xc_max_finished c) (xc_batch_size c)) w1)"

definition check_ignored_states_config :: "state list \<Rightarrow> unit res" where
  "check_ignored_states_config ignored =
     (if list_all (\<lambda>s. s \<in> set terminal_states) ignored then Inr () else Inl (ValueError ''not a terminal state''))"

section \<open>The checker keeps what the engine keeps\<close>

context engine_frame begin

lemma steps_heartbeats: "handlers_keep R h \<Longrightarrow> steps R (handle_expired_actions sy h ci mm n)"
  unfolding handle_expired_actions_def fail_expired_action_def by (intro frame2 steps_on_action; assumption)

lemma R_heartbeats: "R w (check_heartbeats n sy ci mm k w)"
proof -
  have "steps R (with_post_tx n (run_operation sy (engine n sy)) (handle_expired_actions sy (engine n sy) ci mm k))"
    by (intro steps_post_tx steps_operation steps_heartbeats engine_keeps)
  then show ?thesis by (simp add: check_heartbeats_def steps_def)
qed

end

section \<open>Rows after a deletion\<close>


definition keyed_rows :: "world \<Rightarrow> bool" where
  "keyed_rows w \<longleftrightarrow> distinct (dkeys (w_wfs w)) \<and> list_all (\<lambda>(i, x). we_id x = i) (w_wfs w)"

text \<open>What a cascade reaches beyond its start has a task as parent.\<close>

lemma cascade_children:
  assumes "i \<in> set (cascade n ids w)" "i \<notin> set ids"
  shows "\<exists>x. (i, x) \<in> set (w_wfs w) \<and> we_task_id x \<noteq> None"
  using assms
proof (induction n arbitrary: ids)
  case (Suc n)
  then have "i \<in> set (cascade n (subworkflows_of ids w) w)" by (auto split: if_splits)
  then show ?case
    using Suc.IH[of "subworkflows_of ids w"] by (cases "i \<in> set (subworkflows_of ids w)") (auto simp: subworkflows_of_def split: option.splits)
qed simp

lemma forget_root_keeps [simp]:
  "we_id (forget_root ids x) = we_id x" "we_task_id (forget_root ids x) = we_task_id x" "we_state (forget_root ids x) = we_state x"
  "we_updated_at (forget_root ids x) = we_updated_at x" "we_db_state (forget_root ids x) = we_db_state x"
  "(forget_root ids x)\<lparr>we_root_id := None\<rparr> = x\<lparr>we_root_id := None\<rparr>"
  by (simp_all add: forget_root_def split: option.split)

lemma deleted_rows:
  "w_wfs (snd (delete_workflow_execution broken i w)) =
     (if dhas (w_wfs w) i \<and> \<not> broken i
      then map (\<lambda>(j, x). (j, forget_root (cascade (length (w_wfs w)) [i] w) x))
        (filter (\<lambda>(j, _). j \<notin> set (cascade (length (w_wfs w)) [i] w)) (w_wfs w))
      else w_wfs w)"
  by (simp add: delete_workflow_execution_def remove_workflows_def Let_def)

lemma keyed_deleted:
  assumes "keyed_rows w"
  shows "keyed_rows (snd (delete_workflow_execution broken i w))"
proof -
  have "map fst (map (\<lambda>(j, x). (j, forget_root ids x)) l) = map fst l" for ids and l :: "wf_ex dict" by (induction l) auto
  then show ?thesis using assms by (auto simp: keyed_rows_def deleted_rows list_all_iff distinct_map_filter simp del: map_map)
qed

lemma keyed_unique: "keyed_rows w \<Longrightarrow> (i, x) \<in> set (w_wfs w) \<Longrightarrow> (i, y) \<in> set (w_wfs w) \<Longrightarrow> x = y"
  unfolding keyed_rows_def by (meson eq_key_imp_eq_value)

section \<open>The root executions under the expiration policy\<close>









subsection \<open>The two queries\<close>

lemma limit_rows_Nil: "limit_rows n xs = [] \<longleftrightarrow> xs = []"
  by (simp add: limit_rows_def)






lemma completed_root_bare [simp]: "completed_root ig (x\<lparr>we_root_id := r\<rparr>) = completed_root ig x"
  by (simp add: completed_root_def)

definition latest_first :: "state list \<Rightarrow> wf_ex list \<Rightarrow> wf_ex list" where
  "latest_first ig R = sort_key (\<lambda>x. - we_updated_at x) (filter (completed_root ig) R)"







section \<open>Properties\<close>

text \<open>The root executions that the policy leaves: those that are not completed or whose state is ignored, and of the others, if they are
  young enough, as many as are configured, the latest first.\<close>

definition stays :: "expiration_conf \<Rightarrow> int \<Rightarrow> wf_ex list \<Rightarrow> wf_ex \<Rightarrow> bool" where
  "stays c now R x \<longleftrightarrow>
     (let young = (\<lambda>x. now - xc_older_than c * 60 \<le> we_updated_at x)
      in if \<not> completed_root (xc_ignored_states c) x then True
         else young x \<and>
           (case xc_max_finished c of
              None \<Rightarrow> True
            | Some k \<Rightarrow> k = 0 \<or> x \<in> set (take k (latest_first (xc_ignored_states c) (filter young R)))))"


subsection \<open>A database that fails\<close>

lemma expired_Nil:
  "get_expired_executions ignored exp n w = [] \<longleftrightarrow>
     (\<forall>x \<in> snd ` set (w_wfs w). completed_root ignored x \<longrightarrow> exp \<le> we_updated_at x)"
  by (force simp: get_expired_executions_def limit_rows_Nil filter_empty_conv)

text \<open>A root execution that the database cannot delete stays.\<close>

lemma undeletable_stays:
  assumes "keyed_rows w" "(i, x) \<in> set (w_wfs w)" "we_task_id x = None" "broken i"
  shows "\<exists>r. (i, x\<lparr>we_root_id := r\<rparr>) \<in> set (w_wfs (snd (delete_workflow_execution broken j w)))"
proof -
  let ?ids = "cascade (length (w_wfs w)) [j] w"
  have "\<exists>r. forget_root ids x = x\<lparr>we_root_id := r\<rparr>" for ids
  proof (cases "forget_root ids x = x")
    case True
    then show ?thesis by (intro exI[of _ "we_root_id x"]) simp
  next
    case False
    then show ?thesis by (intro exI[of _ None]) (simp add: forget_root_def split: option.splits if_splits)
  qed
  then obtain r where r: "forget_root ?ids x = x\<lparr>we_root_id := r\<rparr>" by blast
  have out: "i \<notin> set ?ids" if ji: "j \<noteq> i"
  proof
    assume "i \<in> set ?ids"
    then have "\<exists>y. (i, y) \<in> set (w_wfs w) \<and> we_task_id y \<noteq> None" by (rule cascade_children) (simp add: ji[symmetric])
    then obtain y where y: "(i, y) \<in> set (w_wfs w)" "we_task_id y \<noteq> None" by blast
    have "y = x" by (rule keyed_unique[OF assms(1) y(1) assms(2)])
    then show False using assms(3) y(2) by simp
  qed
  have stays: "(i, x) \<in> set (filter (\<lambda>(k, _). k \<notin> set ?ids) (w_wfs w))" if b: "\<not> broken j"
  proof -
    have "j \<noteq> i" using b assms(4) by blast
    then have "i \<notin> set ?ids" by (rule out)
    then show ?thesis using assms(2) by simp
  qed
  have "(i, forget_root ?ids x) \<in> set (w_wfs (snd (delete_workflow_execution broken j w)))"
    if "dhas (w_wfs w) j \<and> \<not> broken j"
    using that imageI[OF stays, of "\<lambda>(k, y). (k, forget_root ?ids y)"] by (simp add: deleted_rows)
  moreover have "(i, x\<lparr>we_root_id := we_root_id x\<rparr>) \<in> set (w_wfs (snd (delete_workflow_execution broken j w)))"
    if "\<not> (dhas (w_wfs w) j \<and> \<not> broken j)"
    using assms(2) unfolding deleted_rows if_not_P[OF that] by simp
  ultimately show ?thesis using r by metis
qed

lemma undeletable_stays_all:
  assumes "keyed_rows w" "(i, x) \<in> set (w_wfs w)" "we_task_id x = None" "broken i"
  shows "keyed_rows (delete_all broken xs w) \<and> (\<exists>r. (i, x\<lparr>we_root_id := r\<rparr>) \<in> set (w_wfs (delete_all broken xs w)))"
  using assms
proof (induction xs arbitrary: w x)
  case Nil
  then show ?case by (auto simp: delete_all_def intro: exI[of _ "we_root_id x"])
next
  case (Cons y ys)
  obtain r where r: "(i, x\<lparr>we_root_id := r\<rparr>) \<in> set (w_wfs (snd (delete_workflow_execution broken (we_id y) w)))"
    using undeletable_stays[where broken = broken, OF Cons.prems] by blast
  have "keyed_rows (snd (delete_workflow_execution broken (we_id y) w))" by (rule keyed_deleted[OF Cons.prems(1)])
  from Cons.IH[OF this r] Cons.prems(3,4) show ?case by (simp add: delete_all_def)
qed

lemma broken_never_depletes:
  assumes "(i, x) \<in> set (w_wfs w)" "completed_root ignored x" "we_updated_at x < exp" "broken i" "keyed_rows w"
  shows "delete_until_depleted n broken (get_expired_executions ignored exp k) w = None"
  using assms
proof (induction n arbitrary: w x)
  case (Suc n)
  have root: "we_task_id x = None" using Suc.prems(2) by (simp add: completed_root_def)
  have "get_expired_executions ignored exp k w \<noteq> []"
    using Suc.prems(1-3) by (force simp: expired_Nil)
  moreover obtain r where "(i, x\<lparr>we_root_id := r\<rparr>) \<in> set (w_wfs (delete_all broken (get_expired_executions ignored exp k w) w))"
    "keyed_rows (delete_all broken (get_expired_executions ignored exp k w) w)"
    using undeletable_stays_all[where broken = broken, OF Suc.prems(5,1) root Suc.prems(4)] by blast
  ultimately show ?case using Suc.IH[of "x\<lparr>we_root_id := r\<rparr>"] Suc.prems(2-4) by (simp add: Let_def)
qed simp

text \<open>
  If the database fails to delete an expired execution, the policy never returns: the exception is
  logged and the loop fetches the execution again, for ever.
\<close>

theorem expiration_policy_stuck:
  assumes "(i, x) \<in> set (w_wfs w)" "completed_root (xc_ignored_states c) x" "we_updated_at x < w_now w - xc_older_than c * 60"
    and "broken i" "keyed_rows w"
  shows "run_execution_expiration_policy n broken c w = None"
  using broken_never_depletes[of i x w "xc_ignored_states c" "w_now w - xc_older_than c * 60" broken] assms by (simp add: run_execution_expiration_policy_def)

text \<open>
  The checker of heartbeats works through the engine: whatever actions it fails, the workflow
  executions keep their identity and move along the valid transitions only, and a succeeded workflow
  stays succeeded.
\<close>

theorem heartbeat_checker_moves_validly:
  assumes "dget (w_wfs w) i = Some x"
  shows "\<exists>x'. dget (w_wfs (check_heartbeats n sy ci mm k w)) i = Some x' \<and> wf_identity x' = wf_identity x \<and>
    (we_db_state x, we_db_state x') \<in> workflow_moves\<^sup>*"
  using history.R_heartbeats[of w n sy ci mm k] assms by (fastforce simp: history_kept_def kept_def wf_moved_def)

section \<open>Examples\<close>

definition finished_wf :: "string \<Rightarrow> state \<Rightarrow> int \<Rightarrow> wf_ex" where
  "finished_wf i s t = (mk_wf_ex i (mk_wf [mk_task ''t'']) s)\<lparr>we_updated_at := t\<rparr>"

definition old_world :: world where
  "old_world = busy_world\<lparr>w_wfs := [(''w'', mk_wf_ex ''w'' (mk_wf [mk_task ''t'']) RUNNING), (''a'', finished_wf ''a'' SUCCESS 10),
     (''b'', finished_wf ''b'' ERROR 500), (''c'', finished_wf ''c'' SUCCESS 700), (''d'', finished_wf ''d'' CANCELLED 800)], w_now := 1000\<rparr>"

definition old_conf :: expiration_conf where
  "old_conf = \<lparr>xc_older_than = 5, xc_batch_size = 1, xc_max_finished = Some 1, xc_ignored_states = [CANCELLED]\<rparr>"

lemma old_keyed: "keyed_rows old_world"
  by (simp add: keyed_rows_def old_world_def mk_wf_ex_def finished_wf_def)


theorem expiration_policy_stuck_witness:
  "run_execution_expiration_policy 100 (\<lambda>i. i = ''a'') old_conf old_world = None"
  by (rule expiration_policy_stuck[where i = "''a''" and x = "finished_wf ''a'' SUCCESS 10", OF _ _ _ _ old_keyed])
    (simp_all add: old_world_def old_conf_def finished_wf_def completed_root_def mk_wf_ex_def terminal_states_def)

theorem heartbeat_checker_moves_validly_witness:
  "\<exists>x'. dget (w_wfs (check_heartbeats 2 plain_sys 20 15 10 busy_world)) ''w'' = Some x' \<and>
    wf_identity x' = wf_identity (mk_wf_ex ''w'' (mk_wf [mk_task ''t'']) RUNNING) \<and>
    (we_db_state (mk_wf_ex ''w'' (mk_wf [mk_task ''t'']) RUNNING), we_db_state x') \<in> workflow_moves\<^sup>*"
  by (rule heartbeat_checker_moves_validly[OF busy_rows(1)])

text \<open>An action whose executor was last heard of long ago fails, and with it its task and its workflow.\<close>

theorem lost_action_fails_workflow:
  "(let w = check_heartbeats 3 plain_sys 20 15 10
       (busy_world\<lparr>w_actions := [(''a'', (mk_action_ex ''a'' ''1'' RUNNING 0)\<lparr>ae_last_heartbeat := Some 0\<rparr>)], w_now := 1000\<rparr>)
    in map (ae_state o snd) (w_actions w) = [ERROR] \<and> map (te_state o snd) (w_tasks w) = [ERROR] \<and> map (we_state o snd) (w_wfs w) = [ERROR])"
  by code_simp

end
