(* ===== verification/Resource_Access.thy ===== *)
theory Resource_Access
  imports Py_Values
begin

text \<open>
  Who can read and change the definitions, environments and triggers of a project:
  \<^verbatim>\<open>_secure_query\<close> and the operations built on it in \<^verbatim>\<open>mistral/db/v2/sqlalchemy/api.py\<close>,
  \<^verbatim>\<open>check_db_obj_access\<close> of \<^verbatim>\<open>mistral/db/utils.py\<close>, the sharing of workflows and workbooks with
  members (\<^verbatim>\<open>api/controllers/v2/member.py\<close>), and \<^verbatim>\<open>get_project_id\<close> of \<^verbatim>\<open>services/security.py\<close>.
  A table is the list of its rows in the order in which queries read them; columns that no operation
  looks at are in \<open>ob_values\<close>. Foreign keys, the hashed columns of cron triggers, pagination and
  the policies that an operator configures are not modelled.
\<close>

section \<open>Rows and requests\<close>

datatype model =
    Workbook
  | WorkflowDefinition
  | ActionDefinition
  | CodeSource
  | DynamicActionDefinition
  | Environment
  | CronTrigger
  | EventTrigger

record db_object =
  ob_id :: string
  ob_name :: string
  ob_namespace :: string
  ob_project :: string
  ob_scope :: string
  ob_is_system :: bool
  ob_version :: int
  ob_workflow_id :: "string option"
  ob_values :: "val dict"

record resource_member =
  rm_resource_id :: string
  rm_resource_type :: string
  rm_project :: string
  rm_member_id :: string
  rm_status :: string

record resource_db =
  rd_objects :: "model \<Rightarrow> db_object list"
  rd_members :: "resource_member list"

text \<open>The security context of a request and the option \<^verbatim>\<open>pecan.auth_enable\<close>.\<close>

record actor =
  ac_auth_enable :: bool
  ac_has_ctx :: bool
  ac_project :: string
  ac_is_admin :: bool

definition get_project_id :: "actor \<Rightarrow> string" where
  "get_project_id a = (if ac_auth_enable a \<and> ac_has_ctx a then ac_project a else ''<default-project>'')"

definition overrides :: "actor \<Rightarrow> bool \<Rightarrow> bool" where
  "overrides a insecure \<longleftrightarrow> (ac_has_ctx a \<and> ac_is_admin a) \<or> insecure"

section \<open>Queries\<close>

definition resource_mapping :: "model \<Rightarrow> string option" where
  "resource_mapping m = (case m of WorkflowDefinition \<Rightarrow> Some ''workflow'' | Workbook \<Rightarrow> Some ''workbook'' | _ \<Rightarrow> None)"

definition get_accepted_resources :: "actor \<Rightarrow> string \<Rightarrow> resource_db \<Rightarrow> resource_member list" where
  "get_accepted_resources a res_type s =
     filter (\<lambda>r. rm_resource_type r = res_type \<and> rm_status r = ''accepted'' \<and> rm_member_id r = get_project_id a) (rd_members s)"

definition shared_ids :: "actor \<Rightarrow> model \<Rightarrow> resource_db \<Rightarrow> string list" where
  "shared_ids a m s = (case resource_mapping m of None \<Rightarrow> [] | Some t \<Rightarrow> map rm_resource_id (get_accepted_resources a t s))"

definition may_see :: "actor \<Rightarrow> model \<Rightarrow> resource_db \<Rightarrow> db_object \<Rightarrow> bool" where
  "may_see a m s x \<longleftrightarrow> ob_project x = get_project_id a \<or> ob_scope x = ''public'' \<or> ob_id x \<in> set (shared_ids a m s)"

definition secure_query :: "actor \<Rightarrow> model \<Rightarrow> resource_db \<Rightarrow> db_object list" where
  "secure_query a m s = filter (may_see a m s) (rd_objects s m)"

definition db_query :: "actor \<Rightarrow> bool \<Rightarrow> model \<Rightarrow> resource_db \<Rightarrow> db_object list" where
  "db_query a insecure m s = (if overrides a insecure then rd_objects s m else secure_query a m s)"

definition get_db_object_by_name :: "actor \<Rightarrow> model \<Rightarrow> string \<Rightarrow> resource_db \<Rightarrow> db_object option" where
  "get_db_object_by_name a m n s = find (\<lambda>x. ob_name x = n) (secure_query a m s)"

definition get_db_object_by_id :: "actor \<Rightarrow> bool \<Rightarrow> model \<Rightarrow> string \<Rightarrow> resource_db \<Rightarrow> db_object option" where
  "get_db_object_by_id a insecure m i s = find (\<lambda>x. ob_id x = i) (db_query a insecure m s)"

definition get_db_object_by_name_and_namespace_or_id ::
  "actor \<Rightarrow> bool \<Rightarrow> model \<Rightarrow> string \<Rightarrow> string option \<Rightarrow> resource_db \<Rightarrow> db_object option" where
  "get_db_object_by_name_and_namespace_or_id a insecure m identifier namespace s =
     find (\<lambda>x. ob_id x = identifier \<or> (ob_name x = identifier \<and> (case namespace of None \<Rightarrow> True | Some n \<Rightarrow> ob_namespace x = n)))
       (db_query a insecure m s)"

definition get_db_object_by_name_and_namespace ::
  "actor \<Rightarrow> bool \<Rightarrow> model \<Rightarrow> string \<Rightarrow> string option \<Rightarrow> resource_db \<Rightarrow> db_object option" where
  "get_db_object_by_name_and_namespace a insecure m n namespace s =
     find (\<lambda>x. ob_name x = n \<and> ob_namespace x = (case namespace of None \<Rightarrow> [] | Some k \<Rightarrow> k)) (db_query a insecure m s)"

definition found :: "string \<Rightarrow> db_object option \<Rightarrow> db_object res" where
  "found k x = (case x of None \<Rightarrow> Inl (DBEntityNotFoundError k) | Some y \<Rightarrow> Inr y)"

definition check_db_obj_access :: "actor \<Rightarrow> model \<Rightarrow> db_object \<Rightarrow> unit res" where
  "check_db_obj_access a m x =
     (if \<not> ac_has_ctx a then Inl (OtherException ''ApplicationContextNotFoundException'')
      else if \<not> ac_is_admin a \<and> ob_project x \<noteq> get_project_id a
      then Inl (NotAllowedException (''Can not access resource of other projects, ID: '' @ ob_id x))
      else if \<not> ac_is_admin a \<and> m \<in> {Workbook, WorkflowDefinition, ActionDefinition} \<and> ob_is_system x
      then Inl (InvalidActionException (''Can not modify a system resource, ID: '' @ ob_id x))
      else Inr ())"

section \<open>Setting columns, storing and removing rows\<close>

definition text_of :: "val \<Rightarrow> string" where
  "text_of v = (case v of VStr t \<Rightarrow> t | _ \<Rightarrow> [])"

text \<open>Setting \<^verbatim>\<open>project_id\<close> sets it to the project of the request (\<^verbatim>\<open>_set_project_id\<close>).\<close>

fun set_column :: "actor \<Rightarrow> string \<times> val \<Rightarrow> db_object \<Rightarrow> db_object" where
  "set_column a (k, v) x =
     (if k = ''name'' then x\<lparr>ob_name := text_of v\<rparr>
      else if k = ''namespace'' then x\<lparr>ob_namespace := text_of v\<rparr>
      else if k = ''scope'' then x\<lparr>ob_scope := text_of v\<rparr>
      else if k = ''project_id'' then x\<lparr>ob_project := get_project_id a\<rparr>
      else if k = ''is_system'' then x\<lparr>ob_is_system := truthy v\<rparr>
      else if k = ''version'' then x\<lparr>ob_version := (case v of VInt i \<Rightarrow> i | _ \<Rightarrow> ob_version x)\<rparr>
      else if k = ''workflow_id'' then x\<lparr>ob_workflow_id := (case v of VStr t \<Rightarrow> Some t | _ \<Rightarrow> None)\<rparr>
      else x\<lparr>ob_values := dset k v (ob_values x)\<rparr>)"

text \<open>\<^verbatim>\<open>obj.update(values)\<close>; the name of a definition must not have spaces.\<close>

definition update_object :: "actor \<Rightarrow> model \<Rightarrow> val dict \<Rightarrow> db_object \<Rightarrow> db_object res" where
  "update_object a m vals x =
     (case dget vals ''name'' of
        Some (VStr n) \<Rightarrow>
          (if m \<in> {Workbook, WorkflowDefinition, ActionDefinition} \<and> CHR '' '' \<in> set n
           then Inl (InvalidModelException ''Name must not contain spaces'') else Inr (fold (set_column a) vals x))
      | _ \<Rightarrow> Inr (fold (set_column a) vals x))"

definition replace_object :: "model \<Rightarrow> string \<Rightarrow> db_object \<Rightarrow> resource_db \<Rightarrow> resource_db" where
  "replace_object m i y s = s\<lparr>rd_objects := (rd_objects s)(m := map (\<lambda>x. if ob_id x = i then y else x) (rd_objects s m))\<rparr>"

definition remove_objects :: "model \<Rightarrow> (db_object \<Rightarrow> bool) \<Rightarrow> resource_db \<Rightarrow> resource_db" where
  "remove_objects m P s = s\<lparr>rd_objects := (rd_objects s)(m := filter (\<lambda>x. \<not> P x) (rd_objects s m))\<rparr>"

text \<open>Read, update, write back.\<close>

definition update_found :: "actor \<Rightarrow> model \<Rightarrow> val dict \<Rightarrow> db_object res \<Rightarrow> resource_db \<Rightarrow> db_object res \<times> resource_db" where
  "update_found a m vals r s =
     (case bind_res r (\<lambda>x. bind_res (update_object a m vals x) (\<lambda>y. Inr (x, y))) of
        Inl e \<Rightarrow> (Inl e, s) | Inr (x, y) \<Rightarrow> (Inr y, replace_object m (ob_id x) y s))"

definition delete_found :: "model \<Rightarrow> db_object res \<Rightarrow> resource_db \<Rightarrow> unit res \<times> resource_db" where
  "delete_found m r s = (case r of Inl e \<Rightarrow> (Inl e, s) | Inr x \<Rightarrow> (Inr (), remove_objects m (\<lambda>y. ob_id y = ob_id x) s))"

text \<open>\<^verbatim>\<open>query.filter(...).delete()\<close> and the number of rows.\<close>

definition delete_secure :: "actor \<Rightarrow> model \<Rightarrow> string \<Rightarrow> (db_object \<Rightarrow> bool) \<Rightarrow> resource_db \<Rightarrow> unit res \<times> resource_db" where
  "delete_secure a m k P s =
     (if filter P (secure_query a m s) = [] then (Inl (DBEntityNotFoundError k), s)
      else (Inr (), remove_objects m (\<lambda>x. P x \<and> may_see a m s x) s))"

text \<open>The columns of the unique constraint.\<close>

definition unique_columns :: "model \<Rightarrow> db_object \<Rightarrow> val list" where
  "unique_columns m x =
     (if m = EventTrigger
      then map (\<lambda>k. dget_default (ob_values x) k VNone) [''exchange'', ''topic'', ''event''] @
        [case ob_workflow_id x of None \<Rightarrow> VNone | Some i \<Rightarrow> VStr i, VStr (ob_project x)]
      else if m \<in> {Environment, CronTrigger} then [VStr (ob_name x), VStr (ob_project x)]
      else [VStr (ob_name x), VStr (ob_namespace x), VStr (ob_project x)])"

definition empty_object :: "actor \<Rightarrow> string \<Rightarrow> db_object" where
  "empty_object a i = \<lparr>ob_id = i, ob_name = [], ob_namespace = [], ob_project = get_project_id a, ob_scope = ''private'',
     ob_is_system = False, ob_version = 1, ob_workflow_id = None, ob_values = []\<rparr>"

definition create_object :: "actor \<Rightarrow> model \<Rightarrow> string \<Rightarrow> val dict \<Rightarrow> resource_db \<Rightarrow> db_object res \<times> resource_db" where
  "create_object a m i vals s =
     (case update_object a m vals (empty_object a i) of
        Inl e \<Rightarrow> (Inl e, s)
      | Inr x \<Rightarrow>
          (if unique_columns m x \<in> set (map (unique_columns m) (rd_objects s m)) \<or> ob_id x \<in> set (map ob_id (rd_objects s m))
           then (Inl (DBDuplicateEntryError (ob_name x)), s)
           else (Inr x, s\<lparr>rd_objects := (rd_objects s)(m := rd_objects s m @ [x])\<rparr>)))"

definition namespace_of :: "val dict \<Rightarrow> string option" where
  "namespace_of vals = (case dget vals ''namespace'' of Some (VStr n) \<Rightarrow> Some n | _ \<Rightarrow> None)"

section \<open>Workbooks\<close>

definition get_workbook :: "actor \<Rightarrow> string \<Rightarrow> string option \<Rightarrow> resource_db \<Rightarrow> db_object res" where
  "get_workbook a n ns s = found n (get_db_object_by_name_and_namespace a False Workbook n ns s)"

definition create_workbook :: "actor \<Rightarrow> string \<Rightarrow> val dict \<Rightarrow> resource_db \<Rightarrow> db_object res \<times> resource_db" where
  "create_workbook a i vals s = create_object a Workbook i vals s"

definition update_workbook :: "actor \<Rightarrow> string \<Rightarrow> val dict \<Rightarrow> resource_db \<Rightarrow> db_object res \<times> resource_db" where
  "update_workbook a n vals s = update_found a Workbook vals (get_workbook a n (namespace_of vals) s) s"

definition create_or_update_workbook :: "actor \<Rightarrow> string \<Rightarrow> string \<Rightarrow> val dict \<Rightarrow> resource_db \<Rightarrow> db_object res \<times> resource_db" where
  "create_or_update_workbook a i n vals s =
     (if get_db_object_by_name a Workbook n s = None then create_workbook a i vals s else update_workbook a n vals s)"

definition delete_workbook :: "actor \<Rightarrow> string \<Rightarrow> string option \<Rightarrow> resource_db \<Rightarrow> unit res \<times> resource_db" where
  "delete_workbook a n ns s =
     delete_secure a Workbook n (\<lambda>x. ob_name x = n \<and> ob_namespace x = (case ns of None \<Rightarrow> [] | Some k \<Rightarrow> k)) s"

section \<open>Workflow definitions\<close>

definition get_workflow_def :: "actor \<Rightarrow> string \<Rightarrow> string option \<Rightarrow> resource_db \<Rightarrow> db_object res" where
  "get_workflow_def a identifier ns s =
     found identifier (get_db_object_by_name_and_namespace_or_id a False WorkflowDefinition identifier ns s)"

definition get_workflow_definition_by_id :: "actor \<Rightarrow> string \<Rightarrow> resource_db \<Rightarrow> db_object res" where
  "get_workflow_definition_by_id a i s = found i (get_db_object_by_id a False WorkflowDefinition i s)"

text \<open>\<^verbatim>\<open>ORDER BY namespace DESC\<close> over the given namespace and the default one.\<close>

definition load_workflow_def :: "actor \<Rightarrow> string \<Rightarrow> string \<Rightarrow> resource_db \<Rightarrow> db_object option" where
  "load_workflow_def a n ns s =
     (let rows = filter (\<lambda>x. ob_name x = n \<and> ob_namespace x \<in> {ns, []}) (secure_query a WorkflowDefinition s)
      in case find (\<lambda>x. ob_namespace x = ns) rows of Some x \<Rightarrow> Some x | None \<Rightarrow> find (\<lambda>x. ob_namespace x = []) rows)"

definition create_workflow_definition :: "actor \<Rightarrow> string \<Rightarrow> val dict \<Rightarrow> resource_db \<Rightarrow> db_object res \<times> resource_db" where
  "create_workflow_definition a i vals s = create_object a WorkflowDefinition i vals s"

definition triggers_of :: "model \<Rightarrow> string \<Rightarrow> resource_db \<Rightarrow> db_object list" where
  "triggers_of m i s = filter (\<lambda>x. ob_workflow_id x = Some i) (rd_objects s m)"

text \<open>The checks of \<^verbatim>\<open>update_workflow_definition\<close> before the row changes.\<close>

definition check_scope_change :: "val dict \<Rightarrow> db_object \<Rightarrow> resource_db \<Rightarrow> unit res" where
  "check_scope_change vals x s =
     (if ob_scope x \<noteq> ''public'' then Inr ()
      else bind_res (dindex vals ''scope'') (\<lambda>v.
        if v \<noteq> VStr ''private'' then Inr ()
        else if \<exists>t \<in> set (triggers_of CronTrigger (ob_id x) s). ob_project t \<noteq> ob_project x
        then Inl (NotAllowedException ''Can not update scope of workflow that has cron triggers associated in other tenants.'')
        else if \<exists>t \<in> set (triggers_of EventTrigger (ob_id x) s). ob_project t \<noteq> ob_project x
        then Inl (NotAllowedException ''Can not update scope of workflow that has event triggers associated in other tenants.'')
        else Inr ()))"

definition update_workflow_definition :: "actor \<Rightarrow> string \<Rightarrow> val dict \<Rightarrow> resource_db \<Rightarrow> db_object res \<times> resource_db" where
  "update_workflow_definition a identifier vals s =
     update_found a WorkflowDefinition vals
       (bind_res (get_workflow_def a identifier (namespace_of vals) s) (\<lambda>x.
        bind_res (check_db_obj_access a WorkflowDefinition x) (\<lambda>_.
        bind_res (check_scope_change vals x s) (\<lambda>_. Inr x)))) s"

definition create_or_update_workflow_definition :: "actor \<Rightarrow> string \<Rightarrow> string \<Rightarrow> val dict \<Rightarrow> resource_db \<Rightarrow> db_object res \<times> resource_db" where
  "create_or_update_workflow_definition a i n vals s =
     (if get_db_object_by_name_and_namespace_or_id a False WorkflowDefinition n (namespace_of vals) s \<noteq> None
      then update_workflow_definition a n vals s else create_workflow_definition a i vals s)"

definition delete_resource_members :: "actor \<Rightarrow> string \<Rightarrow> string \<Rightarrow> resource_db \<Rightarrow> resource_db" where
  "delete_resource_members a res_type i s =
     s\<lparr>rd_members := filter (\<lambda>r. \<not> (rm_resource_type r = res_type \<and> rm_resource_id r = i)) (rd_members s)\<rparr>"

definition delete_workflow_definition :: "actor \<Rightarrow> string \<Rightarrow> string option \<Rightarrow> resource_db \<Rightarrow> unit res \<times> resource_db" where
  "delete_workflow_definition a identifier ns s =
     (case bind_res (get_workflow_def a identifier ns s) (\<lambda>x.
           bind_res (check_db_obj_access a WorkflowDefinition x) (\<lambda>_.
             if triggers_of CronTrigger (ob_id x) s \<noteq> [] then Inl (MistralError ''Can't delete workflow that has cron triggers associated.'')
             else if triggers_of EventTrigger (ob_id x) s \<noteq> [] then Inl (MistralError ''Can't delete workflow that has event triggers associated.'')
             else Inr x)) of
        Inl e \<Rightarrow> (Inl e, s)
      | Inr x \<Rightarrow> delete_found WorkflowDefinition (Inr x) (delete_resource_members a ''workflow'' (ob_id x) s))"

section \<open>Action definitions\<close>

definition get_action_definition_by_id :: "actor \<Rightarrow> string \<Rightarrow> resource_db \<Rightarrow> db_object res" where
  "get_action_definition_by_id a i s = found i (get_db_object_by_id a False ActionDefinition i s)"

definition get_action_definition :: "actor \<Rightarrow> string \<Rightarrow> string \<Rightarrow> resource_db \<Rightarrow> db_object res" where
  "get_action_definition a identifier ns s =
     found identifier
       (case get_db_object_by_name_and_namespace_or_id a False ActionDefinition identifier (Some ns) s of
          Some x \<Rightarrow> Some x
        | None \<Rightarrow> get_db_object_by_name_and_namespace_or_id a False ActionDefinition identifier (Some []) s)"

definition load_action_definition :: "actor \<Rightarrow> string \<Rightarrow> string \<Rightarrow> resource_db \<Rightarrow> db_object option" where
  "load_action_definition a n ns s = get_db_object_by_name_and_namespace a False ActionDefinition n (Some ns) s"

definition create_action_definition :: "actor \<Rightarrow> string \<Rightarrow> val dict \<Rightarrow> resource_db \<Rightarrow> db_object res \<times> resource_db" where
  "create_action_definition a i vals s = create_object a ActionDefinition i vals s"

definition namespace_or_default :: "val dict \<Rightarrow> string" where
  "namespace_or_default vals = (case namespace_of vals of None \<Rightarrow> [] | Some n \<Rightarrow> n)"

definition update_action_definition :: "actor \<Rightarrow> string \<Rightarrow> val dict \<Rightarrow> resource_db \<Rightarrow> db_object res \<times> resource_db" where
  "update_action_definition a identifier vals s =
     update_found a ActionDefinition vals (get_action_definition a identifier (namespace_or_default vals) s) s"

definition create_or_update_action_definition :: "actor \<Rightarrow> string \<Rightarrow> string \<Rightarrow> val dict \<Rightarrow> resource_db \<Rightarrow> db_object res \<times> resource_db" where
  "create_or_update_action_definition a i n vals s =
     (if get_db_object_by_name_and_namespace a False ActionDefinition n (Some (namespace_or_default vals)) s = None
      then create_action_definition a i vals s else update_action_definition a n vals s)"

definition delete_action_definition :: "actor \<Rightarrow> string \<Rightarrow> string \<Rightarrow> resource_db \<Rightarrow> unit res \<times> resource_db" where
  "delete_action_definition a identifier ns s = delete_found ActionDefinition (get_action_definition a identifier ns s) s"

section \<open>Code sources and dynamic actions\<close>

definition create_code_source :: "actor \<Rightarrow> string \<Rightarrow> val dict \<Rightarrow> resource_db \<Rightarrow> db_object res \<times> resource_db" where
  "create_code_source a i vals s = create_object a CodeSource i vals s"

definition get_code_source :: "actor \<Rightarrow> string \<Rightarrow> string option \<Rightarrow> resource_db \<Rightarrow> db_object res" where
  "get_code_source a identifier ns s = found identifier (get_db_object_by_name_and_namespace_or_id a False CodeSource identifier ns s)"

definition update_code_source :: "actor \<Rightarrow> string \<Rightarrow> val dict \<Rightarrow> string option \<Rightarrow> resource_db \<Rightarrow> db_object res \<times> resource_db" where
  "update_code_source a identifier vals ns s =
     (case get_code_source a identifier ns s of
        Inl e \<Rightarrow> (Inl e, s)
      | Inr x \<Rightarrow> update_found a CodeSource (dset ''version'' (VInt (ob_version x + 1)) vals) (Inr x) s)"

definition delete_code_source :: "actor \<Rightarrow> string \<Rightarrow> string option \<Rightarrow> resource_db \<Rightarrow> unit res \<times> resource_db" where
  "delete_code_source a identifier ns s = delete_found CodeSource (get_code_source a identifier ns s) s"

definition create_dynamic_action_definition :: "actor \<Rightarrow> string \<Rightarrow> val dict \<Rightarrow> resource_db \<Rightarrow> db_object res \<times> resource_db" where
  "create_dynamic_action_definition a i vals s = create_object a DynamicActionDefinition i vals s"

definition get_dynamic_action_definition :: "actor \<Rightarrow> string \<Rightarrow> string option \<Rightarrow> resource_db \<Rightarrow> db_object res" where
  "get_dynamic_action_definition a identifier ns s =
     found identifier (get_db_object_by_name_and_namespace_or_id a False DynamicActionDefinition identifier ns s)"

definition update_dynamic_action_definition :: "actor \<Rightarrow> string \<Rightarrow> val dict \<Rightarrow> string option \<Rightarrow> resource_db \<Rightarrow> db_object res \<times> resource_db" where
  "update_dynamic_action_definition a identifier vals ns s =
     update_found a DynamicActionDefinition vals (get_dynamic_action_definition a identifier ns s) s"

definition delete_dynamic_action_definition :: "actor \<Rightarrow> string \<Rightarrow> string option \<Rightarrow> resource_db \<Rightarrow> unit res \<times> resource_db" where
  "delete_dynamic_action_definition a identifier ns s =
     delete_found DynamicActionDefinition (get_dynamic_action_definition a identifier ns s) s"

section \<open>Environments\<close>

definition get_environment_row :: "actor \<Rightarrow> string \<Rightarrow> resource_db \<Rightarrow> db_object res" where
  "get_environment_row a n s = found n (get_db_object_by_name a Environment n s)"

definition create_environment :: "actor \<Rightarrow> string \<Rightarrow> val dict \<Rightarrow> resource_db \<Rightarrow> db_object res \<times> resource_db" where
  "create_environment a i vals s = create_object a Environment i vals s"

definition update_environment :: "actor \<Rightarrow> string \<Rightarrow> val dict \<Rightarrow> resource_db \<Rightarrow> db_object res \<times> resource_db" where
  "update_environment a n vals s = update_found a Environment vals (get_environment_row a n s) s"

definition create_or_update_environment :: "actor \<Rightarrow> string \<Rightarrow> string \<Rightarrow> val dict \<Rightarrow> resource_db \<Rightarrow> db_object res \<times> resource_db" where
  "create_or_update_environment a i n vals s =
     (if get_db_object_by_name a Environment n s = None then create_environment a i vals s else update_environment a n vals s)"

definition delete_environment :: "actor \<Rightarrow> string \<Rightarrow> resource_db \<Rightarrow> unit res \<times> resource_db" where
  "delete_environment a n s = delete_secure a Environment n (\<lambda>x. ob_name x = n) s"

section \<open>Triggers\<close>

definition get_cron_trigger :: "actor \<Rightarrow> string \<Rightarrow> resource_db \<Rightarrow> db_object res" where
  "get_cron_trigger a identifier s =
     found identifier (get_db_object_by_name_and_namespace_or_id a False CronTrigger identifier None s)"

definition create_cron_trigger_row :: "actor \<Rightarrow> string \<Rightarrow> val dict \<Rightarrow> resource_db \<Rightarrow> db_object res \<times> resource_db" where
  "create_cron_trigger_row a i vals s = create_object a CronTrigger i vals s"

definition delete_cron_trigger_row :: "actor \<Rightarrow> string \<Rightarrow> resource_db \<Rightarrow> unit res \<times> resource_db" where
  "delete_cron_trigger_row a identifier s =
     delete_found CronTrigger
       (bind_res (get_cron_trigger a identifier s) (\<lambda>x. bind_res (check_db_obj_access a CronTrigger x) (\<lambda>_. Inr x))) s"

definition get_event_trigger :: "actor \<Rightarrow> string \<Rightarrow> bool \<Rightarrow> resource_db \<Rightarrow> db_object res" where
  "get_event_trigger a i insecure s = found i (get_db_object_by_id a insecure EventTrigger i s)"

definition create_event_trigger_row :: "actor \<Rightarrow> string \<Rightarrow> val dict \<Rightarrow> resource_db \<Rightarrow> db_object res \<times> resource_db" where
  "create_event_trigger_row a i vals s = create_object a EventTrigger i vals s"

definition update_event_trigger_row :: "actor \<Rightarrow> string \<Rightarrow> val dict \<Rightarrow> resource_db \<Rightarrow> db_object res \<times> resource_db" where
  "update_event_trigger_row a i vals s = update_found a EventTrigger vals (get_event_trigger a i False s) s"

definition delete_event_trigger_row :: "string \<Rightarrow> resource_db \<Rightarrow> unit res \<times> resource_db" where
  "delete_event_trigger_row i s = delete_found EventTrigger (found i (find (\<lambda>x. ob_id x = i) (rd_objects s EventTrigger))) s"

section \<open>Sharing\<close>

text \<open>\<^verbatim>\<open>_get_criterion\<close>; None stands for the criterion None, which selects nothing here.\<close>

definition get_criterion :: "actor \<Rightarrow> string \<Rightarrow> string option \<Rightarrow> bool \<Rightarrow> (resource_member \<Rightarrow> bool) option" where
  "get_criterion a i member_id is_owner =
     (case member_id of
        Some k \<Rightarrow>
          (if is_owner then Some (\<lambda>r. rm_project r = get_project_id a \<and> rm_resource_id r = i \<and> rm_member_id r = k)
           else if k \<noteq> get_project_id a then None
           else Some (\<lambda>r. rm_member_id r = get_project_id a \<and> rm_resource_id r = i))
      | None \<Rightarrow>
          (if is_owner then Some (\<lambda>r. rm_project r = get_project_id a \<and> rm_resource_id r = i)
           else Some (\<lambda>r. rm_member_id r = get_project_id a \<and> rm_resource_id r = i)))"

definition meets :: "(resource_member \<Rightarrow> bool) option \<Rightarrow> resource_member \<Rightarrow> bool" where
  "meets P r = (case P of None \<Rightarrow> False | Some q \<Rightarrow> q r)"

definition get_resource_members :: "actor \<Rightarrow> string \<Rightarrow> string \<Rightarrow> resource_db \<Rightarrow> resource_member list" where
  "get_resource_members a i res_type s =
     filter (\<lambda>r. rm_resource_type r = res_type \<and> (meets (get_criterion a i None True) r \<or> meets (get_criterion a i None False) r)) (rd_members s)"

definition get_resource_member :: "actor \<Rightarrow> string \<Rightarrow> string \<Rightarrow> string \<Rightarrow> resource_db \<Rightarrow> resource_member res" where
  "get_resource_member a i res_type member_id s =
     (case find (\<lambda>r. rm_resource_type r = res_type \<and>
          (meets (get_criterion a i (Some member_id) True) r \<or> meets (get_criterion a i (Some member_id) False) r)) (rd_members s) of
        None \<Rightarrow> Inl (DBEntityNotFoundError member_id) | Some r \<Rightarrow> Inr r)"

definition same_membership :: "resource_member \<Rightarrow> resource_member \<Rightarrow> bool" where
  "same_membership r q \<longleftrightarrow>
     rm_resource_id r = rm_resource_id q \<and> rm_resource_type r = rm_resource_type q \<and> rm_member_id r = rm_member_id q"

definition create_resource_member :: "resource_member \<Rightarrow> resource_db \<Rightarrow> resource_member res \<times> resource_db" where
  "create_resource_member r s =
     (if \<exists>q \<in> set (rd_members s). same_membership r q then (Inl (DBDuplicateEntryError (rm_member_id r)), s)
      else (Inr r, s\<lparr>rd_members := rd_members s @ [r]\<rparr>))"

definition update_resource_member :: "actor \<Rightarrow> string \<Rightarrow> string \<Rightarrow> string \<Rightarrow> string \<Rightarrow> resource_db \<Rightarrow> unit res \<times> resource_db" where
  "update_resource_member a i res_type member_id status s =
     (if member_id \<noteq> get_project_id a then (Inl (DBEntityNotFoundError member_id), s)
      else (case find (\<lambda>r. rm_resource_type r = res_type \<and> meets (get_criterion a i (Some member_id) False) r) (rd_members s) of
          None \<Rightarrow> (Inl (DBEntityNotFoundError member_id), s)
        | Some r \<Rightarrow> (Inr (), s\<lparr>rd_members := map (\<lambda>q. if same_membership q r then q\<lparr>rm_status := status\<rparr> else q) (rd_members s)\<rparr>)))"

definition delete_resource_member :: "actor \<Rightarrow> string \<Rightarrow> string \<Rightarrow> string \<Rightarrow> resource_db \<Rightarrow> unit res \<times> resource_db" where
  "delete_resource_member a i res_type member_id s =
     (let P = (\<lambda>r. rm_resource_type r = res_type \<and> meets (get_criterion a i (Some member_id) True) r)
      in if filter P (rd_members s) = [] then (Inl (DBEntityNotFoundError member_id), s)
         else (Inr (), s\<lparr>rd_members := filter (\<lambda>r. \<not> P r) (rd_members s)\<rparr>))"

text \<open>\<^verbatim>\<open>MembersController.post\<close> and \<^verbatim>\<open>put\<close>, which read a workflow whatever the type of the resource is.\<close>

definition share_resource :: "actor \<Rightarrow> string \<Rightarrow> string \<Rightarrow> string \<Rightarrow> resource_db \<Rightarrow> resource_member res \<times> resource_db" where
  "share_resource a res_type i member_id s =
     (if \<not> ac_auth_enable a \<or> member_id = [] then (Inl (WorkflowException ''Member id must be provided.''), s)
      else (case get_workflow_def a i (Some []) s of
          Inl e \<Rightarrow> (Inl e, s)
        | Inr x \<Rightarrow>
            (if ob_scope x \<noteq> ''private'' then (Inl (WorkflowException ''Only private resource could be shared.''), s)
             else create_resource_member \<lparr>rm_resource_id = i, rm_resource_type = res_type, rm_project = get_project_id a,
               rm_member_id = member_id, rm_status = ''pending''\<rparr> s)))"

definition set_member_status :: "actor \<Rightarrow> string \<Rightarrow> string \<Rightarrow> string \<Rightarrow> string \<Rightarrow> resource_db \<Rightarrow> unit res \<times> resource_db" where
  "set_member_status a res_type i member_id status s =
     (if \<not> ac_auth_enable a \<or> status = [] then (Inl (WorkflowException ''Status must be provided.''), s)
      else update_resource_member a i res_type member_id status s)"

end
