(* ===== verification/Event_Engine.thy ===== *)
theory Event_Engine
  imports Resource_Access Expressions
begin

text \<open>
  The service that starts workflows on notifications, \<^verbatim>\<open>event_engine/default_event_engine.py\<close>: what it knows of
  the event triggers, its listeners, the queue of notifications and the loop of its thread. The evaluator of
  expressions, the creation of a context from a trust and the messaging library are arguments; a listener is
  the list of event types that it was created with. Stopping is not modelled.
\<close>

section \<open>Event triggers and notifications\<close>

text \<open>A row of \<^verbatim>\<open>event_triggers_v2\<close>; the workflow is \<open>ob_workflow_id\<close>. A JSON column may hold null.\<close>

record event_trigger = db_object +
  et_workflow_input :: val
  et_workflow_params :: val
  et_exchange :: string
  et_topic :: string
  et_event :: string
  et_trust_id :: "string option"

text \<open>What the engine keeps of a trigger: the row and, except in an update, the namespace of its workflow.\<close>

record trigger_info =
  ti_row :: event_trigger
  ti_namespace :: "string option"

record notification =
  nt_event_type :: string
  nt_payload :: val
  nt_publisher :: val
  nt_timestamp :: val
  nt_context :: "val dict"

text \<open>The dictionary that \<^verbatim>\<open>handle_event\<close> of \<^verbatim>\<open>mistral/messaging.py\<close> puts into the queue.\<close>

definition handle_event :: "notification \<Rightarrow> val dict" where
  "handle_event n = [(''event_type'', VStr (nt_event_type n)), (''payload'', nt_payload n), (''publisher'', nt_publisher n),
     (''timestamp'', nt_timestamp n), (''context'', VDict (nt_context n))]"

section \<open>Shell patterns\<close>

text \<open>\<^verbatim>\<open>fnmatch\<close> of the standard library on POSIX; the ranges of a set are pairs of characters.\<close>

datatype glob = GStar | GAny | GLit char | GSet bool "(char \<times> char) list"

fun glob_ranges :: "string \<Rightarrow> (char \<times> char) list" where
  "glob_ranges (c # CHR ''-'' # d # s) = (c, d) # glob_ranges s"
| "glob_ranges (c # s) = (c, c) # glob_ranges s"
| "glob_ranges [] = []"

text \<open>The text up to the bracket that closes a set; one right at its start does not close it.\<close>

definition glob_close :: "string \<Rightarrow> (string \<times> string) option" where
  "glob_close s =
     (let (bang, t) = (case s of c # r \<Rightarrow> if c = CHR ''!'' then (''!'', r) else ([], s) | [] \<Rightarrow> ([], []));
          (first, u) = (case t of c # r \<Rightarrow> if c = CHR '']'' then ('']'', r) else ([], t) | [] \<Rightarrow> ([], []));
          body = takeWhile (\<lambda>c. c \<noteq> CHR '']'') u
      in if body = u then None else Some (bang @ first @ body, drop (Suc (length body)) u))"

lemma glob_close_shorter: "glob_close s = Some (b, r) \<Longrightarrow> length r < Suc (length s)"
  by (auto simp: glob_close_def Let_def split: if_splits list.splits)

function glob_of :: "string \<Rightarrow> glob list" where
  "glob_of [] = []"
| "glob_of (c # s) =
     (if c = CHR ''*'' then GStar # glob_of s
      else if c = CHR ''?'' then GAny # glob_of s
      else if c = CHR ''['' then
        (case glob_close s of
           None \<Rightarrow> GLit c # glob_of s
         | Some (body, rest) \<Rightarrow>
             (if body \<noteq> [] \<and> hd body = CHR ''!'' then GSet False (glob_ranges (tl body)) else GSet True (glob_ranges body)) # glob_of rest)
      else GLit c # glob_of s)"
  by pat_completeness auto
termination
  by (relation "measure length") (auto dest: glob_close_shorter)

definition in_ranges :: "char \<Rightarrow> (char \<times> char) list \<Rightarrow> bool" where
  "in_ranges c rs \<longleftrightarrow> list_ex (\<lambda>(lo, hi). of_char lo \<le> (of_char c :: nat) \<and> of_char c \<le> (of_char hi :: nat)) rs"

function glob_match :: "glob list \<Rightarrow> string \<Rightarrow> bool" where
  "glob_match [] s \<longleftrightarrow> s = []"
| "glob_match (GStar # gs) s \<longleftrightarrow> glob_match gs s \<or> (case s of [] \<Rightarrow> False | _ # t \<Rightarrow> glob_match (GStar # gs) t)"
| "glob_match (GAny # gs) s \<longleftrightarrow> s \<noteq> [] \<and> glob_match gs (tl s)"
| "glob_match (GLit c # gs) s \<longleftrightarrow> s \<noteq> [] \<and> hd s = c \<and> glob_match gs (tl s)"
| "glob_match (GSet pos rs # gs) s \<longleftrightarrow> s \<noteq> [] \<and> in_ranges (hd s) rs = pos \<and> glob_match gs (tl s)"
  by pat_completeness auto
termination
  by (relation "measures [\<lambda>(gs, s). length gs, \<lambda>(gs, s). length s]") auto

definition fn_match :: "string \<Rightarrow> string \<Rightarrow> bool" where
  "fn_match name pattern = glob_match (glob_of pattern) name"

section \<open>Converting notifications\<close>

record event_definition =
  ed_event_types :: "string list"
  ed_properties :: val

text \<open>\<^verbatim>\<open>EventDefinition.__init__\<close>; event types are strings.\<close>

definition event_definition_of :: "val dict \<Rightarrow> event_definition res" where
  "event_definition_of cfg =
     (case (dget cfg ''event_types'', dget cfg ''properties'') of
        (None, _) \<Rightarrow> Inl (MistralException ''Required field event_types not specified'')
      | (_, None) \<Rightarrow> Inl (MistralException ''Required field properties not specified'')
      | (Some ts, Some p) \<Rightarrow>
          Inr \<lparr>ed_event_types = (case ts of VStr t \<Rightarrow> [t] | VList vs \<Rightarrow> map text_of vs | _ \<Rightarrow> []), ed_properties = p\<rparr>)"

definition match_type :: "event_definition \<Rightarrow> string \<Rightarrow> bool" where
  "match_type d event_type = list_ex (fn_match event_type) (ed_event_types d)"

text \<open>What the service relies on; \<open>ey_definitions\<close> are the definitions in the order of the file.\<close>

record ee_sys =
  ey_env :: env
  ey_auth_enable :: bool
  ey_definitions :: "event_definition list"
  ey_create_context :: "string option \<Rightarrow> string \<Rightarrow> unit res"

definition default_properties :: val where
  "default_properties = VDict [(''service'', VStr ''<% $.publisher %>''), (''project_id'', VStr ''<% $.context.project_id %>''),
     (''user_id'', VStr ''<% $.context.user_id %>''), (''timestamp'', VStr ''<% $.timestamp %>'')]"

definition get_event_definition :: "ee_sys \<Rightarrow> string \<Rightarrow> event_definition option" where
  "get_event_definition ey event_type = find (\<lambda>d. match_type d event_type) (rev (ey_definitions ey))"

definition convert_event :: "ee_sys \<Rightarrow> notification \<Rightarrow> val res" where
  "convert_event ey n =
     evaluate_recursively (ey_env ey)
       (case get_event_definition ey (nt_event_type n) of None \<Rightarrow> default_properties | Some d \<Rightarrow> ed_properties d) [handle_event n]"

section \<open>The state of the service\<close>

text \<open>The listeners are a dictionary whose keys are pairs of an exchange and a topic.\<close>

type_synonym listeners = "((string \<times> string) \<times> string list) list"

record event_engine =
  ee_map :: "trigger_info list dict"
  ee_listeners :: listeners
  ee_queue :: "notification list"
  ee_alive :: bool

definition set_listener :: "string \<times> string \<Rightarrow> string list \<Rightarrow> listeners \<Rightarrow> listeners" where
  "set_listener k events ls = (if k \<in> set (map fst ls) then map (\<lambda>(j, es). if j = k then (j, events) else (j, es)) ls else ls @ [(k, events)])"

definition remove_listener :: "string \<times> string \<Rightarrow> listeners \<Rightarrow> listeners" where
  "remove_listener k ls = filter (\<lambda>(j, es). j \<noteq> k) ls"

definition topic_of :: "event_trigger \<Rightarrow> string \<times> string" where
  "topic_of t = (et_exchange t, et_topic t)"

text \<open>Registering a trigger when the service starts.\<close>

definition load_trigger :: "(event_trigger \<Rightarrow> string) \<Rightarrow> event_trigger \<Rightarrow> event_engine \<Rightarrow> event_engine" where
  "load_trigger namespace t e =
     e\<lparr>ee_map := dset (et_event t) (dget_default (ee_map e) (et_event t) [] @ [\<lparr>ti_row = t, ti_namespace = Some (namespace t)\<rparr>]) (ee_map e),
       ee_listeners := set_listener (topic_of t)
         (let es = (case map_of (ee_listeners e) (topic_of t) of None \<Rightarrow> [] | Some es \<Rightarrow> es)
          in if et_event t \<in> set es then es else es @ [et_event t]) (ee_listeners e)\<rparr>"

definition start_listeners :: "(event_trigger \<Rightarrow> string) \<Rightarrow> event_trigger list \<Rightarrow> event_engine" where
  "start_listeners namespace rows =
     fold (load_trigger namespace) rows \<lparr>ee_map = [], ee_listeners = [], ee_queue = [], ee_alive = True\<rparr>"

section \<open>Requests of the API\<close>

definition ee_create_trigger :: "trigger_info \<Rightarrow> string list \<Rightarrow> event_engine \<Rightarrow> event_engine" where
  "ee_create_trigger i events e =
     (let ts = dget_default (ee_map e) (et_event (ti_row i)) []
      in e\<lparr>ee_map := dset (et_event (ti_row i)) (if ob_id (ti_row i) \<in> set (map (\<lambda>t. ob_id (ti_row t)) ts) then ts else ts @ [i]) (ee_map e),
           ee_listeners := set_listener (topic_of (ti_row i)) events (ee_listeners e)\<rparr>)"

text \<open>\<^verbatim>\<open>t.update(trigger)\<close> with a dictionary that has no namespace; an assertion that fails changes nothing.\<close>

definition ee_update_trigger :: "event_trigger \<Rightarrow> event_engine \<Rightarrow> unit res \<times> event_engine" where
  "ee_update_trigger r e =
     (case dget (ee_map e) (et_event r) of
        None \<Rightarrow> (Inl AssertionError, e)
      | Some ts \<Rightarrow> (Inr (), e\<lparr>ee_map := dset (et_event r) (map (\<lambda>t. if ob_id (ti_row t) = ob_id r then t\<lparr>ti_row := r\<rparr> else t) ts) (ee_map e)\<rparr>))"

fun remove_trigger :: "string \<Rightarrow> trigger_info list \<Rightarrow> trigger_info list" where
  "remove_trigger i [] = []"
| "remove_trigger i (t # ts) = (if ob_id (ti_row t) = i then ts else t # remove_trigger i ts)"

definition ee_delete_trigger :: "event_trigger \<Rightarrow> string list \<Rightarrow> event_engine \<Rightarrow> unit res \<times> event_engine" where
  "ee_delete_trigger r events e =
     (case dget (ee_map e) (et_event r) of
        None \<Rightarrow> (Inl AssertionError, e)
      | Some ts \<Rightarrow>
          (let left = remove_trigger (ob_id r) ts;
               e1 = e\<lparr>ee_map := (if left = [] then ddel (et_event r) (ee_map e) else dset (et_event r) left (ee_map e))\<rparr>
           in if events = []
              then (if topic_of r \<in> set (map fst (ee_listeners e)) then (Inr (), e1\<lparr>ee_listeners := remove_listener (topic_of r) (ee_listeners e)\<rparr>)
                    else (Inl (KeyError ''exchange_topic_listener_map''), e1))
              else (Inr (), e1\<lparr>ee_listeners := set_listener (topic_of r) events (ee_listeners e)\<rparr>)))"

section \<open>The loop\<close>

text \<open>The start of a workflow that the service asks the engine for.\<close>

record event_start =
  es_trigger :: string
  es_project :: string
  es_trust :: "string option"
  es_workflow :: "string option"
  es_namespace :: string
  es_input :: val
  es_params :: "val dict"

text \<open>
  The keywords that \<^verbatim>\<open>EngineClient.start_workflow\<close> has besides \<^verbatim>\<open>**params\<close> and that the call passes already: a second value
  for one of them is a \<^verbatim>\<open>TypeError\<close>, which the loop catches, as it does the \<^verbatim>\<open>KeyError\<close> of a missing namespace.
\<close>

definition passed_keywords :: "string list" where
  "passed_keywords = [''self'', ''wf_identifier'', ''wf_namespace'', ''wf_ex_id'', ''wf_input'', ''description'']"

definition start_request :: "trigger_info \<Rightarrow> val dict \<Rightarrow> event_start list" where
  "start_request t params =
     (case ti_namespace t of
        None \<Rightarrow> []
      | Some n \<Rightarrow>
          (if list_ex (\<lambda>k. k \<in> set passed_keywords) (dkeys params) then []
           else [\<lparr>es_trigger = ob_id (ti_row t), es_project = ob_project (ti_row t), es_trust = et_trust_id (ti_row t),
                  es_workflow = ob_workflow_id (ti_row t), es_namespace = n, es_input = et_workflow_input (ti_row t), es_params = params\<rparr>]))"

definition with_event_params :: "val \<Rightarrow> trigger_info \<Rightarrow> trigger_info" where
  "with_event_params p t =
     t\<lparr>ti_row := (ti_row t)\<lparr>et_workflow_params :=
        (case et_workflow_params (ti_row t) of VDict d \<Rightarrow> VDict (dset ''event_params'' p d) | v \<Rightarrow> v)\<rparr>\<rparr>"

text \<open>
  \<^verbatim>\<open>_start_workflow\<close> on the selected triggers. The parameters are the dictionary of the trigger itself, which
  keeps the new entry. An exception before the call of the engine leaves the loop and ends the thread: the last
  component tells whether it lives on.
\<close>

fun start_workflows :: "ee_sys \<Rightarrow> (event_trigger \<Rightarrow> bool) \<Rightarrow> val \<Rightarrow> trigger_info list \<Rightarrow> trigger_info list \<times> event_start list \<times> bool" where
  "start_workflows ey sel p [] = ([], [], True)"
| "start_workflows ey sel p (t # ts) =
     (if \<not> sel (ti_row t) then (case start_workflows ey sel p ts of (us, ss, ok) \<Rightarrow> (t # us, ss, ok))
      else (case et_workflow_params (ti_row t) of
          VDict d \<Rightarrow>
            (let t' = with_event_params p t
             in if ey_auth_enable ey \<and> ey_create_context ey (et_trust_id (ti_row t)) (ob_project (ti_row t)) \<noteq> Inr () then (t' # ts, [], False)
                else (case start_workflows ey sel p ts of (us, ss, ok) \<Rightarrow> (t' # us, start_request t' (dset ''event_params'' p d) @ ss, ok)))
        | _ \<Rightarrow> (t # ts, [], False)))"

text \<open>Which triggers a notification concerns.\<close>

definition is_public :: "event_trigger \<Rightarrow> bool" where
  "is_public t \<longleftrightarrow> ob_scope t = ''public''"

definition concerns :: "notification \<Rightarrow> event_trigger \<Rightarrow> bool" where
  "concerns n t \<longleftrightarrow> VStr (ob_project t) = dget_default (nt_context n) ''project_id'' VNone \<or> is_public t"

definition skips_event :: "ee_sys \<Rightarrow> notification \<Rightarrow> event_trigger list \<Rightarrow> bool" where
  "skips_event ey n ts \<longleftrightarrow> \<not> list_ex is_public ts \<and> ey_auth_enable ey \<and>
     dget_default (nt_context n) ''project_id'' (VStr []) \<notin> set (map (\<lambda>t. VStr (ob_project t)) ts)"

definition handle_notification :: "ee_sys \<Rightarrow> notification \<Rightarrow> event_engine \<Rightarrow> event_start list \<times> event_engine" where
  "handle_notification ey n e =
     (case dget (ee_map e) (nt_event_type n) of
        None \<Rightarrow> ([], e)
      | Some ts \<Rightarrow>
          (if skips_event ey n (map ti_row ts) then ([], e)
           else (case convert_event ey n of
               Inl _ \<Rightarrow> ([], e\<lparr>ee_alive := False\<rparr>)
             | Inr p \<Rightarrow>
                 (case start_workflows ey (concerns n) p ts of
                    (us, ss, ok) \<Rightarrow> (ss, e\<lparr>ee_map := dset (nt_event_type n) us (ee_map e), ee_alive := ok\<rparr>)))))"

text \<open>One round of the loop of the thread.\<close>

definition event_loop :: "ee_sys \<Rightarrow> event_engine \<Rightarrow> event_start list \<times> event_engine" where
  "event_loop ey e =
     (if \<not> ee_alive e then ([], e)
      else (case ee_queue e of [] \<Rightarrow> ([], e) | n # ns \<Rightarrow> handle_notification ey n (e\<lparr>ee_queue := ns\<rparr>)))"

definition process_notification_event :: "notification \<Rightarrow> event_engine \<Rightarrow> event_engine" where
  "process_notification_event n e = e\<lparr>ee_queue := ee_queue e @ [n]\<rparr>"

end
