(* ===== verification/Claims.thy ===== *)
theory Claims
  imports Prelude
begin

text \<open>
  The contract by which processes that share a table take a row for themselves: an UPDATE whose WHERE clause names the value
  of a column that the process has read before. Jobs of the scheduler, delayed calls and cron triggers are taken in this way.
\<close>

section \<open>Attempts\<close>

text \<open>What the attempts of several processes answer, one after the other, each with the value it writes.\<close>

primrec attempts :: "('n \<Rightarrow> 's \<Rightarrow> bool \<times> 's) \<Rightarrow> 'n list \<Rightarrow> 's \<Rightarrow> bool list" where
  "attempts claim [] s = []"
| "attempts claim (v # vs) s = (let (ok, s') = claim v s in ok # attempts claim vs s')"

text \<open>\<open>claim k e v\<close> is the update of the row \<open>k\<close> from \<open>e\<close> to \<open>v\<close>, \<open>stamp\<close> the column.\<close>

locale exclusive_claim =
  fixes claim :: "'k \<Rightarrow> 'e \<Rightarrow> 'n \<Rightarrow> 's \<Rightarrow> bool \<times> 's"
    and stamp :: "'k \<Rightarrow> 's \<Rightarrow> 'e option"
    and written :: "'n \<Rightarrow> 'e"
  assumes claim_answer: "fst (claim k e v s) \<longleftrightarrow> stamp k s = Some e"
    and claim_writes: "stamp k s = Some e \<Longrightarrow> stamp k (snd (claim k e v s)) = Some (written v)"
    and claim_refused: "stamp k s \<noteq> Some e \<Longrightarrow> snd (claim k e v s) = s"
begin

lemma all_refused: "stamp k s \<noteq> Some e \<Longrightarrow> attempts (claim k e) vs s = replicate (length vs) False"
  by (induction vs) (simp_all add: split_beta claim_answer claim_refused)

lemma first_wins:
  assumes "e \<notin> written ` set (v # vs)"
  shows "attempts (claim k e) (v # vs) s = (stamp k s = Some e) # replicate (length vs) False"
proof (cases "stamp k s = Some e")
  case True
  then have "stamp k (snd (claim k e v s)) \<noteq> Some e" using assms claim_writes by auto
  then show ?thesis using True by (simp add: split_beta claim_answer all_refused)
next
  case False
  then show ?thesis by (simp add: split_beta claim_answer claim_refused all_refused)
qed

end

end
