(* ===== verification/Cron_Triggers.thy ===== *)
theory Cron_Triggers
  imports Resource_Access Engine_Utils Claims
begin

text \<open>
  Cron triggers: \<^verbatim>\<open>services/triggers.py\<close>, \<^verbatim>\<open>services/periodic.py\<close> and the queries of cron triggers in
  \<^verbatim>\<open>db/v2/sqlalchemy/api.py\<close>. A trigger is a row of \<open>Resource_Access\<close> with the columns of its schedule;
  times are numbers of microseconds. \<^verbatim>\<open>croniter\<close>, the parser of dates and of JSON and the table of workflow
  definitions are arguments. An update whose WHERE clause names the time of the next execution and a
  deletion are atomic, and a process works on the snapshot of a row that its query returned. The
  contexts of users carry no trust.
\<close>

section \<open>Rows and queries\<close>

record cron_trigger = db_object +
  ct_pattern :: string
  ct_first_time :: "int option"
  ct_next_time :: int
  ct_remaining :: "int option"
  ct_workflow_name :: string
  ct_workflow_namespace :: string
  ct_workflow_input :: "val dict"
  ct_workflow_params :: "val dict"
  ct_trust_id :: "string option"

definition seconds :: "int \<Rightarrow> int" where
  "seconds n = n * 1000000"

text \<open>The tables as \<open>Resource_Access\<close> sees them.\<close>

definition cron_table :: "cron_trigger list \<Rightarrow> resource_db" where
  "cron_table rows = \<lparr>rd_objects = (\<lambda>_. [])(CronTrigger := map db_object.truncate rows), rd_members = []\<rparr>"

definition row_of_id :: "cron_trigger list \<Rightarrow> db_object \<Rightarrow> cron_trigger res" where
  "row_of_id rows x = (case find (\<lambda>t. ob_id t = ob_id x) rows of None \<Rightarrow> Inl (DBEntityNotFoundError (ob_id x)) | Some t \<Rightarrow> Inr t)"

definition find_cron_trigger :: "actor \<Rightarrow> string \<Rightarrow> cron_trigger list \<Rightarrow> cron_trigger res" where
  "find_cron_trigger a identifier rows = bind_res (get_cron_trigger a identifier (cron_table rows)) (row_of_id rows)"

definition next_cron_triggers :: "int \<Rightarrow> cron_trigger list \<Rightarrow> cron_trigger list" where
  "next_cron_triggers time rows = sort_key ct_next_time (filter (\<lambda>t. ct_next_time t < time) rows)"

text \<open>\<^verbatim>\<open>update_cron_trigger\<close> with a filter on the time of the next execution; the number of rows.\<close>

definition update_cron_trigger ::
  "actor \<Rightarrow> string \<Rightarrow> int \<Rightarrow> int option \<Rightarrow> int \<Rightarrow> cron_trigger list \<Rightarrow> nat res \<times> cron_trigger list" where
  "update_cron_trigger a identifier next_time remaining expected rows =
     (case find_cron_trigger a identifier rows of
        Inl e \<Rightarrow> (Inl e, rows)
      | Inr x \<Rightarrow>
          (if ct_next_time x = expected
           then (Inr 1, map (\<lambda>t. if ob_id t = ob_id x then t\<lparr>ct_next_time := next_time, ct_remaining := remaining\<rparr> else t) rows)
           else (Inr 0, rows)))"

text \<open>Advancing a trigger is an exclusive claim of its time.\<close>

definition claim_time :: "actor \<Rightarrow> string \<Rightarrow> int \<Rightarrow> int \<times> int option \<Rightarrow> cron_trigger list \<Rightarrow> bool \<times> cron_trigger list" where
  "claim_time a identifier expected v rows = apfst (\<lambda>n. n = Inr 1) (update_cron_trigger a identifier (fst v) (snd v) expected rows)"

definition time_of :: "actor \<Rightarrow> string \<Rightarrow> cron_trigger list \<Rightarrow> int option" where
  "time_of a identifier rows = (case find_cron_trigger a identifier rows of Inl _ \<Rightarrow> None | Inr t \<Rightarrow> Some (ct_next_time t))"

lemma find_after_update:
  assumes "find_cron_trigger a identifier rows = Inr x"
  shows "find_cron_trigger a identifier (map (\<lambda>t. if ob_id t = ob_id x then t\<lparr>ct_next_time := n, ct_remaining := r\<rparr> else t) rows)
    = Inr (x\<lparr>ct_next_time := n, ct_remaining := r\<rparr>)"
proof -
  let ?f = "\<lambda>t. if ob_id t = ob_id x then t\<lparr>ct_next_time := n, ct_remaining := r\<rparr> else t"
  obtain y where y: "get_cron_trigger a identifier (cron_table rows) = Inr y" "find (\<lambda>t. ob_id t = ob_id y) rows = Some x"
    using assms by (auto simp: find_cron_trigger_def row_of_id_def elim!: bind_res_InrE split: option.splits)
  have same: "cron_table (map ?f rows) = cron_table rows"
    by (auto simp: cron_table_def fun_eq_iff db_object.truncate_def)
  have id: "ob_id y = ob_id x" using y(2) by (auto simp: find_Some_iff)
  have "find (\<lambda>t. ob_id t = ob_id y) (map ?f rows) = map_option ?f (find (\<lambda>t. ob_id t = ob_id y) rows)"
    by (induction rows) auto
  then show ?thesis using y id unfolding find_cron_trigger_def same row_of_id_def by simp
qed

interpretation time_claim: exclusive_claim "claim_time a" "time_of a" fst for a
  by unfold_locales (auto simp: claim_time_def time_of_def update_cron_trigger_def find_after_update split: sum.splits)

lemma one_process_advances:
  assumes "expected \<notin> fst ` set (v # vs)"
  shows "attempts (claim_time a identifier expected) (v # vs) rows = (time_of a identifier rows = Some expected) # replicate (length vs) False"
  by (rule time_claim.first_wins) (use assms in simp)

text \<open>The deletion of \<open>delete_cron_trigger_row\<close>, with the number of rows.\<close>

definition remove_cron_trigger :: "actor \<Rightarrow> string \<Rightarrow> cron_trigger list \<Rightarrow> nat res \<times> cron_trigger list" where
  "remove_cron_trigger a identifier rows =
     (case delete_cron_trigger_row a identifier (cron_table rows) of
        (Inl e, _) \<Rightarrow> (Inl e, rows)
      | (Inr _, s) \<Rightarrow>
          (let left = filter (\<lambda>t. ob_id t \<in> set (map ob_id (rd_objects s CronTrigger))) rows
           in (Inr (length rows - length left), left)))"

section \<open>Creation\<close>

definition get_next_execution_time :: "(string \<Rightarrow> int \<Rightarrow> int res) \<Rightarrow> string \<Rightarrow> int \<Rightarrow> int res" where
  "get_next_execution_time cron pattern start_time = cron pattern start_time"

definition given :: "string option \<Rightarrow> bool" where
  "given p \<longleftrightarrow> (case p of None \<Rightarrow> False | Some q \<Rightarrow> q \<noteq> [])"

definition validate_cron_trigger_input ::
  "(string \<Rightarrow> bool) \<Rightarrow> int \<Rightarrow> string option \<Rightarrow> int option \<Rightarrow> int option \<Rightarrow> unit res" where
  "validate_cron_trigger_input valid_pattern now pattern first_time cnt =
     (if first_time = None \<and> \<not> given pattern
      then Inl (InvalidModelException ''Pattern or first_execution_time must be specified.'')
      else if (case first_time of None \<Rightarrow> False | Some f \<Rightarrow> now + seconds 60 > f)
      then Inl (InvalidModelException ''first_execution_time must be at least 1 minute in the future.'')
      else if first_time \<noteq> None \<and> \<not> given pattern \<and> (case cnt of None \<Rightarrow> False | Some n \<Rightarrow> n > 1)
      then Inl (InvalidModelException ''Pattern must be provided if count is superior to 1.'')
      else if given pattern \<and> \<not> valid_pattern (the pattern)
      then Inl (InvalidModelException ''The specified pattern is not valid'')
      else Inr ())"

record cron_workflow =
  cw_id :: string
  cw_name :: string
  cw_namespace :: string
  cw_input :: "val option dict"

text \<open>What the code relies on from outside: croniter, the parser of dates, the workflow definitions, trusts.\<close>

record cron_sys =
  cy_auth_enable :: bool
  cy_next :: "string \<Rightarrow> int \<Rightarrow> int res"
  cy_valid_pattern :: "string \<Rightarrow> bool"
  cy_parse_time :: "string \<Rightarrow> int option"
  cy_workflow :: "string \<Rightarrow> cron_workflow res"

record cron_args =
  ca_name :: string
  ca_workflow_name :: string
  ca_workflow_id :: "string option"
  ca_workflow_input :: "val dict"
  ca_workflow_params :: "val dict"
  ca_pattern :: "string option"
  ca_first_time :: "string option"
  ca_count :: "int option"
  ca_scope :: string

text \<open>The triggers and the trusts that Keystone holds.\<close>

record cron_world =
  cd_rows :: "cron_trigger list"
  cd_trusts :: "string list"

definition delete_trust :: "string option \<Rightarrow> 'a cron_world_scheme \<Rightarrow> 'a cron_world_scheme" where
  "delete_trust i w = (case i of None \<Rightarrow> w | Some k \<Rightarrow> w\<lparr>cd_trusts := filter (\<lambda>j. j \<noteq> k) (cd_trusts w)\<rparr>)"

definition add_trust :: "string option \<Rightarrow> 'a cron_world_scheme \<Rightarrow> 'a cron_world_scheme" where
  "add_trust i w = (case i of None \<Rightarrow> w | Some k \<Rightarrow> w\<lparr>cd_trusts := cd_trusts w @ [k]\<rparr>)"

text \<open>Two rows violate a unique constraint; a null column never equals another one.\<close>

definition same_trigger :: "cron_trigger \<Rightarrow> cron_trigger \<Rightarrow> bool" where
  "same_trigger t x \<longleftrightarrow>
     (ob_name t = ob_name x \<and> ob_project t = ob_project x) \<or>
     (ct_workflow_input t = ct_workflow_input x \<and> ct_workflow_name t = ct_workflow_name x \<and> ct_pattern t = ct_pattern x \<and>
      ob_project t = ob_project x \<and> ct_workflow_params t = ct_workflow_params x \<and>
      ct_remaining t \<noteq> None \<and> ct_remaining t = ct_remaining x \<and> ct_first_time t \<noteq> None \<and> ct_first_time t = ct_first_time x)"

definition insert_cron_trigger :: "cron_trigger \<Rightarrow> cron_trigger list \<Rightarrow> cron_trigger res \<times> cron_trigger list" where
  "insert_cron_trigger t rows =
     (if \<exists>x \<in> set rows. same_trigger t x \<or> ob_id t = ob_id x then (Inl (DBDuplicateEntryError (ob_name t)), rows)
      else (Inr t, rows @ [t]))"

text \<open>The checks and the new row, with the identifiers \<open>i\<close> of the row and \<open>k\<close> of the trust.\<close>

definition new_cron_trigger :: "cron_sys \<Rightarrow> actor \<Rightarrow> int \<Rightarrow> string \<Rightarrow> string option \<Rightarrow> cron_args \<Rightarrow> cron_trigger res" where
  "new_cron_trigger cy a now i k c =
     bind_res (case ca_first_time c of
         None \<Rightarrow> Inr None
       | Some f \<Rightarrow> (case cy_parse_time cy f of None \<Rightarrow> Inl (InvalidModelException ''time data does not match format'') | Some t \<Rightarrow> Inr (Some t)))
       (\<lambda>first_time.
     bind_res (validate_cron_trigger_input (cy_valid_pattern cy) now (ca_pattern c) first_time (ca_count c)) (\<lambda>_.
     bind_res (case first_time of Some t \<Rightarrow> Inr t | None \<Rightarrow> get_next_execution_time (cy_next cy) (the (ca_pattern c)) now) (\<lambda>next_time.
     bind_res (cy_workflow cy (if given (ca_workflow_id c) then the (ca_workflow_id c) else ca_workflow_name c)) (\<lambda>wf.
     bind_res (validate_input (cw_input wf) (ca_workflow_input c) (cw_name wf)) (\<lambda>_.
       Inr \<lparr>ob_id = i, ob_name = ca_name c, ob_namespace = [], ob_project = get_project_id a, ob_scope = ca_scope c,
         ob_is_system = False, ob_version = 1, ob_workflow_id = Some (cw_id wf), ob_values = [],
         ct_pattern = (case ca_pattern c of None \<Rightarrow> ''0 0 30 2 0'' | Some p \<Rightarrow> p), ct_first_time = first_time, ct_next_time = next_time,
         ct_remaining = (if first_time \<noteq> None \<and> \<not> given (ca_pattern c) \<and> ca_count c \<in> {None, Some 0} then Some 1 else ca_count c),
         ct_workflow_name = cw_name wf, ct_workflow_namespace = cw_namespace wf, ct_workflow_input = ca_workflow_input c,
         ct_workflow_params = ca_workflow_params c, ct_trust_id = k\<rparr>)))))"

definition create_cron_trigger ::
  "cron_sys \<Rightarrow> actor \<Rightarrow> int \<Rightarrow> string \<Rightarrow> string \<Rightarrow> cron_args \<Rightarrow> cron_world \<Rightarrow> cron_trigger res \<times> cron_world" where
  "create_cron_trigger cy a now i trust c w =
     (let k = (if cy_auth_enable cy then Some trust else None)
      in case new_cron_trigger cy a now i k c of
           Inl e \<Rightarrow> (Inl e, w)
         | Inr t \<Rightarrow>
             (let w1 = add_trust k w
              in case insert_cron_trigger t (cd_rows w1) of
                   (Inl e, _) \<Rightarrow> (Inl e, delete_trust k w1)
                 | (Inr x, rows) \<Rightarrow> (Inr x, w1\<lparr>cd_rows := rows\<rparr>)))"

text \<open>\<^verbatim>\<open>delete_cron_trigger\<close> of \<^verbatim>\<open>services/triggers.py\<close>.\<close>

definition delete_cron_trigger :: "actor \<Rightarrow> string \<Rightarrow> string option \<Rightarrow> bool \<Rightarrow> cron_world \<Rightarrow> nat res \<times> cron_world" where
  "delete_cron_trigger a identifier trust_id remove_trust w =
     (case (if given trust_id then Inr trust_id
            else bind_res (find_cron_trigger a identifier (cd_rows w)) (\<lambda>t. Inr (ct_trust_id t))) of
        Inl e \<Rightarrow> (Inl e, w)
      | Inr k \<Rightarrow>
          (case remove_cron_trigger a identifier (cd_rows w) of
             (Inl e, _) \<Rightarrow> (Inl e, w)
           | (Inr n, rows) \<Rightarrow>
               (let w1 = w\<lparr>cd_rows := rows\<rparr> in (Inr n, if n > 0 \<and> remove_trust then delete_trust k w1 else w1))))"

section \<open>Execution\<close>

text \<open>What a process asks the engine to start: the trigger, its time and the request.\<close>

record cron_start =
  cr_trigger :: string
  cr_time :: int
  cr_workflow :: string
  cr_namespace :: string
  cr_input :: "val dict"
  cr_params :: "val dict"

definition remaining_after :: "int option \<Rightarrow> int option" where
  "remaining_after r = (case r of Some n \<Rightarrow> (if n > 0 then Some (n - 1) else r) | None \<Rightarrow> None)"

definition advance_cron_trigger :: "cron_sys \<Rightarrow> actor \<Rightarrow> int \<Rightarrow> cron_trigger \<Rightarrow> cron_world \<Rightarrow> bool res \<times> cron_world" where
  "advance_cron_trigger cy a now t w =
     (let remaining = remaining_after (ct_remaining t);
          (r, w') =
            (if remaining = Some 0 then delete_cron_trigger a (ob_name t) (ct_trust_id t) False w
             else (case get_next_execution_time (cy_next cy) (ct_pattern t) (max now (ct_next_time t)) of
                 Inl e \<Rightarrow> (Inl e, w)
               | Inr next_time \<Rightarrow>
                   (case update_cron_trigger a (ob_name t) next_time remaining (ct_next_time t) (cd_rows w) of
                      (r, rows) \<Rightarrow> (r, w\<lparr>cd_rows := rows\<rparr>))))
      in (case r of
            Inl (DBEntityNotFoundError _) \<Rightarrow> (Inr False, w)
          | Inl e \<Rightarrow> (Inl e, w)
          | Inr n \<Rightarrow> (Inr (n > 0), w')))"

text \<open>The local context in which a process looks for the trigger.\<close>

definition trigger_ctx :: "cron_sys \<Rightarrow> cron_trigger \<Rightarrow> actor" where
  "trigger_ctx cy t = \<lparr>ac_auth_enable = cy_auth_enable cy, ac_has_ctx = True, ac_project = ob_project t, ac_is_admin = False\<rparr>"

definition start_of :: "cron_trigger \<Rightarrow> cron_start" where
  "start_of t = \<lparr>cr_trigger = ob_id t, cr_time = ct_next_time t, cr_workflow = ct_workflow_name t,
     cr_namespace = ct_workflow_namespace t, cr_input = ct_workflow_input t, cr_params = ct_workflow_params t\<rparr>"

text \<open>One iteration of \<^verbatim>\<open>process_cron_triggers_v2\<close>; exceptions are logged.\<close>

definition process_cron_trigger :: "cron_sys \<Rightarrow> int \<Rightarrow> cron_trigger \<Rightarrow> cron_world \<Rightarrow> cron_start list \<times> cron_world" where
  "process_cron_trigger cy now t w =
     (case advance_cron_trigger cy (trigger_ctx cy t) now t w of
        (Inr True, w') \<Rightarrow> ([start_of t], w')
      | (_, w') \<Rightarrow> ([], w'))"

fun process_snapshots :: "cron_sys \<Rightarrow> int \<Rightarrow> cron_trigger list \<Rightarrow> cron_world \<Rightarrow> cron_start list \<times> cron_world" where
  "process_snapshots cy now [] w = ([], w)"
| "process_snapshots cy now (t # ts) w =
     (case process_cron_trigger cy now t w of (s1, w1) \<Rightarrow> (case process_snapshots cy now ts w1 of (s2, w2) \<Rightarrow> (s1 @ s2, w2)))"

definition process_cron_triggers_v2 :: "cron_sys \<Rightarrow> int \<Rightarrow> cron_world \<Rightarrow> cron_start list \<times> cron_world" where
  "process_cron_triggers_v2 cy now w = process_snapshots cy now (next_cron_triggers (now + seconds 2) (cd_rows w)) w"

section \<open>Completed workflows\<close>

text \<open>\<^verbatim>\<open>on_workflow_complete\<close>: whether the trust of the context is deleted.\<close>

definition trust_is_over ::
  "(string \<Rightarrow> val option) \<Rightarrow> actor \<Rightarrow> string option \<Rightarrow> string \<Rightarrow> resource_db \<Rightarrow> bool" where
  "trust_is_over loads a parent description s =
     (parent = None \<and> description \<noteq> [] \<and>
      (case loads description of
         Some (VDict d) \<Rightarrow>
           (case dget d ''triggered_by'' of
              Some (VDict t) \<Rightarrow>
                (case dget t ''type'' of
                   Some (VStr ty) \<Rightarrow>
                     (case dget t ''id'' of
                        Some (VStr i) \<Rightarrow>
                          (if ty = ''cron_trigger''
                           then get_db_object_by_name_and_namespace_or_id a False CronTrigger i None s = None
                           else if ty = ''event_trigger'' then get_db_object_by_id a True EventTrigger i s = None
                           else False)
                      | _ \<Rightarrow> False)
                 | _ \<Rightarrow> False)
            | _ \<Rightarrow> False)
       | _ \<Rightarrow> False))"

end
