(* ===== verification/Event_Triggers.thy ===== *)
theory Event_Triggers
  imports Event_Engine Cron_Triggers
begin

text \<open>
  Event triggers in the API (\<^verbatim>\<open>api/controllers/v2/event_trigger.py\<close>, \<^verbatim>\<open>services/triggers.py\<close> and the operations of
  \<^verbatim>\<open>db/v2/sqlalchemy/api.py\<close>) and the service that is told of them: a request changes the table and sends a message,
  within its transaction, which the service handles later, in the order of sending. The tables are those of
  \<open>Cron_Triggers\<close> with the event triggers; the table of workflow definitions and the policies of the operator
  are arguments.
\<close>

section \<open>The table\<close>

record event_world = cron_world +
  ev_rows :: "event_trigger list"

definition event_table :: "event_trigger list \<Rightarrow> resource_db" where
  "event_table rows = \<lparr>rd_objects = (\<lambda>_. [])(EventTrigger := map db_object.truncate rows), rd_members = []\<rparr>"

definition find_event_trigger :: "actor \<Rightarrow> string \<Rightarrow> event_trigger list \<Rightarrow> event_trigger res" where
  "find_event_trigger a i rows =
     bind_res (get_event_trigger a i False (event_table rows)) (\<lambda>x.
       case find (\<lambda>t. ob_id t = ob_id x) rows of None \<Rightarrow> Inl (DBEntityNotFoundError i) | Some t \<Rightarrow> Inr t)"

text \<open>The unique constraint of the table.\<close>

definition same_event_trigger :: "event_trigger \<Rightarrow> event_trigger \<Rightarrow> bool" where
  "same_event_trigger t x \<longleftrightarrow> et_exchange t = et_exchange x \<and> et_topic t = et_topic x \<and> et_event t = et_event x \<and>
     ob_workflow_id t \<noteq> None \<and> ob_workflow_id t = ob_workflow_id x \<and> ob_project t = ob_project x"

definition insert_event_trigger :: "event_trigger \<Rightarrow> event_trigger list \<Rightarrow> event_trigger res \<times> event_trigger list" where
  "insert_event_trigger t rows =
     (if list_ex (\<lambda>x. same_event_trigger t x \<or> ob_id t = ob_id x) rows then (Inl (DBDuplicateEntryError (ob_name t)), rows)
      else (Inr t, rows @ [t]))"

text \<open>The columns of the type \<^verbatim>\<open>resources.EventTrigger\<close> that a request may set.\<close>

fun set_event_column :: "string \<times> val \<Rightarrow> event_trigger \<Rightarrow> event_trigger" where
  "set_event_column (k, v) t =
     (if k = ''name'' then t\<lparr>ob_name := text_of v\<rparr>
      else if k = ''scope'' then t\<lparr>ob_scope := text_of v\<rparr>
      else if k = ''workflow_id'' then t\<lparr>ob_workflow_id := (case v of VStr w \<Rightarrow> Some w | _ \<Rightarrow> None)\<rparr>
      else if k = ''workflow_input'' then t\<lparr>et_workflow_input := v\<rparr>
      else if k = ''workflow_params'' then t\<lparr>et_workflow_params := v\<rparr>
      else if k = ''exchange'' then t\<lparr>et_exchange := text_of v\<rparr>
      else if k = ''topic'' then t\<lparr>et_topic := text_of v\<rparr>
      else if k = ''event'' then t\<lparr>et_event := text_of v\<rparr>
      else t)"

definition replace_event_trigger :: "event_trigger \<Rightarrow> event_trigger list \<Rightarrow> event_trigger list" where
  "replace_event_trigger t rows = map (\<lambda>x. if ob_id x = ob_id t then t else x) rows"

definition update_event_trigger :: "actor \<Rightarrow> string \<Rightarrow> val dict \<Rightarrow> event_trigger list \<Rightarrow> event_trigger res \<times> event_trigger list" where
  "update_event_trigger a i vals rows =
     (case find_event_trigger a i rows of
        Inl e \<Rightarrow> (Inl e, rows)
      | Inr t \<Rightarrow> (let u = fold set_event_column vals t in (Inr u, replace_event_trigger u rows)))"

definition remove_event_trigger :: "string \<Rightarrow> event_trigger list \<Rightarrow> unit res \<times> event_trigger list" where
  "remove_event_trigger i rows =
     (if list_ex (\<lambda>t. ob_id t = i) rows then (Inr (), filter (\<lambda>t. ob_id t \<noteq> i) rows) else (Inl (DBEntityNotFoundError i), rows))"

definition events_on :: "string \<times> string \<Rightarrow> event_trigger list \<Rightarrow> string list" where
  "events_on k rows = map et_event (filter (\<lambda>t. topic_of t = k) rows)"

section \<open>Requests\<close>

datatype event_message =
    CreateMessage trigger_info "string list"
  | UpdateMessage event_trigger
  | DeleteMessage event_trigger "string list"

text \<open>The policies of the operator and the workflow definitions; \<open>vs_workflow\<close> looks one up by its identifier.\<close>

record event_api =
  vs_auth_enable :: bool
  vs_enforce :: "actor \<Rightarrow> string \<Rightarrow> bool"
  vs_workflow :: "actor \<Rightarrow> string \<Rightarrow> cron_workflow res"

definition enforce :: "event_api \<Rightarrow> actor \<Rightarrow> string \<Rightarrow> unit res" where
  "enforce vs a rule = (if vs_enforce vs a rule then Inr () else Inl (NotAllowedException rule))"

definition publicize_allowed :: "event_api \<Rightarrow> actor \<Rightarrow> val dict \<Rightarrow> unit res" where
  "publicize_allowed vs a vals =
     (if dget vals ''scope'' = Some (VStr ''public'') then enforce vs a ''event_triggers:publicize'' else Inr ())"

definition create_mandatory :: "string list" where
  "create_mandatory = [''exchange'', ''topic'', ''event'', ''workflow_id'']"

definition given_val :: "val dict \<Rightarrow> string \<Rightarrow> bool" where
  "given_val vals k \<longleftrightarrow> (case dget vals k of None \<Rightarrow> False | Some v \<Rightarrow> truthy v)"

definition dict_or_empty :: "val option \<Rightarrow> val" where
  "dict_or_empty v = (case v of Some x \<Rightarrow> (if truthy x then x else VDict []) | None \<Rightarrow> VDict [])"

definition vdict_of :: "val \<Rightarrow> val dict" where
  "vdict_of v = (case v of VDict d \<Rightarrow> d | _ \<Rightarrow> [])"

definition new_event_trigger :: "actor \<Rightarrow> string \<Rightarrow> string option \<Rightarrow> val dict \<Rightarrow> event_trigger" where
  "new_event_trigger a i k vals =
     \<lparr>ob_id = i, ob_name = text_of (dget_default vals ''name'' (VStr [])), ob_namespace = [], ob_project = get_project_id a,
      ob_scope = text_of (dget_default vals ''scope'' VNone), ob_is_system = False, ob_version = 1,
      ob_workflow_id = Some (text_of (dget_default vals ''workflow_id'' VNone)), ob_values = [],
      et_workflow_input = dict_or_empty (dget vals ''workflow_input''), et_workflow_params = dict_or_empty (dget vals ''workflow_params''),
      et_exchange = text_of (dget_default vals ''exchange'' VNone), et_topic = text_of (dget_default vals ''topic'' VNone),
      et_event = text_of (dget_default vals ''event'' VNone), et_trust_id = k\<rparr>"

text \<open>
  \<^verbatim>\<open>create_event_trigger\<close> of \<^verbatim>\<open>services/triggers.py\<close>, with the identifiers of the row and of the trust, which Keystone
  keeps when the row is rejected.
\<close>

definition create_event_trigger ::
  "event_api \<Rightarrow> actor \<Rightarrow> string \<Rightarrow> string \<Rightarrow> val dict \<Rightarrow> event_world \<Rightarrow> event_trigger res \<times> event_world \<times> event_message list" where
  "create_event_trigger vs a i trust vals w =
     (case bind_res (vs_workflow vs a (text_of (dget_default vals ''workflow_id'' VNone))) (\<lambda>wf.
             bind_res (validate_input (cw_input wf) (vdict_of (dget_default vals ''workflow_input'' VNone)) (cw_name wf)) (\<lambda>_. Inr wf)) of
        Inl e \<Rightarrow> (Inl e, w, [])
      | Inr d \<Rightarrow>
          (let k = (if vs_auth_enable vs then Some trust else None); w1 = add_trust k w
           in case insert_event_trigger (new_event_trigger a i k vals) (ev_rows w1) of
                (Inl e, _) \<Rightarrow> (Inl e, w1, [])
              | (Inr t, rows) \<Rightarrow>
                  (Inr t, w1\<lparr>ev_rows := rows\<rparr>, [CreateMessage \<lparr>ti_row = t, ti_namespace = Some (cw_namespace d)\<rparr> (events_on (topic_of t) rows)])))"

definition post_event_trigger ::
  "event_api \<Rightarrow> actor \<Rightarrow> string \<Rightarrow> string \<Rightarrow> val dict \<Rightarrow> event_world \<Rightarrow> event_trigger res \<times> event_world \<times> event_message list" where
  "post_event_trigger vs a i trust vals w =
     (case bind_res (enforce vs a ''event_triggers:create'') (\<lambda>_.
           bind_res (guard_res (list_all (given_val vals) create_mandatory) (OtherException ''EventTriggerException'')) (\<lambda>_.
             publicize_allowed vs a vals)) of
        Inl e \<Rightarrow> (Inl e, w, [])
      | Inr _ \<Rightarrow> create_event_trigger vs a i trust vals w)"

text \<open>The message is sent before the commit, which finds that a unique constraint is violated.\<close>

definition put_event_trigger ::
  "event_api \<Rightarrow> actor \<Rightarrow> string \<Rightarrow> val dict \<Rightarrow> event_world \<Rightarrow> event_trigger res \<times> event_world \<times> event_message list" where
  "put_event_trigger vs a i vals w =
     (case bind_res (enforce vs a ''event_triggers:update'') (\<lambda>_.
           bind_res (publicize_allowed vs a vals) (\<lambda>_.
             guard_res (\<not> list_ex (given_val vals) [''exchange'', ''topic'', ''event'']) (OtherException ''EventTriggerException''))) of
        Inl e \<Rightarrow> (Inl e, w, [])
      | Inr _ \<Rightarrow>
          (case update_event_trigger a i vals (ev_rows w) of
             (Inl e, _) \<Rightarrow> (Inl e, w, [])
           | (Inr t, rows) \<Rightarrow>
               (if list_ex (\<lambda>x. ob_id x \<noteq> ob_id t \<and> same_event_trigger t x) rows
                then (Inl (DBDuplicateEntryError (ob_name t)), w, [UpdateMessage t])
                else (Inr t, w\<lparr>ev_rows := rows\<rparr>, [UpdateMessage t]))))"

definition delete_event_trigger :: "event_trigger \<Rightarrow> event_world \<Rightarrow> unit res \<times> event_world \<times> event_message list" where
  "delete_event_trigger t w =
     (case remove_event_trigger (ob_id t) (ev_rows w) of
        (Inl e, _) \<Rightarrow> (Inl e, w, [])
      | (Inr _, rows) \<Rightarrow>
          (Inr (), delete_trust (et_trust_id t) (w\<lparr>ev_rows := rows\<rparr>), [DeleteMessage t (remdups (events_on (topic_of t) rows))]))"

definition delete_event_trigger_request ::
  "event_api \<Rightarrow> actor \<Rightarrow> string \<Rightarrow> event_world \<Rightarrow> unit res \<times> event_world \<times> event_message list" where
  "delete_event_trigger_request vs a i w =
     (case bind_res (enforce vs a ''event_triggers:delete'') (\<lambda>_. find_event_trigger a i (ev_rows w)) of
        Inl e \<Rightarrow> (Inl e, w, [])
      | Inr t \<Rightarrow> delete_event_trigger t w)"

section \<open>The service and the API together\<close>

text \<open>The messages that the service has not handled yet, the service, and what it has asked the engine to start.\<close>

record event_system =
  ex_world :: event_world
  ex_messages :: "event_message list"
  ex_engine :: event_engine
  ex_starts :: "event_start list"

fun deliver :: "event_message \<Rightarrow> event_engine \<Rightarrow> event_engine" where
  "deliver (CreateMessage i events) e = ee_create_trigger i events e"
| "deliver (UpdateMessage r) e = snd (ee_update_trigger r e)"
| "deliver (DeleteMessage r events) e = snd (ee_delete_trigger r events e)"

datatype event_op =
    PostTrigger actor string string "val dict"
  | PutTrigger actor string "val dict"
  | DeleteTrigger actor string
  | DeliverMessage
  | Notify notification
  | Loop

definition after_request :: "'a res \<times> event_world \<times> event_message list \<Rightarrow> event_system \<Rightarrow> event_system" where
  "after_request r x = (case r of (_, w, ms) \<Rightarrow> x\<lparr>ex_world := w, ex_messages := ex_messages x @ ms\<rparr>)"

fun run_event_op :: "event_api \<Rightarrow> ee_sys \<Rightarrow> event_op \<Rightarrow> event_system \<Rightarrow> event_system" where
  "run_event_op vs ey (PostTrigger a i k vals) x = after_request (post_event_trigger vs a i k vals (ex_world x)) x"
| "run_event_op vs ey (PutTrigger a i vals) x = after_request (put_event_trigger vs a i vals (ex_world x)) x"
| "run_event_op vs ey (DeleteTrigger a i) x = after_request (delete_event_trigger_request vs a i (ex_world x)) x"
| "run_event_op vs ey DeliverMessage x =
     (case ex_messages x of [] \<Rightarrow> x | m # ms \<Rightarrow> x\<lparr>ex_messages := ms, ex_engine := deliver m (ex_engine x)\<rparr>)"
| "run_event_op vs ey (Notify n) x = x\<lparr>ex_engine := process_notification_event n (ex_engine x)\<rparr>"
| "run_event_op vs ey Loop x =
     (case event_loop ey (ex_engine x) of (ss, e) \<Rightarrow> x\<lparr>ex_engine := e, ex_starts := ex_starts x @ ss\<rparr>)"

definition event_run :: "event_api \<Rightarrow> ee_sys \<Rightarrow> event_op list \<Rightarrow> event_system \<Rightarrow> event_system" where
  "event_run vs ey ops x = fold (run_event_op vs ey) ops x"

text \<open>The service has just started: it knows the triggers of the table.\<close>

definition service_started :: "(event_trigger \<Rightarrow> string) \<Rightarrow> event_world \<Rightarrow> event_system" where
  "service_started namespace w =
     \<lparr>ex_world = w, ex_messages = [], ex_engine = start_listeners namespace (ev_rows w), ex_starts = []\<rparr>"

end
