(* ===== verification/Rest_Lists.thy ===== *)
theory Rest_Lists
  imports Resource_Access
begin

text \<open>
  Listing resources over the API, a page at a time: the types of the query parameters
  (\<^verbatim>\<open>api/controllers/v2/types.py\<close>), filters (\<^verbatim>\<open>utils/filter_utils.py\<close>, \<^verbatim>\<open>db/v2/sqlalchemy/filters.py\<close>),
  \<^verbatim>\<open>get_all\<close> of \<^verbatim>\<open>utils/rest_utils.py\<close>, \<^verbatim>\<open>_get_collection\<close> and \<^verbatim>\<open>_paginate_query\<close> of \<^verbatim>\<open>db/v2/sqlalchemy/api.py\<close>
  and the link to the next page (\<^verbatim>\<open>api/controllers/resource.py\<close>). Rows and who sees them are those of
  \<open>Resource_Access\<close>. How the database compares texts and \<^verbatim>\<open>paginate_query\<close> of oslo.db are arguments.
\<close>

section \<open>Texts\<close>

fun split_on :: "char \<Rightarrow> string \<Rightarrow> string list" where
  "split_on c [] = [[]]"
| "split_on c (x # s) = (if x = c then [] # split_on c s else (case split_on c s of [] \<Rightarrow> [[x]] | t # ts \<Rightarrow> (x # t) # ts))"

definition is_space :: "char \<Rightarrow> bool" where
  "is_space c \<longleftrightarrow> (of_char c :: nat) \<in> {9, 10, 11, 12, 13, 28, 29, 30, 31, 32}"

definition strip :: "string \<Rightarrow> string" where
  "strip s = rev (dropWhile is_space (rev (dropWhile is_space s)))"

definition lower_char :: "char \<Rightarrow> char" where
  "lower_char c = (if (65::nat) \<le> of_char c \<and> of_char c \<le> (90::nat) then char_of ((of_char c :: nat) + 32) else c)"

definition starts_with :: "string \<Rightarrow> string \<Rightarrow> bool" where
  "starts_with p s \<longleftrightarrow> take (length p) s = p"

section \<open>Types of query parameters\<close>

definition list_type :: "string \<Rightarrow> string list" where
  "list_type v = filter (\<lambda>x. x \<noteq> []) (map (\<lambda>x. map lower_char (strip x)) (split_on CHR '','' v))"

text \<open>Without duplicates, in the order of the first occurrences.\<close>

definition first_of_each :: "'a list \<Rightarrow> 'a list" where
  "first_of_each xs = rev (remdups (rev xs))"

definition unique_list_type :: "string \<Rightarrow> string list" where
  "unique_list_type v = first_of_each (list_type v)"

section \<open>Filters\<close>

definition filter_types :: "string list" where
  "filter_types = [''eq'', ''neq'', ''gt'', ''gte'', ''lt'', ''lte'', ''has'', ''in'', ''nin'']"

definition has_filters :: "string \<Rightarrow> bool" where
  "has_filters v = list_ex (\<lambda>t. starts_with (t @ '':'') v) filter_types"

text \<open>A filter of one column: its type and its value.\<close>

type_synonym column_filter = "string \<times> val"

definition extract_filter_type_and_value :: "string \<Rightarrow> column_filter" where
  "extract_filter_type_and_value v =
     (if has_filters v
      then (let t = takeWhile (\<lambda>c. c \<noteq> CHR '':'') v; r = drop (Suc (length t)) v
            in (t, if starts_with ''in'' v \<or> starts_with ''nin'' v then VList (map VStr (split_on CHR '','' r)) else VStr r))
      else (''eq'', VStr v))"

definition create_or_update_filter :: "string \<Rightarrow> val \<Rightarrow> string \<Rightarrow> column_filter dict \<Rightarrow> column_filter dict" where
  "create_or_update_filter k v t fs = dset k (t, v) fs"

text \<open>The values of the parameters of a request; None is a parameter that is not given.\<close>

fun create_filters :: "string list \<Rightarrow> val option dict \<Rightarrow> column_filter dict \<Rightarrow> column_filter dict" where
  "create_filters nulls [] fs = fs"
| "create_filters nulls ((k, v) # ps) fs =
     create_filters nulls ps
       (case v of
          None \<Rightarrow> (if k \<in> set nulls then create_or_update_filter k VNone ''eq'' fs else fs)
        | Some (VStr t) \<Rightarrow> (case extract_filter_type_and_value t of (ft, x) \<Rightarrow> create_or_update_filter k x ft fs)
        | Some x \<Rightarrow> create_or_update_filter k x ''eq'' fs)"

definition create_filters_from_request_params :: "string list \<Rightarrow> val option dict \<Rightarrow> column_filter dict" where
  "create_filters_from_request_params nulls ps = create_filters nulls ps []"

text \<open>
  How the database compares: \<open>sq_less\<close> orders values that are not null, \<open>sq_like\<close> is LIKE with the pattern
  between percent signs, and \<open>sq_paginate limit marker keys\<close> is \<^verbatim>\<open>paginate_query\<close>.
\<close>

record sql_db =
  sq_less :: "val \<Rightarrow> val \<Rightarrow> bool"
  sq_like :: "val \<Rightarrow> val \<Rightarrow> bool"
  sq_paginate :: "nat \<Rightarrow> db_object option \<Rightarrow> (string \<times> string) list \<Rightarrow> db_object list \<Rightarrow> db_object list"

definition column_of :: "string \<Rightarrow> db_object \<Rightarrow> val" where
  "column_of k x =
     (if k = ''id'' then VStr (ob_id x)
      else if k = ''name'' then VStr (ob_name x)
      else if k = ''namespace'' then VStr (ob_namespace x)
      else if k = ''project_id'' then VStr (ob_project x)
      else if k = ''scope'' then VStr (ob_scope x)
      else if k = ''is_system'' then VBool (ob_is_system x)
      else if k = ''workflow_id'' then (case ob_workflow_id x of None \<Rightarrow> VNone | Some i \<Rightarrow> VStr i)
      else dget_default (ob_values x) k VNone)"

definition in_list :: "val \<Rightarrow> val \<Rightarrow> bool" where
  "in_list x v = (case v of VList vs \<Rightarrow> x \<in> set vs | _ \<Rightarrow> False)"

text \<open>One filter; a comparison with null does not hold, but equality with None is IS NULL.\<close>

definition apply_filter :: "sql_db \<Rightarrow> column_filter \<Rightarrow> val \<Rightarrow> bool" where
  "apply_filter sq f c =
     (case f of (t, v) \<Rightarrow>
        if t = ''eq'' \<and> v = VNone then c = VNone
        else if t = ''neq'' \<and> v = VNone then c \<noteq> VNone
        else c \<noteq> VNone \<and>
          (if t = ''in'' then in_list c v
           else if t = ''nin'' then \<not> in_list c v
           else if t = ''neq'' then c \<noteq> v
           else if t = ''gt'' then sq_less sq v c
           else if t = ''gte'' then c = v \<or> sq_less sq v c
           else if t = ''lt'' then sq_less sq c v
           else if t = ''lte'' then c = v \<or> sq_less sq c v
           else if t = ''eq'' then c = v
           else if t = ''has'' then sq_like sq c v
           else True))"

text \<open>The tags that a resource must have; other types of filters on tags are ignored.\<close>

definition wanted_tags :: "column_filter \<Rightarrow> val list" where
  "wanted_tags f =
     (if fst f \<noteq> ''eq'' then []
      else (case snd f of
          VList vs \<Rightarrow> vs
        | VStr t \<Rightarrow> (if t = [] then [] else if CHR '','' \<in> set t then map VStr (split_on CHR '','' t) else [VStr t])
        | _ \<Rightarrow> []))"

definition apply_filters :: "sql_db \<Rightarrow> column_filter dict \<Rightarrow> db_object list \<Rightarrow> db_object list" where
  "apply_filters sq fs rows =
     filter (\<lambda>x. list_all (\<lambda>(k, f). if k = ''tags'' then list_all (\<lambda>t. sq_like sq (column_of k x) t) (wanted_tags f)
                                      else apply_filter sq f (column_of k x)) fs) rows"

section \<open>Queries\<close>

text \<open>The keys and directions of the order; sorting by id is added to the lists of the caller.\<close>

definition add_id :: "bool \<Rightarrow> string list \<times> string list \<Rightarrow> string list \<times> string list" where
  "add_id paged kd =
     (case kd of (keys, dirs) \<Rightarrow>
        if keys = [] \<or> (paged \<and> ''id'' \<notin> set keys) then (keys @ [''id''], if dirs \<noteq> [] then dirs @ [''asc''] else dirs) else (keys, dirs))"

definition paginate_query :: "sql_db \<Rightarrow> nat \<Rightarrow> db_object option \<Rightarrow> string list \<times> string list \<Rightarrow> db_object list \<Rightarrow> db_object list res" where
  "paginate_query sq limit marker kd rows =
     (case add_id True kd of (keys, dirs) \<Rightarrow>
        if length keys \<noteq> length dirs then Inl AssertionError else Inr (sq_paginate sq limit marker (zip keys dirs) rows))"

definition get_collection ::
  "actor \<Rightarrow> sql_db \<Rightarrow> model \<Rightarrow> bool \<Rightarrow> nat \<Rightarrow> db_object option \<Rightarrow> string list \<times> string list \<Rightarrow> column_filter dict \<Rightarrow> resource_db \<Rightarrow>
   db_object list res" where
  "get_collection a sq m insecure limit marker kd fs s = paginate_query sq limit marker kd (apply_filters sq fs (db_query a insecure m s))"

section \<open>Requests and pages\<close>

definition client_side_error :: "string \<Rightarrow> exn" where
  "client_side_error msg = OtherException (''ClientSideError: '' @ msg)"

definition clamp_limit :: "int \<Rightarrow> int option \<Rightarrow> int" where
  "clamp_limit max_limit limit = (case limit of None \<Rightarrow> max_limit | Some n \<Rightarrow> (if n > max_limit then max_limit else n))"

definition validate_query_params :: "int \<Rightarrow> string list \<Rightarrow> string list \<Rightarrow> string list res" where
  "validate_query_params limit keys dirs =
     (if limit \<le> 0 then Inl (client_side_error ''Limit must be positive.'')
      else if length keys < length dirs then Inl (client_side_error ''Length of sort_keys must be equal or greater than sort_dirs.'')
      else (let ds = dirs @ replicate (length keys - length dirs) ''asc''
            in if list_all (\<lambda>d. d \<in> set [''asc'', ''desc'']) ds then Inr ds
               else Inl (client_side_error ''Unknown sort direction, must be 'desc' or 'asc'.'')))"

definition validate_fields :: "string list \<Rightarrow> string list \<Rightarrow> unit res" where
  "validate_fields fl object_fields =
     (if list_all (\<lambda>f. f \<in> set object_fields) fl then Inr () else Inl (client_side_error ''Some fields do not exist''))"

record list_request =
  lq_marker :: "string option"
  lq_limit :: "int option"
  lq_sort_keys :: "string list"
  lq_sort_dirs :: "string list"
  lq_fields :: "string list"
  lq_all_projects :: bool
  lq_filters :: "column_filter dict"

text \<open>
  A kind of resource: its table, its fields, those of them that are attributes of the table (with \<^verbatim>\<open>spec\<close> of workflows), and
  the function that \<^verbatim>\<open>get_all\<close> looks the marker up with.
\<close>

record resource_kind =
  rk_model :: model
  rk_fields :: "string list"
  rk_columns :: "string list"
  rk_get :: "actor \<Rightarrow> string \<Rightarrow> resource_db \<Rightarrow> db_object res"

text \<open>What \<^verbatim>\<open>get_next\<close> writes into the link: the text of each parameter.\<close>

record next_link =
  nl_params :: "string dict"
  nl_limit :: int
  nl_marker :: string
  nl_fields :: string

record list_page =
  lp_rows :: "db_object list"
  lp_next :: "next_link option"

definition has_next :: "db_object list \<Rightarrow> int \<Rightarrow> bool" where
  "has_next rows limit \<longleftrightarrow> rows \<noteq> [] \<and> int (length rows) = limit"

text \<open>\<^verbatim>\<open>str\<close> of a value, as the format writes it; a list in brackets with its texts in quotes.\<close>

fun repr_val :: "val \<Rightarrow> string" where
  "repr_val (VStr s) = squote s"
| "repr_val VNone = ''None''"
| "repr_val (VBool b) = (if b then ''True'' else ''False'')"
| "repr_val (VInt i) = str_int i"
| "repr_val (VList vs) = ''['' @ join_str '', '' (map repr_val vs) @ '']''"
| "repr_val (VDict d) = ''{'' @ join_str '', '' (map (\<lambda>(k, v). squote k @ '': '' @ repr_val v) d) @ ''}''"

definition str_val :: "val \<Rightarrow> string" where
  "str_val v = (case v of VStr s \<Rightarrow> s | _ \<Rightarrow> repr_val v)"

text \<open>
  When fields are asked for, the query selects those that the table has, and the values are given to the
  fields in turn: a field that the table does not have shifts the values behind it. The last field may get none.
\<close>

definition listed_id :: "string list \<Rightarrow> string list \<Rightarrow> db_object \<Rightarrow> string" where
  "listed_id fl cols x =
     (if fl = [] then ob_id x
      else (case dget (zip fl cols) ''id'' of None \<Rightarrow> ''Unset'' | Some c \<Rightarrow> str_val (column_of c x)))"

text \<open>The query of workflows replaces \<^verbatim>\<open>input\<close> in the list of its caller.\<close>

definition asked_fields :: "resource_kind \<Rightarrow> string list \<Rightarrow> string list" where
  "asked_fields rk fl =
     (if rk_model rk = WorkflowDefinition \<and> ''input'' \<in> set fl then remove1 ''input'' fl @ [''spec''] else fl)"

definition get_next ::
  "int \<Rightarrow> string list \<Rightarrow> string list \<Rightarrow> string list \<Rightarrow> string list \<Rightarrow> column_filter dict \<Rightarrow> db_object list \<Rightarrow> next_link option" where
  "get_next limit keys dirs fl cols fs rows =
     (if \<not> has_next rows limit then None
      else Some \<lparr>nl_params = [(''sort_keys'', join_str '','' keys), (''sort_dirs'', join_str '','' dirs)] @
                   map (\<lambda>(k, t, v). (k, t @ '':'' @ str_val v)) fs,
                 nl_limit = limit, nl_marker = listed_id fl cols (last rows), nl_fields = join_str '','' fl\<rparr>)"

text \<open>The text of the link; nothing is escaped.\<close>

definition link_text :: "string \<Rightarrow> string \<Rightarrow> next_link \<Rightarrow> string" where
  "link_text url resource l =
     url @ ''/v2/'' @ resource @ ''?'' @ concat (map (\<lambda>(k, v). k @ ''='' @ v @ ''&'') (nl_params l)) @
     ''limit='' @ str_int (nl_limit l) @ ''&marker='' @ nl_marker l @ (if nl_fields l \<noteq> [] then ''&fields='' @ nl_fields l else [])"

definition get_all :: "actor \<Rightarrow> sql_db \<Rightarrow> int \<Rightarrow> resource_kind \<Rightarrow> list_request \<Rightarrow> resource_db \<Rightarrow> list_page res" where
  "get_all a sq max_limit rk q s =
     (let fl = (if lq_fields q \<noteq> [] \<and> ''id'' \<notin> set (lq_fields q) then ''id'' # lq_fields q else lq_fields q);
          limit = clamp_limit max_limit (lq_limit q)
      in bind_res (validate_query_params limit (lq_sort_keys q) (lq_sort_dirs q)) (\<lambda>dirs.
         bind_res (validate_fields fl (rk_fields rk)) (\<lambda>_.
         bind_res (case lq_marker q of
             None \<Rightarrow> Inr None
           | Some i \<Rightarrow> (if i = [] then Inr None else bind_res (rk_get rk a i s) (\<lambda>x. Inr (Some x)))) (\<lambda>marker.
         bind_res (get_collection a sq (rk_model rk) (lq_all_projects q \<or> ac_is_admin a) (nat limit) marker (lq_sort_keys q, dirs) (lq_filters q) s)
           (\<lambda>rows. case add_id True (lq_sort_keys q, dirs) of (keys', dirs') \<Rightarrow>
              (let fl' = asked_fields rk fl
               in Inr \<lparr>lp_rows = rows,
                       lp_next = get_next limit keys' dirs' fl' (filter (\<lambda>f. f \<in> set (rk_columns rk)) fl') (lq_filters q) rows\<rparr>))))))"

section \<open>Following a link\<close>

text \<open>
  The parameters of a URL as the libraries below the API (WebOb, with \<^verbatim>\<open>urllib.parse\<close>) read them: behind the first
  question mark and before a number sign, separated at ampersands, key and value at the first equality sign, with plus signs
  for spaces and codes for characters.
\<close>

definition hex_digit :: "char \<Rightarrow> nat option" where
  "hex_digit c =
     (let n = of_char c in
      if 48 \<le> n \<and> n \<le> 57 then Some (n - 48) else if 65 \<le> n \<and> n \<le> 70 then Some (n - 55)
      else if 97 \<le> n \<and> n \<le> 102 then Some (n - 87) else None)"

fun unquote_plus :: "string \<Rightarrow> string" where
  "unquote_plus [] = []"
| "unquote_plus (c # s) =
     (if c = CHR ''+'' then CHR '' '' # unquote_plus s
      else if c = CHR ''%'' then
        (case s of
           a # b # r \<Rightarrow>
             (case (hex_digit a, hex_digit b) of
                (Some x, Some y) \<Rightarrow> char_of (16 * x + y) # unquote_plus r | _ \<Rightarrow> c # unquote_plus s)
         | _ \<Rightarrow> c # unquote_plus s)
      else c # unquote_plus s)"

definition parameter_of :: "string \<Rightarrow> string \<times> string" where
  "parameter_of p =
     (unquote_plus (takeWhile (\<lambda>c. c \<noteq> CHR ''='') p), unquote_plus (tl (dropWhile (\<lambda>c. c \<noteq> CHR ''='') p)))"

definition query_params :: "string \<Rightarrow> string dict" where
  "query_params url =
     map parameter_of (filter (\<lambda>p. p \<noteq> [])
       (split_on CHR ''&'' (takeWhile (\<lambda>c. c \<noteq> CHR ''#'') (tl (dropWhile (\<lambda>c. c \<noteq> CHR ''?'') url)))))"

definition is_digit :: "char \<Rightarrow> bool" where
  "is_digit c \<longleftrightarrow> (48::nat) \<le> of_char c \<and> of_char c \<le> (57::nat)"

definition digits_value :: "string \<Rightarrow> nat" where
  "digits_value s = foldl (\<lambda>n c. n * 10 + (of_char c - 48)) 0 s"

definition int_of_text :: "string \<Rightarrow> int option" where
  "int_of_text s = (if s \<noteq> [] \<and> list_all is_digit s then Some (int (digits_value s)) else None)"

text \<open>\<^verbatim>\<open>UuidType.validate\<close> drops the type of a filter; that the rest is an identifier is not checked here.\<close>

definition param_value :: "string \<Rightarrow> string \<Rightarrow> val" where
  "param_value k t = (if k = ''project_id'' \<or> k = ''workflow_id'' then snd (extract_filter_type_and_value t) else VStr t)"

text \<open>The request of a \<^verbatim>\<open>get_all\<close> method with filters for the given columns, from the parameters of the URL.\<close>

definition list_request_of :: "string list \<Rightarrow> string dict \<Rightarrow> list_request res" where
  "list_request_of cols ps =
     bind_res (case dget ps ''limit'' of
         None \<Rightarrow> Inr None
       | Some t \<Rightarrow> (case int_of_text t of None \<Rightarrow> Inl (client_side_error ''Invalid input for field/attribute limit.'') | Some n \<Rightarrow> Inr (Some n)))
       (\<lambda>limit. Inr
         \<lparr>lq_marker = dget ps ''marker'', lq_limit = limit,
          lq_sort_keys = (case dget ps ''sort_keys'' of None \<Rightarrow> [''created_at''] | Some t \<Rightarrow> unique_list_type t),
          lq_sort_dirs = (case dget ps ''sort_dirs'' of None \<Rightarrow> [''asc''] | Some t \<Rightarrow> list_type t),
          lq_fields = (case dget ps ''fields'' of None \<Rightarrow> [] | Some t \<Rightarrow> unique_list_type t),
          lq_all_projects = (case dget ps ''all_projects'' of None \<Rightarrow> False
            | Some t \<Rightarrow> map lower_char t \<in> set [''true'', ''t'', ''yes'', ''y'', ''on'', ''1'']),
          lq_filters = create_filters_from_request_params [] (map (\<lambda>k. (k, map_option (param_value k) (dget ps k))) cols)\<rparr>)"

text \<open>The request that a client makes by sending the text of the link back.\<close>

definition follow :: "string \<Rightarrow> string \<Rightarrow> string list \<Rightarrow> next_link \<Rightarrow> list_request res" where
  "follow url resource cols l = list_request_of cols (query_params (link_text url resource l))"

section \<open>The controllers\<close>

text \<open>
  What distinguishes the \<^verbatim>\<open>get_all\<close> methods: the rule that they enforce, what they do about \<^verbatim>\<open>all_projects\<close>,
  the columns that they take filters for, in their order, and the kind of resource.
\<close>

datatype all_projects_param = NoAllProjects | Guarded string | Unguarded

record list_endpoint =
  ep_rule :: string
  ep_all_projects :: all_projects_param
  ep_columns :: "string list"
  ep_kind :: resource_kind

definition enforce_rule :: "(string \<Rightarrow> bool) \<Rightarrow> string \<Rightarrow> unit res" where
  "enforce_rule allowed rule = (if allowed rule then Inr () else Inl (NotAllowedException rule))"

definition list_resources ::
  "actor \<Rightarrow> (string \<Rightarrow> bool) \<Rightarrow> sql_db \<Rightarrow> int \<Rightarrow> list_endpoint \<Rightarrow> list_request \<Rightarrow> val option dict \<Rightarrow> resource_db \<Rightarrow> list_page res" where
  "list_resources a allowed sq max_limit ep q params s =
     bind_res (enforce_rule allowed (ep_rule ep)) (\<lambda>_.
     bind_res (case ep_all_projects ep of Guarded rule \<Rightarrow> (if lq_all_projects q then enforce_rule allowed rule else Inr ()) | _ \<Rightarrow> Inr ()) (\<lambda>_.
       get_all a sq max_limit (ep_kind ep)
         (q\<lparr>lq_all_projects := (ep_all_projects ep \<noteq> NoAllProjects \<and> lq_all_projects q),
            lq_filters := create_filters_from_request_params [] (map (\<lambda>k. (k, dget_default params k None)) (ep_columns ep))\<rparr>) s))"

section \<open>The kinds of resources\<close>

definition workflows_kind :: resource_kind where
  "workflows_kind = \<lparr>rk_model = WorkflowDefinition,
     rk_fields = [''id'', ''name'', ''namespace'', ''input'', ''interface'', ''definition'', ''checksum'', ''tags'', ''scope'',
       ''project_id'', ''created_at'', ''updated_at''],
     rk_columns = [''id'', ''name'', ''namespace'', ''definition'', ''spec'', ''checksum'', ''tags'', ''scope'', ''project_id'', ''created_at'',
       ''updated_at''],
     rk_get = get_workflow_definition_by_id\<rparr>"

definition environments_kind :: resource_kind where
  "environments_kind = \<lparr>rk_model = Environment,
     rk_fields = [''id'', ''name'', ''description'', ''variables'', ''scope'', ''project_id'', ''created_at'', ''updated_at''],
     rk_columns = [''id'', ''name'', ''description'', ''variables'', ''scope'', ''project_id'', ''created_at'', ''updated_at''],
     rk_get = get_environment_row\<rparr>"

definition workbooks_kind :: resource_kind where
  "workbooks_kind = \<lparr>rk_model = Workbook,
     rk_fields = [''id'', ''name'', ''namespace'', ''definition'', ''tags'', ''scope'', ''project_id'', ''created_at'', ''updated_at''],
     rk_columns = [''id'', ''name'', ''namespace'', ''definition'', ''tags'', ''scope'', ''project_id'', ''created_at'', ''updated_at''],
     rk_get = (\<lambda>a n s. get_workbook a n None s)\<rparr>"

definition cron_triggers_kind :: resource_kind where
  "cron_triggers_kind = \<lparr>rk_model = CronTrigger,
     rk_fields = [''id'', ''name'', ''workflow_name'', ''workflow_id'', ''workflow_input'', ''workflow_params'', ''project_id'', ''scope'',
       ''pattern'', ''remaining_executions'', ''first_execution_time'', ''next_execution_time'', ''created_at'', ''updated_at''],
     rk_columns = [''id'', ''name'', ''workflow_name'', ''workflow_id'', ''workflow_input'', ''workflow_params'', ''project_id'', ''scope'',
       ''pattern'', ''remaining_executions'', ''first_execution_time'', ''next_execution_time'', ''created_at'', ''updated_at''],
     rk_get = get_cron_trigger\<rparr>"

definition code_sources_kind :: resource_kind where
  "code_sources_kind = \<lparr>rk_model = CodeSource,
     rk_fields = [''id'', ''name'', ''namespace'', ''content'', ''version'', ''project_id'', ''scope'', ''actions'', ''created_at'', ''updated_at''],
     rk_columns = [''id'', ''name'', ''namespace'', ''content'', ''version'', ''project_id'', ''scope'', ''created_at'', ''updated_at''],
     rk_get = (\<lambda>a i s. get_code_source a i (Some []) s)\<rparr>"

definition dynamic_actions_kind :: resource_kind where
  "dynamic_actions_kind = \<lparr>rk_model = DynamicActionDefinition,
     rk_fields = [''id'', ''name'', ''namespace'', ''code_source_id'', ''code_source_name'', ''class_name'', ''project_id'', ''scope'',
       ''created_at'', ''updated_at''],
     rk_columns = [''id'', ''name'', ''namespace'', ''code_source_id'', ''code_source_name'', ''class_name'', ''project_id'', ''scope'',
       ''created_at'', ''updated_at''],
     rk_get = (\<lambda>a i s. get_dynamic_action_definition a i (Some []) s)\<rparr>"

definition workflows_endpoint :: list_endpoint where
  "workflows_endpoint = \<lparr>ep_rule = ''workflows:list'', ep_all_projects = Guarded ''workflows:list:all_projects'',
     ep_columns = [''created_at'', ''name'', ''scope'', ''tags'', ''updated_at'', ''input'', ''definition'', ''project_id'', ''namespace''],
     ep_kind = workflows_kind\<rparr>"

definition workbooks_endpoint :: list_endpoint where
  "workbooks_endpoint = \<lparr>ep_rule = ''workbooks:list'', ep_all_projects = NoAllProjects,
     ep_columns = [''created_at'', ''definition'', ''name'', ''scope'', ''tags'', ''updated_at'', ''namespace''], ep_kind = workbooks_kind\<rparr>"

definition environments_endpoint :: list_endpoint where
  "environments_endpoint = \<lparr>ep_rule = ''environments:list'', ep_all_projects = NoAllProjects,
     ep_columns = [''created_at'', ''name'', ''updated_at'', ''description'', ''variables'', ''scope''], ep_kind = environments_kind\<rparr>"

definition cron_triggers_endpoint :: list_endpoint where
  "cron_triggers_endpoint = \<lparr>ep_rule = ''cron_triggers:list'', ep_all_projects = Guarded ''cron_triggers:list:all_projects'',
     ep_columns = [''created_at'', ''name'', ''updated_at'', ''workflow_name'', ''workflow_id'', ''workflow_input'', ''workflow_params'', ''scope'',
       ''pattern'', ''remaining_executions'', ''first_execution_time'', ''next_execution_time'', ''project_id''],
     ep_kind = cron_triggers_kind\<rparr>"

definition code_sources_endpoint :: list_endpoint where
  "code_sources_endpoint = \<lparr>ep_rule = ''code_sources:list'', ep_all_projects = Unguarded,
     ep_columns = [''created_at'', ''name'', ''scope'', ''tags'', ''updated_at'', ''project_id'', ''namespace''], ep_kind = code_sources_kind\<rparr>"

definition dynamic_actions_endpoint :: list_endpoint where
  "dynamic_actions_endpoint = \<lparr>ep_rule = ''dynamic_actions:list'', ep_all_projects = Unguarded,
     ep_columns = [''created_at'', ''name'', ''scope'', ''tags'', ''updated_at'', ''project_id'', ''namespace''], ep_kind = dynamic_actions_kind\<rparr>"

end
