(* ===== verification/Execution_Api.thy ===== *)
theory Execution_Api
  imports Background_Services Engine_Properties Event_Triggers Rest_Lists
begin

text \<open>
  The requests of the REST API that change executions: \<^verbatim>\<open>api/controllers/v2/execution.py\<close>,
  \<^verbatim>\<open>task.py\<close> and \<^verbatim>\<open>action_execution.py\<close>, with the calls of the engine that they make. The body of a
  request is the dictionary of the attributes that the client gives; null is \<open>VNone\<close>. Each controller
  reads the database in transactions of its own before it calls the engine, so what it has checked may no longer hold
  when the engine serves the call. The projects of the rows are not modelled here.
\<close>

section \<open>Calls of the engine\<close>

text \<open>
  What the controllers get from outside: the rules that the policies allow the user, the setting that
  lets actions be deleted, the columns of an execution that the rows of the engine leave out, the
  rows that the database fails to delete, and what becomes of an output that is not given on its way to
  the engine.
\<close>

record rest_conf =
  rc_allowed :: "string \<Rightarrow> bool"
  rc_allow_action_deletion :: bool
  rc_workflow_id :: "string \<Rightarrow> val"
  rc_description :: "string \<Rightarrow> val"
  rc_broken :: "string \<Rightarrow> bool"
  rc_unset_output :: "val res"

definition serve :: "nat \<Rightarrow> sys \<Rightarrow> (handlers \<Rightarrow> 'a eng) \<Rightarrow> 'a eng" where
  "serve n sy m = with_post_tx n (run_operation sy (engine n sy)) (m (engine n sy))"

definition enforce_e :: "rest_conf \<Rightarrow> string \<Rightarrow> unit eng" where
  "enforce_e c rule = lift_res (enforce_rule (rc_allowed c) rule)"

text \<open>The operation and the row that it answers, which is read in its transaction.\<close>

definition and_row :: "string \<Rightarrow> unit eng \<Rightarrow> wf_ex eng" where
  "and_row i m = transaction (ebind m (\<lambda>_. get_workflow_execution i))"

definition and_action_row :: "string \<Rightarrow> unit eng \<Rightarrow> action_ex eng" where
  "and_action_row i m = transaction (ebind m (\<lambda>_. get_action_execution i))"

definition body_val :: "val dict \<Rightarrow> string \<Rightarrow> val" where
  "body_val b k = dget_default b k VNone"

text \<open>A text that is given and not empty.\<close>

definition body_text :: "val dict \<Rightarrow> string \<Rightarrow> string" where
  "body_text b k = text_of (body_val b k)"

text \<open>An environment: anything but a dictionary is an exception when it is merged.\<close>

definition env_of :: "val \<Rightarrow> val dict res" where
  "env_of v = (case v of VDict d \<Rightarrow> Inr d | _ \<Rightarrow> (if truthy v then Inl AttributeError else Inr []))"

section \<open>Executions\<close>

text \<open>What a PUT asks to change; an empty text or environment is not asked for.\<close>

record delta =
  dt_state :: string
  dt_description :: string
  dt_env :: val

definition execution_delta :: "val dict \<Rightarrow> delta res" where
  "execution_delta b =
     (let s = body_text b ''state''; d = body_text b ''description'';
          ev = (case body_val b ''params'' of VDict p \<Rightarrow> dget_default p ''env'' VNone | _ \<Rightarrow> VNone)
      in if s = [] \<and> d = [] \<and> \<not> truthy ev
         then Inl (InputException ''The property state, description, or env is not provided for update.'')
         else if d \<noteq> [] \<and> s \<noteq> []
         then Inl (InputException ''The property description must be updated separately from state.'')
         else if truthy ev \<and> s \<noteq> [] \<and> s \<noteq> ''RUNNING''
         then Inl (InputException ''The property env can only be updated when workflow execution is not running or on resume from pause.'')
         else Inr \<lparr>dt_state = s, dt_description = d, dt_env = (if truthy ev then ev else VNone)\<rparr>)"

text \<open>The transaction of \<^verbatim>\<open>_compute_delta\<close>; the description is a column that the row does not have here.\<close>

definition compute_delta :: "sys \<Rightarrow> string \<Rightarrow> val dict \<Rightarrow> (delta \<times> wf_ex) eng" where
  "compute_delta sy i b =
     transaction (ebind (get_workflow_execution i) (\<lambda>_.
       ebind (lift_res (execution_delta b)) (\<lambda>d.
       eseq (if dt_state d = [] then ebind (lift_res (env_of (dt_env d))) (update_workflow_execution_env (sy_env sy) i) else ret ())
         (ebind (get_workflow_execution i) (\<lambda>x. ret (d, x))))))"

definition cannot_change_state :: "string \<Rightarrow> exn" where
  "cannot_change_state s = InputException (''Cannot change state to '' @ s @ ''. Allowed states are: '' @ [CHR 0x27] @
     join_str '', '' (map state_str [RUNNING, PAUSED, SUCCESS, ERROR, CANCELLED]))"

definition put_execution :: "nat \<Rightarrow> sys \<Rightarrow> rest_conf \<Rightarrow> string \<Rightarrow> val dict \<Rightarrow> wf_ex eng" where
  "put_execution n sy c i b =
     eseq (enforce_e c ''executions:update'') (ebind (compute_delta sy i b) (\<lambda>(d, x).
       if dt_state d = [] then ret x
       else (case state_of (dt_state d) of
           None \<Rightarrow> raise_e (cannot_change_state (dt_state d))
         | Some s \<Rightarrow>
             (if is_paused s then serve n sy (\<lambda>h. and_row i (engine_pause_workflow sy h i))
              else if s = RUNNING
              then ebind (lift_res (env_of (dt_env d))) (\<lambda>ev. serve n sy (\<lambda>h. and_row i (engine_resume_workflow sy h i ev)))
              else if is_completed s
              then serve n sy (\<lambda>h. and_row i (engine_stop_workflow sy i s
                     (if body_text b ''state_info'' = [] then VNone else VStr (body_text b ''state_info''))))
              else raise_e (cannot_change_state (dt_state d))))))"

text \<open>The columns of the source execution that the request uses.\<close>

definition execution_dict :: "rest_conf \<Rightarrow> wf_ex \<Rightarrow> val dict" where
  "execution_dict c x =
     [(''id'', VStr (we_id x)), (''workflow_name'', VStr (we_name x)), (''workflow_namespace'', VStr (we_namespace x)),
      (''workflow_id'', rc_workflow_id c (we_id x)), (''description'', rc_description c (we_id x)),
      (''params'', VDict (we_params x)), (''input'', VDict (we_input x))]"

definition based_on :: "val \<Rightarrow> string \<Rightarrow> val" where
  "based_on d i = VStr (strip (str_val d @ '' Based on the execution '' @ squote i))"

text \<open>The attributes of the new execution: those that are given replace or extend those of the source.\<close>

definition merged_request :: "sys \<Rightarrow> rest_conf \<Rightarrow> val dict \<Rightarrow> val dict eng" where
  "merged_request sy c b =
     (if \<not> given_val b ''source_execution_id'' then ret b
      else ebind (get_workflow_execution (body_text b ''source_execution_id'')) (\<lambda>x.
        case dget b ''description'' of
          None \<Rightarrow> raise_e (KeyError ''description'')
        | Some d \<Rightarrow> ret (merge_dicts (sy_env sy) True (execution_dict c x)
            (Some (dset ''description'' (based_on d (body_text b ''source_execution_id'')) b)))))"

text \<open>
  The keywords of \<^verbatim>\<open>EngineClient.start_workflow\<close> are in \<open>passed_keywords\<close>; a parameter of that name is a
  \<^verbatim>\<open>TypeError\<close>. A parameter \<^verbatim>\<open>async_\<close> is taken for the keyword of the client: the call is not waited for,
  and there is no answer to make a resource of.
\<close>

definition start_params :: "val dict \<Rightarrow> val dict res" where
  "start_params b =
     (let p = vdict_of (body_val b ''params'')
      in if list_ex (\<lambda>k. k \<in> set passed_keywords) (dkeys p) then Inl TypeError else Inr (ddel ''async_'' p))"

definition identifier_of :: "val dict \<Rightarrow> string res" where
  "identifier_of b =
     (case dget_default b ''workflow_id'' (body_val b ''workflow_name'') of VStr s \<Rightarrow> Inr s | _ \<Rightarrow> Inl (DBEntityNotFoundError ''None''))"

definition start_merged :: "nat \<Rightarrow> sys \<Rightarrow> string \<Rightarrow> val dict \<Rightarrow> wf_ex eng" where
  "start_merged n sy i b =
     (if \<not> given_val b ''workflow_id'' \<and> \<not> given_val b ''workflow_name''
      then raise_e (WorkflowException ''Workflow ID or workflow name must be provided. Workflow ID is recommended.'')
      else ebind (lift_res (start_params b)) (\<lambda>params.
        let start = (\<lambda>h. ebind (lift_res (identifier_of b)) (\<lambda>d.
              engine_start_workflow sy h d (body_text b ''workflow_namespace'') (Some i) (vdict_of (body_val b ''input'')) params))
        in if given_val (vdict_of (body_val b ''params'')) ''async_''
           then (\<lambda>w. (Inl AttributeError, snd (serve n sy start w)))
           else serve n sy start))"

text \<open>\<open>fresh\<close> is the identifier that is generated when none is given.\<close>

definition post_execution :: "nat \<Rightarrow> sys \<Rightarrow> rest_conf \<Rightarrow> string \<Rightarrow> val dict \<Rightarrow> wf_ex eng" where
  "post_execution n sy c fresh b =
     eseq (enforce_e c ''executions:create'')
       (let i = (if given_val b ''id'' then body_text b ''id'' else fresh); b' = dset ''id'' (VStr i) b
        in ebind (if given_val b ''id'' then load_workflow_execution i else ret None) (\<lambda>found.
             case found of
               Some x \<Rightarrow> ret x
             | None \<Rightarrow> ebind (merged_request sy c b') (start_merged n sy i)))"

definition delete_execution :: "rest_conf \<Rightarrow> bool \<Rightarrow> string \<Rightarrow> unit eng" where
  "delete_execution c force i =
     eseq (enforce_e c ''executions:delete'')
     (eseq (if force then ret ()
            else ebind (get_workflow_execution i) (\<lambda>x.
              if is_completed (we_state x) then ret ()
              else raise_e (NotAllowedException ''Only completed executions can be deleted. Use --force to override this.'')))
       (delete_workflow_execution (rc_broken c) i))"

section \<open>Tasks\<close>

definition task_update_allowed :: "val dict \<Rightarrow> task_ex \<Rightarrow> wf_ex \<Rightarrow> unit res" where
  "task_update_allowed b t x =
     bind_res (guard_res (body_text b ''workflow_name'' = [] \<or> body_text b ''workflow_name'' = we_name x)
       (WorkflowException ''Workflow name does not match.'')) (\<lambda>_.
     bind_res (guard_res (body_text b ''state'' = ''RUNNING'' \<or> body_text b ''state'' = ''SKIPPED'')
       (WorkflowException ''Invalid task state. Only updating task to RUNNING or SKIPPED is supported.'')) (\<lambda>_.
     bind_res (guard_res (te_state t = ERROR)
       (WorkflowException ''The current task execution must be in ERROR for rerun. Only updating task to rerun is supported.'')) (\<lambda>_.
     if body_text b ''state'' \<noteq> ''RUNNING'' then Inr ()
     else bind_res (guard_res (dhas b ''reset'') (WorkflowException ''Reset field is mandatory to rerun task.'')) (\<lambda>_.
       guard_res (ts_with_items (te_spec t) \<noteq> [] \<or> given_val b ''reset'')
         (WorkflowException ''Only with-items task has the option to not reset.'')))))"

text \<open>\<open>checked_task\<close> is all that happens before the engine is called.\<close>

definition checked_task :: "rest_conf \<Rightarrow> string \<Rightarrow> val dict \<Rightarrow> task_ex eng" where
  "checked_task c i b =
     eseq (enforce_e c ''tasks:update'')
     (ebind (transaction (ebind (get_task_execution i) (\<lambda>t.
        if body_text b ''name'' \<noteq> [] \<and> body_text b ''name'' \<noteq> te_name t then raise_e (WorkflowException ''Task name does not match.'')
        else ebind (get_workflow_execution (te_wf_id t)) (\<lambda>x. ret (t, x)))))
       (\<lambda>(t, x). ebind (lift_res (task_update_allowed b t x)) (\<lambda>_. ret t)))"

definition put_task :: "nat \<Rightarrow> sys \<Rightarrow> rest_conf \<Rightarrow> string \<Rightarrow> val dict \<Rightarrow> task_ex eng" where
  "put_task n sy c i b =
     ebind (checked_task c i b) (\<lambda>t.
       eseq (serve n sy (\<lambda>h. engine_rerun_workflow sy h (te_id t) (given_val b ''reset'') (body_text b ''state'' = ''SKIPPED'')
              (vdict_of (body_val b ''env''))))
         (get_task_execution i))"

section \<open>Action executions\<close>

definition action_keywords :: "string list" where
  "action_keywords = [''self'', ''action_name'', ''action_input'', ''description'', ''namespace'']"

definition post_action_execution :: "nat \<Rightarrow> sys \<Rightarrow> rest_conf \<Rightarrow> val dict \<Rightarrow> action_ex eng" where
  "post_action_execution n sy c b =
     eseq (enforce_e c ''action_executions:create'')
       (if \<not> given_val b ''name'' then raise_e (InputException ''Please provide at least action name to run action.'')
        else (let p = vdict_of (body_val b ''params'')
              in if list_ex (\<lambda>k. k \<in> set action_keywords) (dkeys p) then raise_e TypeError
                 else serve n sy (\<lambda>h. engine_start_action sy (body_text b ''name'') (vdict_of (body_val b ''input''))
                        (body_text b ''workflow_namespace'') (given_val p ''run_sync'') (given_val p ''save_result'')
                        (dget p ''target'') (dget p ''timeout''))))"

definition supported_transition_states :: "state list" where
  "supported_transition_states = [SUCCESS, ERROR, CANCELLED, PAUSED, RUNNING]"

definition result_of_request :: "rest_conf \<Rightarrow> state \<Rightarrow> val dict \<Rightarrow> action_result res" where
  "result_of_request c s b =
     (if s = SUCCESS
      then (case dget b ''output'' of None \<Rightarrow> bind_res (rc_unset_output c) (\<lambda>v. Inr (SuccessResult v)) | Some v \<Rightarrow> Inr (SuccessResult v))
      else if s = ERROR then Inr (ErrorResult (if given_val b ''output'' then body_val b ''output'' else VStr ''Unknown error''))
      else Inr (CancelResult VNone))"

definition put_action_execution :: "nat \<Rightarrow> sys \<Rightarrow> rest_conf \<Rightarrow> string \<Rightarrow> val dict \<Rightarrow> action_ex eng" where
  "put_action_execution n sy c i b =
     eseq (enforce_e c ''action_executions:update'')
       (case state_of (body_text b ''state'') of
          None \<Rightarrow> raise_e (OtherException ''InvalidResultException'')
        | Some s \<Rightarrow>
            (if s \<notin> set supported_transition_states then raise_e (OtherException ''InvalidResultException'')
             else if is_completed s
             then ebind (lift_res (result_of_request c s b)) (\<lambda>r.
               serve n sy (\<lambda>h. and_action_row i (engine_on_action_complete sy h i r False)))
             else serve n sy (\<lambda>h. and_action_row i (engine_on_action_update sy h i s False))))"

definition remove_action_row :: "string \<Rightarrow> unit eng" where
  "remove_action_row i = modify (\<lambda>w. w\<lparr>w_actions := ddel i (w_actions w)\<rparr>)"

definition delete_action_execution :: "rest_conf \<Rightarrow> string \<Rightarrow> unit eng" where
  "delete_action_execution c i =
     eseq (enforce_e c ''action_executions:delete'')
       (if \<not> rc_allow_action_deletion c then raise_e (NotAllowedException ''Action execution deletion is not allowed.'')
        else transaction (ebind (get_action_execution i) (\<lambda>a.
          if ae_task_id a \<noteq> None then raise_e (NotAllowedException ''Only ad-hoc action execution can be deleted.'')
          else if \<not> is_completed (ae_state a) then raise_e (NotAllowedException ''Only completed action execution can be deleted.'')
          else remove_action_row i)))"

section \<open>The requests together\<close>

datatype rest_request =
    PutExecution string "val dict"
  | PostExecution string "val dict"
  | DeleteExecution bool string
  | PutTask string "val dict"
  | PostActionExecution "val dict"
  | PutActionExecution string "val dict"
  | DeleteActionExecution string

fun rest_body :: "nat \<Rightarrow> sys \<Rightarrow> rest_conf \<Rightarrow> rest_request \<Rightarrow> unit eng" where
  "rest_body n sy c (PutExecution i b) = to_unit (put_execution n sy c i b)"
| "rest_body n sy c (PostExecution i b) = to_unit (post_execution n sy c i b)"
| "rest_body n sy c (DeleteExecution force i) = delete_execution c force i"
| "rest_body n sy c (PutTask i b) = to_unit (put_task n sy c i b)"
| "rest_body n sy c (PostActionExecution b) = to_unit (post_action_execution n sy c b)"
| "rest_body n sy c (PutActionExecution i b) = to_unit (put_action_execution n sy c i b)"
| "rest_body n sy c (DeleteActionExecution i) = delete_action_execution c i"

end
