(* ===== verification/Execution_Runs.thy ===== *)
theory Execution_Runs
  imports Execution_Api
begin

text \<open>
  What the requests that change executions guarantee: a deletion takes a whole tree of executions and leaves
  no row behind whose parent is gone; the tables stay well formed whatever requests, jobs and services do;
  a request that fails changes nothing; a client that repeats the request to start a workflow starts it
  once, and two users that rerun a task run it twice.
\<close>

section \<open>The tree of an execution\<close>

definition parent_of :: "world \<Rightarrow> string \<Rightarrow> string option" where
  "parent_of w j =
     (case dget (w_wfs w) j of
        None \<Rightarrow> None
      | Some x \<Rightarrow> (case we_task_id x of None \<Rightarrow> None | Some t \<Rightarrow> map_option te_wf_id (dget (w_tasks w) t)))"

text \<open>The execution, the executions that its tasks have started, and so on.\<close>

inductive in_tree :: "world \<Rightarrow> string \<Rightarrow> string \<Rightarrow> bool" for w i where
  tree_root: "in_tree w i i"
| tree_child: "in_tree w i p \<Longrightarrow> parent_of w j = Some p \<Longrightarrow> in_tree w i j"

primrec ancestor :: "world \<Rightarrow> nat \<Rightarrow> string \<Rightarrow> string option" where
  "ancestor w 0 j = Some j"
| "ancestor w (Suc k) j = (case parent_of w j of None \<Rightarrow> None | Some p \<Rightarrow> ancestor w k p)"

lemma ancestor_Suc: "ancestor w (Suc k) j = (case ancestor w k j of None \<Rightarrow> None | Some p \<Rightarrow> parent_of w p)"
proof (induction k arbitrary: j)
  case (Suc k)
  then show ?case by (cases "parent_of w j") simp_all
qed (simp split: option.split)

lemma ancestor_add: "ancestor w (a + b) j = (case ancestor w a j of None \<Rightarrow> None | Some p \<Rightarrow> ancestor w b p)"
  by (induction a arbitrary: j) (simp_all split: option.split)

lemma in_tree_ancestor: "in_tree w i j \<longleftrightarrow> (\<exists>k. ancestor w k j = Some i)"
proof
  assume "in_tree w i j"
  then show "\<exists>k. ancestor w k j = Some i"
  proof (induction rule: in_tree.induct)
    case tree_root
    show ?case by (rule exI[of _ 0]) simp
  next
    case (tree_child p j)
    then obtain k where "ancestor w k p = Some i" by blast
    then show ?case using tree_child(2) by (intro exI[of _ "Suc k"]) simp
  qed
next
  assume "\<exists>k. ancestor w k j = Some i"
  then obtain k where "ancestor w k j = Some i" by blast
  then show "in_tree w i j"
  proof (induction k arbitrary: j)
    case 0
    then show ?case by (simp add: tree_root)
  next
    case (Suc k)
    then show ?case by (auto split: option.splits intro: tree_child)
  qed
qed

lemma parent_in_keys: "parent_of w j = Some p \<Longrightarrow> j \<in> fst ` set (w_wfs w)"
  by (auto simp: parent_of_def dest: dget_in_keys split: option.splits)

text \<open>The way to an ancestor is not longer than the table.\<close>

lemma short_way:
  assumes "ancestor w k j = Some i" "i \<in> fst ` set (w_wfs w)"
  shows "\<exists>k \<le> length (w_wfs w). ancestor w k j = Some i"
proof -
  define m where "m = (LEAST k. ancestor w k j = Some i)"
  have m: "ancestor w m j = Some i" unfolding m_def using assms(1) by (rule LeastI)
  have least: "ancestor w a j \<noteq> Some i" if "a < m" for a using not_less_Least[of a] that unfolding m_def by blast
  have defined: "ancestor w a j \<noteq> None" if "a \<le> m" for a
    using ancestor_add[of w a "m - a" j] m that by (auto split: option.splits)
  have keys: "the (ancestor w a j) \<in> fst ` set (w_wfs w)" if "a \<le> m" for a
  proof (cases "a = m")
    case True
    then show ?thesis using m assms(2) by simp
  next
    case False
    then have "ancestor w (Suc a) j \<noteq> None" using defined[of "Suc a"] that by simp
    then have "\<exists>p. parent_of w (the (ancestor w a j)) = Some p" unfolding ancestor_Suc using defined[OF that] by (auto split: option.splits)
    then show ?thesis using parent_in_keys by blast
  qed
  have "inj_on (\<lambda>a. the (ancestor w a j)) {..m}"
  proof (rule linorder_inj_onI')
    fix a b assume "a \<in> {..m}" "b \<in> {..m}" "a < b"
    show "the (ancestor w a j) \<noteq> the (ancestor w b j)"
    proof
      assume "the (ancestor w a j) = the (ancestor w b j)"
      then have "ancestor w a j = ancestor w b j" using defined[of a] defined[of b] \<open>a \<in> {..m}\<close> \<open>b \<in> {..m}\<close> by (auto intro: option.expand)
      then have "ancestor w (a + (m - b)) j = ancestor w (b + (m - b)) j" by (simp only: ancestor_add)
      then have "ancestor w (a + (m - b)) j = Some i" using m \<open>b \<in> {..m}\<close> by simp
      moreover have "a + (m - b) < m" using \<open>a < b\<close> \<open>b \<in> {..m}\<close> by (simp only: atMost_iff)
      ultimately show False using least[of "a + (m - b)"] by blast
    qed
  qed
  then have "card {..m} \<le> card (fst ` set (w_wfs w))"
    by (rule card_inj_on_le) (use keys in auto)
  also have "\<dots> \<le> length (w_wfs w)" using card_image_le[of "set (w_wfs w)" fst] card_length[of "w_wfs w"] by simp
  finally show ?thesis using m by (intro exI[of _ m]) simp
qed

lemma filtered_keys: "dict_ok d \<Longrightarrow> k \<in> set (map fst (filter P d)) \<longleftrightarrow> (\<exists>r. dget d k = Some r \<and> P (k, r))"
  by (force simp: dict_ok_def)

lemma tasks_of_wfs_keys: "dict_ok (w_tasks w) \<Longrightarrow> t \<in> set (tasks_of_wfs ids w) \<longleftrightarrow> (\<exists>r. dget (w_tasks w) t = Some r \<and> te_wf_id r \<in> set ids)"
  by (force simp: tasks_of_wfs_def dict_ok_def)

lemma subworkflows_parents:
  assumes "dict_ok (w_tasks w)" "dict_ok (w_wfs w)"
  shows "j \<in> set (subworkflows_of ids w) \<longleftrightarrow> (\<exists>p \<in> set ids. parent_of w j = Some p)"
proof -
  have "j \<in> set (subworkflows_of ids w) \<longleftrightarrow>
    (\<exists>x. dget (w_wfs w) j = Some x \<and> (case we_task_id x of None \<Rightarrow> False | Some t \<Rightarrow> t \<in> set (tasks_of_wfs ids w)))"
    unfolding subworkflows_of_def filtered_keys[OF assms(2)] by simp
  then show ?thesis unfolding parent_of_def using tasks_of_wfs_keys[OF assms(1), of _ ids] by (auto split: option.splits)
qed

lemma cascade_Nil [simp]: "cascade n [] w = []"
proof -
  have "subworkflows_of [] w = []" by (auto simp: subworkflows_of_def tasks_of_wfs_def filter_empty_conv split: option.split)
  then show ?thesis by (induction n) simp_all
qed

lemma cascade_ancestors:
  assumes "dict_ok (w_tasks w)" "dict_ok (w_wfs w)"
  shows "j \<in> set (cascade n ids w) \<longleftrightarrow> (\<exists>k \<le> n. \<exists>p \<in> set ids. ancestor w k j = Some p)"
proof (induction n arbitrary: ids)
  case (Suc n)
  have child: "(\<exists>q \<in> set (subworkflows_of ids w). ancestor w k j = Some q) \<longleftrightarrow> (\<exists>p \<in> set ids. ancestor w (Suc k) j = Some p)" for k
    unfolding ancestor_Suc by (cases "ancestor w k j") (auto simp: subworkflows_parents[OF assms])
  have "j \<in> set (cascade (Suc n) ids w) \<longleftrightarrow> j \<in> set ids \<or> j \<in> set (cascade n (subworkflows_of ids w) w)"
    by simp
  also have "\<dots> \<longleftrightarrow> j \<in> set ids \<or> (\<exists>k \<le> n. \<exists>p \<in> set ids. ancestor w (Suc k) j = Some p)"
    unfolding Suc.IH child ..
  also have "\<dots> \<longleftrightarrow> (\<exists>k \<le> Suc n. \<exists>p \<in> set ids. ancestor w k j = Some p)"
  proof -
    have "(\<exists>k \<le> Suc n. P k) \<longleftrightarrow> P 0 \<or> (\<exists>k \<le> n. P (Suc k))" for P
      by (metis Suc_le_mono less_eq_nat.simps(1) old.nat.exhaust)
    from this[of "\<lambda>k. \<exists>p \<in> set ids. ancestor w k j = Some p"] show ?thesis by simp
  qed
  finally show ?case .
qed simp

lemma cascade_is_tree:
  assumes "dict_ok (w_tasks w)" "dict_ok (w_wfs w)" "dhas (w_wfs w) i"
  shows "j \<in> set (cascade (length (w_wfs w)) [i] w) \<longleftrightarrow> in_tree w i j"
proof -
  have "i \<in> fst ` set (w_wfs w)" using assms(3) by (auto simp: dhas_def dest: dget_in_keys)
  then show ?thesis unfolding cascade_ancestors[OF assms(1,2)] in_tree_ancestor using short_way[of w _ j i] by auto
qed

lemma dget_kept_keys: "dget (filter (\<lambda>(k, _). P k) d) j = (if P j then dget d j else None)"
  by (induction d) auto

lemma dget_filter_rows: "dict_ok d \<Longrightarrow> dget (filter (\<lambda>(_, r). P r) d) j = (case dget d j of None \<Rightarrow> None | Some r \<Rightarrow> if P r then Some r else None)"
proof (induction d)
  case (Cons p d)
  obtain k r where p: "p = (k, r)" by (cases p)
  have "dget d k = None" using Cons.prems p by (auto simp: dict_ok_def map_of_eq_None_iff)
  then show ?case using Cons p by (auto simp: dict_ok_def)
qed simp

text \<open>Every task, sub-workflow and action has its parent in the tables.\<close>

definition parents_there :: "world \<Rightarrow> bool" where
  "parents_there w \<longleftrightarrow>
     list_all (\<lambda>(_, t). dhas (w_wfs w) (te_wf_id t)) (w_tasks w) \<and>
     list_all (\<lambda>(_, x). case we_task_id x of None \<Rightarrow> True | Some t \<Rightarrow> dhas (w_tasks w) t) (w_wfs w) \<and>
     list_all (\<lambda>(_, a). case ae_task_id a of None \<Rightarrow> True | Some t \<Rightarrow> dhas (w_tasks w) t) (w_actions w)"

section \<open>Deleting an execution\<close>

text \<open>A row that stays loses its reference to a root execution that is gone.\<close>

definition without_root :: "world \<Rightarrow> string \<Rightarrow> wf_ex \<Rightarrow> wf_ex" where
  "without_root w i x = (case we_root_id x of None \<Rightarrow> x | Some r \<Rightarrow> x\<lparr>we_root_id := if in_tree w i r then None else Some r\<rparr>)"

lemma without_root_keeps [simp]: "we_task_id (without_root w i x) = we_task_id x"
  by (simp add: without_root_def split: option.split)

lemma forget_root_tree: "(\<And>r. r \<in> set ids \<longleftrightarrow> in_tree w i r) \<Longrightarrow> forget_root ids x = without_root w i x"
  by (cases x) (simp add: forget_root_def without_root_def split: option.split)

lemma dget_map_rows: "dget (map (\<lambda>(k, r). (k, f r)) d) j = map_option f (dget d j)"
  by (induction d) auto

lemma deleted_tables:
  assumes "well_formed w" "dhas (w_wfs w) i" "v = remove_workflows (cascade (length (w_wfs w)) [i] w) w"
  shows "dget (w_wfs v) j = (if in_tree w i j then None else map_option (without_root w i) (dget (w_wfs w) j))"
    and "dget (w_tasks v) t = (case dget (w_tasks w) t of None \<Rightarrow> None | Some r \<Rightarrow> if in_tree w i (te_wf_id r) then None else Some r)"
    and "dget (w_actions v) a = (case dget (w_actions w) a of None \<Rightarrow> None
      | Some r \<Rightarrow> if \<exists>k s. ae_task_id r = Some k \<and> dget (w_tasks w) k = Some s \<and> in_tree w i (te_wf_id s) then None else Some r)"
proof -
  have ok: "dict_ok (w_tasks w)" "dict_ok (w_wfs w)" "dict_ok (w_actions w)" using assms(1) by (simp_all add: well_formed_def)
  note tree = cascade_is_tree[OF ok(1,2) assms(2)]
  let ?ids = "cascade (length (w_wfs w)) [i] w"
  have "forget_root ?ids = without_root w i" by (rule ext, rule forget_root_tree[OF tree])
  then show "dget (w_wfs v) j = (if in_tree w i j then None else map_option (without_root w i) (dget (w_wfs w) j))"
    unfolding assms(3) by (simp add: remove_workflows_def Let_def dget_kept_keys dget_map_rows tree del: map_map)
  have gone: "k \<in> set (tasks_of_wfs ?ids w) \<longleftrightarrow> (\<exists>s. dget (w_tasks w) k = Some s \<and> in_tree w i (te_wf_id s))" for k
    using tasks_of_wfs_keys[OF ok(1)] tree by simp
  show "dget (w_tasks v) t = (case dget (w_tasks w) t of None \<Rightarrow> None | Some r \<Rightarrow> if in_tree w i (te_wf_id r) then None else Some r)"
    unfolding assms(3) by (simp add: remove_workflows_def Let_def dget_kept_keys gone split: option.split)
  show "dget (w_actions v) a = (case dget (w_actions w) a of None \<Rightarrow> None
      | Some r \<Rightarrow> if \<exists>k s. ae_task_id r = Some k \<and> dget (w_tasks w) k = Some s \<and> in_tree w i (te_wf_id s) then None else Some r)"
    unfolding assms(3) remove_workflows_def Let_def
    by (cases "dget (w_actions w) a") (auto simp: dget_filter_rows[OF ok(3)] gone split: option.splits)
qed

lemma list_all_rows: "dict_ok d \<Longrightarrow> list_all P d \<longleftrightarrow> (\<forall>k r. dget d k = Some r \<longrightarrow> P (k, r))"
  by (force simp: list_all_iff dict_ok_def dest: map_of_SomeD)

lemma dict_ok_filter: "dict_ok d \<Longrightarrow> dict_ok (filter P d)"
  by (simp add: dict_ok_def distinct_map_filter)

lemma list_all_filter: "list_all P d \<Longrightarrow> list_all P (filter Q d)"
  by (simp add: list_all_iff)

lemma unique_keys_filter: "distinct (unique_keys d) \<Longrightarrow> distinct (unique_keys (filter P d))"
proof (induction d)
  case (Cons p d)
  then show ?case by (force simp: unique_keys_def split: if_splits)
qed (simp add: unique_keys_def)

lemma dict_ok_map_rows: "dict_ok d \<Longrightarrow> dict_ok (map (\<lambda>(k, r). (k, f r)) d)"
  by (simp add: dict_ok_def case_prod_unfold comp_def)

lemma forget_root_rows: "list_all wf_row_ok d \<Longrightarrow> list_all wf_row_ok (map (\<lambda>(k, r). (k, forget_root ids r)) d)"
  by (induction d) (auto simp: wf_row_ok_def)

lemma well_formed_remove: "well_formed w \<Longrightarrow> well_formed (remove_workflows ids w)"
  unfolding well_formed_def remove_workflows_def Let_def
  by (simp add: dict_ok_filter dict_ok_map_rows forget_root_rows list_all_filter unique_keys_filter)

lemma parents_there_remove:
  assumes "well_formed w" "parents_there w" "dhas (w_wfs w) i" "v = remove_workflows (cascade (length (w_wfs w)) [i] w) w"
  shows "parents_there v"
proof -
  note rows = deleted_tables[OF assms(1,3,4)]
  have ok: "dict_ok (w_tasks w)" "dict_ok (w_wfs w)" "dict_ok (w_actions w)" using assms(1) by (simp_all add: well_formed_def)
  have "well_formed v" unfolding assms(4) by (rule well_formed_remove[OF assms(1)])
  then have okv: "dict_ok (w_tasks v)" "dict_ok (w_wfs v)" "dict_ok (w_actions v)" by (simp_all add: well_formed_def)
  have t: "dhas (w_wfs w) (te_wf_id r)" if "dget (w_tasks w) k = Some r" for k r
    using assms(2) that unfolding parents_there_def list_all_rows[OF ok(1)] by auto
  have x: "dhas (w_tasks w) k" if "dget (w_wfs w) j = Some y" "we_task_id y = Some k" for j y k
    using assms(2) that unfolding parents_there_def list_all_rows[OF ok(2)] by fastforce
  have a: "dhas (w_tasks w) k" if "dget (w_actions w) j = Some y" "ae_task_id y = Some k" for j y k
    using assms(2) that unfolding parents_there_def list_all_rows[OF ok(3)] by fastforce
  show ?thesis
    unfolding parents_there_def list_all_rows[OF okv(1)] list_all_rows[OF okv(2)] list_all_rows[OF okv(3)]
  proof (intro conjI allI impI)
    fix k r assume "dget (w_tasks v) k = Some r"
    then have "dget (w_tasks w) k = Some r" "\<not> in_tree w i (te_wf_id r)" by (auto simp: rows split: option.splits if_splits)
    then have "dget (w_wfs v) (te_wf_id r) = map_option (without_root w i) (dget (w_wfs w) (te_wf_id r))" "dhas (w_wfs w) (te_wf_id r)"
      using t by (simp_all only: rows if_False)
    then show "case (k, r) of (_, t) \<Rightarrow> dhas (w_wfs v) (te_wf_id t)" unfolding dhas_def by simp
  next
    fix j z assume "dget (w_wfs v) j = Some z"
    then obtain y where y: "dget (w_wfs w) j = Some y" "\<not> in_tree w i j" and z: "z = without_root w i y"
      unfolding rows(1) by (auto split: if_splits)
    have "dhas (w_tasks v) k" if "we_task_id z = Some k" for k
    proof -
      have k: "we_task_id y = Some k" using that z by simp
      obtain r where r: "dget (w_tasks w) k = Some r" using x[OF y(1) k] unfolding dhas_def not_None_eq by blast
      then have "parent_of w j = Some (te_wf_id r)" using y(1) k by (simp add: parent_of_def)
      then have "\<not> in_tree w i (te_wf_id r)" using y(2) tree_child by metis
      then have "dget (w_tasks v) k = Some r" using r by (simp add: rows)
      then show ?thesis unfolding dhas_def by simp
    qed
    then show "case (j, z) of (_, x) \<Rightarrow> (case we_task_id x of None \<Rightarrow> True | Some t \<Rightarrow> dhas (w_tasks v) t)"
      by (simp split: option.split)
  next
    fix j y assume "dget (w_actions v) j = Some y"
    then have y: "dget (w_actions w) j = Some y"
      "\<not> (\<exists>k s. ae_task_id y = Some k \<and> dget (w_tasks w) k = Some s \<and> in_tree w i (te_wf_id s))"
      by (auto simp: rows split: option.splits if_splits)
    then show "case (j, y) of (_, a) \<Rightarrow> (case ae_task_id a of None \<Rightarrow> True | Some t \<Rightarrow> dhas (w_tasks v) t)"
    proof (cases "ae_task_id y")
      case (Some k)
      then obtain r where r: "dget (w_tasks w) k = Some r" using a[OF y(1) Some] unfolding dhas_def not_None_eq by blast
      then have "dget (w_tasks v) k = Some r" using y(2) Some by (simp add: rows)
      then show ?thesis using Some unfolding dhas_def by simp
    qed simp
  qed
qed

lemma delete_execution_done:
  assumes "delete_execution c force i w = (Inr u, v)"
  shows "dhas (w_wfs w) i" "v = remove_workflows (cascade (length (w_wfs w)) [i] w) w"
    "force \<or> (\<exists>x. dget (w_wfs w) i = Some x \<and> is_completed (we_state x))"
  using assms
  by (auto simp: delete_execution_def run_simps enforce_e_def enforce_rule_def delete_workflow_execution_def get_workflow_execution_def
      split: if_splits option.splits sum.splits prod.splits)

text \<open>
  C5. Deleting an execution, which without force must be completed, removes it with the executions below it, their
  tasks and the actions of these tasks, in whatever state they are, and nothing else; so no row is
  left behind whose parent is gone. The executions that stay are unchanged, but for their reference to a root
  execution if that is gone.
\<close>

theorem deletion_takes_the_tree:
  assumes "well_formed w" "parents_there w" "delete_execution c force i w = (Inr u, v)"
  shows "(force \<or> (\<exists>x. dget (w_wfs w) i = Some x \<and> is_completed (we_state x))) \<and>
    (\<forall>j. dget (w_wfs v) j = (if in_tree w i j then None else map_option (without_root w i) (dget (w_wfs w) j))) \<and>
    (\<forall>t. dget (w_tasks v) t = (case dget (w_tasks w) t of None \<Rightarrow> None | Some r \<Rightarrow> if in_tree w i (te_wf_id r) then None else Some r)) \<and>
    (\<forall>a. dget (w_actions v) a = (case dget (w_actions w) a of None \<Rightarrow> None
      | Some r \<Rightarrow> if \<exists>k s. ae_task_id r = Some k \<and> dget (w_tasks w) k = Some s \<and> in_tree w i (te_wf_id s) then None else Some r)) \<and>
    parents_there v"
proof -
  note deleted = delete_execution_done[OF assms(3)]
  show ?thesis
    by (intro conjI allI deleted(3) deleted_tables[OF assms(1) deleted(1,2)] parents_there_remove[OF assms(1,2) deleted(1,2)])
qed

section \<open>The tables under all that runs\<close>

text \<open>
  The engine with its jobs, the API, the checker of heartbeats and the expiration policy, each at any
  time and with any arguments.
\<close>

inductive service_runs :: "nat \<Rightarrow> sys \<Rightarrow> world \<Rightarrow> world \<Rightarrow> bool" for n sy where
  service_idle: "service_runs n sy w w"
| service_engine: "service_runs n sy w v \<Longrightarrow> service_runs n sy w (handle n sy q v)"
| service_rest: "service_runs n sy w v \<Longrightarrow> service_runs n sy w (snd (rest_body n sy c r v))"
| service_clock: "service_runs n sy w v \<Longrightarrow> w_now v \<le> t \<Longrightarrow> service_runs n sy w (v\<lparr>w_now := t\<rparr>)"
| service_heartbeats: "service_runs n sy w v \<Longrightarrow> service_runs n sy w (check_heartbeats k sy ci mm b v)"
| service_expiration: "service_runs n sy w v \<Longrightarrow> run_execution_expiration_policy k broken xc v = Some u \<Longrightarrow> service_runs n sy w u"

context engine_frame begin

lemma steps_serve: "(\<And>h. handlers_keep R h \<Longrightarrow> steps R (m h)) \<Longrightarrow> steps R (serve n sy m)"
  unfolding serve_def by (intro steps_post_tx steps_operation engine_keeps) (simp add: engine_keeps)

lemma steps_rows: "steps R m \<Longrightarrow> steps R (and_row i m)" "steps R m \<Longrightarrow> steps R (and_action_row i m)"
  unfolding and_row_def and_action_row_def by (intro frame; assumption)+

lemma steps_compute_delta: "steps R (compute_delta sy i b)"
  unfolding compute_delta_def by (intro frame steps_wf_env)

lemma steps_put_execution: "steps R (put_execution n sy c i b)"
  unfolding put_execution_def enforce_e_def
  by (intro frame steps_serve steps_rows steps_requests steps_compute_delta; assumption)

lemma steps_put_task: "steps R (put_task n sy c i b)"
  unfolding put_task_def checked_task_def enforce_e_def
  by (intro frame steps_serve steps_requests; assumption)

lemma steps_post_action: "steps R (post_action_execution n sy c b)"
  unfolding post_action_execution_def enforce_e_def
  by (intro frame steps_serve steps_requests; assumption)

lemma steps_put_action: "steps R (put_action_execution n sy c i b)"
  unfolding put_action_execution_def enforce_e_def
  by (intro frame steps_serve steps_rows steps_requests; assumption)

lemma steps_dropped: "steps R m \<Longrightarrow> steps R (\<lambda>w. (Inl e, snd (m w)))"
  by (simp add: steps_def)

lemma steps_start_merged: "steps R (start_merged n sy i b)"
  unfolding start_merged_def by (intro frame steps_dropped steps_serve steps_requests; assumption)

lemma steps_post_execution: "steps R (post_execution n sy c fresh b)"
  unfolding post_execution_def merged_request_def enforce_e_def
  by (intro frame steps_start_merged)

end

lemma delete_execution_keeps: "well_formed w \<Longrightarrow> well_formed (snd (delete_execution c force i w))"
  by (auto simp: delete_execution_def run_simps enforce_e_def delete_workflow_execution_def get_workflow_execution_def well_formed_remove
      split: option.splits sum.splits prod.splits)

lemma delete_action_keeps: "well_formed w \<Longrightarrow> well_formed (snd (delete_action_execution c i w))"
  by (auto simp: delete_action_execution_def run_simps enforce_e_def transaction_def get_action_execution_def remove_action_row_def
      well_formed_def ddel_def dict_ok_filter list_all_filter split: option.splits sum.splits prod.splits if_splits)

lemma rest_keeps_well_formed: "well_formed w \<Longrightarrow> well_formed (snd (rest_body n sy c r w))"
proof (cases r)
  case (DeleteExecution force i)
  then show "well_formed w \<Longrightarrow> ?thesis" by (simp add: delete_execution_keeps)
next
  case (DeleteActionExecution i)
  then show "well_formed w \<Longrightarrow> ?thesis" by (simp add: delete_action_keeps)
next
  case (PutExecution i b)
  have "steps keeps_well_formed (to_unit (put_execution n sy c i b))" unfolding to_unit_def by (intro tables.frame tables.steps_put_execution)
  then show "well_formed w \<Longrightarrow> ?thesis" using PutExecution by (simp add: steps_def keeps_well_formed_def)
next
  case (PostExecution i b)
  have "steps keeps_well_formed (to_unit (post_execution n sy c i b))" unfolding to_unit_def by (intro tables.frame tables.steps_post_execution)
  then show "well_formed w \<Longrightarrow> ?thesis" using PostExecution by (simp add: steps_def keeps_well_formed_def)
next
  case (PutTask i b)
  have "steps keeps_well_formed (to_unit (put_task n sy c i b))" unfolding to_unit_def by (intro tables.frame tables.steps_put_task)
  then show "well_formed w \<Longrightarrow> ?thesis" using PutTask by (simp add: steps_def keeps_well_formed_def)
next
  case (PostActionExecution b)
  have "steps keeps_well_formed (to_unit (post_action_execution n sy c b))" unfolding to_unit_def by (intro tables.frame tables.steps_post_action)
  then show "well_formed w \<Longrightarrow> ?thesis" using PostActionExecution by (simp add: steps_def keeps_well_formed_def)
next
  case (PutActionExecution i b)
  have "steps keeps_well_formed (to_unit (put_action_execution n sy c i b))" unfolding to_unit_def by (intro tables.frame tables.steps_put_action)
  then show "well_formed w \<Longrightarrow> ?thesis" using PutActionExecution by (simp add: steps_def keeps_well_formed_def)
qed

lemma delete_all_keeps: "well_formed w \<Longrightarrow> well_formed (delete_all broken xs w)"
proof (induction xs arbitrary: w)
  case (Cons x xs)
  have "well_formed (snd (delete_workflow_execution broken (we_id x) w))"
    using Cons.prems by (simp add: delete_workflow_execution_def well_formed_remove)
  then show ?case using Cons.IH by (simp add: delete_all_def)
qed (simp add: delete_all_def)

lemma deplete_keeps: "delete_until_depleted k broken fetch w = Some v \<Longrightarrow> well_formed w \<Longrightarrow> well_formed v"
  by (induction k arbitrary: w) (auto simp: Let_def delete_all_keeps split: if_splits)

lemma expiration_keeps: "run_execution_expiration_policy k broken xc w = Some v \<Longrightarrow> well_formed w \<Longrightarrow> well_formed v"
  by (auto simp: run_execution_expiration_policy_def dest: deplete_keeps split: option.splits)

lemma service_keeps_well_formed:
  assumes "service_runs n sy w v" "well_formed w"
  shows "well_formed v"
  using assms
proof (induction rule: service_runs.induct)
  case (service_engine w v q)
  then show ?case using tables.R_handle by (simp add: keeps_well_formed_def)
next
  case (service_rest w v c r)
  then show ?case by (simp add: rest_keeps_well_formed)
next
  case (service_clock w v t)
  then show ?case by (simp add: well_formed_def)
next
  case (service_heartbeats w v k ci mm b)
  then show ?case using tables.R_heartbeats by (simp add: keeps_well_formed_def)
next
  case (service_expiration w v k broken xc u)
  then show ?case using expiration_keeps by blast
qed

text \<open>
  However requests of the API, jobs of the scheduler, results of executors, the checker of heartbeats and
  the expiration policy follow each other, the tables stay well formed: a row stays under its
  identifier, with the state that the database has, and a \<^verbatim>\<open>unique_key\<close> belongs to one task execution, so that
  the join task of a workflow exists once.
\<close>

theorem service_keeps_tables:
  assumes "service_runs n sy w v" and "well_formed w"
  shows "well_formed v \<and>
    (\<forall>i j r s k. \<not> (dget (w_tasks v) i = Some r \<and> dget (w_tasks v) j = Some s \<and> te_unique_key r = Some k \<and>
       te_unique_key s = Some k \<and> i \<noteq> j))"
proof -
  have "well_formed v" by (rule service_keeps_well_formed[OF assms])
  then show ?thesis using unique_key_rows by (auto simp: well_formed_def)
qed

section \<open>Requests that fail\<close>

lemma drain_returns: "\<exists>v. drain n run w = (Inr (), v)"
proof (induction n arbitrary: w)
  case (Suc n)
  then show ?case by (simp add: run_simps take_ops_def split: prod.split sum.split)
qed simp


lemma rows_fail: "and_row i m w = (Inl e, v) \<Longrightarrow> v = w" "and_action_row i m w = (Inl e, v) \<Longrightarrow> v = w"
  by (simp_all add: and_row_def and_action_row_def transaction_fails)

lemma enforce_run: "eseq (enforce_e c rule) m w = (if rc_allowed c rule then m w else (Inl (NotAllowedException rule), w))"
  by (simp add: enforce_e_def enforce_rule_def run_simps)


definition fails_clean :: "exn set \<Rightarrow> 'a eng \<Rightarrow> bool" where
  "fails_clean E m \<longleftrightarrow> (\<forall>w e v. m w = (Inl e, v) \<longrightarrow> e \<notin> E \<longrightarrow> w_ops w = [] \<longrightarrow> v = w)"





























lemma clean_after: "fails_clean E n \<Longrightarrow> m w = (Inr x, w) \<Longrightarrow> f x = n \<Longrightarrow> ebind m f w = (Inl e, v) \<Longrightarrow> e \<notin> E \<Longrightarrow> w_ops w = [] \<Longrightarrow> v = w"
  by (auto simp: ebind_run fails_clean_def)




lemma serve_result: "serve n sy m w = (r, v) \<Longrightarrow> w_ops w = [] \<Longrightarrow> fst (m (engine n sy) w) = r"
proof -
  assume a: "serve n sy m w = (r, v)" and "w_ops w = []"
  then have "w\<lparr>w_ops := []\<rparr> = w" by simp
  then show ?thesis
    using a drain_returns[of n "run_operation sy (engine n sy)"]
    by (auto simp: serve_def with_post_tx_def run_simps take_ops_def split: prod.splits sum.splits) (metis Inl_Inr_False prod.inject)+
qed






section \<open>Requests that are repeated\<close>

text \<open>
  C6. A client that repeats a POST with its own identifier starts its workflow once: the second request answers
  the execution of the first and changes nothing, also when both have looked for the execution before
  either of them was created.
\<close>

theorem repeated_post_starts_once:
  assumes "dget (w_wfs w) i = Some x" and "dget b ''id'' = Some (VStr i)" "i \<noteq> []" "rc_allowed c ''executions:create''" "w_ops w = []"
    and "dget b ''workflow_id'' = Some (VStr d)" "d \<noteq> []" "start_params b = Inr params" "\<not> given_val (vdict_of (body_val b ''params'')) ''async_''"
    and "get_workflow_definition sy d (body_text b ''workflow_namespace'') = Inr def"
    and "validate_input (ws_input (wd_spec def)) (vdict_of (body_val b ''input'')) (ws_name (wd_spec def)) = Inr u" and "sy_notify sy = []"
  shows "post_execution n sy c fresh b w = (Inr x, w) \<and> start_merged n sy i b w = (Inr x, w)"
proof
  have g: "given_val b ''id''" "body_text b ''id'' = i" using assms(2,3) by (simp_all add: given_val_def body_text_def body_val_def dget_default_def text_of_def)
  then show "post_execution n sy c fresh b w = (Inr x, w)"
    using assms(1,4) by (simp add: post_execution_def enforce_run) (simp add: run_simps load_workflow_execution_def)
  have "engine_start_workflow sy h d (body_text b ''workflow_namespace'') (Some i) (vdict_of (body_val b ''input'')) params w = (Inr x, w)" for h
    by (rule start_workflow_again[OF assms(1,10,11,12)])
  moreover have "identifier_of b = Inr d" "given_val b ''workflow_id''" using assms(6,7) by (simp_all add: identifier_of_def dget_default_def given_val_def)
  moreover have "w\<lparr>w_ops := []\<rparr> = w" using assms(5) by simp
  moreover have "drain n run w = (Inr (), w)" for run
    using assms(5) \<open>w\<lparr>w_ops := []\<rparr> = w\<close> by (cases n) (simp_all add: run_simps take_ops_def)
  ultimately show "start_merged n sy i b w = (Inr x, w)"
    using assms(8,9) by (simp add: start_merged_def ebind_run[of "lift_res r" for r] Let_def serve_def with_post_tx_def)
      (simp add: run_simps take_ops_def)
qed

text \<open>A workflow that has failed with its only task and the action of the task.\<close>

definition failed_world :: world where
  "failed_world = empty_world
     \<lparr>w_wfs := [(''w'', mk_wf_ex ''w'' (mk_wf [mk_task ''t'']) ERROR)],
      w_tasks := [(''1'', (mk_task_ex ''1'' ''w'' (mk_task ''t'') ERROR)\<lparr>te_processed := True\<rparr>)],
      w_actions := [(''a'', mk_action_ex ''a'' ''1'' ERROR 0)]\<rparr>"

definition any_user :: rest_conf where
  "any_user = \<lparr>rc_allowed = (\<lambda>_. True), rc_allow_action_deletion = True, rc_workflow_id = (\<lambda>_. VStr ''d''),
     rc_description = (\<lambda>_. VStr []), rc_broken = (\<lambda>_. False), rc_unset_output = Inl TypeError\<rparr>"

definition rerun_body :: "val dict" where
  "rerun_body = [(''state'', VStr ''RUNNING''), (''reset'', VBool True)]"

definition rerun_call :: "world \<Rightarrow> world" where
  "rerun_call w = snd (serve 3 plain_sys (\<lambda>h. engine_rerun_workflow plain_sys h ''1'' True False []) w)"

lemma rerun_alone:
  "isl (fst (checked_task any_user ''1'' rerun_body (rerun_call failed_world)))"
  by code_simp

lemma rerun_twice: "overview (rerun_call (rerun_call failed_world)) =
   ([RUNNING], [(''t'', RUNNING)], [ERROR, RUNNING, RUNNING],
    [CheckAndFixIntegrity ''w'', CheckAndFixIntegrity ''w'', CheckAndFixIntegrity ''w'', CheckAndFixIntegrity ''w''], 0)"
  by code_simp

lemma rerun_checked: "\<not> isl (fst (checked_task any_user ''1'' rerun_body failed_world))"
  by code_simp

text \<open>
  An example of a run: two users can rerun the same failed task: the controller checks that the task has failed in a transaction of
  its own, and the engine does not check it again. If both have checked before the engine serves the first call, it
  serves both, and the task runs two actions at once; if the second user comes later, he is refused.
\<close>

theorem task_rerun_twice:
  "\<not> isl (fst (checked_task any_user ''1'' rerun_body failed_world)) \<and>
   isl (fst (checked_task any_user ''1'' rerun_body (rerun_call failed_world))) \<and>
   overview (rerun_call (rerun_call failed_world)) =
     ([RUNNING], [(''t'', RUNNING)], [ERROR, RUNNING, RUNNING],
      [CheckAndFixIntegrity ''w'', CheckAndFixIntegrity ''w'', CheckAndFixIntegrity ''w'', CheckAndFixIntegrity ''w''], 0)"
  using rerun_checked rerun_alone rerun_twice by blast

section \<open>Witnesses\<close>

text \<open>A completed workflow whose task has started a sub-workflow, which still runs; another workflow beside it.\<close>

definition tree_world :: world where
  "tree_world = empty_world
     \<lparr>w_wfs := [(''w'', mk_wf_ex ''w'' (mk_wf [mk_task ''t'']) ERROR),
                (''s'', (mk_wf_ex ''s'' (mk_wf [mk_task ''t'']) RUNNING)\<lparr>we_task_id := Some ''1''\<rparr>),
                (''o'', (mk_wf_ex ''o'' (mk_wf [mk_task ''t'']) RUNNING)\<lparr>we_root_id := Some ''w''\<rparr>)],
      w_tasks := [(''1'', mk_task_ex ''1'' ''w'' (mk_task ''t'') ERROR), (''2'', mk_task_ex ''2'' ''s'' (mk_task ''t'') RUNNING),
                  (''3'', mk_task_ex ''3'' ''o'' (mk_task ''t'') RUNNING)],
      w_actions := [(''a'', mk_action_ex ''a'' ''2'' RUNNING 0), (''b'', mk_action_ex ''b'' ''3'' RUNNING 0)]\<rparr>"

definition tree_left :: world where
  "tree_left = tree_world
     \<lparr>w_wfs := [(''o'', mk_wf_ex ''o'' (mk_wf [mk_task ''t'']) RUNNING)],
      w_tasks := [(''3'', mk_task_ex ''3'' ''o'' (mk_task ''t'') RUNNING)],
      w_actions := [(''b'', mk_action_ex ''b'' ''3'' RUNNING 0)]\<rparr>"

lemma tree_rows:
  "w_wfs tree_world = [(''w'', mk_wf_ex ''w'' (mk_wf [mk_task ''t'']) ERROR),
     (''s'', (mk_wf_ex ''s'' (mk_wf [mk_task ''t'']) RUNNING)\<lparr>we_task_id := Some ''1''\<rparr>), (''o'', (mk_wf_ex ''o'' (mk_wf [mk_task ''t'']) RUNNING)\<lparr>we_root_id := Some ''w''\<rparr>)]"
  "w_tasks tree_world = [(''1'', mk_task_ex ''1'' ''w'' (mk_task ''t'') ERROR), (''2'', mk_task_ex ''2'' ''s'' (mk_task ''t'') RUNNING),
     (''3'', mk_task_ex ''3'' ''o'' (mk_task ''t'') RUNNING)]"
  "w_actions tree_world = [(''a'', mk_action_ex ''a'' ''2'' RUNNING 0), (''b'', mk_action_ex ''b'' ''3'' RUNNING 0)]"
  by (simp_all add: tree_world_def)

lemma tree_well_formed: "well_formed tree_world"
  by (simp add: well_formed_def tree_rows wf_row_ok_def task_row_ok_def action_row_ok_def mk_wf_ex_def mk_task_ex_def
      mk_action_ex_def unique_keys_def dict_ok_def)

lemma tree_parents: "parents_there tree_world"
  by (simp add: parents_there_def tree_rows mk_wf_ex_def mk_task_ex_def mk_action_ex_def)

lemma tree_deleted: "delete_execution any_user False ''w'' tree_world = (Inr (), tree_left)"
  by code_simp

theorem deletion_takes_the_tree_witness:
  "(False \<or> (\<exists>x. dget (w_wfs tree_world) ''w'' = Some x \<and> is_completed (we_state x))) \<and>
    (\<forall>j. dget (w_wfs tree_left) j = (if in_tree tree_world ''w'' j then None else map_option (without_root tree_world ''w'') (dget (w_wfs tree_world) j))) \<and>
    (\<forall>t. dget (w_tasks tree_left) t = (case dget (w_tasks tree_world) t of None \<Rightarrow> None
      | Some r \<Rightarrow> if in_tree tree_world ''w'' (te_wf_id r) then None else Some r)) \<and>
    (\<forall>a. dget (w_actions tree_left) a = (case dget (w_actions tree_world) a of None \<Rightarrow> None
      | Some r \<Rightarrow> if \<exists>k s. ae_task_id r = Some k \<and> dget (w_tasks tree_world) k = Some s \<and> in_tree tree_world ''w'' (te_wf_id s)
          then None else Some r)) \<and>
    parents_there tree_left"
  by (rule deletion_takes_the_tree[OF tree_well_formed tree_parents tree_deleted])

definition deleted_later :: world where
  "deleted_later = snd (rest_body 2 plain_sys any_user (DeleteExecution True ''w'') (handle 2 plain_sys (RerunWorkflow ''1'' True False []) busy_world))"

lemma deleted_later_runs: "service_runs 2 plain_sys busy_world deleted_later"
  unfolding deleted_later_def by (intro service_rest service_engine service_idle)

theorem service_keeps_tables_witness:
  "well_formed deleted_later \<and>
    (\<forall>i j r s k. \<not> (dget (w_tasks deleted_later) i = Some r \<and> dget (w_tasks deleted_later) j = Some s \<and> te_unique_key r = Some k \<and>
       te_unique_key s = Some k \<and> i \<noteq> j))"
  by (rule service_keeps_tables[OF deleted_later_runs busy_well_formed])



theorem repeated_post_starts_once_witness:
  "let b = [(''id'', VStr ''w''), (''workflow_id'', VStr ''1'')]
   in post_execution 2 book_sys any_user ''new'' b (chain_world PAUSED) = (Inr (mk_wf_ex ''w'' chain_wf PAUSED), chain_world PAUSED) \<and>
      start_merged 2 book_sys ''w'' b (chain_world PAUSED) = (Inr (mk_wf_ex ''w'' chain_wf PAUSED), chain_world PAUSED)"
  unfolding Let_def
  by (rule repeated_post_starts_once [where d = "''1''" and params = "[]" and u = "()" and def = "hd (sy_wf_defs book_sys)"])
    (simp_all add: chain_world_def empty_world_def any_user_def start_params_def body_val_def dget_default_def vdict_of_def ddel_def given_val_def
      book_sys_def get_workflow_definition_def plain_sys_def body_text_def text_of_def validate_input_def compare_parameters_def chain_wf_def mk_wf_def)

end
