(* ===== verification/Action_Executor.thy ===== *)
theory Action_Executor
  imports Engine_Properties
begin

text \<open>
  The executor: \<^verbatim>\<open>executors/default_executor.py\<close>, which runs an action in a thread and reports its result to
  the engine, \<^verbatim>\<open>executors/executor_server.py\<close>, the set of running actions of
  \<^verbatim>\<open>services/action_heartbeat_sender.py\<close>, the client of the executor in \<^verbatim>\<open>rpc/clients.py\<close> and the thread of
  \<^verbatim>\<open>utils/__init__.py\<close> that keeps the exception of its function. An action that never ends keeps
  the executor waiting for ever, also after its timeout; it is left out here.
\<close>

section \<open>The thread of an action\<close>

text \<open>What \<^verbatim>\<open>action.run\<close> does; \<open>RaisesBase\<close> is an exception that is no \<^verbatim>\<open>Exception\<close>, such as \<^verbatim>\<open>SystemExit\<close>.\<close>

datatype returned = PlainValue val | ResultValue action_result

datatype outcome = Returns returned | Raises exn | RaisesBase

text \<open>
  What the executor sees of the thread: the result in the dictionary that it was given, the exception that
  \<^verbatim>\<open>ThreadWithException\<close> has caught, and whether it is alive. (A thread that has not entered \<^verbatim>\<open>run\<close> yet has
  no attribute for the exception; that the join gives up before is left out.)
\<close>

record action_thread =
  th_result :: "returned option"
  th_exception :: "exn option"
  th_alive :: bool

definition started_thread :: action_thread where
  "started_thread = \<lparr>th_result = None, th_exception = None, th_alive = True\<rparr>"

text \<open>The first step of the thread runs the action and keeps what comes of it, if it is an \<^verbatim>\<open>Exception\<close>; the second ends it.\<close>

definition action_step :: "outcome \<Rightarrow> action_thread \<Rightarrow> action_thread" where
  "action_step out t =
     (case out of Returns v \<Rightarrow> t\<lparr>th_result := Some v\<rparr> | Raises e \<Rightarrow> t\<lparr>th_exception := Some e\<rparr> | RaisesBase \<Rightarrow> t)"

definition end_step :: "action_thread \<Rightarrow> action_thread" where
  "end_step t = t\<lparr>th_alive := False\<rparr>"

definition thread_steps :: "outcome \<Rightarrow> nat \<Rightarrow> action_thread \<Rightarrow> action_thread" where
  "thread_steps out n t = fold (\<lambda>f. f) (take n [action_step out, end_step]) t"

text \<open>\<^verbatim>\<open>join\<close>, after the thread has ended or the time is over.\<close>

definition thread_join :: "action_thread \<Rightarrow> unit res" where
  "thread_join t = (case th_exception t of None \<Rightarrow> Inr () | Some e \<Rightarrow> Inl e)"

definition timed_out :: exn where
  "timed_out = OtherException ''Timeout after seconds''"

text \<open>
  The thread and the executor side by side: the thread has made so many of its steps when \<^verbatim>\<open>join(timeout)\<close> returns, when
  the result is read, and when \<^verbatim>\<open>is_alive\<close> is asked; then, if it is still running, it is waited for without limit.
\<close>

record thread_schedule =
  sh_join :: nat
  sh_read :: nat
  sh_check :: nat

text \<open>Time does not go back, and a join without a timeout waits for the end.\<close>

definition schedule_ok :: "bool \<Rightarrow> thread_schedule \<Rightarrow> bool" where
  "schedule_ok timeout ts \<longleftrightarrow> sh_join ts \<le> sh_read ts \<and> sh_read ts \<le> sh_check ts \<and> (timeout \<or> 2 \<le> sh_join ts)"

definition run_in_thread :: "thread_schedule \<Rightarrow> outcome \<Rightarrow> returned option res" where
  "run_in_thread ts out =
     bind_res (thread_join (thread_steps out (sh_join ts) started_thread)) (\<lambda>_.
       let result = th_result (thread_steps out (sh_read ts) started_thread)
       in if th_alive (thread_steps out (sh_check ts) started_thread)
          then bind_res (thread_join (thread_steps out 2 started_thread)) (\<lambda>_. Inl timed_out)
          else Inr result)"

fun as_result :: "returned option \<Rightarrow> action_result" where
  "as_result None = SuccessResult VNone"
| "as_result (Some (PlainValue v)) = SuccessResult v"
| "as_result (Some (ResultValue r)) = r"

section \<open>Running an action\<close>

text \<open>
  A request to run an action: its identifier (empty when the action execution is not stored), what the action
  is and does, and whether its context can be built.
\<close>

record run_request =
  rr_id :: string
  rr_is_sync :: bool
  rr_safe_rerun :: bool
  rr_redelivered :: bool
  rr_context :: "unit res"
  rr_outcome :: outcome
  rr_schedule :: thread_schedule

text \<open>The client of the engine: whether \<^verbatim>\<open>on_action_complete\<close>, asynchronous or not, takes the result.\<close>

type_synonym engine_client = "bool \<Rightarrow> action_result \<Rightarrow> unit res"

fun is_error_result :: "action_result \<Rightarrow> bool" where
  "is_error_result (ErrorResult _) = True"
| "is_error_result _ = False"

text \<open>
  The results that the engine has got, and the answer: a result, None, or an exception. The texts of the messages
  are shortened.
\<close>

definition send_error_back :: "engine_client \<Rightarrow> string \<Rightarrow> string \<Rightarrow> action_result list \<times> action_result option res" where
  "send_error_back client i msg =
     (if i = [] then ([], Inr (Some (ErrorResult (VStr msg))))
      else (case client False (ErrorResult (VStr msg)) of
          Inl e \<Rightarrow> ([], Inl e)
        | Inr _ \<Rightarrow> ([ErrorResult (VStr msg)], Inr None)))"

definition cannot_rerun :: string where
  "cannot_rerun = ''Request to run an action was redelivered, but it cannot be re-run safely.''"

definition raised_message :: string where
  "raised_message = ''The action raised an exception''"

definition failed_to_complete :: string where
  "failed_to_complete = ''Failed to complete action due to a Mistral exception''"

definition send_result :: "engine_client \<Rightarrow> run_request \<Rightarrow> action_result \<Rightarrow> action_result list \<times> action_result option res" where
  "send_result client q r =
     (if rr_id q \<noteq> [] \<and> (rr_is_sync q \<or> is_error_result r)
      then (case client True r of
          Inr _ \<Rightarrow> ([r], Inr (Some r))
        | Inl e \<Rightarrow> (if is_mistral_exception e then send_error_back client (rr_id q) failed_to_complete else ([], Inr (Some r))))
      else ([], Inr (Some r)))"

definition do_run_action :: "engine_client \<Rightarrow> run_request \<Rightarrow> action_result list \<times> action_result option res" where
  "do_run_action client q =
     (if rr_redelivered q \<and> \<not> rr_safe_rerun q then send_error_back client (rr_id q) cannot_rerun
      else (case bind_res (rr_context q) (\<lambda>_. run_in_thread (rr_schedule q) (rr_outcome q)) of
          Inl _ \<Rightarrow> send_error_back client (rr_id q) raised_message
        | Inr r \<Rightarrow> send_result client q (as_result r)))"

section \<open>Heartbeats of the executor\<close>

text \<open>\<open>hb_beat\<close> says whether a heartbeat reaches the engine.\<close>

record heartbeat_sender =
  hb_enabled :: bool
  hb_running :: "string list"
  hb_beat :: "string \<Rightarrow> unit res"

definition add_action :: "string \<Rightarrow> heartbeat_sender \<Rightarrow> unit res \<times> heartbeat_sender" where
  "add_action i s =
     (if i = [] \<or> \<not> hb_enabled s then (Inr (), s)
      else (case hb_beat s i of Inl e \<Rightarrow> (Inl e, s) | Inr _ \<Rightarrow> (Inr (), s\<lparr>hb_running := List.insert i (hb_running s)\<rparr>)))"

definition remove_action :: "string \<Rightarrow> heartbeat_sender \<Rightarrow> heartbeat_sender" where
  "remove_action i s = (if i = [] \<or> \<not> hb_enabled s then s else s\<lparr>hb_running := filter (\<lambda>j. j \<noteq> i) (hb_running s)\<rparr>)"

definition run_action :: "engine_client \<Rightarrow> run_request \<Rightarrow> heartbeat_sender \<Rightarrow> (action_result list \<times> action_result option res) \<times> heartbeat_sender" where
  "run_action client q s =
     (case add_action (rr_id q) s of
        (Inl e, s1) \<Rightarrow> (([], Inl e), remove_action (rr_id q) s1)
      | (Inr _, s1) \<Rightarrow> (do_run_action client q, remove_action (rr_id q) s1))"

text \<open>
  The way of a request from the client to the executor: the client does not send whether the action is
  redelivered, nor the target; the server takes the first from the context of the message.
\<close>

definition server_run_action :: "engine_client \<Rightarrow> bool \<Rightarrow> run_request \<Rightarrow> heartbeat_sender \<Rightarrow>
  (action_result list \<times> action_result option res) \<times> heartbeat_sender" where
  "server_run_action client redelivered q s = run_action client (q\<lparr>rr_redelivered := redelivered\<rparr>) s"

definition client_request :: "run_request \<Rightarrow> run_request" where
  "client_request q = q\<lparr>rr_redelivered := False\<rparr>"

text \<open>The results that an executor sends, handled by the engine.\<close>

definition deliver_results :: "nat \<Rightarrow> sys \<Rightarrow> string \<Rightarrow> action_result list \<Rightarrow> world \<Rightarrow> world" where
  "deliver_results n sy i rs w = fold (\<lambda>r. handle n sy (OnActionComplete i r False)) rs w"

section \<open>Standard actions\<close>

text \<open>
  \<^verbatim>\<open>std.echo\<close>, \<^verbatim>\<open>std.noop\<close>, \<^verbatim>\<open>std.async_noop\<close> and \<^verbatim>\<open>std.fail\<close>: what they return or raise.
\<close>

datatype std_action = Echo val | NoOp | AsyncNoOp | Fail val

fun std_run :: "std_action \<Rightarrow> outcome" where
  "std_run (Echo v) = Returns (PlainValue v)"
| "std_run NoOp = Returns (PlainValue VNone)"
| "std_run AsyncNoOp = Returns (PlainValue VNone)"
| "std_run (Fail v) =
     (if truthy v then Returns (ResultValue (ErrorResult v)) else Raises (OtherException ''ActionException: Fail action expected exception.''))"

fun std_is_sync :: "std_action \<Rightarrow> bool" where
  "std_is_sync AsyncNoOp = False"
| "std_is_sync _ = True"

section \<open>One report for one run\<close>

lemma error_reports: "length (fst (send_error_back client i msg)) \<le> 1"
  "client False (ErrorResult (VStr msg)) = Inr () \<Longrightarrow> i \<noteq> [] \<Longrightarrow> send_error_back client i msg = ([ErrorResult (VStr msg)], Inr None)"
  by (simp_all add: send_error_back_def split: sum.split)

lemma run_reports: "length (fst (do_run_action client q)) \<le> 1"
  using error_reports(1)[of client "rr_id q"] by (auto simp: do_run_action_def send_result_def split: sum.split)

text \<open>
  C26. Whatever an action does, if its first heartbeat reaches the engine and the engine takes results, a run of it reports at most one
  result, exactly one for a synchronous action, and only errors for an asynchronous one; and after the run the executor
  sends no heartbeats for the action any more.
\<close>

theorem one_report_for_one_run:
  assumes "run_action client q s = ((reports, answer), s')" "rr_id q \<noteq> []" "hb_enabled s" "hb_beat s (rr_id q) = Inr ()"
    and "\<And>b r. client b r = Inr ()"
  shows "rr_id q \<notin> set (hb_running s') \<and> length reports \<le> 1 \<and>
    (if rr_is_sync q then length reports = 1 else list_all is_error_result reports)"
proof -
  have r: "do_run_action client q = (reports, answer)" and s': "rr_id q \<notin> set (hb_running s')"
    using assms(1-4) by (auto simp: run_action_def add_action_def remove_action_def)
  have "rr_is_sync q \<Longrightarrow> reports \<noteq> []" "\<not> rr_is_sync q \<Longrightarrow> list_all is_error_result reports"
    using r assms(2,5) by (auto simp: do_run_action_def send_result_def send_error_back_def split: sum.splits if_splits)
  then show ?thesis using r run_reports[of client q] s' by (cases reports) auto
qed

lemma thread_after:
  "thread_steps out n started_thread =
     (case n of
        0 \<Rightarrow> started_thread
      | Suc m \<Rightarrow> \<lparr>th_result = (case out of Returns v \<Rightarrow> Some v | _ \<Rightarrow> None), th_exception = (case out of Raises e \<Rightarrow> Some e | _ \<Rightarrow> None),
                 th_alive = (m = 0)\<rparr>)"
proof (cases n)
  case (Suc m)
  then show ?thesis
    by (cases m; cases out) (simp_all add: thread_steps_def started_thread_def action_step_def end_step_def)
qed (simp add: thread_steps_def)

text \<open>
  C27. What the executor reports of an action that it has run depends on how its thread and the executor interleave. In time, the
  result is reported, or an error if the action raised. An action that has not ended when the executor asks for it is reported as timed
  out. But what an action did between the moments that its timeout expires and that the executor asks for it is lost: its exception, if
  the join was over, or its result, if that was read before, and the action is reported as successful without a result,
  as is an action that raises a \<^verbatim>\<open>SystemExit\<close>.
\<close>

theorem outcome_lost:
  assumes "rr_id q \<noteq> []" "rr_is_sync q" "\<not> rr_redelivered q" "rr_context q = Inr ()" "\<And>b r. client b r = Inr ()"
    and "schedule_ok True (rr_schedule q)"
  shows "fst (do_run_action client q) =
    [if sh_check (rr_schedule q) < 2 then ErrorResult (VStr raised_message)
     else (case rr_outcome q of
         Returns v \<Rightarrow> if sh_read (rr_schedule q) = 0 then SuccessResult VNone else as_result (Some v)
       | Raises e \<Rightarrow> if sh_join (rr_schedule q) = 0 then SuccessResult VNone else ErrorResult (VStr raised_message)
       | RaisesBase \<Rightarrow> SuccessResult VNone)]"
proof -
  let ?ts = "rr_schedule q"
  have order: "sh_join ?ts \<le> sh_read ?ts" "sh_read ?ts \<le> sh_check ?ts" using assms(6) by (simp_all add: schedule_ok_def)
  have "run_in_thread ?ts (rr_outcome q) =
    (if sh_check ?ts < 2
     then Inl (case rr_outcome q of Raises e \<Rightarrow> e | _ \<Rightarrow> timed_out)
     else (case rr_outcome q of
         Returns v \<Rightarrow> Inr (if sh_read ?ts = 0 then None else Some v)
       | Raises e \<Rightarrow> if sh_join ?ts = 0 then Inr None else Inl e
       | RaisesBase \<Rightarrow> Inr None))"
    using order unfolding run_in_thread_def thread_after thread_join_def Let_def numeral_2_eq_2
    by (cases "rr_outcome q") (auto simp: started_thread_def less_Suc_eq split: nat.splits)
  then show ?thesis
    using assms(1-5) by (cases "rr_outcome q") (simp_all add: do_run_action_def send_result_def send_error_back_def)
qed

section \<open>One result for one action\<close>

lemma second_result_fails:
  assumes "dget (w_actions w) i = Some a" "is_completed (ae_state a)" "ae_id a = i"
  shows "\<exists>e. engine_on_action_complete sy h i r False w = (Inl e, w)"
proof -
  have "\<exists>e. fst (on_action_complete sy h i r w) = Inl e"
  proof (cases "find_action_desc sy (ae_name a) (ae_namespace a)")
    case (Inl e)
    then show ?thesis using assms by (simp add: on_action_complete_def run_simps get_action_execution_def)
  next
    case (Inr desc)
    then show ?thesis
      using assms by (simp add: on_action_complete_def run_simps get_action_execution_def complete_or_fail_def complete_action_def)
  qed
  then show ?thesis by (auto simp: engine_on_action_complete_def transaction_raises)
qed

lemma second_result_changes_nothing:
  assumes "dget (w_actions w) i = Some a" "is_completed (ae_state a)" "ae_id a = i"
  shows "handle n sy (OnActionComplete i r False) w = w\<lparr>w_ops := []\<rparr>"
proof -
  have "\<exists>e. engine_on_action_complete sy (engine n sy) i r False (w\<lparr>w_ops := []\<rparr>) = (Inl e, w\<lparr>w_ops := []\<rparr>)"
    by (rule second_result_fails) (use assms in simp_all)
  then show ?thesis by (auto simp: handle_def with_post_tx_def ebind_run take_ops_def)
qed

text \<open>
  C7. The first result of an action counts: once the action is completed, whatever further results executors
  send for it, because the request to run it was delivered twice or its executor was taken for dead, the engine
  refuses them, and nothing in the tables changes.
\<close>

theorem first_result_counts:
  assumes "well_formed w" "dget (w_actions w) i = Some a" "is_completed (ae_state a)"
  shows "deliver_results n sy i (r # rs) w = w\<lparr>w_ops := []\<rparr>"
proof -
  have i: "ae_id a = i"
    using assms(1,2) by (auto simp: well_formed_def action_row_ok_def dest: list_all_dget)
  have again: "handle n sy (OnActionComplete i r False) v = w\<lparr>w_ops := []\<rparr>" if "v = w \<or> v = w\<lparr>w_ops := []\<rparr>" for v r
    using that second_result_changes_nothing[of v i a n sy r] assms(2,3) i by auto
  have "deliver_results n sy i rs (w\<lparr>w_ops := []\<rparr>) = w\<lparr>w_ops := []\<rparr>"
    by (induction rs) (simp_all add: deliver_results_def again)
  then show ?thesis by (simp add: deliver_results_def again)
qed

section \<open>Witnesses\<close>

definition sample_run :: run_request where
  "sample_run = \<lparr>rr_id = ''a'', rr_is_sync = True, rr_safe_rerun = True, rr_redelivered = False, rr_context = Inr (),
     rr_outcome = std_run (Echo (VInt 1)), rr_schedule = \<lparr>sh_join = 2, sh_read = 2, sh_check = 2\<rparr>\<rparr>"

definition sample_sender :: heartbeat_sender where
  "sample_sender = \<lparr>hb_enabled = True, hb_running = [''b''], hb_beat = (\<lambda>_. Inr ())\<rparr>"

theorem one_report_for_one_run_witness:
  "rr_id sample_run \<notin> set (hb_running sample_sender) \<and> length [SuccessResult (VInt 1)] \<le> 1 \<and>
    (if rr_is_sync sample_run then length [SuccessResult (VInt 1)] = 1 else list_all is_error_result [SuccessResult (VInt 1)])"
  by (rule one_report_for_one_run [where client = "\<lambda>_ _. Inr ()" and s = sample_sender and answer = "Inr (Some (SuccessResult (VInt 1)))"])
    (simp_all add: sample_run_def sample_sender_def run_action_def add_action_def remove_action_def do_run_action_def send_result_def
      run_in_thread_def thread_after[unfolded numeral_2_eq_2] thread_join_def)

theorem outcome_lost_witness:
  "fst (do_run_action (\<lambda>_ _. Inr ()) (sample_run\<lparr>rr_schedule := \<lparr>sh_join = 0, sh_read = 0, sh_check = 2\<rparr>\<rparr>)) = [SuccessResult VNone]"
  using outcome_lost[of "sample_run\<lparr>rr_schedule := \<lparr>sh_join = 0, sh_read = 0, sh_check = 2\<rparr>\<rparr>" "\<lambda>_ _. Inr ()"]
  by (simp add: sample_run_def schedule_ok_def)

definition reported_world :: world where
  "reported_world = done_world\<lparr>w_actions := [(''a'', mk_action_ex ''a'' ''1'' ERROR 0)]\<rparr>"

lemma reported_world_ok: "well_formed reported_world"
  by (simp add: reported_world_def done_world_def well_formed_def empty_world_def wf_row_ok_def task_row_ok_def action_row_ok_def mk_wf_ex_def mk_task_ex_def
      mk_action_ex_def unique_keys_def dict_ok_def)

theorem first_result_counts_witness:
  "deliver_results 2 plain_sys ''a'' [SuccessResult (VInt 1), SuccessResult (VInt 2)] reported_world = reported_world\<lparr>w_ops := []\<rparr>"
  by (rule first_result_counts[OF reported_world_ok, where a = "mk_action_ex ''a'' ''1'' ERROR 0"])
    (simp_all add: reported_world_def mk_action_ex_def is_completed_def)

end
