(* ===== verification/Adhoc_Actions.thy ===== *)
theory Adhoc_Actions
  imports Engine_Config
begin

text \<open>
  \<^verbatim>\<open>mistral/actions/adhoc.py\<close>: ad-hoc actions, which are defined in the DSL on top of another action, which may be
  an ad-hoc action itself. The descriptor visits the chain of base actions to compute the input of the
  action at its end and to convert the result. The provider of actions, which reads the table of action definitions,
  is a parameter: what it finds under a name in a namespace.
\<close>

section \<open>Descriptors\<close>

text \<open>
  The specification of an ad-hoc action (\<^verbatim>\<open>lang/v2/actions.py\<close>); an input without a default has the marker
  \<^verbatim>\<open>NotDefined\<close> of \<^verbatim>\<open>mistral_lib\<close> as its default, the parameter \<open>nd\<close> of the definitions below.
\<close>

record adhoc_spec =
  ah_name :: string
  ah_base :: string
  ah_base_input :: "val dict"
  ah_input :: "val dict"
  ah_output :: "val option"

datatype descriptor = Adhoc adhoc_spec | Plain action_desc

type_synonym provider = "string \<Rightarrow> string \<Rightarrow> descriptor option"

definition cycle_found :: "string \<Rightarrow> string \<Rightarrow> exn" where
  "cycle_found name base = ValueError (''Found a cycle in an ad-hoc action chain [action_name='' @ name @ '', duplicate_action_name='' @ base @ '']'')"

definition base_not_found :: "string \<Rightarrow> string \<Rightarrow> exn" where
  "base_not_found base namespace = InvalidActionException (''Failed to find base action [action_name='' @ base @ '' namespace='' @ namespace @ ''] '')"

section \<open>The chain of base actions\<close>

text \<open>
  The loop of \<^verbatim>\<open>_visit_hierarchy\<close>, with the names that have been visited; all base actions are looked up in the
  namespace of the action at the top. \<open>n\<close> bounds the rounds, None is a loop that has not ended.
\<close>

fun visit_loop :: "nat \<Rightarrow> provider \<Rightarrow> string \<Rightarrow> string \<Rightarrow> (descriptor \<Rightarrow> 'r \<Rightarrow> 'r res) \<Rightarrow> string list \<Rightarrow> adhoc_spec \<Rightarrow> 'r \<Rightarrow> 'r res option" where
  "visit_loop 0 find_action ns name callback visited sp r = None"
| "visit_loop (Suc n) find_action ns name callback visited sp r =
     (if ah_base sp \<in> set visited then Some (Inl (cycle_found name (ah_base sp)))
      else (case find_action (ah_base sp) ns of
          None \<Rightarrow> Some (Inl (base_not_found (ah_base sp) ns))
        | Some d \<Rightarrow>
            (case callback d r of
               Inl e \<Rightarrow> Some (Inl e)
             | Inr r' \<Rightarrow>
                 (case d of
                    Adhoc sp' \<Rightarrow> visit_loop n find_action ns name callback (ah_base sp # visited) sp' r'
                  | Plain _ \<Rightarrow> Some (Inr r')))))"

definition visit_hierarchy :: "nat \<Rightarrow> provider \<Rightarrow> string \<Rightarrow> (descriptor \<Rightarrow> 'r \<Rightarrow> 'r res) \<Rightarrow> adhoc_spec \<Rightarrow> 'r \<Rightarrow> 'r res option" where
  "visit_hierarchy n find_action ns callback sp r =
     (case callback (Adhoc sp) r of
        Inl e \<Rightarrow> Some (Inl e)
      | Inr r' \<Rightarrow> visit_loop n find_action ns (ah_name sp) callback [ah_name sp] sp r')"

section \<open>The input of the base action\<close>

text \<open>
  The defaults, and the base input with its expressions evaluated.
\<close>

definition with_defaults :: "val \<Rightarrow> val dict \<Rightarrow> val dict \<Rightarrow> val dict" where
  "with_defaults nd defaults input =
     fold (\<lambda>(k, v) d. if dget d k = None \<or> dget d k = Some nd then dset k v d else d) defaults input"

definition base_input_of :: "val \<Rightarrow> env \<Rightarrow> ctx_view \<Rightarrow> adhoc_spec \<Rightarrow> val dict \<Rightarrow> val dict res" where
  "base_input_of nd e wf_ctx sp input =
     bind_res (evaluate_recursively e (VDict (ah_base_input sp)) (with_defaults nd (ah_input sp) input # wf_ctx))
       (\<lambda>v. case v of VDict d \<Rightarrow> Inr d | _ \<Rightarrow> Inl TypeError)"

text \<open>
  \<^verbatim>\<open>_on_visit\<close> of \<^verbatim>\<open>instantiate\<close>: the descriptor that was visited last, and the input for it. Only a descriptor that is
  not an ad-hoc one can be the last, so the ad-hoc ones are not kept.
\<close>

definition on_instantiate :: "val \<Rightarrow> env \<Rightarrow> ctx_view \<Rightarrow> descriptor \<Rightarrow> action_desc option \<times> val dict \<Rightarrow> (action_desc option \<times> val dict) res" where
  "on_instantiate nd e wf_ctx d prev =
     (case d of
        Plain a \<Rightarrow> Inr (Some a, snd prev)
      | Adhoc sp \<Rightarrow> bind_res (base_input_of nd e wf_ctx sp (snd prev)) (\<lambda>i. Inr (None, i)))"

text \<open>The base action is instantiated with its input; the answer tells whether it is synchronous.\<close>

definition instantiate_base :: "ctx_view \<Rightarrow> (action_desc option \<times> val dict) res \<Rightarrow> (action_desc \<times> val dict \<times> bool) res" where
  "instantiate_base wf_ctx r =
     bind_res r (\<lambda>(d, i). case d of
         None \<Rightarrow> Inl AttributeError
       | Some a \<Rightarrow> bind_res (ad_instantiate a i wf_ctx) (\<lambda>sync. Inr (a, i, sync)))"

definition adhoc_instantiate :: "nat \<Rightarrow> provider \<Rightarrow> string \<Rightarrow> val \<Rightarrow> env \<Rightarrow> ctx_view \<Rightarrow> adhoc_spec \<Rightarrow> val dict \<Rightarrow> (action_desc \<times> val dict \<times> bool) res option" where
  "adhoc_instantiate n find_action ns nd e wf_ctx sp input =
     map_option (instantiate_base wf_ctx) (visit_hierarchy n find_action ns (on_instantiate nd e wf_ctx) sp (None, input))"

section \<open>The result\<close>

text \<open>A result as \<^verbatim>\<open>mistral_lib\<close> has it; \<open>eval\<close> evaluates an expression in the data of a result that is not empty.\<close>

record lib_result =
  lr_data :: val
  lr_error :: "val option"
  lr_cancel :: bool

definition convert_result :: "(val \<Rightarrow> val \<Rightarrow> val res) \<Rightarrow> val option \<Rightarrow> lib_result \<Rightarrow> lib_result res" where
  "convert_result eval output r =
     (case output of
        None \<Rightarrow> Inr r
      | Some x \<Rightarrow>
          bind_res (if truthy (lr_data r) then eval x (lr_data r) else Inr x)
            (\<lambda>v. Inr \<lparr>lr_data = v, lr_error = lr_error r, lr_cancel = False\<rparr>))"

definition on_output :: "descriptor \<Rightarrow> val option list \<Rightarrow> val option list res" where
  "on_output d outputs = (case d of Adhoc sp \<Rightarrow> Inr (outputs @ [ah_output sp]) | Plain _ \<Rightarrow> Inr outputs)"

fun convert_all :: "(val \<Rightarrow> val \<Rightarrow> val res) \<Rightarrow> val option list \<Rightarrow> lib_result \<Rightarrow> lib_result res" where
  "convert_all eval [] r = Inr r"
| "convert_all eval (x # xs) r = bind_res (convert_result eval x r) (convert_all eval xs)"

definition post_process_result :: "nat \<Rightarrow> provider \<Rightarrow> string \<Rightarrow> (val \<Rightarrow> val \<Rightarrow> val res) \<Rightarrow> adhoc_spec \<Rightarrow> lib_result \<Rightarrow> lib_result res option" where
  "post_process_result n find_action ns eval sp r =
     map_option (\<lambda>outputs. bind_res outputs (\<lambda>xs. convert_all eval (rev xs) r)) (visit_hierarchy n find_action ns on_output sp [])"

section \<open>The loop ends\<close>

text \<open>Only finitely many ad-hoc actions are found, as they are rows of a table.\<close>

definition adhoc_names_in :: "provider \<Rightarrow> string \<Rightarrow> string list \<Rightarrow> bool" where
  "adhoc_names_in find_action ns names \<longleftrightarrow> (\<forall>k sp. find_action k ns = Some (Adhoc sp) \<longrightarrow> k \<in> set names)"

lemma visit_loop_ends:
  assumes "adhoc_names_in find_action ns names" "card (set names - set visited) < n"
  shows "visit_loop n find_action ns name callback visited sp r \<noteq> None"
  using assms(2)
proof (induction n arbitrary: visited sp r)
  case (Suc n)
  show ?case
  proof (cases "ah_base sp \<in> set visited")
    case False
    have rest: "visit_loop n find_action ns name callback (ah_base sp # visited) sp' r' \<noteq> None" if "find_action (ah_base sp) ns = Some (Adhoc sp')" for sp' r'
    proof (rule Suc.IH)
      have fewer: "set names - set (ah_base sp # visited) = set names - set visited - {ah_base sp}" by auto
      have "ah_base sp \<in> set names - set visited" using assms(1) that False unfolding adhoc_names_in_def by blast
      then have "card (set names - set visited - {ah_base sp}) < card (set names - set visited)"
        by (rule card_Diff1_less [rotated]) simp
      then show "card (set names - set (ah_base sp # visited)) < n" unfolding fewer using Suc.prems by linarith
    qed
    show ?thesis
    proof (cases "find_action (ah_base sp) ns")
      case (Some d)
      show ?thesis
      proof (cases "callback d r")
        case (Inr r')
        then show ?thesis using False Some rest by (cases d) simp_all
      qed (simp add: False Some)
    qed (simp add: False)
  qed simp
qed simp

lemma hierarchy_ends:
  assumes "adhoc_names_in find_action ns names" "length names < n"
  shows "visit_hierarchy n find_action ns callback sp r \<noteq> None"
proof -
  have "card (set names - set [ah_name sp]) < n"
    using assms(2) card_length[of names] card_mono[of "set names" "set names - set [ah_name sp]"] by auto
  then have "visit_loop n find_action ns (ah_name sp) callback [ah_name sp] sp r' \<noteq> None" for r' by (rule visit_loop_ends[OF assms(1)])
  then show ?thesis by (simp add: visit_hierarchy_def split: sum.split)
qed

text \<open>
  An ad-hoc action always ends with an answer: however the definitions refer to each other, also in a circle or to
  themselves, instantiating the action and converting its result return or raise after at most one round more than there are
  ad-hoc actions.
\<close>

theorem adhoc_chain_ends:
  assumes "adhoc_names_in find_action ns names" "length names < n"
  shows "adhoc_instantiate n find_action ns nd e wf_ctx sp input \<noteq> None \<and> post_process_result n find_action ns eval sp result \<noteq> None"
  unfolding adhoc_instantiate_def post_process_result_def option.map_disc_iff by (intro conjI hierarchy_ends[OF assms])

section \<open>The loop is the recursive definition\<close>

text \<open>The actions behind an ad-hoc action: the names of its bases, and the action at the end.\<close>

inductive base_chain :: "provider \<Rightarrow> string \<Rightarrow> adhoc_spec \<Rightarrow> string list \<Rightarrow> action_desc \<Rightarrow> bool" for find_action ns where
  last_base: "find_action (ah_base sp) ns = Some (Plain a) \<Longrightarrow> base_chain find_action ns sp [ah_base sp] a"
| next_base: "find_action (ah_base sp) ns = Some (Adhoc sp') \<Longrightarrow> base_chain find_action ns sp' ks a \<Longrightarrow> base_chain find_action ns sp (ah_base sp # ks) a"

text \<open>What the DSL means: the base is applied to the evaluated input, and its result is converted.\<close>

primrec nested_input :: "nat \<Rightarrow> provider \<Rightarrow> string \<Rightarrow> val \<Rightarrow> env \<Rightarrow> ctx_view \<Rightarrow> adhoc_spec \<Rightarrow> val dict \<Rightarrow> (action_desc \<times> val dict \<times> bool) res" where
  "nested_input 0 find_action ns nd e wf_ctx sp input = Inl RecursionError"
| "nested_input (Suc n) find_action ns nd e wf_ctx sp input =
     bind_res (base_input_of nd e wf_ctx sp input) (\<lambda>i.
       case find_action (ah_base sp) ns of
         None \<Rightarrow> Inl (base_not_found (ah_base sp) ns)
       | Some (Plain a) \<Rightarrow> bind_res (ad_instantiate a i wf_ctx) (\<lambda>sync. Inr (a, i, sync))
       | Some (Adhoc sp') \<Rightarrow> nested_input n find_action ns nd e wf_ctx sp' i)"

primrec nested_result :: "nat \<Rightarrow> provider \<Rightarrow> string \<Rightarrow> (val \<Rightarrow> val \<Rightarrow> val res) \<Rightarrow> adhoc_spec \<Rightarrow> lib_result \<Rightarrow> lib_result res" where
  "nested_result 0 find_action ns eval sp r = Inl RecursionError"
| "nested_result (Suc n) find_action ns eval sp r =
     (case find_action (ah_base sp) ns of
        Some (Adhoc sp') \<Rightarrow> bind_res (nested_result n find_action ns eval sp' r) (convert_result eval (ah_output sp))
      | _ \<Rightarrow> convert_result eval (ah_output sp) r)"

lemma convert_all_append: "convert_all eval (xs @ ys) r = bind_res (convert_all eval xs r) (convert_all eval ys)"
  by (induction xs arbitrary: r) (simp_all add: bind_res_def split: sum.split)

lemma input_loop:
  assumes "base_chain find_action ns sp ks a" "distinct ks" "set ks \<inter> set visited = {}" "length ks \<le> n"
  shows "map_option (instantiate_base wf_ctx) (visit_loop n find_action ns name (on_instantiate nd e wf_ctx) visited sp (None, i)) =
     Some (case find_action (ah_base sp) ns of
         None \<Rightarrow> Inl (base_not_found (ah_base sp) ns)
       | Some (Plain a) \<Rightarrow> bind_res (ad_instantiate a i wf_ctx) (\<lambda>sync. Inr (a, i, sync))
       | Some (Adhoc sp') \<Rightarrow> nested_input (n - 1) find_action ns nd e wf_ctx sp' i)"
  using assms
proof (induction arbitrary: visited n i rule: base_chain.induct)
  case (last_base sp a)
  then show ?case by (cases n) (simp_all add: on_instantiate_def instantiate_base_def)
next
  case (next_base sp sp' ks a)
  obtain m where n: "n = Suc m" "length ks \<le> m" using next_base.prems(3) by (cases n) auto
  obtain l where m: "m = Suc l" using n(2) next_base.hyps(2) by (cases m) (auto elim: base_chain.cases)
  have loop: "map_option (instantiate_base wf_ctx) (visit_loop m find_action ns name (on_instantiate nd e wf_ctx) (ah_base sp # visited) sp' (None, j)) =
     Some (case find_action (ah_base sp') ns of
         None \<Rightarrow> Inl (base_not_found (ah_base sp') ns)
       | Some (Plain a) \<Rightarrow> bind_res (ad_instantiate a j wf_ctx) (\<lambda>sync. Inr (a, j, sync))
       | Some (Adhoc sp'') \<Rightarrow> nested_input (m - 1) find_action ns nd e wf_ctx sp'' j)" for j
    by (rule next_base.IH) (use next_base.prems n(2) in auto)
  have nested: "nested_input m find_action ns nd e wf_ctx sp' i = bind_res (base_input_of nd e wf_ctx sp' i) (\<lambda>j.
      case find_action (ah_base sp') ns of
        None \<Rightarrow> Inl (base_not_found (ah_base sp') ns)
      | Some (Plain a) \<Rightarrow> bind_res (ad_instantiate a j wf_ctx) (\<lambda>sync. Inr (a, j, sync))
      | Some (Adhoc sp'') \<Rightarrow> nested_input (m - 1) find_action ns nd e wf_ctx sp'' j)"
    unfolding m nested_input.simps diff_Suc_1 ..
  show ?case
  proof (cases "base_input_of nd e wf_ctx sp' i")
    case (Inl x)
    then show ?thesis using next_base n(1) nested by (simp add: on_instantiate_def instantiate_base_def)
  next
    case (Inr j)
    have "visit_loop n find_action ns name (on_instantiate nd e wf_ctx) visited sp (None, i) =
        visit_loop m find_action ns name (on_instantiate nd e wf_ctx) (ah_base sp # visited) sp' (None, j)"
      using next_base.hyps(1) next_base.prems(2) n(1) Inr by (simp add: on_instantiate_def)
    then show ?thesis using next_base.hyps(1) n(1) loop[of j] Inr nested by simp
  qed
qed

lemma bind_res_assoc: "bind_res (bind_res x f) g = bind_res x (\<lambda>y. bind_res (f y) g)"
  by (simp add: bind_res_def split: sum.split)

lemma convert_all_cons: "convert_all eval (x # xs) = (\<lambda>y. bind_res (convert_result eval x y) (convert_all eval xs))"
  by (rule ext) simp

lemma output_loop:
  assumes "base_chain find_action ns sp ks a" "distinct ks" "set ks \<inter> set visited = {}" "length ks \<le> n"
  shows "map_option (\<lambda>outputs. bind_res outputs (\<lambda>xs. convert_all eval (rev xs) r)) (visit_loop n find_action ns name on_output visited sp outs) =
     Some (bind_res (case find_action (ah_base sp) ns of
         Some (Adhoc sp') \<Rightarrow> nested_result (n - 1) find_action ns eval sp' r
       | _ \<Rightarrow> Inr r) (convert_all eval (rev outs)))"
  using assms
proof (induction arbitrary: visited n outs rule: base_chain.induct)
  case (last_base sp a)
  then show ?case by (cases n) (simp_all add: on_output_def)
next
  case (next_base sp sp' ks a)
  obtain m where n: "n = Suc m" "length ks \<le> m" using next_base.prems(3) by (cases n) auto
  obtain l where m: "m = Suc l" using n(2) next_base.hyps(2) by (cases m) (auto elim: base_chain.cases)
  have loop: "map_option (\<lambda>outputs. bind_res outputs (\<lambda>xs. convert_all eval (rev xs) r))
      (visit_loop m find_action ns name on_output (ah_base sp # visited) sp' (outs @ [ah_output sp'])) =
     Some (bind_res (case find_action (ah_base sp') ns of
         Some (Adhoc sp'') \<Rightarrow> nested_result (m - 1) find_action ns eval sp'' r
       | _ \<Rightarrow> Inr r) (convert_all eval (rev (outs @ [ah_output sp']))))"
    by (rule next_base.IH) (use next_base.prems n(2) in auto)
  have "visit_loop n find_action ns name on_output visited sp outs =
      visit_loop m find_action ns name on_output (ah_base sp # visited) sp' (outs @ [ah_output sp'])"
    using next_base.hyps(1) next_base.prems(2) n(1) by (simp add: on_output_def)
  moreover have "bind_res (nested_result m find_action ns eval sp' r) (convert_all eval (rev outs)) =
      bind_res (case find_action (ah_base sp') ns of
         Some (Adhoc sp'') \<Rightarrow> nested_result (m - 1) find_action ns eval sp'' r
       | _ \<Rightarrow> Inr r) (convert_all eval (rev (outs @ [ah_output sp'])))"
    unfolding m nested_result.simps diff_Suc_1 rev_append rev.simps append_Nil append_Cons convert_all_cons
    by (simp add: bind_res_assoc split: option.split descriptor.split)
  ultimately show ?case
    unfolding next_base.hyps(1) option.case descriptor.case n(1) diff_Suc_1 using loop n(1) by simp
qed

lemma adhoc_instantiate_nested:
  assumes "base_chain find_action ns sp ks a" "distinct (ah_name sp # ks)" "length ks \<le> n"
  shows "adhoc_instantiate n find_action ns nd e wf_ctx sp input = Some (nested_input n find_action ns nd e wf_ctx sp input)"
proof -
  obtain m where n: "n = Suc m" using assms(1,3) by (cases n) (auto elim: base_chain.cases)
  have loop: "map_option (instantiate_base wf_ctx) (visit_loop n find_action ns (ah_name sp) (on_instantiate nd e wf_ctx) [ah_name sp] sp (None, i)) =
     Some (case find_action (ah_base sp) ns of
         None \<Rightarrow> Inl (base_not_found (ah_base sp) ns)
       | Some (Plain a) \<Rightarrow> bind_res (ad_instantiate a i wf_ctx) (\<lambda>sync. Inr (a, i, sync))
       | Some (Adhoc sp') \<Rightarrow> nested_input (n - 1) find_action ns nd e wf_ctx sp' i)" for i
    by (rule input_loop[OF assms(1)]) (use assms in auto)
  show ?thesis
  proof (cases "base_input_of nd e wf_ctx sp input")
    case (Inr i)
    then have "adhoc_instantiate n find_action ns nd e wf_ctx sp input =
        map_option (instantiate_base wf_ctx) (visit_loop n find_action ns (ah_name sp) (on_instantiate nd e wf_ctx) [ah_name sp] sp (None, i))"
      by (simp add: adhoc_instantiate_def visit_hierarchy_def on_instantiate_def)
    moreover have "nested_input n find_action ns nd e wf_ctx sp input =
        (case find_action (ah_base sp) ns of
           None \<Rightarrow> Inl (base_not_found (ah_base sp) ns)
         | Some (Plain a) \<Rightarrow> bind_res (ad_instantiate a i wf_ctx) (\<lambda>sync. Inr (a, i, sync))
         | Some (Adhoc sp') \<Rightarrow> nested_input (n - 1) find_action ns nd e wf_ctx sp' i)"
      unfolding n nested_input.simps diff_Suc_1 Inr by simp
    ultimately show ?thesis using loop[of i] by simp
  qed (simp add: adhoc_instantiate_def visit_hierarchy_def on_instantiate_def instantiate_base_def n)
qed

lemma post_process_result_nested:
  assumes "base_chain find_action ns sp ks a" "distinct (ah_name sp # ks)" "length ks \<le> n"
  shows "post_process_result n find_action ns eval sp r = Some (nested_result n find_action ns eval sp r)"
proof -
  obtain m where n: "n = Suc m" using assms(1,3) by (cases n) (auto elim: base_chain.cases)
  have loop: "map_option (\<lambda>outputs. bind_res outputs (\<lambda>xs. convert_all eval (rev xs) r))
      (visit_loop n find_action ns (ah_name sp) on_output [ah_name sp] sp [ah_output sp]) =
     Some (bind_res (case find_action (ah_base sp) ns of
         Some (Adhoc sp') \<Rightarrow> nested_result (n - 1) find_action ns eval sp' r
       | _ \<Rightarrow> Inr r) (convert_all eval (rev [ah_output sp])))"
    by (rule output_loop[OF assms(1)]) (use assms in auto)
  have one: "convert_all eval [x] = convert_result eval x" for x
    by (rule ext) (simp add: bind_res_def split: sum.split)
  have start: "post_process_result n find_action ns eval sp r = map_option (\<lambda>outputs. bind_res outputs (\<lambda>xs. convert_all eval (rev xs) r))
      (visit_loop n find_action ns (ah_name sp) on_output [ah_name sp] sp [ah_output sp])"
    by (simp add: post_process_result_def visit_hierarchy_def on_output_def)
  have nested: "nested_result n find_action ns eval sp r = bind_res (case find_action (ah_base sp) ns of
         Some (Adhoc sp') \<Rightarrow> nested_result (n - 1) find_action ns eval sp' r
       | _ \<Rightarrow> Inr r) (convert_result eval (ah_output sp))"
    unfolding n nested_result.simps diff_Suc_1 by (simp split: option.split descriptor.split)
  show ?thesis
    unfolding start nested loop rev.simps append_Nil one ..
qed

text \<open>
  C28. The loop over the chain of base actions computes what nested ad-hoc actions mean: the input of each action is
  evaluated from the input of the one above it, the action at the end of the chain is run with the last one, and its result is
  converted by the outputs from the innermost to the outermost action.
\<close>

theorem adhoc_loop_is_nesting:
  assumes "base_chain find_action ns sp ks a" "distinct (ah_name sp # ks)" "length ks \<le> n"
  shows "adhoc_instantiate n find_action ns nd e wf_ctx sp input = Some (nested_input n find_action ns nd e wf_ctx sp input)
    \<and> post_process_result n find_action ns eval sp r = Some (nested_result n find_action ns eval sp r)"
  by (intro conjI adhoc_instantiate_nested[OF assms] post_process_result_nested[OF assms])

text \<open>The outermost conversion of a result that is empty gives the expression itself, and a cancelled result is not cancelled any more.\<close>

lemma empty_result_not_converted:
  assumes "\<not> truthy (lr_data r)"
  shows "convert_result eval (Some x) r = Inr \<lparr>lr_data = x, lr_error = lr_error r, lr_cancel = False\<rparr>"
  using assms by (simp add: convert_result_def bind_res_def)

section \<open>Witnesses\<close>

text \<open>An ad-hoc action on an ad-hoc action on \<^verbatim>\<open>std.noop\<close>, and one that has itself as its base.\<close>

definition inner_spec :: adhoc_spec where
  "inner_spec = \<lparr>ah_name = ''inner'', ah_base = ''std.noop'', ah_base_input = [(''x'', VInt 1)], ah_input = [(''n'', VNone)], ah_output = Some (VStr ''in'')\<rparr>"

definition outer_spec :: adhoc_spec where
  "outer_spec = \<lparr>ah_name = ''outer'', ah_base = ''inner'', ah_base_input = [(''n'', VInt 2)], ah_input = [(''k'', VInt 3)], ah_output = Some (VStr ''out'')\<rparr>"

definition self_spec :: adhoc_spec where
  "self_spec = outer_spec\<lparr>ah_name := ''self'', ah_base := ''self''\<rparr>"

definition example_provider :: provider where
  "example_provider k ns =
     (if k = ''inner'' then Some (Adhoc inner_spec) else if k = ''outer'' then Some (Adhoc outer_spec)
      else if k = ''self'' then Some (Adhoc self_spec) else if k = ''std.noop'' then Some (Plain noop_desc) else None)"

lemmas adhoc_example_defs = inner_spec_def outer_spec_def self_spec_def example_provider_def

lemma example_names: "adhoc_names_in example_provider ns [''inner'', ''outer'', ''self'']"
  unfolding adhoc_names_in_def by (auto simp: example_provider_def split: if_splits)

theorem adhoc_chain_ends_witness:
  "adhoc_instantiate 4 example_provider [] VNone plain_env [] self_spec [] \<noteq> None
   \<and> post_process_result 4 example_provider [] (\<lambda>x _. Inr x) self_spec \<lparr>lr_data = VInt 1, lr_error = None, lr_cancel = False\<rparr> \<noteq> None"
  by (rule adhoc_chain_ends[OF example_names]) simp

lemma example_chain: "base_chain example_provider ns outer_spec [''inner'', ''std.noop''] noop_desc"
proof -
  have "base_chain example_provider ns inner_spec [ah_base inner_spec] noop_desc"
    by (rule last_base) (simp add: adhoc_example_defs)
  then have "base_chain example_provider ns outer_spec (ah_base outer_spec # [ah_base inner_spec]) noop_desc"
    by (rule next_base[rotated]) (simp add: adhoc_example_defs)
  then show ?thesis by (simp add: adhoc_example_defs)
qed

lemma nested_example:
  "nested_input 2 example_provider [] VNone plain_env [] outer_spec [] = Inr (noop_desc, [(''x'', VInt 1)], True)"
  "nested_result 2 example_provider [] (\<lambda>x _. Inr x) outer_spec \<lparr>lr_data = VInt 1, lr_error = None, lr_cancel = False\<rparr>
     = Inr \<lparr>lr_data = VStr ''out'', lr_error = None, lr_cancel = False\<rparr>"
  unfolding numeral_2_eq_2
  by (simp_all add: adhoc_example_defs base_input_of_def with_defaults_def evaluate_recursively_def ctx_truthy_def plain_env_def
      evaluate_def bind_res_def convert_result_def noop_desc_def)

theorem adhoc_loop_is_nesting_witness:
  "adhoc_instantiate 2 example_provider [] VNone plain_env [] outer_spec [] = Some (Inr (noop_desc, [(''x'', VInt 1)], True))
   \<and> post_process_result 2 example_provider [] (\<lambda>x _. Inr x) outer_spec \<lparr>lr_data = VInt 1, lr_error = None, lr_cancel = False\<rparr>
     = Some (Inr \<lparr>lr_data = VStr ''out'', lr_error = None, lr_cancel = False\<rparr>)"
proof -
  have names: "distinct (ah_name outer_spec # [''inner'', ''std.noop''])" by (simp add: outer_spec_def)
  show ?thesis
    using adhoc_loop_is_nesting[OF example_chain[of "[]"] names, of 2 VNone plain_env "[]" "[]" "\<lambda>x _. Inr x"
      "\<lparr>lr_data = VInt 1, lr_error = None, lr_cancel = False\<rparr>"]
    by (simp add: nested_example)
qed

end
