(* ===== verification/Egress.thy ===== *)
theory Egress
  imports "HOL-Library.Word" Engine_Config Rest_Lists
begin

unbundle bit_operations_syntax

text \<open>
  The HTTP action (\<^verbatim>\<open>actions/std_actions.py\<close>) with the policy that keeps it away from internal addresses
  (\<^verbatim>\<open>utils/egress.py\<close>), and the masking of secrets in logs (\<^verbatim>\<open>utils/redact.py\<close>). Addresses are
  machine words, as in the module \<^verbatim>\<open>ipaddress\<close>. The parts of a URL, the resolution of names and the library
  \<^verbatim>\<open>requests\<close> are parameters.
\<close>

section \<open>Addresses and networks\<close>

datatype ip = V4 "32 word" | V6 "128 word"

text \<open>An entry of the configuration: address and length of the prefix, or a text that is no network.\<close>

datatype cidr = Cidr4 "32 word" nat | Cidr6 "128 word" nat | NoCidr string

text \<open>A network: its address and its mask.\<close>

datatype ip_net = Net4 "32 word" "32 word" | Net6 "128 word" "128 word"

definition netmask :: "nat \<Rightarrow> 'a::len word" where
  "netmask n = (- 1) XOR drop_bit n (- 1)"

text \<open>\<^verbatim>\<open>ip_network(cidr, strict=False)\<close>; None is a \<^verbatim>\<open>ValueError\<close>.\<close>

fun ip_network :: "cidr \<Rightarrow> ip_net option" where
  "ip_network (Cidr4 b n) = (if n \<le> 32 then Some (Net4 (b AND netmask n) (netmask n)) else None)"
| "ip_network (Cidr6 b n) = (if n \<le> 128 then Some (Net6 (b AND netmask n) (netmask n)) else None)"
| "ip_network (NoCidr s) = None"

text \<open>\<^verbatim>\<open>address in network\<close>: an address of the other version is never in it.\<close>

fun in_network :: "ip \<Rightarrow> ip_net \<Rightarrow> bool" where
  "in_network (V4 a) (Net4 b m) \<longleftrightarrow> a AND m = b"
| "in_network (V6 a) (Net6 b m) \<longleftrightarrow> a AND m = b"
| "in_network _ _ \<longleftrightarrow> False"

definition denied_networks :: "cidr list \<Rightarrow> ip_net list" where
  "denied_networks cs = map the (filter (\<lambda>x. x \<noteq> None) (map ip_network cs))"

text \<open>The default of \<^verbatim>\<open>denied_cidrs\<close>: loopback and link-local, of both versions.\<close>

definition default_denied :: "cidr list" where
  "default_denied = [Cidr4 0x7F000000 8, Cidr6 1 128, Cidr4 0xA9FE0000 16, Cidr6 (push_bit 112 0xFE80) 10]"

section \<open>The check of a URL\<close>

text \<open>The result of \<^verbatim>\<open>urlsplit\<close>; reading a port that is no number raises \<^verbatim>\<open>ValueError\<close>.\<close>

record url_parts =
  ur_scheme :: string
  ur_host :: "string option"
  ur_port :: "int option res"

record egress_conf =
  eg_allowed_hosts :: "string list"
  eg_denied :: "cidr list"

text \<open>The addresses of a name; None is a name that cannot be resolved.\<close>

type_synonym resolver = "string \<Rightarrow> int option \<Rightarrow> ip list option"

definition url_not_allowed :: "string \<Rightarrow> exn" where
  "url_not_allowed msg = OtherException (''UrlNotAllowedException: '' @ msg)"

definition validate_url :: "egress_conf \<Rightarrow> resolver \<Rightarrow> url_parts \<Rightarrow> unit res" where
  "validate_url c resolve u =
     (if ur_scheme u \<notin> {''http'', ''https''} then Inl (url_not_allowed (''URL scheme '' @ squote (ur_scheme u) @ '' is not allowed''))
      else (case ur_host u of
          None \<Rightarrow> Inl (url_not_allowed ''URL does not contain a host.'')
        | Some host \<Rightarrow>
            (if host = [] then Inl (url_not_allowed ''URL does not contain a host.'')
             else if eg_allowed_hosts c \<noteq> [] \<and> host \<notin> set (eg_allowed_hosts c)
             then Inl (url_not_allowed (''Host '' @ squote host @ '' is not in allowed_hosts''))
             else bind_res (ur_port u) (\<lambda>port.
               case resolve host port of
                 None \<Rightarrow> Inr ()
               | Some addresses \<Rightarrow>
                   guard_res (\<not> list_ex (\<lambda>a. list_ex (in_network a) (denied_networks (eg_denied c))) addresses)
                     (url_not_allowed (''URL host '' @ squote host @ '' resolves to a blocked address''))))))"

section \<open>The action\<close>

datatype http_auth = NoAuth | AuthText string | AuthPair string string

record http_action =
  ha_url :: string
  ha_method :: string
  ha_params :: val
  ha_body :: val
  ha_json :: val
  ha_headers :: val
  ha_cookies :: val
  ha_auth :: http_auth
  ha_timeout :: val
  ha_allow_redirects :: val
  ha_proxies :: val
  ha_verify :: val

definition action_exception :: "string \<Rightarrow> exn" where
  "action_exception msg = OtherException (''ActionException: '' @ msg)"

definition split_auth :: "string \<Rightarrow> http_auth" where
  "split_auth a =
     (if a = [] then AuthText [] else (case split_on (CHR '':'') a of [u, p] \<Rightarrow> AuthPair u p | _ \<Rightarrow> AuthText a))"

text \<open>Numbers (Booleans are numbers, too) in the headers become texts.\<close>

definition header_text :: "val \<Rightarrow> val" where
  "header_text v = (case v of VInt i \<Rightarrow> VStr (str_int i) | VBool b \<Rightarrow> VStr (if b then ''True'' else ''False'') | _ \<Rightarrow> v)"

definition new_http_action :: "(val \<Rightarrow> string) \<Rightarrow> http_action \<Rightarrow> http_action res" where
  "new_http_action to_json a =
     (let a1 = a\<lparr>ha_auth := (case ha_auth a of AuthText t \<Rightarrow> split_auth t | x \<Rightarrow> x),
                 ha_headers := (case ha_headers a of VDict d \<Rightarrow> VDict (map (\<lambda>(k, v). (k, header_text v)) d) | v \<Rightarrow> v)\<rparr>
      in if truthy (ha_body a) \<and> truthy (ha_json a)
         then Inl (action_exception ''Only one of the parameters 'json' and 'body' can be passed'')
         else Inr (a1\<lparr>ha_body := (case ha_body a of VDict d \<Rightarrow> VStr (to_json (VDict d)) | v \<Rightarrow> v)\<rparr>))"

text \<open>What is passed to \<^verbatim>\<open>requests.request\<close>, and the response; \<open>rs_json\<close> is None when the body is not JSON.\<close>

record http_call =
  hc_action :: http_action
  hc_timeout :: val
  hc_verify :: val

record http_response =
  rs_status :: int
  rs_headers :: "val dict"
  rs_json :: "val option"
  rs_content :: val
  rs_rest :: "val dict"

record http_sys =
  hs_split :: "string \<Rightarrow> url_parts"
  hs_resolve :: resolver
  hs_request :: "http_call \<Rightarrow> http_response res"
  hs_int :: "val \<Rightarrow> int res"
  hs_egress :: egress_conf
  hs_default_timeout :: int
  hs_max_size :: int

definition http_call_of :: "http_sys \<Rightarrow> http_action \<Rightarrow> http_call" where
  "http_call_of hs a =
     \<lparr>hc_action = a, hc_timeout = (if ha_timeout a = VNone then VInt (hs_default_timeout hs) else ha_timeout a),
      hc_verify = (if ur_scheme (hs_split hs (ha_url a)) = ''https'' then ha_verify a else VNone)\<rparr>"

definition response_too_large :: "http_sys \<Rightarrow> http_response \<Rightarrow> bool res" where
  "response_too_large hs r =
     (if hs_max_size hs = 0 then Inr False
      else (case dget (rs_headers r) ''Content-Length'' of
          None \<Rightarrow> Inr False
        | Some v \<Rightarrow> (if \<not> truthy v then Inr False else bind_res (hs_int hs v) (\<lambda>n. Inr (hs_max_size hs < n)))))"

definition response_result :: "http_response \<Rightarrow> val dict" where
  "response_result r =
     [(''content'', case rs_json r of Some v \<Rightarrow> v | None \<Rightarrow> rs_content r), (''status'', VInt (rs_status r)),
      (''headers'', VDict (rs_headers r))] @ rs_rest r"

text \<open>The calls that are made, and the result or the exception.\<close>

definition http_run :: "http_sys \<Rightarrow> http_action \<Rightarrow> http_call list \<times> action_result res" where
  "http_run hs a =
     (case validate_url (hs_egress hs) (hs_resolve hs) (hs_split hs (ha_url a)) of
        Inl e \<Rightarrow> ([], Inl e)
      | Inr _ \<Rightarrow>
          ([http_call_of hs a],
           case hs_request hs (http_call_of hs a) of
             Inl e \<Rightarrow> Inl (action_exception ''Failed to send HTTP request'')
           | Inr r \<Rightarrow>
               bind_res (response_too_large hs r) (\<lambda>large.
                 if large then Inl (action_exception ''HTTP response is too large'')
                 else if rs_status r \<notin> {200..<307} then Inr (ErrorResult (VDict (response_result r)))
                 else Inr (SuccessResult (VDict (response_result r))))))"

text \<open>\<^verbatim>\<open>MistralHTTPAction\<close> adds headers about the execution; its result is not the one of the action.\<close>

definition mistral_headers :: "val dict \<Rightarrow> val dict" where
  "mistral_headers ex =
     [(''Mistral-Workflow-Name'', dget_default ex ''workflow_name'' VNone),
      (''Mistral-Workflow-Execution-Id'', dget_default ex ''workflow_execution_id'' VNone),
      (''Mistral-Task-Id'', dget_default ex ''task_execution_id'' VNone),
      (''Mistral-Action-Execution-Id'', dget_default ex ''action_execution_id'' VNone),
      (''Mistral-Callback-URL'', dget_default ex ''callback_url'' VNone)]"

definition mistral_http_run :: "http_sys \<Rightarrow> val dict \<Rightarrow> http_action \<Rightarrow> http_call list \<times> action_result res" where
  "mistral_http_run hs ex a =
     http_run hs (a\<lparr>ha_headers := VDict (dupdate (if truthy (ha_headers a) then (case ha_headers a of VDict d \<Rightarrow> d | _ \<Rightarrow> []) else [])
       (mistral_headers ex))\<rparr>)"

section \<open>Secrets in logs\<close>

definition is_infix_of :: "string \<Rightarrow> string \<Rightarrow> bool" where
  "is_infix_of p s \<longleftrightarrow> list_ex (\<lambda>i. take (length p) (drop i s) = p) [0..<Suc (length s)]"

definition sensitive_words :: "string list" where
  "sensitive_words = [''passwd'', ''password'', ''token'', ''secret'', ''auth'', ''apikey'', ''api_key'', ''api-key'', ''credential'',
     ''cookie'', ''private_key'']"

definition sensitive_key :: "string \<Rightarrow> bool" where
  "sensitive_key k \<longleftrightarrow> list_ex (\<lambda>p. is_infix_of p (map lower_char k)) sensitive_words"

definition redaction_mask :: val where
  "redaction_mask = VStr ''***''"

fun redact_sensitive :: "val \<Rightarrow> val" where
  "redact_sensitive (VDict d) = VDict (map (\<lambda>(k, v). (k, if sensitive_key k then redaction_mask else redact_sensitive v)) d)"
| "redact_sensitive (VList xs) = VList (map redact_sensitive xs)"
| "redact_sensitive v = v"

section \<open>Lemmas about masks\<close>

lemma bit_netmask: "bit (netmask n :: 'a::len word) i \<longleftrightarrow> i < LENGTH('a) \<and> LENGTH('a) \<le> n + i"
  by (auto simp: netmask_def bit_simps)

lemma same_prefix:
  fixes a b :: "'a::len word"
  assumes "n \<le> LENGTH('a)"
  shows "a AND netmask n = b AND netmask n \<longleftrightarrow> unat a div 2 ^ (LENGTH('a) - n) = unat b div 2 ^ (LENGTH('a) - n)"
proof -
  have "a AND netmask n = b AND netmask n \<longleftrightarrow> drop_bit (LENGTH('a) - n) a = drop_bit (LENGTH('a) - n) b"
  proof
    assume e: "a AND netmask n = b AND netmask n"
    show "drop_bit (LENGTH('a) - n) a = drop_bit (LENGTH('a) - n) b"
    proof (rule bit_word_eqI)
      fix i assume "i < LENGTH('a)"
      have "bit (a AND netmask n) (LENGTH('a) - n + i) = bit (b AND netmask n) (LENGTH('a) - n + i)" using e by simp
      then show "bit (drop_bit (LENGTH('a) - n) a) i = bit (drop_bit (LENGTH('a) - n) b) i"
        using assms by (auto simp: bit_simps bit_netmask dest: bit_imp_le_length)
    qed
  next
    assume e: "drop_bit (LENGTH('a) - n) a = drop_bit (LENGTH('a) - n) b"
    show "a AND netmask n = b AND netmask n"
    proof (rule bit_word_eqI)
      fix i assume i: "i < LENGTH('a)"
      show "bit (a AND netmask n) i = bit (b AND netmask n) i"
      proof (cases "LENGTH('a) \<le> n + i")
        case True
        have "bit (drop_bit (LENGTH('a) - n) a) (n + i - LENGTH('a)) = bit (drop_bit (LENGTH('a) - n) b) (n + i - LENGTH('a))" using e by simp
        then show ?thesis using True assms by (simp add: bit_simps)
      qed (simp add: bit_simps bit_netmask)
    qed
  qed
  also have "\<dots> \<longleftrightarrow> unat a div 2 ^ (LENGTH('a) - n) = unat b div 2 ^ (LENGTH('a) - n)"
    by (metis unat_drop_bit_eq drop_bit_eq_div word_unat_eq_iff)
  finally show ?thesis .
qed

section \<open>What is admitted\<close>

text \<open>
  An address is denied by an entry of its own version with a valid prefix, if both agree in the bits of the prefix,
  whatever bits of the host the entry has.
\<close>

fun denied_address :: "ip \<Rightarrow> cidr \<Rightarrow> bool" where
  "denied_address (V4 a) (Cidr4 b n) \<longleftrightarrow> n \<le> 32 \<and> unat a div 2 ^ (32 - n) = unat b div 2 ^ (32 - n)"
| "denied_address (V6 a) (Cidr6 b n) \<longleftrightarrow> n \<le> 128 \<and> unat a div 2 ^ (128 - n) = unat b div 2 ^ (128 - n)"
| "denied_address _ _ \<longleftrightarrow> False"

lemma network_membership: "denied_address a c \<longleftrightarrow> (\<exists>net. ip_network c = Some net \<and> in_network a net)"
  using same_prefix[where ?'a = 32] same_prefix[where ?'a = 128] by (cases a; cases c) simp_all

lemma denied_networks_member: "list_ex (in_network a) (denied_networks cs) \<longleftrightarrow> list_ex (denied_address a) cs"
proof (induction cs)
  case (Cons c cs)
  then show ?case by (cases "ip_network c") (simp_all add: denied_networks_def network_membership)
qed (simp add: denied_networks_def)

lemma validate_url_admits:
  "validate_url c resolve u = Inr () \<longleftrightarrow>
     (ur_scheme u = ''http'' \<or> ur_scheme u = ''https'') \<and>
     (\<exists>host port. ur_host u = Some host \<and> host \<noteq> [] \<and> ur_port u = Inr port \<and>
        (eg_allowed_hosts c = [] \<or> host \<in> set (eg_allowed_hosts c)) \<and>
        (case resolve host port of
           None \<Rightarrow> True
         | Some addresses \<Rightarrow> \<not> list_ex (\<lambda>a. list_ex (denied_address a) (eg_denied c)) addresses))"
  by (cases "ur_host u"; cases "ur_port u")
    (auto simp: validate_url_def guard_res_def denied_networks_member split: option.splits)

text \<open>
  C8. An HTTP action makes one request if its URL is admitted, and none otherwise. Admitted are the URLs with one of the two
  schemes and with a host, which is listed if hosts are listed at all, and whose name resolves to no
  address that is denied by an entry of the configuration; every address of the name counts, and a name that cannot be resolved is
  admitted. (It is the resolution at the time of the check: the library that connects resolves the name again,
  follows redirects and uses proxies without a check.)
\<close>

theorem http_action_stays_outside:
  "fst (http_run hs a) =
     (let u = hs_split hs (ha_url a); c = hs_egress hs
      in if (ur_scheme u = ''http'' \<or> ur_scheme u = ''https'') \<and>
            (\<exists>host port. ur_host u = Some host \<and> host \<noteq> [] \<and> ur_port u = Inr port \<and>
               (eg_allowed_hosts c = [] \<or> host \<in> set (eg_allowed_hosts c)) \<and>
               (case hs_resolve hs host port of
                  None \<Rightarrow> True
                | Some addresses \<Rightarrow> \<not> list_ex (\<lambda>x. list_ex (denied_address x) (eg_denied c)) addresses))
         then [http_call_of hs a] else [])"
proof -
  let ?v = "validate_url (hs_egress hs) (hs_resolve hs) (hs_split hs (ha_url a))"
  have "fst (http_run hs a) = (if ?v = Inr () then [http_call_of hs a] else [])"
    by (simp add: http_run_def split: sum.split)
  then show ?thesis unfolding validate_url_admits Let_def .
qed

section \<open>Mapped addresses\<close>

text \<open>The IPv6 address that stands for an IPv4 address, as in \<^verbatim>\<open>::ffff:169.254.169.254\<close>.\<close>

definition mapped :: "32 word \<Rightarrow> ip" where
  "mapped a = V6 (push_bit 32 0xFFFF OR ucast a)"

lemma shifted_apart: "push_bit 32 (w :: 128 word) AND ucast (a :: 32 word) = 0"
  by (rule bit_word_eqI) (auto simp: bit_simps dest: bit_imp_le_length)

lemma unat_mapped: "unat (push_bit 32 0xFFFF OR ucast (a :: 32 word) :: 128 word) = 0xFFFF * 2 ^ 32 + unat a"
proof -
  have a: "unat a < 2 ^ 32" using unsigned_less[of a] by simp
  have "push_bit 32 0xFFFF OR (ucast a :: 128 word) = push_bit 32 0xFFFF + ucast a"
    by (rule disjunctive_add_eq_or [symmetric, OF shifted_apart])
  moreover have "unat (ucast a :: 128 word) = unat a" using a by (simp add: unsigned_ucast_eq take_bit_nat_eq_self_iff)
  moreover have "unat (push_bit 32 0xFFFF :: 128 word) = 0xFFFF * 2 ^ 32" by simp
  ultimately show ?thesis using a by (simp add: unat_word_ariths)
qed

text \<open>
  The default list can be got around: for every IPv4 address, also one of the denied networks such as that of the
  metadata service of the cloud, a URL whose host is its IPv6 form passes the check.
\<close>

theorem mapped_address_allowed:
  assumes "ur_scheme u = ''http''" "ur_host u = Some host" "host \<noteq> []" "ur_port u = Inr port" "resolve host port = Some [mapped a]"
  shows "validate_url \<lparr>eg_allowed_hosts = [], eg_denied = default_denied\<rparr> resolve u = Inr ()"
proof -
  let ?x = "push_bit 32 0xFFFF OR ucast a :: 128 word"
  have a: "unat a < 2 ^ 32" using unsigned_less[of a] by simp
  have "?x AND netmask 128 \<noteq> 1 AND netmask 128"
    using same_prefix[where ?'a = 128, of 128 ?x 1] unat_mapped[of a] by simp
  moreover have "?x AND netmask 10 \<noteq> push_bit 112 0xFE80 AND netmask 10"
    using same_prefix[where ?'a = 128, of 10 ?x "push_bit 112 0xFE80"] unat_mapped[of a] a by simp
  ultimately have "\<not> list_ex (in_network (mapped a)) (denied_networks default_denied)"
    by (simp add: denied_networks_def default_denied_def mapped_def)
  then show ?thesis using assms by (simp add: validate_url_def guard_res_def)
qed

section \<open>What is masked\<close>

text \<open>Two values that differ at most in what belongs to sensitive keys.\<close>

fun same_but_secrets :: "val \<Rightarrow> val \<Rightarrow> bool" where
  "same_but_secrets (VDict d) (VDict e) \<longleftrightarrow> list_all2 (\<lambda>p q. fst p = fst q \<and> (sensitive_key (fst p) \<or> same_but_secrets (snd p) (snd q))) d e"
| "same_but_secrets (VList xs) (VList ys) \<longleftrightarrow> list_all2 same_but_secrets xs ys"
| "same_but_secrets v w \<longleftrightarrow> v = w"

lemma redact_same: "same_but_secrets v w \<Longrightarrow> redact_sensitive v = redact_sensitive w"
proof (induction v w rule: same_but_secrets.induct)
  case (1 d e)
  have "map (\<lambda>(k, v). (k, if sensitive_key k then redaction_mask else redact_sensitive v)) d =
    map (\<lambda>(k, v). (k, if sensitive_key k then redaction_mask else redact_sensitive v)) e"
  proof (rule nth_equalityI)
    show "length (map (\<lambda>(k, v). (k, if sensitive_key k then redaction_mask else redact_sensitive v)) d) =
      length (map (\<lambda>(k, v). (k, if sensitive_key k then redaction_mask else redact_sensitive v)) e)"
      using "1.prems" by (simp add: list_all2_lengthD)
  next
    fix i assume "i < length (map (\<lambda>(k, v). (k, if sensitive_key k then redaction_mask else redact_sensitive v)) d)"
    then have i: "i < length d" "i < length e" using "1.prems" by (simp_all add: list_all2_lengthD)
    then have "fst (d ! i) = fst (e ! i)" "sensitive_key (fst (d ! i)) \<or> same_but_secrets (snd (d ! i)) (snd (e ! i))"
      using "1.prems" by (auto simp: list_all2_conv_all_nth)
    moreover have "same_but_secrets (snd (d ! i)) (snd (e ! i)) \<Longrightarrow> \<not> sensitive_key (fst (d ! i)) \<Longrightarrow>
        redact_sensitive (snd (d ! i)) = redact_sensitive (snd (e ! i))"
      using "1.IH"[of "d ! i" "e ! i"] i by simp
    ultimately show "map (\<lambda>(k, v). (k, if sensitive_key k then redaction_mask else redact_sensitive v)) d ! i =
      map (\<lambda>(k, v). (k, if sensitive_key k then redaction_mask else redact_sensitive v)) e ! i"
      using i by (simp add: case_prod_beta) blast
  qed
  then show ?case by simp
next
  case (2 xs ys)
  then show ?case by (auto simp: list_all2_conv_all_nth intro!: nth_equalityI)
qed auto

text \<open>
  What is masked stays secret: two values that differ only in what belongs to sensitive keys, at
  whatever depth in dictionaries and lists, are the same after masking.
\<close>

theorem secrets_stay_secret:
  assumes "same_but_secrets v w"
  shows "redact_sensitive v = redact_sensitive w"
  using assms by (rule redact_same)

section \<open>Witnesses\<close>

theorem mapped_address_allowed_witness:
  "validate_url \<lparr>eg_allowed_hosts = [], eg_denied = default_denied\<rparr> (\<lambda>_ _. Some [mapped 0xA9FEA9FE])
     \<lparr>ur_scheme = ''http'', ur_host = Some ''metadata'', ur_port = Inr None\<rparr> = Inr ()"
  by (rule mapped_address_allowed [where host = "''metadata''" and port = None]) simp_all

theorem secrets_stay_secret_witness:
  "redact_sensitive (VDict [(''env'', VList [VDict [(''DB_Password'', VStr ''a'')]])]) =
   redact_sensitive (VDict [(''env'', VList [VDict [(''DB_Password'', VStr ''b'')]])])"
  by (rule secrets_stay_secret) code_simp

end
