(* ===== verification/Access_Policies.thy ===== *)
theory Access_Policies
  imports Rest_Lists
begin

text \<open>
  The policies of the API: the default rules of \<^verbatim>\<open>mistral/policies/\<close> and \<^verbatim>\<open>enforce\<close> of
  \<^verbatim>\<open>api/access_control.py\<close>, which every request asks. The library \<^verbatim>\<open>oslo.policy\<close>, which decides by the rules, and the
  values that \<^verbatim>\<open>oslo.context\<close> gives it about the user are parameters. An operator can replace the rules.
\<close>

section \<open>Rules\<close>

text \<open>
  A rule: its name, the check that a request has to pass, what it is for and the requests it is about (method and path); the two rules
  that the others refer to have neither.
\<close>

record rule_default =
  rd_name :: string
  rd_check :: string
  rd_description :: string
  rd_operations :: "(string \<times> string) list"

definition documented :: "string \<Rightarrow> string \<Rightarrow> string \<Rightarrow> (string \<times> string) list \<Rightarrow> rule_default" where
  "documented n c d ops = \<lparr>rd_name = n, rd_check = c, rd_description = d, rd_operations = ops\<rparr>"

definition RULE_ADMIN_OR_OWNER :: string where
  "RULE_ADMIN_OR_OWNER = ''rule:admin_or_owner''"

definition RULE_ADMIN_ONLY :: string where
  "RULE_ADMIN_ONLY = ''rule:admin_only''"

definition base_rules :: "rule_default list" where
  "base_rules =
     [documented ''admin_only'' ''is_admin:True'' [] [],
      documented ''admin_or_owner'' ''is_admin:True or project_id:%(project_id)s'' [] []]"

definition action_rules :: "rule_default list" where
  "action_rules =
     [documented ''actions:create'' RULE_ADMIN_OR_OWNER
        ''Create a new action.'' [(''POST'', ''/v2/actions'')],
      documented ''actions:delete'' RULE_ADMIN_OR_OWNER
        ''Delete the named action.'' [(''DELETE'', ''/v2/actions'')],
      documented ''actions:get'' RULE_ADMIN_OR_OWNER
        ''Return the named action.'' [(''GET'', ''/v2/actions/{action_id}'')],
      documented ''actions:list'' RULE_ADMIN_OR_OWNER
        ''Return all actions.'' [(''GET'', ''/v2/actions'')],
      documented ''actions:publicize'' RULE_ADMIN_ONLY
        ''Make an action publicly available'' [(''POST'', ''/v2/actions''), (''PUT'', ''/v2/actions'')],
      documented ''actions:update'' RULE_ADMIN_OR_OWNER
        ''Update one or more actions.'' [(''PUT'', ''/v2/actions'')]]"

definition action_execution_rules :: "rule_default list" where
  "action_execution_rules =
     [documented ''action_executions:create'' RULE_ADMIN_OR_OWNER
        ''Create new action execution.'' [(''POST'', ''/v2/action_executions'')],
      documented ''action_executions:delete'' RULE_ADMIN_OR_OWNER
        ''Delete the specified action execution.'' [(''DELETE'', ''/v2/action_executions'')],
      documented ''action_executions:get'' RULE_ADMIN_OR_OWNER
        ''Return the specified action execution.'' [(''GET'', ''/v2/action_executions/{action_execution_id}'')],
      documented ''action_executions:list'' RULE_ADMIN_OR_OWNER
        ''Return all tasks within the execution.'' [(''GET'', ''/v2/action_executions'')],
      documented ''action_executions:update'' RULE_ADMIN_OR_OWNER
        ''Update the specified action execution.'' [(''PUT'', ''/v2/action_executions'')]]"

definition code_source_rules :: "rule_default list" where
  "code_source_rules =
     [documented ''code_sources:create'' RULE_ADMIN_ONLY
        ''Create a new code source.'' [(''POST'', ''/v2/code_sources'')],
      documented ''code_sources:delete'' RULE_ADMIN_ONLY
        ''Delete the named code source.'' [(''DELETE'', ''/v2/code_sources'')],
      documented ''code_sources:get'' RULE_ADMIN_ONLY
        ''Return the named code source.'' [(''GET'', ''/v2/code_sources/{action_id}'')],
      documented ''code_sources:list'' RULE_ADMIN_ONLY
        ''Return all code sources.'' [(''GET'', ''/v2/code_sources'')],
      documented ''code_sources:publicize'' RULE_ADMIN_ONLY
        ''Make a code source publicly available.'' [(''POST'', ''/v2/code_sources''), (''PUT'', ''/v2/code_sources'')],
      documented ''code_sources:update'' RULE_ADMIN_ONLY
        ''Update one or more code source.'' [(''PUT'', ''/v2/code_sources'')]]"

definition cron_trigger_rules :: "rule_default list" where
  "cron_trigger_rules =
     [documented ''cron_triggers:create'' RULE_ADMIN_OR_OWNER
        ''Creates a new cron trigger.'' [(''POST'', ''/v2/cron_triggers'')],
      documented ''cron_triggers:delete'' RULE_ADMIN_OR_OWNER
        ''Delete cron trigger.'' [(''DELETE'', ''/v2/cron_triggers'')],
      documented ''cron_triggers:get'' RULE_ADMIN_OR_OWNER
        ''Returns the named cron trigger.'' [(''GET'', ''/v2/cron_triggers/{cron_trigger_id}'')],
      documented ''cron_triggers:list'' RULE_ADMIN_OR_OWNER
        ''Return all cron triggers.'' [(''GET'', ''/v2/cron_triggers'')],
      documented ''cron_triggers:publicize'' RULE_ADMIN_ONLY
        ''Make a cron trigger publicly available.'' [(''POST'', ''/v2/cron_triggers'')],
      documented ''cron_triggers:list:all_projects'' RULE_ADMIN_ONLY
        ''Return all cron triggers of all projects.'' [(''GET'', ''/v2/cron_triggers'')]]"

definition dynamic_action_rules :: "rule_default list" where
  "dynamic_action_rules =
     [documented ''dynamic_actions:create'' RULE_ADMIN_ONLY
        ''Create a new dynamic action.'' [(''POST'', ''/v2/dynamic_actions'')],
      documented ''dynamic_actions:delete'' RULE_ADMIN_ONLY
        ''Delete the named dynamic action.'' [(''DELETE'', ''/v2/dynamic_actions'')],
      documented ''dynamic_actions:get'' RULE_ADMIN_ONLY
        ''Return the named dynamic action.'' [(''GET'', ''/v2/dynamic_actions/{action_id}'')],
      documented ''dynamic_actions:list'' RULE_ADMIN_ONLY
        ''Return all dynamic actions.'' [(''GET'', ''/v2/dynamic_actions'')],
      documented ''dynamic_actions:publicize'' RULE_ADMIN_ONLY
        ''Make a dynamic action publicly available.'' [(''POST'', ''/v2/dynamic_actions''), (''PUT'', ''/v2/dynamic_actions'')],
      documented ''dynamic_actions:update'' RULE_ADMIN_ONLY
        ''Update one or more dynamic actions.'' [(''PUT'', ''/v2/dynamic_actions'')]]"

definition environment_rules :: "rule_default list" where
  "environment_rules =
     [documented ''environments:create'' RULE_ADMIN_OR_OWNER
        ''Create a new environment.'' [(''POST'', ''/v2/environments'')],
      documented ''environments:delete'' RULE_ADMIN_OR_OWNER
        ''Delete the named environment.'' [(''DELETE'', ''/v2/environments/{environment_name}'')],
      documented ''environments:get'' RULE_ADMIN_OR_OWNER
        ''Return the named environment.'' [(''GET'', ''/v2/environments/{environment_name}'')],
      documented ''environments:list'' RULE_ADMIN_OR_OWNER
        ''Return all environments.'' [(''GET'', ''/v2/environments'')],
      documented ''environments:publicize'' RULE_ADMIN_ONLY
        ''Make an environment publicly available.'' [(''POST'', ''/v2/environments''), (''PUT'', ''/v2/environments'')],
      documented ''environments:update'' RULE_ADMIN_OR_OWNER
        ''Update an environment.'' [(''PUT'', ''/v2/environments'')]]"

definition event_trigger_rules :: "rule_default list" where
  "event_trigger_rules =
     [documented ''event_triggers:create'' RULE_ADMIN_OR_OWNER
        ''Create a new event trigger.'' [(''POST'', ''/v2/event_triggers'')],
      documented ''event_triggers:publicize'' RULE_ADMIN_ONLY
        ''Make an event trigger publicly available.'' [(''POST'', ''/v2/event_triggers''), (''PUT'', ''/v2/event_triggers'')],
      documented ''event_triggers:delete'' RULE_ADMIN_OR_OWNER
        ''Delete event trigger.'' [(''DELETE'', ''/v2/event_triggers/{event_trigger_id}'')],
      documented ''event_triggers:get'' RULE_ADMIN_OR_OWNER
        ''Returns the specified event trigger.'' [(''GET'', ''/v2/event_triggers/{event_trigger_id}'')],
      documented ''event_triggers:list'' RULE_ADMIN_OR_OWNER
        ''Return all event triggers.'' [(''GET'', ''/v2/event_triggers'')],
      documented ''event_triggers:list:all_projects'' RULE_ADMIN_ONLY
        ''Return all event triggers from all projects.'' [(''GET'', ''/v2/event_triggers'')],
      documented ''event_triggers:update'' RULE_ADMIN_OR_OWNER
        ''Updates an existing event trigger.'' [(''PUT'', ''/v2/event_triggers'')]]"

definition execution_rules :: "rule_default list" where
  "execution_rules =
     [documented ''executions:create'' RULE_ADMIN_OR_OWNER
        ''Create a new execution.'' [(''POST'', ''/v2/executions'')],
      documented ''executions:delete'' RULE_ADMIN_OR_OWNER
        ''Delete the specified execution.'' [(''DELETE'', ''/v2/executions/{execution_id}'')],
      documented ''executions:get'' RULE_ADMIN_OR_OWNER
        ''Return the specified execution.'' [(''GET'', ''/v2/executions/{execution_id}'')],
      documented ''executions:list'' RULE_ADMIN_OR_OWNER
        ''Return all executions.'' [(''GET'', ''/v2/executions'')],
      documented ''executions:list:all_projects'' RULE_ADMIN_ONLY
        ''Return all executions from all projects.'' [(''GET'', ''/v2/executions'')],
      documented ''executions:update'' RULE_ADMIN_OR_OWNER
        ''Update an execution.'' [(''PUT'', ''/v2/executions'')]]"

definition member_rules :: "rule_default list" where
  "member_rules =
     [documented ''members:create'' RULE_ADMIN_OR_OWNER
        ''Shares the resource to a new member.'' [(''POST'', ''/v2/members'')],
      documented ''members:delete'' RULE_ADMIN_OR_OWNER
        ''Deletes a member from the member list of a resource.'' [(''DELETE'', ''/v2/members'')],
      documented ''members:get'' RULE_ADMIN_OR_OWNER
        ''Shows resource member details.'' [(''GET'', ''/v2/members/{member_id}'')],
      documented ''members:list'' RULE_ADMIN_OR_OWNER
        ''Return all members with whom the resource has been shared.'' [(''GET'', ''/v2/members'')],
      documented ''members:update'' RULE_ADMIN_OR_OWNER
        ''Sets the status for a resource member.'' [(''PUT'', ''/v2/members'')]]"

definition service_rules :: "rule_default list" where
  "service_rules =
     [documented ''services:list'' RULE_ADMIN_OR_OWNER
        ''Return all Mistral services.'' [(''GET'', ''/v2/services'')]]"

definition task_rules :: "rule_default list" where
  "task_rules =
     [documented ''tasks:get'' RULE_ADMIN_OR_OWNER
        ''Return the specified task.'' [(''GET'', ''/v2/tasks/{task_id}'')],
      documented ''tasks:list'' RULE_ADMIN_OR_OWNER
        ''Return all tasks.'' [(''GET'', ''/v2/tasks'')],
      documented ''tasks:update'' RULE_ADMIN_OR_OWNER
        ''Update the specified task execution.'' [(''PUT'', ''/v2/tasks'')]]"

definition workbook_rules :: "rule_default list" where
  "workbook_rules =
     [documented ''workbooks:create'' RULE_ADMIN_OR_OWNER
        ''Create a new workbook.'' [(''POST'', ''/v2/workbooks'')],
      documented ''workbooks:delete'' RULE_ADMIN_OR_OWNER
        ''Delete the named workbook.'' [(''DELETE'', ''/v2/workbooks'')],
      documented ''workbooks:get'' RULE_ADMIN_OR_OWNER
        ''Return the named workbook.'' [(''GET'', ''/v2/workbooks/{workbook_name}'')],
      documented ''workbooks:list'' RULE_ADMIN_OR_OWNER
        ''Return all workbooks.'' [(''GET'', ''/v2/workbooks'')],
      documented ''workbooks:publicize'' RULE_ADMIN_ONLY
        ''Make a workbook publicly available.'' [(''POST'', ''/v2/workbooks''), (''PUT'', ''/v2/workbooks'')],
      documented ''workbooks:update'' RULE_ADMIN_OR_OWNER
        ''Update an workbook.'' [(''PUT'', ''/v2/workbooks'')]]"

definition workflow_rules :: "rule_default list" where
  "workflow_rules =
     [documented ''workflows:create'' RULE_ADMIN_OR_OWNER
        ''Create a new workflow.'' [(''POST'', ''/v2/workflows'')],
      documented ''workflows:delete'' RULE_ADMIN_OR_OWNER
        ''Delete a workflow.'' [(''DELETE'', ''/v2/workflows'')],
      documented ''workflows:get'' RULE_ADMIN_OR_OWNER
        ''Return the named workflow.'' [(''GET'', ''/v2/workflows/{workflow_id}'')],
      documented ''workflows:list'' RULE_ADMIN_OR_OWNER
        ''Return a list of workflows.'' [(''GET'', ''/v2/workflows'')],
      documented ''workflows:list:all_projects'' RULE_ADMIN_ONLY
        ''Return a list of workflows from all projects.'' [(''GET'', ''/v2/workflows'')],
      documented ''workflows:publicize'' RULE_ADMIN_ONLY
        ''Make a workflow publicly available'' [(''POST'', ''/v2/workflows''), (''PUT'', ''/v2/workflows'')],
      documented ''workflows:update'' RULE_ADMIN_OR_OWNER
        ''Update one or more workflows.'' [(''PUT'', ''/v2/workflows'')]]"

text \<open>\<^verbatim>\<open>list_rules\<close> of the package.\<close>

definition list_rules :: "rule_default list" where
  "list_rules = concat [action_rules, action_execution_rules, base_rules, code_source_rules, dynamic_action_rules, cron_trigger_rules,
     environment_rules, event_trigger_rules, execution_rules, member_rules, service_rules, task_rules, workbook_rules, workflow_rules]"

section \<open>Asking the policies\<close>

text \<open>The context of a request; \<open>rc_policy_values\<close> is \<^verbatim>\<open>to_policy_values()\<close>.\<close>

record request_context =
  rc_project :: val
  rc_user :: val
  rc_is_admin :: bool
  rc_policy_values :: "val dict"

text \<open>\<^verbatim>\<open>Enforcer.authorize\<close>: from the registered rules, the rule, the target, the credentials and \<^verbatim>\<open>do_raise\<close>.\<close>

type_synonym authorizer = "rule_default list \<Rightarrow> string \<Rightarrow> val dict \<Rightarrow> val dict \<Rightarrow> bool \<Rightarrow> bool res"

definition enforce_policy :: "authorizer \<Rightarrow> string \<Rightarrow> request_context \<Rightarrow> val dict \<Rightarrow> bool \<Rightarrow> bool res" where
  "enforce_policy authorize action c target do_raise =
     authorize list_rules action (dupdate [(''project_id'', rc_project c), (''user_id'', rc_user c)] target)
       (dset ''is_admin'' (VBool (rc_is_admin c)) (rc_policy_values c)) do_raise"

text \<open>No controller passes a target, and all let it raise.\<close>

definition allowed_by :: "authorizer \<Rightarrow> request_context \<Rightarrow> string \<Rightarrow> bool" where
  "allowed_by authorize c action \<longleftrightarrow> enforce_policy authorize action c [] True = Inr True"

section \<open>Who is allowed what\<close>

text \<open>
  What \<^verbatim>\<open>oslo.policy\<close> documents, for the checks that occur in the rules: \<^verbatim>\<open>rule:x\<close> is the check of the rule x,
  \<^verbatim>\<open>is_admin:True\<close> looks at the credentials, \<^verbatim>\<open>project_id:%(project_id)s\<close> compares them with the target, and an action without a
  rule is an error.
\<close>

definition plain_check :: "string \<Rightarrow> val dict \<Rightarrow> val dict \<Rightarrow> bool" where
  "plain_check s target creds \<longleftrightarrow>
     s \<in> {''is_admin:True'', ''is_admin:True or project_id:%(project_id)s''} \<and> dget creds ''is_admin'' = Some (VBool True) \<or>
     s = ''is_admin:True or project_id:%(project_id)s'' \<and> dget target ''project_id'' \<noteq> None \<and> dget target ''project_id'' = dget creds ''project_id''"

definition check_holds :: "rule_default list \<Rightarrow> string \<Rightarrow> val dict \<Rightarrow> val dict \<Rightarrow> bool" where
  "check_holds rules s target creds \<longleftrightarrow>
     plain_check (case find (\<lambda>r. s = ''rule:'' @ rd_name r) rules of Some r \<Rightarrow> rd_check r | None \<Rightarrow> s) target creds"

definition decides_by_rules :: "authorizer \<Rightarrow> bool" where
  "decides_by_rules authorize \<longleftrightarrow> (\<forall>action target creds do_raise. authorize list_rules action target creds do_raise =
     (case find (\<lambda>r. rd_name r = action) list_rules of
        None \<Rightarrow> Inl (OtherException ''PolicyNotRegistered'')
      | Some r \<Rightarrow> if check_holds list_rules (rd_check r) target creds then Inr True
                  else if do_raise then Inl (NotAllowedException action) else Inr False))"

text \<open>What ordinary users may not do: publish, look into all projects, and use code sources and dynamic actions at all.\<close>

definition reserved_for_admins :: "string \<Rightarrow> bool" where
  "reserved_for_admins action \<longleftrightarrow>
     takeWhile (\<lambda>c. c \<noteq> CHR '':'') action \<in> {''code_sources'', ''dynamic_actions''} \<or>
     dropWhile (\<lambda>c. c \<noteq> CHR '':'') action \<in> {'':publicize'', '':list:all_projects''} \<or> action = ''admin_only''"

lemmas rule_tables = list_rules_def base_rules_def action_rules_def action_execution_rules_def code_source_rules_def dynamic_action_rules_def
  cron_trigger_rules_def environment_rules_def event_trigger_rules_def execution_rules_def member_rules_def service_rules_def task_rules_def
  workbook_rules_def workflow_rules_def documented_def RULE_ADMIN_ONLY_def RULE_ADMIN_OR_OWNER_def

lemma rule_names_distinct: "distinct (map rd_name list_rules)"
  by (simp add: rule_tables)

lemma base_checks:
  "find (\<lambda>q. RULE_ADMIN_ONLY = ''rule:'' @ rd_name q) list_rules = Some (documented ''admin_only'' ''is_admin:True'' [] [])"
  "find (\<lambda>q. RULE_ADMIN_OR_OWNER = ''rule:'' @ rd_name q) list_rules =
     Some (documented ''admin_or_owner'' ''is_admin:True or project_id:%(project_id)s'' [] [])"
  by (simp_all add: rule_tables)

lemma rule_checks:
  assumes "r \<in> set list_rules" "rd_name r \<noteq> ''admin_only''" "rd_name r \<noteq> ''admin_or_owner''"
  shows "rd_check r = (if reserved_for_admins (rd_name r) then RULE_ADMIN_ONLY else RULE_ADMIN_OR_OWNER)"
proof -
  have "list_all (\<lambda>r. rd_name r \<in> {''admin_only'', ''admin_or_owner''} \<or>
      rd_check r = (if reserved_for_admins (rd_name r) then RULE_ADMIN_ONLY else RULE_ADMIN_OR_OWNER)) list_rules"
    by (simp add: rule_tables reserved_for_admins_def)
  then show ?thesis using assms by (auto simp: list_all_iff)
qed

lemma registered:
  assumes "r \<in> set list_rules"
  shows "find (\<lambda>q. rd_name q = rd_name r) list_rules = Some r"
proof -
  obtain q where q: "find (\<lambda>q. rd_name q = rd_name r) list_rules = Some q"
    using assms by (cases "find (\<lambda>q. rd_name q = rd_name r) list_rules") (auto simp: find_None_iff)
  then have "q \<in> set list_rules" "rd_name q = rd_name r" by (auto simp: find_Some_iff)
  then have "q = r" using rule_names_distinct assms by (simp add: distinct_map inj_on_def)
  then show ?thesis using q by simp
qed

lemma check_of_rule:
  assumes "r \<in> set list_rules" "dget target ''project_id'' \<noteq> None" "dget creds ''project_id'' = dget target ''project_id''"
  shows "check_holds list_rules (rd_check r) target creds \<longleftrightarrow>
    dget creds ''is_admin'' = Some (VBool True) \<or> \<not> reserved_for_admins (rd_name r)"
proof -
  have base: "check_holds list_rules RULE_ADMIN_ONLY target creds \<longleftrightarrow> dget creds ''is_admin'' = Some (VBool True)"
    "check_holds list_rules RULE_ADMIN_OR_OWNER target creds"
    using assms(2,3) unfolding check_holds_def base_checks by (simp_all add: plain_check_def documented_def)
  show ?thesis
  proof (cases "rd_name r \<in> {''admin_only'', ''admin_or_owner''}")
    case False
    then show ?thesis using rule_checks[OF assms(1)] base by auto
  next
    case True
    then have r: "r \<in> set base_rules"
      using registered[OF assms(1)] by (auto simp: rule_tables)
    have none: "find (\<lambda>q. rd_check r = ''rule:'' @ rd_name q) list_rules = None"
      using r by (auto simp: base_rules_def documented_def find_None_iff)
    show ?thesis
      using r assms(2,3) unfolding check_holds_def none
      by (auto simp: base_rules_def documented_def plain_check_def reserved_for_admins_def)
  qed
qed

lemma enforced_by_default:
  assumes "decides_by_rules authorize" "dget (rc_policy_values c) ''project_id'' = Some (rc_project c)" "r \<in> set list_rules"
  shows "enforce_policy authorize (rd_name r) c [] True =
    (if rc_is_admin c \<or> \<not> reserved_for_admins (rd_name r) then Inr True else Inl (NotAllowedException (rd_name r)))"
proof -
  let ?target = "dupdate [(''project_id'', rc_project c), (''user_id'', rc_user c)] ([] :: val dict)"
  let ?creds = "dset ''is_admin'' (VBool (rc_is_admin c)) (rc_policy_values c)"
  have "check_holds list_rules (rd_check r) ?target ?creds \<longleftrightarrow> rc_is_admin c \<or> \<not> reserved_for_admins (rd_name r)"
    by (subst check_of_rule[OF assms(3)]) (simp_all add: assms(2) dupdate_def)
  then show ?thesis using assms(1) by (simp add: enforce_policy_def decides_by_rules_def registered[OF assms(3)])
qed

text \<open>
  C25. With the rules that Mistral ships, an administrator may do everything, and any other user exactly what is not
  reserved for administrators: to publish, to look into all projects, and everything about code sources and dynamic actions.
  Whose object a request is about never matters, because the project that a rule compares with the one of the user is
  the project of the user.
\<close>

theorem default_policies:
  assumes "decides_by_rules authorize" "dget (rc_policy_values c) ''project_id'' = Some (rc_project c)" "r \<in> set list_rules"
  shows "allowed_by authorize c (rd_name r) \<longleftrightarrow> rc_is_admin c \<or> \<not> reserved_for_admins (rd_name r)"
  unfolding allowed_by_def enforced_by_default[OF assms] by simp

lemma reserved_lists:
  assumes "name \<in> {''workflows:list:all_projects'', ''cron_triggers:list:all_projects'', ''code_sources:list'', ''dynamic_actions:list''}"
  obtains r where "r \<in> set list_rules" "rd_name r = name" "reserved_for_admins name"
proof -
  have "list_all (\<lambda>n. list_ex (\<lambda>r. rd_name r = n) list_rules \<and> reserved_for_admins n)
      [''workflows:list:all_projects'', ''cron_triggers:list:all_projects'', ''code_sources:list'', ''dynamic_actions:list'']"
    by (simp add: rule_tables reserved_for_admins_def)
  then show ?thesis using assms that by (auto simp: list_ex_iff)
qed

text \<open>
  With these rules the requests of an ordinary user to list the rows of all projects are refused: for workflows and
  cron triggers because the rule for all projects is reserved, for code sources and dynamic actions, whose lists do not
  ask about all projects, because the lists as a whole are.
\<close>

theorem default_lists_refused:
  assumes "decides_by_rules authorize" "dget (rc_policy_values c) ''project_id'' = Some (rc_project c)" "\<not> rc_is_admin c"
    and "ep \<in> {code_sources_endpoint, dynamic_actions_endpoint} \<or> ep \<in> {workflows_endpoint, cron_triggers_endpoint} \<and> lq_all_projects q"
  shows "\<exists>rule. list_resources a (allowed_by authorize c) sq max_limit ep q params s = Inl (NotAllowedException rule)"
proof -
  have refused: "\<not> allowed_by authorize c name"
    if "name \<in> {''workflows:list:all_projects'', ''cron_triggers:list:all_projects'', ''code_sources:list'', ''dynamic_actions:list''}" for name
  proof -
    obtain r where "r \<in> set list_rules" "rd_name r = name" "reserved_for_admins name" using reserved_lists[OF \<open>name \<in> _\<close>] .
    then show ?thesis using enforced_by_default[OF assms(1,2), of r] assms(3) by (simp add: allowed_by_def)
  qed
  show ?thesis
    using assms(4) refused[of "''workflows:list:all_projects''"] refused[of "''cron_triggers:list:all_projects''"]
      refused[of "''code_sources:list''"] refused[of "''dynamic_actions:list''"]
    by (auto simp: list_resources_def enforce_rule_def workflows_endpoint_def cron_triggers_endpoint_def code_sources_endpoint_def
        dynamic_actions_endpoint_def bind_res_def)
qed

section \<open>Witnesses\<close>

definition rule_enforcer :: authorizer where
  "rule_enforcer rules action target creds do_raise =
     (case find (\<lambda>r. rd_name r = action) rules of
        None \<Rightarrow> Inl (OtherException ''PolicyNotRegistered'')
      | Some r \<Rightarrow> if check_holds rules (rd_check r) target creds then Inr True
                  else if do_raise then Inl (NotAllowedException action) else Inr False)"

lemma rule_enforcer_decides: "decides_by_rules rule_enforcer"
  by (simp add: decides_by_rules_def rule_enforcer_def)

definition member_context :: request_context where
  "member_context = \<lparr>rc_project = VStr ''p'', rc_user = VStr ''u'', rc_is_admin = False, rc_policy_values = [(''project_id'', VStr ''p'')]\<rparr>"

theorem default_policies_witness:
  "allowed_by rule_enforcer member_context (rd_name (hd base_rules)) \<longleftrightarrow> rc_is_admin member_context \<or> \<not> reserved_for_admins (rd_name (hd base_rules))"
  by (rule default_policies[OF rule_enforcer_decides]) (simp_all add: member_context_def base_rules_def list_rules_def)

theorem default_lists_refused_witness:
  "\<exists>rule. list_resources \<lparr>ac_auth_enable = True, ac_has_ctx = True, ac_project = ''p'', ac_is_admin = False\<rparr> (allowed_by rule_enforcer member_context)
     \<lparr>sq_less = (\<lambda>_ _. False), sq_like = (=), sq_paginate = (\<lambda>k _ _ rows. take k rows)\<rparr> 10 code_sources_endpoint
     \<lparr>lq_marker = None, lq_limit = None, lq_sort_keys = [], lq_sort_dirs = [], lq_fields = [], lq_all_projects = True, lq_filters = []\<rparr> []
     \<lparr>rd_objects = (\<lambda>_. []), rd_members = []\<rparr>
   = Inl (NotAllowedException rule)"
  by (rule default_lists_refused[OF rule_enforcer_decides]) (simp_all add: member_context_def)

end
