(* ===== verification/Execution_Trees.thy ===== *)
theory Execution_Trees
  imports Background_Services
begin

text \<open>
  Reading the tree of an execution: the report (\<^verbatim>\<open>api/controllers/v2/execution_report.py\<close>) with its statistics, and
  the list of sub-executions (\<^verbatim>\<open>api/controllers/v2/sub_execution.py\<close>). Each function reads the tables as they are; the code
  opens a transaction for every row, between which the tables may change. Columns that no operation reads are left out, and
  the estimate of the time that is left, which is a float, is an argument.
\<close>

section \<open>Entries and statistics\<close>

record report_entry =
  en_id :: string
  en_name :: string
  en_state :: state
  en_state_info :: "string option"
  en_updated_at :: int

record action_entry = report_entry +
  en_accepted :: bool
  en_last_heartbeat :: "int option"

text \<open>A workflow whose tasks are not read has an entry without the attribute \<^verbatim>\<open>task_executions\<close>: a leaf.\<close>

datatype wf_entry = WfLeaf report_entry | WfNode report_entry "task_entry list"
  and task_entry = TaskEntry report_entry "val option" "action_entry list" "wf_entry list"

definition create_workflow_execution_entry :: "wf_ex \<Rightarrow> report_entry" where
  "create_workflow_execution_entry x =
     \<lparr>en_id = we_id x, en_name = we_name x, en_state = we_state x, en_state_info = we_state_info x, en_updated_at = we_updated_at x\<rparr>"

definition create_task_execution_entry :: "task_ex \<Rightarrow> report_entry" where
  "create_task_execution_entry t =
     \<lparr>en_id = te_id t, en_name = te_name t, en_state = te_state t, en_state_info = te_state_info t, en_updated_at = te_updated_at t\<rparr>"

definition create_action_execution_entry :: "action_ex \<Rightarrow> action_entry" where
  "create_action_execution_entry a =
     \<lparr>en_id = ae_id a, en_name = ae_name a, en_state = ae_state a, en_state_info = None, en_updated_at = ae_updated_at a,
      en_accepted = ae_accepted a, en_last_heartbeat = ae_last_heartbeat a\<rparr>"

record report_statistics =
  rs_total :: int
  rs_running :: int
  rs_success :: int
  rs_error :: int
  rs_idle :: int
  rs_paused :: int
  rs_estimated_time :: int

definition no_statistics :: report_statistics where
  "no_statistics = \<lparr>rs_total = 0, rs_running = 0, rs_success = 0, rs_error = 0, rs_idle = 0, rs_paused = 0, rs_estimated_time = 0\<rparr>"

definition update_statistics_with_task :: "state \<Rightarrow> report_statistics \<Rightarrow> report_statistics" where
  "update_statistics_with_task s st =
     (if s = RUNNING then st\<lparr>rs_running := rs_running st + 1, rs_total := rs_total st + 1\<rparr>
      else if s = SUCCESS then st\<lparr>rs_success := rs_success st + 1, rs_total := rs_total st + 1\<rparr>
      else if s = ERROR then st\<lparr>rs_error := rs_error st + 1, rs_total := rs_total st + 1\<rparr>
      else if s = IDLE then st\<lparr>rs_idle := rs_idle st + 1, rs_total := rs_total st + 1\<rparr>
      else if s = PAUSED then st\<lparr>rs_paused := rs_paused st + 1, rs_total := rs_total st + 1\<rparr>
      else st)"

section \<open>The report\<close>

record report_filters =
  rf_errors_only :: bool
  rf_max_depth :: int
  rf_statistics_only :: bool

text \<open>A loop that changes the statistics and collects the entries that are not None.\<close>

primrec collect :: "('a \<Rightarrow> 's \<Rightarrow> ('b option \<times> 's) res) \<Rightarrow> 'a list \<Rightarrow> 's \<Rightarrow> ('b list \<times> 's) res" where
  "collect f [] st = Inr ([], st)"
| "collect f (x # xs) st =
     bind_res (f x st) (\<lambda>(y, st1). bind_res (collect f xs st1) (\<lambda>(ys, st2).
       Inr (case y of None \<Rightarrow> ys | Some z \<Rightarrow> z # ys, st2)))"

definition retry_count_of :: "task_ex \<Rightarrow> val option res" where
  "retry_count_of t =
     (case dget (te_rt t) ''retry_task_policy'' of
        None \<Rightarrow> Inr None
      | Some (VDict d) \<Rightarrow> (case dget d ''retry_no'' of None \<Rightarrow> Inl (KeyError ''retry_no'') | Some v \<Rightarrow> Inr (Some v))
      | Some _ \<Rightarrow> Inl TypeError)"

definition beyond_depth :: "report_filters \<Rightarrow> int \<Rightarrow> bool" where
  "beyond_depth f depth \<longleftrightarrow> 0 \<le> rf_max_depth f \<and> rf_max_depth f < depth"

text \<open>
  \<open>visit\<close> is \<^verbatim>\<open>analyse_workflow_execution\<close> with the same depth; None is a task that is left out. The children are the
  actions, or the sub-workflows if the specification of the task names a workflow.
\<close>

definition analyse_task_execution ::
  "(string \<Rightarrow> report_statistics \<Rightarrow> (wf_entry \<times> report_statistics) res) \<Rightarrow> report_filters \<Rightarrow> world \<Rightarrow> string \<Rightarrow> report_statistics \<Rightarrow>
   (task_entry option \<times> report_statistics) res" where
  "analyse_task_execution visit f w i st =
     (case dget (w_tasks w) i of
        None \<Rightarrow> Inl (DBEntityNotFoundError i)
      | Some t \<Rightarrow>
          if rf_errors_only f \<and> te_state t \<noteq> ERROR then Inr (None, st)
          else bind_res (retry_count_of t) (\<lambda>retries.
            if runs_workflow (te_spec t)
            then bind_res (collect (\<lambda>x s. bind_res (visit (we_id x) s) (\<lambda>(e, s'). Inr (Some e, s'))) (sub_workflows (te_id t) w)
                   (update_statistics_with_task (te_state t) st))
                 (\<lambda>(es, st'). Inr (Some (TaskEntry (create_task_execution_entry t) retries [] es), st'))
            else Inr (Some (TaskEntry (create_task_execution_entry t) retries (map create_action_execution_entry (task_actions (te_id t) w)) []),
                   update_statistics_with_task (te_state t) st)))"

text \<open>The first argument is what is left of Python's recursion limit, in levels of workflows.\<close>

primrec analyse_workflow_execution ::
  "nat \<Rightarrow> report_filters \<Rightarrow> world \<Rightarrow> int \<Rightarrow> string \<Rightarrow> report_statistics \<Rightarrow> (wf_entry \<times> report_statistics) res" where
  "analyse_workflow_execution 0 f w depth i st = Inl RecursionError"
| "analyse_workflow_execution (Suc n) f w depth i st =
     (case dget (w_wfs w) i of
        None \<Rightarrow> Inl (DBEntityNotFoundError i)
      | Some x \<Rightarrow>
          if beyond_depth f depth then Inr (WfLeaf (create_workflow_execution_entry x), st)
          else bind_res (collect (\<lambda>t. analyse_task_execution (analyse_workflow_execution n f w (depth + 1)) f w (te_id t)) (wf_tasks i w) st)
            (\<lambda>(ts, st'). Inr (WfNode (create_workflow_execution_entry x) ts, st')))"

section \<open>Statistics only\<close>

primrec run_all :: "('a \<Rightarrow> 's \<Rightarrow> 's res) \<Rightarrow> 'a list \<Rightarrow> 's \<Rightarrow> 's res" where
  "run_all f [] st = Inr st"
| "run_all f (x # xs) st = bind_res (f x st) (run_all f xs)"

definition analyse_task_statistics_only ::
  "(string \<Rightarrow> report_statistics \<Rightarrow> report_statistics res) \<Rightarrow> report_filters \<Rightarrow> world \<Rightarrow> string \<Rightarrow> report_statistics \<Rightarrow> report_statistics res" where
  "analyse_task_statistics_only visit f w i st =
     (case dget (w_tasks w) i of
        None \<Rightarrow> Inl (DBEntityNotFoundError i)
      | Some t \<Rightarrow>
          if rf_errors_only f \<and> te_state t \<noteq> ERROR then Inr st
          else if runs_workflow (te_spec t)
          then run_all (\<lambda>x. visit (we_id x)) (sub_workflows (te_id t) w) (update_statistics_with_task (te_state t) st)
          else Inr (update_statistics_with_task (te_state t) st))"

primrec analyse_execution_statistics_only ::
  "nat \<Rightarrow> report_filters \<Rightarrow> world \<Rightarrow> int \<Rightarrow> string \<Rightarrow> report_statistics \<Rightarrow> report_statistics res" where
  "analyse_execution_statistics_only 0 f w depth i st = Inl RecursionError"
| "analyse_execution_statistics_only (Suc n) f w depth i st =
     (if beyond_depth f depth then Inr st
      else (case dget (w_wfs w) i of
          None \<Rightarrow> Inl (DBEntityNotFoundError i)
        | Some x \<Rightarrow> run_all (\<lambda>t. analyse_task_statistics_only (analyse_execution_statistics_only n f w (depth + 1)) f w (te_id t)) (wf_tasks i w) st))"

record execution_report =
  er_statistics :: report_statistics
  er_root :: "wf_entry option"

definition estimate_time_for_execution :: "(wf_ex \<Rightarrow> int) \<Rightarrow> world \<Rightarrow> string \<Rightarrow> int res" where
  "estimate_time_for_execution estimate w i =
     (case dget (w_wfs w) i of
        None \<Rightarrow> Inl (DBEntityNotFoundError i)
      | Some x \<Rightarrow> Inr (if we_state x = RUNNING then estimate x else 0))"

definition build_report :: "nat \<Rightarrow> (wf_ex \<Rightarrow> int) \<Rightarrow> report_filters \<Rightarrow> world \<Rightarrow> string \<Rightarrow> execution_report res" where
  "build_report n estimate f w i =
     bind_res (estimate_time_for_execution estimate w i) (\<lambda>time.
       if \<not> rf_statistics_only f
       then bind_res (analyse_workflow_execution n f w 0 i (no_statistics\<lparr>rs_estimated_time := time\<rparr>))
              (\<lambda>(e, st). Inr \<lparr>er_statistics = st, er_root = Some e\<rparr>)
       else bind_res (analyse_execution_statistics_only n f w 0 i (no_statistics\<lparr>rs_estimated_time := time\<rparr>))
              (\<lambda>st. Inr \<lparr>er_statistics = st, er_root = None\<rparr>))"

section \<open>The list of sub-executions\<close>

text \<open>The resource of an execution, with its output only if that is asked for.\<close>

definition wf_resource :: "bool \<Rightarrow> wf_ex \<Rightarrow> wf_ex" where
  "wf_resource include_output x = (if include_output then x else x\<lparr>we_output := None\<rparr>)"

primrec concat_all :: "('a \<Rightarrow> 'b list res) \<Rightarrow> 'a list \<Rightarrow> 'b list res" where
  "concat_all f [] = Inr []"
| "concat_all f (x # xs) = bind_res (f x) (\<lambda>ys. bind_res (concat_all f xs) (\<lambda>zs. Inr (ys @ zs)))"

definition get_task_sub_executions_list :: "(string \<Rightarrow> wf_ex list res) \<Rightarrow> report_filters \<Rightarrow> world \<Rightarrow> string \<Rightarrow> wf_ex list res" where
  "get_task_sub_executions_list visit f w i =
     (case dget (w_tasks w) i of
        None \<Rightarrow> Inl (DBEntityNotFoundError i)
      | Some t \<Rightarrow>
          if rf_errors_only f \<and> te_state t \<noteq> ERROR then Inr []
          else concat_all (\<lambda>x. visit (we_id x)) (sub_workflows (te_id t) w))"

primrec get_execution_sub_executions_list :: "nat \<Rightarrow> bool \<Rightarrow> report_filters \<Rightarrow> world \<Rightarrow> int \<Rightarrow> string \<Rightarrow> wf_ex list res" where
  "get_execution_sub_executions_list 0 io f w depth i = Inl RecursionError"
| "get_execution_sub_executions_list (Suc n) io f w depth i =
     (if beyond_depth f depth then Inr []
      else (case dget (w_wfs w) i of
          None \<Rightarrow> Inl (DBEntityNotFoundError i)
        | Some x \<Rightarrow>
            bind_res (concat_all (\<lambda>t. get_task_sub_executions_list (get_execution_sub_executions_list n io f w (depth + 1)) f w (te_id t)) (wf_tasks i w))
              (\<lambda>xs. Inr (wf_resource io x # xs))))"

definition get_sub_executions :: "nat \<Rightarrow> bool \<Rightarrow> string \<Rightarrow> report_filters \<Rightarrow> world \<Rightarrow> string \<Rightarrow> wf_ex list res" where
  "get_sub_executions n io origin f w i =
     (if origin = ''execution'' then get_execution_sub_executions_list n io f w 0 i
      else get_task_sub_executions_list (get_execution_sub_executions_list n io f w 0) f w i)"

section \<open>The views agree\<close>

text \<open>The entries of tasks in a tree, and the workflows whose tasks are in it.\<close>

fun tasks_in :: "wf_entry \<Rightarrow> report_entry list" and tasks_under :: "task_entry \<Rightarrow> report_entry list" where
  "tasks_in (WfLeaf x) = []"
| "tasks_in (WfNode x ts) = concat (map tasks_under ts)"
| "tasks_under (TaskEntry x r as ws) = x # concat (map tasks_in ws)"

fun nodes_in :: "wf_entry \<Rightarrow> report_entry list" and nodes_under :: "task_entry \<Rightarrow> report_entry list" where
  "nodes_in (WfLeaf x) = []"
| "nodes_in (WfNode x ts) = x # concat (map nodes_under ts)"
| "nodes_under (TaskEntry x r as ws) = concat (map nodes_in ws)"

definition tally :: "report_entry list \<Rightarrow> report_statistics \<Rightarrow> report_statistics" where
  "tally xs = fold (\<lambda>x. update_statistics_with_task (en_state x)) xs"

lemma tally_simps [simp]: "tally [] st = st" "tally (x # xs) st = tally xs (update_statistics_with_task (en_state x) st)"
  "tally (xs @ ys) st = tally ys (tally xs st)"
  by (simp_all add: tally_def)

text \<open>Sub-workflows are executions of tasks whose specification names a workflow; only these start any.\<close>

definition subs_of_workflow_tasks :: "world \<Rightarrow> bool" where
  "subs_of_workflow_tasks w \<longleftrightarrow> list_all (\<lambda>(_, t). runs_workflow (te_spec t) \<or> sub_workflows (te_id t) w = []) (w_tasks w)"

lemma collect_agrees:
  assumes "\<And>x st y st'. x \<in> set xs \<Longrightarrow> f x st = Inr (y, st') \<Longrightarrow>
      g x st = Inr st' \<and> st' = tally (case y of None \<Rightarrow> [] | Some z \<Rightarrow> tf z) st \<and> h x = Inr (case y of None \<Rightarrow> [] | Some z \<Rightarrow> nf z)"
    and "collect f xs st = Inr (ys, st')"
  shows "run_all g xs st = Inr st' \<and> st' = tally (concat (map tf ys)) st \<and> concat_all h xs = Inr (concat (map nf ys))"
  using assms
proof (induction xs arbitrary: st ys)
  case (Cons x xs)
  obtain y st1 zs where y: "f x st = Inr (y, st1)" and zs: "collect f xs st1 = Inr (zs, st')"
    and ys: "ys = (case y of None \<Rightarrow> zs | Some z \<Rightarrow> z # zs)"
    using Cons.prems(2) by (auto elim!: bind_res_InrE)
  have "run_all g xs st1 = Inr st' \<and> st' = tally (concat (map tf zs)) st1 \<and> concat_all h xs = Inr (concat (map nf zs))"
    by (rule Cons.IH[OF Cons.prems(1) zs]) simp_all
  then show ?case using Cons.prems(1)[of x, OF _ y] ys by (cases y) simp_all
qed simp

definition resource_in :: "bool \<Rightarrow> world \<Rightarrow> report_entry \<Rightarrow> wf_ex" where
  "resource_in io w x = wf_resource io (the (dget (w_wfs w) (en_id x)))"

lemma task_agrees:
  assumes "subs_of_workflow_tasks w"
    and visit: "\<And>i st e st'. v i st = Inr (e, st') \<Longrightarrow>
      sv i st = Inr st' \<and> st' = tally (tasks_in e) st \<and> lv i = Inr (map (resource_in io w) (nodes_in e))"
    and "analyse_task_execution v f w i st = Inr (y, st')"
  shows "analyse_task_statistics_only sv f w i st = Inr st' \<and> st' = tally (case y of None \<Rightarrow> [] | Some z \<Rightarrow> tasks_under z) st \<and>
    get_task_sub_executions_list lv f w i = Inr (case y of None \<Rightarrow> [] | Some z \<Rightarrow> map (resource_in io w) (nodes_under z))"
proof -
  obtain t where t: "dget (w_tasks w) i = Some t" using assms(3) by (auto simp: analyse_task_execution_def split: option.splits)
  show ?thesis
  proof (cases "rf_errors_only f \<and> te_state t \<noteq> ERROR")
    case True
    then show ?thesis using assms(3) t
      by (auto simp: analyse_task_execution_def analyse_task_statistics_only_def get_task_sub_executions_list_def)
  next
    case shown: False
    obtain r where r: "retry_count_of t = Inr r" using assms(3) t shown
      by (auto simp: analyse_task_execution_def elim!: bind_res_InrE split: if_splits)
    show ?thesis
    proof (cases "runs_workflow (te_spec t)")
      case True
      obtain es where es: "collect (\<lambda>x s. bind_res (v (we_id x) s) (\<lambda>(e, s'). Inr (Some e, s'))) (sub_workflows (te_id t) w)
          (update_statistics_with_task (te_state t) st) = Inr (es, st')"
        and y: "y = Some (TaskEntry (create_task_execution_entry t) r [] es)"
        using assms(3) t shown r True by (auto simp: analyse_task_execution_def elim!: bind_res_InrE)
      have "run_all (\<lambda>x. sv (we_id x)) (sub_workflows (te_id t) w) (update_statistics_with_task (te_state t) st) = Inr st' \<and>
          st' = tally (concat (map tasks_in es)) (update_statistics_with_task (te_state t) st) \<and>
          concat_all (\<lambda>x. lv (we_id x)) (sub_workflows (te_id t) w) = Inr (concat (map (\<lambda>e. map (resource_in io w) (nodes_in e)) es))"
        by (rule collect_agrees[OF _ es]) (auto dest: visit elim!: bind_res_InrE)
      moreover have "analyse_task_statistics_only sv f w i st = run_all (\<lambda>x. sv (we_id x)) (sub_workflows (te_id t) w) (update_statistics_with_task (te_state t) st)"
        "get_task_sub_executions_list lv f w i = concat_all (\<lambda>x. lv (we_id x)) (sub_workflows (te_id t) w)"
        unfolding analyse_task_statistics_only_def get_task_sub_executions_list_def t option.case if_not_P[OF shown] if_P[OF True] by (rule refl)+
      moreover have "en_state (create_task_execution_entry t) = te_state t" by (simp add: create_task_execution_entry_def)
      ultimately show ?thesis using y by (simp add: map_concat comp_def)
    next
      case False
      have "sub_workflows (te_id t) w = []" using list_all_dget[OF assms(1)[unfolded subs_of_workflow_tasks_def] t] False by simp
      then show ?thesis using assms(3) t shown r False
        by (auto simp: analyse_task_execution_def analyse_task_statistics_only_def get_task_sub_executions_list_def create_task_execution_entry_def)
    qed
  qed
qed

lemma workflow_agrees:
  assumes "subs_of_workflow_tasks w" "\<And>i x. dget (w_wfs w) i = Some x \<Longrightarrow> we_id x = i"
    and "analyse_workflow_execution n f w depth i st = Inr (e, st')"
  shows "analyse_execution_statistics_only n f w depth i st = Inr st' \<and> st' = tally (tasks_in e) st \<and>
    get_execution_sub_executions_list n io f w depth i = Inr (map (resource_in io w) (nodes_in e))"
  using assms(3)
proof (induction n arbitrary: depth i st e st')
  case (Suc n)
  obtain x where x: "dget (w_wfs w) i = Some x" using Suc.prems by (auto split: option.splits)
  show ?case
  proof (cases "beyond_depth f depth")
    case True
    then show ?thesis using Suc.prems x by auto
  next
    case False
    obtain ts where ts: "collect (\<lambda>t. analyse_task_execution (analyse_workflow_execution n f w (depth + 1)) f w (te_id t)) (wf_tasks i w) st = Inr (ts, st')"
      and e: "e = WfNode (create_workflow_execution_entry x) ts"
      using Suc.prems x False by (auto elim!: bind_res_InrE)
    have "run_all (\<lambda>t. analyse_task_statistics_only (analyse_execution_statistics_only n f w (depth + 1)) f w (te_id t)) (wf_tasks i w) st = Inr st' \<and>
        st' = tally (concat (map tasks_under ts)) st \<and>
        concat_all (\<lambda>t. get_task_sub_executions_list (get_execution_sub_executions_list n io f w (depth + 1)) f w (te_id t)) (wf_tasks i w) =
          Inr (concat (map (\<lambda>z. map (resource_in io w) (nodes_under z)) ts))"
      by (rule collect_agrees[OF _ ts]) (rule task_agrees[OF assms(1) Suc.IH])
    moreover have "resource_in io w (create_workflow_execution_entry x) = wf_resource io x"
      using x assms(2)[OF x] by (simp add: resource_in_def create_workflow_execution_entry_def)
    ultimately show ?thesis using x False e by (simp add: map_concat comp_def)
  qed
qed simp

text \<open>
  C19. The views of an execution agree: a report with statistics only has the statistics of the full report, and the list of
  sub-executions consists of the executions that the report expands, in its order.
\<close>

theorem report_views_agree:
  assumes "well_formed w" "subs_of_workflow_tasks w" "build_report n estimate f w i = Inr r" "er_root r = Some e"
  shows "build_report n estimate (f\<lparr>rf_statistics_only := True\<rparr>) w i = Inr \<lparr>er_statistics = er_statistics r, er_root = None\<rparr> \<and>
    get_sub_executions n io ''execution'' f w i = Inr (map (resource_in io w) (nodes_in e))"
proof -
  have ids: "we_id x = j" if "dget (w_wfs w) j = Some x" for j x
    using assms(1) that by (auto simp: well_formed_def wf_row_ok_def dest: list_all_dget)
  obtain time where time: "estimate_time_for_execution estimate w i = Inr time"
    and tree: "analyse_workflow_execution n f w 0 i (no_statistics\<lparr>rs_estimated_time := time\<rparr>) = Inr (e, er_statistics r)"
    using assms(3,4) by (auto simp: build_report_def elim!: bind_res_InrE split: if_splits)
  have same: "beyond_depth (f\<lparr>rf_statistics_only := True\<rparr>) = beyond_depth f" by (simp add: fun_eq_iff beyond_depth_def)
  have task: "analyse_task_statistics_only v (f\<lparr>rf_statistics_only := True\<rparr>) w = analyse_task_statistics_only v f w" for v
  proof -
    have "rf_errors_only (f\<lparr>rf_statistics_only := True\<rparr>) = rf_errors_only f" by simp
    then show ?thesis by (intro ext) (simp only: analyse_task_statistics_only_def)
  qed
  have "analyse_execution_statistics_only n (f\<lparr>rf_statistics_only := True\<rparr>) w depth j st = analyse_execution_statistics_only n f w depth j st" for depth j st
  proof (induction n arbitrary: depth j st)
    case (Suc n)
    then have rest: "analyse_execution_statistics_only n (f\<lparr>rf_statistics_only := True\<rparr>) w = analyse_execution_statistics_only n f w"
      by (simp add: fun_eq_iff)
    show ?case unfolding analyse_execution_statistics_only.simps same task rest ..
  qed simp
  then show ?thesis
    using workflow_agrees[OF assms(2) ids tree, of io] time by (simp add: build_report_def get_sub_executions_def)
qed

section \<open>What the statistics count\<close>

definition count_state :: "state \<Rightarrow> report_entry list \<Rightarrow> int" where
  "count_state s xs = int (length (filter (\<lambda>x. en_state x = s) xs))"

definition counted_states :: "state list" where
  "counted_states = [RUNNING, SUCCESS, ERROR, IDLE, PAUSED]"

lemma tally_counts:
  "rs_running (tally xs st) = rs_running st + count_state RUNNING xs" "rs_success (tally xs st) = rs_success st + count_state SUCCESS xs"
  "rs_error (tally xs st) = rs_error st + count_state ERROR xs" "rs_idle (tally xs st) = rs_idle st + count_state IDLE xs"
  "rs_paused (tally xs st) = rs_paused st + count_state PAUSED xs"
  "rs_total (tally xs st) = rs_total st + int (length (filter (\<lambda>x. en_state x \<in> set counted_states) xs))"
  by (induction xs arbitrary: st) (simp_all add: count_state_def counted_states_def update_statistics_with_task_def)

text \<open>
  The statistics of a report are the numbers of the tasks in its tree, by their states; the total leaves out tasks that
  are waiting, delayed, cancelled or skipped, so that it is smaller than the number of tasks as soon as there is one of these.
\<close>

theorem statistics_count_tasks:
  assumes "well_formed w" "subs_of_workflow_tasks w" "build_report n estimate f w i = Inr r" "er_root r = Some e"
  shows "rs_running (er_statistics r) = count_state RUNNING (tasks_in e) \<and> rs_success (er_statistics r) = count_state SUCCESS (tasks_in e) \<and>
    rs_error (er_statistics r) = count_state ERROR (tasks_in e) \<and> rs_idle (er_statistics r) = count_state IDLE (tasks_in e) \<and>
    rs_paused (er_statistics r) = count_state PAUSED (tasks_in e) \<and>
    rs_total (er_statistics r) = int (length (tasks_in e)) - int (length (filter (\<lambda>x. en_state x \<notin> set counted_states) (tasks_in e)))"
proof -
  have ids: "we_id x = j" if "dget (w_wfs w) j = Some x" for j x
    using assms(1) that by (auto simp: well_formed_def wf_row_ok_def dest: list_all_dget)
  obtain time where "analyse_workflow_execution n f w 0 i (no_statistics\<lparr>rs_estimated_time := time\<rparr>) = Inr (e, er_statistics r)"
    using assms(3,4) by (auto simp: build_report_def elim!: bind_res_InrE split: if_splits)
  then have "er_statistics r = tally (tasks_in e) (no_statistics\<lparr>rs_estimated_time := time\<rparr>)"
    using workflow_agrees[OF assms(2) ids] by blast
  moreover have "length (filter (\<lambda>x. en_state x \<in> set counted_states) (tasks_in e)) +
      length (filter (\<lambda>x. en_state x \<notin> set counted_states) (tasks_in e)) = length (tasks_in e)"
    by (rule sum_length_filter_compl)
  ultimately show ?thesis by (simp add: tally_counts no_statistics_def)
qed

section \<open>The report returns\<close>

lemma collect_raises:
  assumes "collect f xs st = Inl x"
  obtains y st' where "y \<in> set xs" "f y st' = Inl x"
  using assms
proof (induction xs arbitrary: st thesis)
  case (Cons y ys)
  show ?case
  proof (cases "f y st")
    case (Inl z)
    then show ?thesis using Cons.prems by auto
  next
    case (Inr r)
    then have "\<exists>st1. collect f ys st1 = Inl x" using Cons.prems(2) by (cases r) (auto simp: bind_res_def split: sum.splits)
    then show ?thesis using Cons.IH Cons.prems(1) by (metis list.set_intros(2))
  qed
qed simp

lemma task_raises:
  assumes "analyse_task_execution v f w i st = Inl RecursionError" "\<And>j t. dget (w_tasks w) j = Some t \<Longrightarrow> te_id t = j"
  obtains x st' where "x \<in> set (sub_workflows i w)" "v (we_id x) st' = Inl RecursionError"
proof -
  obtain t where t: "dget (w_tasks w) i = Some t" using assms(1) by (auto simp: analyse_task_execution_def split: option.splits)
  have "retry_count_of t \<noteq> Inl RecursionError" by (auto simp: retry_count_of_def split: option.split val.split)
  then have "\<exists>st1. collect (\<lambda>x s. bind_res (v (we_id x) s) (\<lambda>(e, s'). Inr (Some e, s'))) (sub_workflows i w) st1 = Inl RecursionError"
    using assms(1) t assms(2)[OF t] by (auto simp: analyse_task_execution_def bind_res_def split: if_splits sum.splits)
  then show ?thesis using that by (auto elim!: collect_raises simp: bind_res_def split: sum.splits)
qed

text \<open>\<open>m\<close> is a measure of what is below an execution at a depth.\<close>

lemma workflow_returns:
  assumes "\<And>j t. dget (w_tasks w) j = Some t \<Longrightarrow> te_id t = j" "list_all (\<lambda>(j, t). te_id t = j) (w_tasks w)"
    and smaller: "\<And>d i t x. \<not> beyond_depth f d \<Longrightarrow> t \<in> set (wf_tasks i w) \<Longrightarrow> x \<in> set (sub_workflows (te_id t) w) \<Longrightarrow> m (d + 1) (we_id x) < m d i"
    and "m depth i < n"
  shows "analyse_workflow_execution n f w depth i st \<noteq> Inl RecursionError"
  using assms(4)
proof (induction n arbitrary: depth i st)
  case (Suc n)
  show ?case
  proof
    assume raised: "analyse_workflow_execution (Suc n) f w depth i st = Inl RecursionError"
    then have near: "\<not> beyond_depth f depth" by (auto split: option.splits if_splits)
    have "\<exists>st1. collect (\<lambda>t. analyse_task_execution (analyse_workflow_execution n f w (depth + 1)) f w (te_id t)) (wf_tasks i w) st1 = Inl RecursionError"
      using raised near by (auto simp: bind_res_def split: option.splits sum.splits)
    then obtain t st2 where t: "t \<in> set (wf_tasks i w)"
      and "analyse_task_execution (analyse_workflow_execution n f w (depth + 1)) f w (te_id t) st2 = Inl RecursionError"
      by (auto elim: collect_raises)
    then obtain x st3 where x: "x \<in> set (sub_workflows (te_id t) w)" "analyse_workflow_execution n f w (depth + 1) (we_id x) st3 = Inl RecursionError"
      using task_raises[OF _ assms(1)] by blast
    have "m (depth + 1) (we_id x) < n" using smaller[OF near t x(1)] Suc.prems by simp
    then show False using Suc.IH x(2) by blast
  qed
qed simp

text \<open>No execution is below itself: \<open>rank\<close> decreases from a workflow to its sub-workflows.\<close>

definition nesting_ranked :: "(string \<Rightarrow> nat) \<Rightarrow> world \<Rightarrow> bool" where
  "nesting_ranked rank w \<longleftrightarrow> (\<forall>t \<in> set (map snd (w_tasks w)). \<forall>x \<in> set (sub_workflows (te_id t) w). rank (we_id x) < rank (te_wf_id t))"

text \<open>
  The recursion of a full report ends: with a depth it goes no deeper than that, whatever the tables are like, and without one as deep as
  the executions are nested, if none is below itself.
\<close>

theorem report_returns:
  assumes "well_formed w"
    and "0 \<le> rf_max_depth f \<and> nat (rf_max_depth f) + 1 < n \<or> nesting_ranked rank w \<and> rank i < n"
    and "\<not> rf_statistics_only f"
  shows "build_report n estimate f w i \<noteq> Inl RecursionError"
proof -
  have keyed: "te_id t = j" if "dget (w_tasks w) j = Some t" for j t
    using assms(1) that by (auto simp: well_formed_def task_row_ok_def dest: list_all_dget)
  have all: "list_all (\<lambda>(j, t). te_id t = j) (w_tasks w)"
    using assms(1) by (auto simp: well_formed_def task_row_ok_def list_all_iff)
  have "analyse_workflow_execution n f w 0 i st \<noteq> Inl RecursionError" for st
    using assms(2)
  proof
    assume "0 \<le> rf_max_depth f \<and> nat (rf_max_depth f) + 1 < n"
    then show ?thesis
      by (intro workflow_returns[OF keyed all, where m = "\<lambda>d _. nat (rf_max_depth f + 1 - d)"]) (auto simp: beyond_depth_def nat_add_distrib)
  next
    assume r: "nesting_ranked rank w \<and> rank i < n"
    then show ?thesis
      by (intro workflow_returns[OF keyed all, where m = "\<lambda>_. rank"]) (auto simp: nesting_ranked_def wf_tasks_def)
  qed
  moreover have "estimate_time_for_execution estimate w i \<noteq> Inl RecursionError"
    by (simp add: estimate_time_for_execution_def split: option.split)
  ultimately show ?thesis using assms(3) by (auto simp: build_report_def bind_res_def split: sum.splits)
qed

section \<open>Witnesses\<close>

text \<open>A workflow with a task that runs a sub-workflow, and a task that waits.\<close>

definition caller :: task_spec where
  "caller = (mk_task ''c'')\<lparr>ts_workflow := Some ''sub''\<rparr>"

definition nested_world :: world where
  "nested_world = empty_world
     \<lparr>w_wfs := [(''w'', mk_wf_ex ''w'' (mk_wf [caller, mk_task ''j'']) RUNNING),
                (''s'', (mk_wf_ex ''s'' (mk_wf [mk_task ''t'']) SUCCESS)\<lparr>we_task_id := Some ''1''\<rparr>)],
      w_tasks := [(''1'', mk_task_ex ''1'' ''w'' caller RUNNING), (''2'', mk_task_ex ''2'' ''w'' (mk_task ''j'') WAITING),
                  (''3'', mk_task_ex ''3'' ''s'' (mk_task ''t'') SUCCESS)],
      w_actions := [(''a'', mk_action_ex ''a'' ''3'' SUCCESS 0)]\<rparr>"

definition everything_below :: report_filters where
  "everything_below = \<lparr>rf_errors_only = False, rf_max_depth = - 1, rf_statistics_only = False\<rparr>"

definition nested_tree :: wf_entry where
  "nested_tree = WfNode \<lparr>en_id = ''w'', en_name = ''wf'', en_state = RUNNING, en_state_info = None, en_updated_at = 0\<rparr>
     [TaskEntry \<lparr>en_id = ''1'', en_name = ''c'', en_state = RUNNING, en_state_info = None, en_updated_at = 0\<rparr> None []
        [WfNode \<lparr>en_id = ''s'', en_name = ''wf'', en_state = SUCCESS, en_state_info = None, en_updated_at = 0\<rparr>
           [TaskEntry \<lparr>en_id = ''3'', en_name = ''t'', en_state = SUCCESS, en_state_info = None, en_updated_at = 0\<rparr> None
              [\<lparr>en_id = ''a'', en_name = ''std.noop'', en_state = SUCCESS, en_state_info = None, en_updated_at = 0, en_accepted = False, en_last_heartbeat = None\<rparr>] []]],
      TaskEntry \<lparr>en_id = ''2'', en_name = ''j'', en_state = WAITING, en_state_info = None, en_updated_at = 0\<rparr> None [] []]"

definition nested_statistics :: report_statistics where
  "nested_statistics = \<lparr>rs_total = 2, rs_running = 1, rs_success = 1, rs_error = 0, rs_idle = 0, rs_paused = 0, rs_estimated_time = 7\<rparr>"

lemma nested_report: "build_report 3 (\<lambda>_. 7) everything_below nested_world ''w'' = Inr \<lparr>er_statistics = nested_statistics, er_root = Some nested_tree\<rparr>"
  by code_simp

lemma nested_well_formed: "well_formed nested_world"
  by (simp add: nested_world_def empty_world_def well_formed_def wf_row_ok_def task_row_ok_def action_row_ok_def mk_wf_ex_def mk_task_ex_def
      mk_action_ex_def unique_keys_def dict_ok_def)

lemma nested_subs: "subs_of_workflow_tasks nested_world"
  by code_simp

theorem report_views_agree_witness:
  "build_report 3 (\<lambda>_. 7) (everything_below\<lparr>rf_statistics_only := True\<rparr>) nested_world ''w'' = Inr \<lparr>er_statistics = nested_statistics, er_root = None\<rparr> \<and>
   get_sub_executions 3 True ''execution'' everything_below nested_world ''w'' = Inr (map (resource_in True nested_world) (nodes_in nested_tree))"
  using report_views_agree[OF nested_well_formed nested_subs nested_report, of nested_tree True] by simp

theorem statistics_count_tasks_witness:
  "rs_total nested_statistics = int (length (tasks_in nested_tree)) - int (length (filter (\<lambda>x. en_state x \<notin> set counted_states) (tasks_in nested_tree))) \<and>
   length (tasks_in nested_tree) = 3 \<and> rs_total nested_statistics = 2"
  using statistics_count_tasks[OF nested_well_formed nested_subs nested_report, of nested_tree] by (simp add: nested_tree_def nested_statistics_def)

theorem report_returns_witness:
  "build_report 3 (\<lambda>_. 7) everything_below nested_world ''w'' \<noteq> Inl RecursionError"
proof (rule report_returns[OF nested_well_formed])
  let ?rank = "\<lambda>i. if i = ''w'' then 1 else 0 :: nat"
  have "nesting_ranked ?rank nested_world" unfolding nesting_ranked_def by code_simp
  then show "0 \<le> rf_max_depth everything_below \<and> nat (rf_max_depth everything_below) + 1 < 3 \<or> nesting_ranked ?rank nested_world \<and> ?rank ''w'' < 3" by simp
qed (simp add: everything_below_def)

end
