(* ===== verification/Definition_Texts.thy ===== *)
theory Definition_Texts
  imports Prelude
begin

text \<open>
  The texts of definitions (\<^verbatim>\<open>lang/parser.py\<close>): a workbook is stored as one text, and the definition of each of its
  workflows and actions is cut out of it by its indentation. A string is a list of characters up to 255.
\<close>

section \<open>Strings of Python\<close>

definition is_space_char :: "char \<Rightarrow> bool" where
  "is_space_char c \<longleftrightarrow> (let n = (of_char c :: nat) in 9 \<le> n \<and> n \<le> 13 \<or> 28 \<le> n \<and> n \<le> 32 \<or> n = 133 \<or> n = 160)"

definition lstrip_text :: "string \<Rightarrow> string" where
  "lstrip_text s = dropWhile is_space_char s"

definition rstrip_text :: "string \<Rightarrow> string" where
  "rstrip_text s = rev (dropWhile is_space_char (rev s))"

definition strip_text :: "string \<Rightarrow> string" where
  "strip_text s = rstrip_text (lstrip_text s)"

text \<open>\<^verbatim>\<open>s.index(sub)\<close>: the first position, or a \<^verbatim>\<open>ValueError\<close>.\<close>

fun index_of :: "string \<Rightarrow> string \<Rightarrow> nat res" where
  "index_of [] sub = (if sub = [] then Inr 0 else Inl (ValueError ''substring not found''))"
| "index_of (c # s) sub =
     (if take (length sub) (c # s) = sub then Inr 0 else bind_res (index_of s sub) (\<lambda>i. Inr (Suc i)))"

text \<open>The lines that reading a \<^verbatim>\<open>StringIO\<close> yields, with their line ends.\<close>

fun lines_of :: "string \<Rightarrow> string list" where
  "lines_of [] = []"
| "lines_of (c # s) =
     (if c = CHR 0x0A then [c] # lines_of s
      else (case lines_of s of [] \<Rightarrow> [[c]] | l # ls \<Rightarrow> (c # l) # ls))"

section \<open>Cutting out a definition\<close>

text \<open>The first loop: up to the line of the item. The result is the indentation, the line, and what the loop has not read.\<close>

fun find_item :: "string \<Rightarrow> string list \<Rightarrow> (nat \<times> string \<times> string list) option res" where
  "find_item item [] = Inr None"
| "find_item item (l # ls) =
     (if item = strip_text l then bind_res (index_of l item) (\<lambda>ident. Inr (Some (ident, lstrip_text l, ls))) else find_item item ls)"

text \<open>The second loop: lines that belong to the definition, up to one with the same or less indentation.\<close>

fun read_block :: "nat \<Rightarrow> string list \<Rightarrow> string list res" where
  "read_block ident [] = Inr []"
| "read_block ident (l # ls) =
     (if strip_text l = [] then bind_res (read_block ident ls) (\<lambda>ds. Inr (l # ds))
      else if take 1 (strip_text l) = ''#''
      then bind_res (index_of l ''#'') (\<lambda>k. bind_res (read_block ident ls) (\<lambda>ds. Inr ((if k < ident then l else drop ident l) # ds)))
      else bind_res (index_of l (lstrip_text l)) (\<lambda>temp.
        if ident < temp then bind_res (read_block ident ls) (\<lambda>ds. Inr (drop ident l # ds)) else Inr []))"

definition parse_def_from_wb :: "string \<Rightarrow> string \<Rightarrow> string \<Rightarrow> string res" where
  "parse_def_from_wb wb_def section_name item_name =
     bind_res (index_of wb_def section_name) (\<lambda>start.
     bind_res (find_item item_name (drop 1 (lines_of (drop start wb_def)))) (\<lambda>r.
       case r of
         None \<Rightarrow> bind_res (read_block 0 []) (\<lambda>ds. Inr (rstrip_text (concat ds) @ [CHR 0x0A]))
       | Some (ident, header, ls) \<Rightarrow> bind_res (read_block ident ls) (\<lambda>ds. Inr (rstrip_text (concat (header # ds)) @ [CHR 0x0A]))))"

definition workflow_text :: "string \<Rightarrow> string \<Rightarrow> string res" where
  "workflow_text wb_def wf_name = parse_def_from_wb wb_def ''workflows:'' (wf_name @ '':'')"

definition action_text :: "string \<Rightarrow> string \<Rightarrow> string res" where
  "action_text wb_def action_name = parse_def_from_wb wb_def ''actions:'' (action_name @ '':'')"

section \<open>Indented blocks\<close>

definition indentation :: "string \<Rightarrow> nat" where
  "indentation l = length (takeWhile is_space_char l)"

definition line_end :: char where
  "line_end = CHR 0x0A"

lemma line_end_space [simp]: "is_space_char line_end"
  by (simp add: line_end_def is_space_char_def)

lemma index_of_first:
  assumes "v \<noteq> []" "\<not> is_space_char (hd v)" "list_all is_space_char u"
  shows "index_of (u @ v @ w) v = Inr (length u)"
  using assms(3)
proof (induction u)
  case Nil
  then show ?case using assms(1) by (cases v) auto
next
  case (Cons c u)
  have "take (length v) ((c # u) @ v @ w) \<noteq> v"
  proof
    assume "take (length v) ((c # u) @ v @ w) = v"
    then have "hd v = c" using assms(1) by (cases v) auto
    then show False using assms(2) Cons.prems by simp
  qed
  then show ?case using Cons by simp
qed

lemma spaces_before: "l = takeWhile is_space_char l @ lstrip_text l" "list_all is_space_char (takeWhile is_space_char l)"
  by (simp add: lstrip_text_def) (auto simp: list_all_iff dest: set_takeWhileD)

lemma lstrip_starts:
  assumes "strip_text l \<noteq> []"
  shows "lstrip_text l \<noteq> []" "\<not> is_space_char (hd (lstrip_text l))" "hd (strip_text l) = hd (lstrip_text l)"
proof -
  show ne: "lstrip_text l \<noteq> []" using assms by (auto simp: strip_text_def rstrip_text_def)
  show "\<not> is_space_char (hd (lstrip_text l))" using hd_dropWhile[of is_space_char l] ne by (simp add: lstrip_text_def)
  have "lstrip_text l = rstrip_text (lstrip_text l) @ rev (takeWhile is_space_char (rev (lstrip_text l)))"
    unfolding rstrip_text_def rev_append[symmetric] takeWhile_dropWhile_id by simp
  then show "hd (strip_text l) = hd (lstrip_text l)" using assms by (metis hd_append2 strip_text_def)
qed

lemma index_lstrip:
  assumes "strip_text l \<noteq> []"
  shows "index_of l (lstrip_text l) = Inr (indentation l)"
proof -
  have "index_of (takeWhile is_space_char l @ lstrip_text l @ []) (lstrip_text l) = Inr (length (takeWhile is_space_char l))"
    by (rule index_of_first[OF lstrip_starts(1,2)[OF assms] spaces_before(2)])
  then show ?thesis by (metis append_Nil2 indentation_def spaces_before(1))
qed

lemma index_comment:
  assumes "take 1 (strip_text l) = ''#''"
  shows "index_of l ''#'' = Inr (indentation l)"
proof -
  have s: "strip_text l \<noteq> []" "hd (strip_text l) = CHR ''#''" using assms by (cases "strip_text l"; simp)+
  obtain v where v: "lstrip_text l = CHR ''#'' # v" using lstrip_starts[OF s(1)] s(2) by (cases "lstrip_text l") auto
  have "index_of (takeWhile is_space_char l @ ''#'' @ v) ''#'' = Inr (length (takeWhile is_space_char l))"
    by (rule index_of_first[OF _ _ spaces_before(2)]) (simp_all add: is_space_char_def)
  then show ?thesis using spaces_before(1)[of l] v by (simp add: indentation_def)
qed

text \<open>Lines that belong to the block of a line with a given indentation, a line that ends it, and what is stored of a line.\<close>

definition comment_line :: "string \<Rightarrow> bool" where
  "comment_line l \<longleftrightarrow> take 1 (strip_text l) = ''#''"

definition in_block :: "nat \<Rightarrow> string \<Rightarrow> bool" where
  "in_block ident l \<longleftrightarrow> strip_text l = [] \<or> comment_line l \<or> ident < indentation l"

definition dedent :: "nat \<Rightarrow> string \<Rightarrow> string" where
  "dedent ident l = (if strip_text l = [] \<or> comment_line l \<and> indentation l < ident then l else drop ident l)"

lemma read_block_reads:
  assumes "list_all (in_block ident) body" "rest = [] \<or> \<not> in_block ident (hd rest)"
  shows "read_block ident (body @ rest) = Inr (map (dedent ident) body)"
  using assms(1)
proof (induction body)
  case Nil
  show ?case
  proof (cases rest)
    case (Cons l ls)
    then have l: "strip_text l \<noteq> []" "\<not> comment_line l" "\<not> ident < indentation l" using assms(2) by (auto simp: in_block_def)
    then show ?thesis using Cons index_lstrip[OF l(1)] by (simp add: comment_line_def)
  qed simp
next
  case (Cons l body)
  then show ?case
    using index_lstrip[of l] index_comment[of l] by (auto simp: in_block_def dedent_def comment_line_def)
qed

lemma find_item_first:
  assumes "list_all (\<lambda>l. strip_text l \<noteq> item) before" "strip_text header = item" "item \<noteq> []"
    and "header = u @ item @ w" "list_all is_space_char u"
  shows "find_item item (before @ header # ls) = Inr (Some (length u, lstrip_text header, ls))"
proof -
  have "item = strip_text header" using assms(2) ..
  then have "\<not> is_space_char (hd item)" using lstrip_starts[of header] assms(3) by metis
  then have "index_of header item = Inr (length u)" unfolding assms(4) by (rule index_of_first[OF assms(3) _ assms(5)])
  with assms(1) show ?thesis by (induction before) (use assms(2) in auto)
qed

definition is_line :: "string \<Rightarrow> bool" where
  "is_line l \<longleftrightarrow> l \<noteq> [] \<and> last l = line_end \<and> line_end \<notin> set (butlast l)"

lemma lines_of_line: "is_line l \<Longrightarrow> lines_of (l @ s) = l # lines_of s"
proof (induction l)
  case (Cons c l)
  show ?case
  proof (cases l)
    case Nil
    then show ?thesis using Cons.prems by (simp add: is_line_def line_end_def)
  next
    case (Cons d k)
    then have "is_line l" "c \<noteq> line_end" using Cons.prems by (auto simp: is_line_def split: if_splits)
    then show ?thesis using Cons.IH by (simp add: line_end_def)
  qed
qed (simp add: is_line_def)

lemma lines_of_concat: "list_all is_line ls \<Longrightarrow> lines_of (concat ls) = ls"
  by (induction ls) (simp_all add: lines_of_line)

text \<open>
  C29. The definition of a workflow or an action that is cut out of a workbook is its block: the first line after that of the
  section that consists of its name, and the lines below it up to the first that is indented no deeper, blank lines and
  comments aside, all of them moved to the left by the indentation of the first.
\<close>

theorem definition_is_block:
  assumes "index_of text section = Inr (length pre)"
    and "text = pre @ concat (first # before @ (replicate ident (CHR '' '') @ item @ [line_end]) # body @ rest)"
    and "list_all is_line (first # before @ body @ rest)" "line_end \<notin> set item" "strip_text item = item" "item \<noteq> []"
    and "list_all (\<lambda>l. strip_text l \<noteq> item) before" "list_all (in_block ident) body" "rest = [] \<or> \<not> in_block ident (hd rest)"
  shows "parse_def_from_wb text section item = Inr (rstrip_text (concat ((item @ [line_end]) # map (dedent ident) body)) @ [line_end])"
proof -
  let ?header = "replicate ident (CHR '' '') @ item @ [line_end]"
  have start: "\<not> is_space_char (hd item)" using lstrip_starts[of item] assms(5,6) by metis
  have "dropWhile is_space_char (replicate ident (CHR '' '') @ item @ [line_end]) = item @ [line_end]"
    using start assms(6) by (induction ident) (auto simp: is_space_char_def dropWhile_append neq_Nil_conv)
  then have l: "lstrip_text ?header = item @ [line_end]" by (simp add: lstrip_text_def)
  have "rstrip_text item = item"
  proof -
    have "lstrip_text item = item" using start assms(6) by (cases item) (simp_all add: lstrip_text_def)
    then show ?thesis using assms(5) by (simp add: strip_text_def)
  qed
  then have s: "strip_text ?header = item" unfolding strip_text_def l by (simp add: rstrip_text_def)
  have "list_all is_line (first # before @ ?header # body @ rest)"
    using assms(3,4) by (simp add: is_line_def butlast_append line_end_def)
  then have "lines_of (concat (first # before @ ?header # body @ rest)) = first # before @ ?header # body @ rest" by (rule lines_of_concat)
  moreover have "drop (length pre) text = concat (first # before @ ?header # body @ rest)"
    unfolding assms(2) drop_append by simp
  ultimately have "drop 1 (lines_of (drop (length pre) text)) = before @ ?header # body @ rest" by (simp only: drop_Suc_Cons drop_0 One_nat_def)
  moreover have "find_item item (before @ ?header # body @ rest) = Inr (Some (ident, item @ [line_end], body @ rest))"
    using find_item_first[OF assms(7) s assms(6) refl, of "body @ rest"] l by (simp add: list_all_iff is_space_char_def)
  ultimately show ?thesis
    using assms(1) read_block_reads[OF assms(8,9)] by (simp add: parse_def_from_wb_def line_end_def)
qed

section \<open>Witnesses\<close>

definition text_lines :: "string list \<Rightarrow> string" where
  "text_lines ls = concat (map (\<lambda>l. l @ [line_end]) ls)"

definition two_workflows :: string where
  "two_workflows = text_lines [''workflows:'', ''  one:'', ''    tasks:'', ''      two:'', ''        action: std.noop'', ''  two:'', ''    tasks:'',
     ''      t:'', ''        action: std.fail'']"

theorem definition_is_block_witness:
  "parse_def_from_wb two_workflows ''workflows:'' ''one:'' =
     Inr (rstrip_text (concat ((''one:'' @ [line_end]) # map (dedent 2)
       [''    tasks:'' @ [line_end], ''      two:'' @ [line_end], ''        action: std.noop'' @ [line_end]])) @ [line_end])"
proof (rule definition_is_block[where pre = "[]" and first = "''workflows:'' @ [line_end]" and before = "[]" and
    rest = "map (\<lambda>l. l @ [line_end]) [''  two:'', ''    tasks:'', ''      t:'', ''        action: std.fail'']"])
  show "index_of two_workflows ''workflows:'' = Inr (length [])" by code_simp
  show "two_workflows = [] @ concat ((''workflows:'' @ [line_end]) # [] @ (replicate 2 (CHR '' '') @ ''one:'' @ [line_end]) #
      [''    tasks:'' @ [line_end], ''      two:'' @ [line_end], ''        action: std.noop'' @ [line_end]] @
      map (\<lambda>l. l @ [line_end]) [''  two:'', ''    tasks:'', ''      t:'', ''        action: std.fail''])" by code_simp
qed (code_simp)+

text \<open>
  The line of an item is looked for among all lines of the section: a task of an earlier workflow with the name of a later
  one has its text taken for the definition of that workflow.
\<close>

theorem task_taken_for_workflow:
  "workflow_text two_workflows ''two'' = Inr (text_lines [''two:'', ''  action: std.noop''])"
  by code_simp

end
