(* ===== verification/Definition_Services.thy ===== *)
theory Definition_Services
  imports Rest_Lists Definition_Texts
begin

text \<open>
  Storing the definitions of a text: \<^verbatim>\<open>services/workflows.py\<close>, \<^verbatim>\<open>services/workbooks.py\<close>,
  \<^verbatim>\<open>services/adhoc_actions.py\<close> and the requests of the API that call them. Parsing and printing YAML, building specifications, JSON
  and MD5 are parameters; the identifiers of new rows are numbered by the position of the definition in its text. The rows are those of
  \<open>Resource_Access\<close>.
\<close>

section \<open>Parsed texts\<close>

text \<open>What the services read of a specification; \<open>ds_dict\<close> is \<^verbatim>\<open>to_dict()\<close>.\<close>

record def_spec =
  ds_name :: string
  ds_description :: val
  ds_tags :: val
  ds_dict :: "val dict"

record workbook_def =
  wb_spec :: def_spec
  wb_actions :: "def_spec list"
  wb_workflows :: "def_spec list"

text \<open>
  The parser with and without validation, the YAML text of one workflow of a text, JSON, the checksum, identifiers and the
  option \<^verbatim>\<open>validation_mode\<close>.
\<close>

record def_env =
  de_workflows :: "bool \<Rightarrow> string \<Rightarrow> def_spec list res"
  de_actions :: "string \<Rightarrow> def_spec list res"
  de_workbook :: "bool \<Rightarrow> string \<Rightarrow> workbook_def res"
  de_cut :: "string \<Rightarrow> string \<Rightarrow> string res"
  de_json :: "val \<Rightarrow> string"
  de_checksum :: "string \<Rightarrow> string"
  de_id :: "nat \<Rightarrow> string"
  de_validation_mode :: string

definition is_validation_enabled :: "def_env \<Rightarrow> bool \<Rightarrow> bool" where
  "is_validation_enabled c validate =
     (if de_validation_mode c = ''mandatory'' then True else if de_validation_mode c = ''disabled'' then False else validate)"

text \<open>A transaction: an exception undoes everything.\<close>

definition in_transaction :: "(resource_db \<Rightarrow> 'a res \<times> resource_db) \<Rightarrow> resource_db \<Rightarrow> 'a res \<times> resource_db" where
  "in_transaction m s = (case m s of (Inl e, _) \<Rightarrow> (Inl e, s) | (Inr x, s') \<Rightarrow> (Inr x, s'))"

text \<open>A loop that stores the definitions one after the other, with their numbers.\<close>

primrec store_each :: "(nat \<Rightarrow> 'x \<Rightarrow> resource_db \<Rightarrow> db_object res \<times> resource_db) \<Rightarrow> nat \<Rightarrow> 'x list \<Rightarrow> resource_db \<Rightarrow> db_object list res \<times> resource_db" where
  "store_each f n [] s = (Inr [], s)"
| "store_each f n (x # xs) s =
     (case f n x s of
        (Inl e, s') \<Rightarrow> (Inl e, s')
      | (Inr r, s') \<Rightarrow> (case store_each f (Suc n) xs s' of (Inl e, s'') \<Rightarrow> (Inl e, s'') | (Inr rs, s'') \<Rightarrow> (Inr (r # rs), s'')))"

section \<open>Workflows\<close>

definition get_workflow_values :: "def_env \<Rightarrow> def_spec \<Rightarrow> string \<Rightarrow> string \<Rightarrow> string \<Rightarrow> bool \<Rightarrow> val dict" where
  "get_workflow_values c w definition_text scope namespace is_system =
     [(''name'', VStr (ds_name w)), (''tags'', ds_tags w), (''definition'', VStr definition_text),
      (''checksum'', VStr (de_checksum c definition_text)), (''spec'', VDict (ds_dict w)), (''scope'', VStr scope),
      (''namespace'', VStr namespace), (''is_system'', VBool is_system)]"

text \<open>The text of one workflow: the whole text if it has only this one.\<close>

definition text_of_workflow :: "def_env \<Rightarrow> string \<Rightarrow> nat \<Rightarrow> def_spec \<Rightarrow> string res" where
  "text_of_workflow c txt n w = (if n \<noteq> 1 then de_cut c txt (ds_name w) else Inr txt)"

definition create_workflow_row :: "def_env \<Rightarrow> actor \<Rightarrow> string \<Rightarrow> string \<Rightarrow> string \<Rightarrow> bool \<Rightarrow> nat \<Rightarrow> nat \<Rightarrow> def_spec \<Rightarrow> resource_db \<Rightarrow> db_object res \<times> resource_db" where
  "create_workflow_row c a txt scope namespace is_system len n w s =
     (case text_of_workflow c txt len w of
        Inl e \<Rightarrow> (Inl e, s)
      | Inr t \<Rightarrow> create_workflow_definition a (de_id c n) (get_workflow_values c w t scope namespace is_system) s)"

definition append_all_workflows :: "def_env \<Rightarrow> actor \<Rightarrow> string \<Rightarrow> bool \<Rightarrow> string \<Rightarrow> string \<Rightarrow> def_spec list \<Rightarrow> resource_db \<Rightarrow> db_object list res \<times> resource_db" where
  "append_all_workflows c a txt is_system scope namespace wfs s =
     store_each (create_workflow_row c a txt scope namespace is_system (length wfs)) 0 wfs s"

definition create_workflows :: "def_env \<Rightarrow> actor \<Rightarrow> string \<Rightarrow> string \<Rightarrow> bool \<Rightarrow> bool \<Rightarrow> string \<Rightarrow> bool \<Rightarrow> resource_db \<Rightarrow> db_object list res \<times> resource_db" where
  "create_workflows c a txt scope is_system run_in_tx namespace validate s =
     (case de_workflows c (is_validation_enabled c validate) txt of
        Inl e \<Rightarrow> (Inl e, s)
      | Inr wfs \<Rightarrow>
          if run_in_tx then in_transaction (append_all_workflows c a txt is_system scope namespace wfs) s
          else append_all_workflows c a txt is_system scope namespace wfs s)"

definition update_workflow_row :: "def_env \<Rightarrow> actor \<Rightarrow> string \<Rightarrow> string \<Rightarrow> string \<Rightarrow> string \<Rightarrow> nat \<Rightarrow> nat \<Rightarrow> def_spec \<Rightarrow> resource_db \<Rightarrow> db_object res \<times> resource_db" where
  "update_workflow_row c a txt scope identifier namespace len n w s =
     (case text_of_workflow c txt len w of
        Inl e \<Rightarrow> (Inl e, s)
      | Inr t \<Rightarrow> update_workflow_definition a (if identifier \<noteq> [] then identifier else ds_name w)
          (get_workflow_values c w t scope namespace False) s)"

definition more_than_one :: "string \<Rightarrow> string \<Rightarrow> exn" where
  "more_than_one what identifier =
     InputException (''More than one '' @ what @ '' are not supported for update with identifier. [identifier: '' @ identifier @ '']'')"

definition update_workflows :: "def_env \<Rightarrow> actor \<Rightarrow> string \<Rightarrow> string \<Rightarrow> string \<Rightarrow> string \<Rightarrow> bool \<Rightarrow> resource_db \<Rightarrow> db_object list res \<times> resource_db" where
  "update_workflows c a txt scope identifier namespace validate s =
     (case de_workflows c (is_validation_enabled c validate) txt of
        Inl e \<Rightarrow> (Inl e, s)
      | Inr wfs \<Rightarrow>
          if identifier \<noteq> [] \<and> 1 < length wfs then (Inl (more_than_one ''workflows'' identifier), s)
          else in_transaction (store_each (update_workflow_row c a txt scope identifier namespace (length wfs)) 0 wfs) s)"

text \<open>The system workflows are replaced; \<open>paths\<close> are the texts of the installed files, each with its own supply of identifiers.\<close>

definition clear_system_workflow_db :: "actor \<Rightarrow> resource_db \<Rightarrow> resource_db" where
  "clear_system_workflow_db a s = remove_objects WorkflowDefinition (\<lambda>x. ob_is_system x \<and> may_see a WorkflowDefinition s x) s"

primrec register_all :: "actor \<Rightarrow> (def_env \<times> string) list \<Rightarrow> resource_db \<Rightarrow> unit res \<times> resource_db" where
  "register_all a [] s = (Inr (), s)"
| "register_all a (p # ps) s =
     (case create_workflows (fst p) a (snd p) ''public'' True False [] True s of
        (Inl e, s') \<Rightarrow> (Inl e, s') | (Inr _, s') \<Rightarrow> register_all a ps s')"

definition sync_db :: "actor \<Rightarrow> (def_env \<times> string) list \<Rightarrow> resource_db \<Rightarrow> unit res \<times> resource_db" where
  "sync_db a paths = in_transaction (\<lambda>s. register_all a paths (clear_system_workflow_db a s))"

section \<open>Ad-hoc actions\<close>

definition input_entry :: "def_env \<Rightarrow> val \<Rightarrow> val list" where
  "input_entry c p = (case p of VDict d \<Rightarrow> map (\<lambda>(k, v). VStr (k @ ''='' @ de_json c v)) d | _ \<Rightarrow> [p])"

definition get_input_list :: "def_env \<Rightarrow> val list \<Rightarrow> val list" where
  "get_input_list c ps = concat (map (input_entry c) ps)"

text \<open>\<^verbatim>\<open>', '.join(input_list) if input_list else None\<close>; an entry that is no text is a \<^verbatim>\<open>TypeError\<close>.\<close>

definition join_texts :: "val list \<Rightarrow> val res" where
  "join_texts xs =
     (if xs = [] then Inr VNone
      else if list_all (\<lambda>x. case x of VStr _ \<Rightarrow> True | _ \<Rightarrow> False) xs
      then Inr (VStr (tl (tl (concat (map (\<lambda>x. '', '' @ text_of x) xs))))) else Inl TypeError)"

definition action_input :: "def_env \<Rightarrow> def_spec \<Rightarrow> val res" where
  "action_input c d =
     (case dget_default (ds_dict d) ''input'' (VList []) of VList ps \<Rightarrow> join_texts (get_input_list c ps) | _ \<Rightarrow> Inl TypeError)"

definition get_action_values :: "def_env \<Rightarrow> def_spec \<Rightarrow> string \<Rightarrow> string \<Rightarrow> string \<Rightarrow> val dict res" where
  "get_action_values c d txt scope namespace =
     bind_res (action_input c d) (\<lambda>input. Inr
       [(''name'', VStr (ds_name d)), (''description'', ds_description d), (''tags'', ds_tags d), (''definition'', VStr txt),
        (''spec'', VDict (ds_dict d)), (''is_system'', VBool False), (''input'', input), (''scope'', VStr scope), (''namespace'', VStr namespace)])"

text \<open>\<^verbatim>\<open>load_action_definition(name)\<close>, in the default namespace.\<close>

definition check_not_system :: "actor \<Rightarrow> string \<Rightarrow> resource_db \<Rightarrow> unit res" where
  "check_not_system a name s =
     (case load_action_definition a name [] s of
        Some x \<Rightarrow> if ob_is_system x then Inl (InvalidActionException (''Attempt to modify a system action: '' @ ob_name x)) else Inr ()
      | None \<Rightarrow> Inr ())"

text \<open>An operation that needs a value that may be an exception.\<close>

definition with_res :: "'v res \<Rightarrow> ('v \<Rightarrow> resource_db \<Rightarrow> 'a res \<times> resource_db) \<Rightarrow> resource_db \<Rightarrow> 'a res \<times> resource_db" where
  "with_res r f s = (case r of Inl e \<Rightarrow> (Inl e, s) | Inr v \<Rightarrow> f v s)"

definition create_action :: "def_env \<Rightarrow> actor \<Rightarrow> string \<Rightarrow> string \<Rightarrow> string \<Rightarrow> nat \<Rightarrow> def_spec \<Rightarrow> resource_db \<Rightarrow> db_object res \<times> resource_db" where
  "create_action c a txt scope namespace n d =
     with_res (get_action_values c d txt scope namespace) (create_action_definition a (de_id c n))"

definition update_adhoc_action :: "def_env \<Rightarrow> actor \<Rightarrow> string \<Rightarrow> string \<Rightarrow> string \<Rightarrow> string \<Rightarrow> nat \<Rightarrow> def_spec \<Rightarrow> resource_db \<Rightarrow> db_object res \<times> resource_db" where
  "update_adhoc_action c a txt scope identifier namespace n d s =
     with_res (check_not_system a (ds_name d) s) (\<lambda>_.
     with_res (get_action_values c d txt scope namespace) (\<lambda>vals.
       update_action_definition a (if identifier \<noteq> [] then identifier else ds_name d) vals)) s"

definition create_or_update_action :: "def_env \<Rightarrow> actor \<Rightarrow> string \<Rightarrow> string \<Rightarrow> string \<Rightarrow> nat \<Rightarrow> def_spec \<Rightarrow> resource_db \<Rightarrow> db_object res \<times> resource_db" where
  "create_or_update_action c a txt scope namespace n d s =
     with_res (check_not_system a (ds_name d) s) (\<lambda>_.
     with_res (get_action_values c d txt scope namespace) (create_or_update_action_definition a (de_id c n) (ds_name d))) s"

definition create_actions :: "def_env \<Rightarrow> actor \<Rightarrow> string \<Rightarrow> string \<Rightarrow> string \<Rightarrow> resource_db \<Rightarrow> db_object list res \<times> resource_db" where
  "create_actions c a txt scope namespace = with_res (de_actions c txt) (store_each (create_action c a txt scope namespace) 0)"

definition update_actions :: "def_env \<Rightarrow> actor \<Rightarrow> string \<Rightarrow> string \<Rightarrow> string \<Rightarrow> string \<Rightarrow> resource_db \<Rightarrow> db_object list res \<times> resource_db" where
  "update_actions c a txt scope identifier namespace = with_res (de_actions c txt) (\<lambda>ds s.
     if identifier \<noteq> [] \<and> 1 < length ds then (Inl (more_than_one ''actions'' identifier), s)
     else store_each (update_adhoc_action c a txt scope identifier namespace) 0 ds s)"

definition create_or_update_actions :: "def_env \<Rightarrow> actor \<Rightarrow> string \<Rightarrow> string \<Rightarrow> string \<Rightarrow> resource_db \<Rightarrow> db_object list res \<times> resource_db" where
  "create_or_update_actions c a txt scope namespace = with_res (de_actions c txt) (store_each (create_or_update_action c a txt scope namespace) 0)"

section \<open>Workbooks\<close>

definition get_workbook_values :: "workbook_def \<Rightarrow> string \<Rightarrow> string \<Rightarrow> string \<Rightarrow> val dict" where
  "get_workbook_values wb txt scope namespace =
     [(''name'', VStr (ds_name (wb_spec wb))), (''tags'', ds_tags (wb_spec wb)), (''definition'', VStr txt),
      (''spec'', VDict (ds_dict (wb_spec wb))), (''scope'', VStr scope), (''namespace'', VStr namespace), (''is_system'', VBool False)]"

definition definition_of :: "db_object \<Rightarrow> string" where
  "definition_of x = text_of (dget_default (ob_values x) ''definition'' VNone)"

definition workbook_action_values :: "def_env \<Rightarrow> db_object \<Rightarrow> string \<Rightarrow> def_spec \<Rightarrow> val dict res" where
  "workbook_action_values c row namespace d =
     bind_res (action_input c d) (\<lambda>input. bind_res (action_text (definition_of row) (ds_name d)) (\<lambda>txt. Inr
       [(''name'', VStr (ob_name row @ ''.'' @ ds_name d)), (''workbook_name'', VStr (ob_name row)), (''spec'', VDict (ds_dict d)),
        (''tags'', ds_tags d), (''definition'', VStr txt), (''description'', ds_description d), (''is_system'', VBool False),
        (''input'', input), (''scope'', VStr (ob_scope row)), (''project_id'', VStr (ob_project row)), (''namespace'', VStr namespace)]))"

definition workbook_workflow_values :: "db_object \<Rightarrow> string \<Rightarrow> def_spec \<Rightarrow> val dict res" where
  "workbook_workflow_values row namespace d =
     bind_res (workflow_text (definition_of row) (ds_name d)) (\<lambda>txt. Inr
       [(''name'', VStr (ob_name row @ ''.'' @ ds_name d)), (''workbook_name'', VStr (ob_name row)), (''definition'', VStr txt),
        (''spec'', VDict (ds_dict d)), (''scope'', VStr (ob_scope row)), (''project_id'', VStr (ob_project row)),
        (''namespace'', VStr namespace), (''tags'', ds_tags d), (''is_system'', VBool False)])"

text \<open>Actions first, then workflows; the numbers of the workflows follow those of the actions.\<close>

definition on_workbook_update :: "def_env \<Rightarrow> actor \<Rightarrow> workbook_def \<Rightarrow> string \<Rightarrow> db_object \<Rightarrow> resource_db \<Rightarrow> db_object res \<times> resource_db" where
  "on_workbook_update c a wb namespace row s =
     (case store_each (\<lambda>n d. with_res (workbook_action_values c row namespace d)
              (create_or_update_action_definition a (de_id c n) (ob_name row @ ''.'' @ ds_name d))) 1 (wb_actions wb) s of
        (Inl e, s1) \<Rightarrow> (Inl e, s1)
      | (Inr _, s1) \<Rightarrow>
          (case store_each (\<lambda>n d. with_res (workbook_workflow_values row namespace d)
                  (create_or_update_workflow_definition a (de_id c n) (ob_name row @ ''.'' @ ds_name d)))
                (1 + length (wb_actions wb)) (wb_workflows wb) s1 of
             (Inl e, s2) \<Rightarrow> (Inl e, s2) | (Inr _, s2) \<Rightarrow> (Inr row, s2)))"

definition create_workbook_v2 :: "def_env \<Rightarrow> actor \<Rightarrow> string \<Rightarrow> string \<Rightarrow> string \<Rightarrow> bool \<Rightarrow> resource_db \<Rightarrow> db_object res \<times> resource_db" where
  "create_workbook_v2 c a txt namespace scope validate =
     with_res (de_workbook c (is_validation_enabled c validate) txt) (\<lambda>wb. in_transaction (\<lambda>s.
       case create_workbook a (de_id c 0) (get_workbook_values wb txt scope namespace) s of
         (Inl e, s1) \<Rightarrow> (Inl e, s1) | (Inr row, s1) \<Rightarrow> on_workbook_update c a wb namespace row s1))"

definition update_workbook_v2 :: "def_env \<Rightarrow> actor \<Rightarrow> string \<Rightarrow> string \<Rightarrow> string \<Rightarrow> bool \<Rightarrow> resource_db \<Rightarrow> db_object res \<times> resource_db" where
  "update_workbook_v2 c a txt namespace scope validate =
     with_res (de_workbook c (is_validation_enabled c validate) txt) (\<lambda>wb. in_transaction (\<lambda>s.
       case update_workbook a (ds_name (wb_spec wb)) (get_workbook_values wb txt scope namespace) s of
         (Inl e, s1) \<Rightarrow> (Inl e, s1) | (Inr row, s1) \<Rightarrow> on_workbook_update c a wb namespace row s1))"

section \<open>Requests\<close>

definition validate_scope :: "string \<Rightarrow> unit res" where
  "validate_scope scope =
     guard_res (scope \<in> {''private'', ''public''}) (InvalidModelException (''Scope must be one of the following: actual: '' @ scope))"

definition may_publicize :: "(string \<Rightarrow> bool) \<Rightarrow> string \<Rightarrow> string \<Rightarrow> unit res" where
  "may_publicize allowed rule scope = (if scope = ''public'' then enforce_rule allowed rule else Inr ())"

text \<open>The guards of the requests; the one of workbooks asks the policy before it looks at the scope.\<close>

definition definition_guard :: "(string \<Rightarrow> bool) \<Rightarrow> string \<Rightarrow> string \<Rightarrow> string \<Rightarrow> unit res" where
  "definition_guard allowed rule publicize scope =
     bind_res (enforce_rule allowed rule) (\<lambda>_. bind_res (validate_scope scope) (\<lambda>_. may_publicize allowed publicize scope))"

definition workbook_guard :: "(string \<Rightarrow> bool) \<Rightarrow> string \<Rightarrow> string \<Rightarrow> unit res" where
  "workbook_guard allowed rule scope =
     bind_res (enforce_rule allowed rule) (\<lambda>_. bind_res (may_publicize allowed ''workbooks:publicize'' scope) (\<lambda>_. validate_scope scope))"

definition post_workflows :: "def_env \<Rightarrow> actor \<Rightarrow> (string \<Rightarrow> bool) \<Rightarrow> string \<Rightarrow> string \<Rightarrow> string \<Rightarrow> bool \<Rightarrow> resource_db \<Rightarrow> db_object list res \<times> resource_db" where
  "post_workflows c a allowed txt scope namespace skip_validation =
     with_res (definition_guard allowed ''workflows:create'' ''workflows:publicize'' scope) (\<lambda>_.
       create_workflows c a txt scope False True namespace (\<not> skip_validation))"

text \<open>With an identifier the answer is the first workflow, and there has to be one.\<close>

definition put_workflows :: "def_env \<Rightarrow> actor \<Rightarrow> (string \<Rightarrow> bool) \<Rightarrow> string \<Rightarrow> string \<Rightarrow> string \<Rightarrow> string \<Rightarrow> bool \<Rightarrow> resource_db \<Rightarrow> db_object list res \<times> resource_db" where
  "put_workflows c a allowed txt scope identifier namespace skip_validation =
     with_res (definition_guard allowed ''workflows:update'' ''workflows:publicize'' scope) (\<lambda>_ s.
       case update_workflows c a txt scope identifier namespace (\<not> skip_validation) s of
         (Inr rows, s') \<Rightarrow> (if identifier = [] then Inr rows else if rows = [] then Inl IndexError else Inr [hd rows], s')
       | r \<Rightarrow> r)"

definition post_actions :: "def_env \<Rightarrow> actor \<Rightarrow> (string \<Rightarrow> bool) \<Rightarrow> string \<Rightarrow> string \<Rightarrow> string \<Rightarrow> resource_db \<Rightarrow> db_object list res \<times> resource_db" where
  "post_actions c a allowed txt scope namespace =
     with_res (definition_guard allowed ''actions:create'' ''actions:publicize'' scope) (\<lambda>_. in_transaction (create_actions c a txt scope namespace))"

definition put_actions :: "def_env \<Rightarrow> actor \<Rightarrow> (string \<Rightarrow> bool) \<Rightarrow> string \<Rightarrow> string \<Rightarrow> string \<Rightarrow> string \<Rightarrow> resource_db \<Rightarrow> db_object list res \<times> resource_db" where
  "put_actions c a allowed txt scope identifier namespace =
     with_res (definition_guard allowed ''actions:update'' ''actions:publicize'' scope) (\<lambda>_.
       in_transaction (update_actions c a txt scope identifier namespace))"

definition delete_action_request :: "actor \<Rightarrow> (string \<Rightarrow> bool) \<Rightarrow> string \<Rightarrow> string \<Rightarrow> resource_db \<Rightarrow> unit res \<times> resource_db" where
  "delete_action_request a allowed identifier namespace =
     with_res (enforce_rule allowed ''actions:delete'') (\<lambda>_. in_transaction (\<lambda>s.
       with_res (get_action_definition a identifier namespace s) (\<lambda>x s.
         if ob_is_system x then (Inl (OtherException (''DataAccessException: Attempt to delete a system action: '' @ identifier)), s)
         else delete_action_definition a identifier namespace s) s))"

definition post_workbook :: "def_env \<Rightarrow> actor \<Rightarrow> (string \<Rightarrow> bool) \<Rightarrow> string \<Rightarrow> string \<Rightarrow> string \<Rightarrow> bool \<Rightarrow> resource_db \<Rightarrow> db_object res \<times> resource_db" where
  "post_workbook c a allowed txt scope namespace skip_validation =
     with_res (workbook_guard allowed ''workbooks:create'' scope) (\<lambda>_. create_workbook_v2 c a txt namespace scope (\<not> skip_validation))"

definition put_workbook :: "def_env \<Rightarrow> actor \<Rightarrow> (string \<Rightarrow> bool) \<Rightarrow> string \<Rightarrow> string \<Rightarrow> string \<Rightarrow> bool \<Rightarrow> resource_db \<Rightarrow> db_object res \<times> resource_db" where
  "put_workbook c a allowed txt scope namespace skip_validation =
     with_res (workbook_guard allowed ''workbooks:update'' scope) (\<lambda>_. update_workbook_v2 c a txt namespace scope (\<not> skip_validation))"

section \<open>All or nothing\<close>

lemma in_transaction_Inl: "in_transaction m s = (Inl e, s') \<Longrightarrow> s' = s"
  by (auto simp: in_transaction_def split: prod.splits sum.splits)

lemma create_object_stored:
  assumes "create_object a m i vals s = (Inr x, s')"
  shows "update_object a m vals (empty_object a i) = Inr x"
    and "s' = s\<lparr>rd_objects := (rd_objects s)(m := rd_objects s m @ [x])\<rparr>"
    and "unique_columns m x \<notin> set (map (unique_columns m) (rd_objects s m))"
  using assms by (auto simp: create_object_def split: sum.splits if_splits)

text \<open>What a new workflow definition has from the request.\<close>

definition created_workflow :: "def_env \<Rightarrow> actor \<Rightarrow> string \<Rightarrow> string \<Rightarrow> bool \<Rightarrow> def_spec \<Rightarrow> db_object \<Rightarrow> bool" where
  "created_workflow c a scope namespace is_system w x \<longleftrightarrow>
     ob_name x = ds_name w \<and> ob_namespace x = namespace \<and> ob_scope x = scope \<and> ob_project x = get_project_id a \<and>
     ob_is_system x = is_system \<and> dget (ob_values x) ''spec'' = Some (VDict (ds_dict w)) \<and>
     dget (ob_values x) ''checksum'' = Some (VStr (de_checksum c (definition_of x))) \<and> CHR '' '' \<notin> set (ds_name w)"

lemma new_workflow:
  assumes "update_object a WorkflowDefinition (get_workflow_values c w t scope namespace is_system) (empty_object a i) = Inr x"
  shows "created_workflow c a scope namespace is_system w x"
  using assms by (auto simp: update_object_def get_workflow_values_def created_workflow_def empty_object_def definition_of_def text_of_def
      dget_default_def split: if_splits)

lemma append_workflows_stored:
  assumes "store_each (create_workflow_row c a txt scope namespace is_system len) n wfs s = (Inr rows, s')"
  shows "rd_objects s' = (rd_objects s)(WorkflowDefinition := rd_objects s WorkflowDefinition @ rows) \<and> rd_members s' = rd_members s \<and>
    list_all2 (created_workflow c a scope namespace is_system) wfs rows"
  using assms
proof (induction wfs arbitrary: n s rows)
  case (Cons w wfs)
  obtain x s1 xs where x: "create_workflow_row c a txt scope namespace is_system len n w s = (Inr x, s1)"
    and xs: "store_each (create_workflow_row c a txt scope namespace is_system len) (Suc n) wfs s1 = (Inr xs, s')" and rows: "rows = x # xs"
    using Cons.prems by (auto split: prod.splits sum.splits)
  obtain t where "create_object a WorkflowDefinition (de_id c n) (get_workflow_values c w t scope namespace is_system) s = (Inr x, s1)"
    using x by (auto simp: create_workflow_row_def create_workflow_definition_def split: sum.splits)
  then have "created_workflow c a scope namespace is_system w x"
    "s1 = s\<lparr>rd_objects := (rd_objects s)(WorkflowDefinition := rd_objects s WorkflowDefinition @ [x])\<rparr>"
    by (auto dest: create_object_stored new_workflow)
  then show ?case using Cons.IH[OF xs] rows by (auto simp: fun_eq_iff)
qed simp

text \<open>
  C18. Creating the workflows of a text stores all of them or nothing: when the request succeeds, the table has in the order of
  the text one new row for every workflow, which belongs to the project of the user, has the scope and the namespace that were
  asked for and the checksum of its own text, and every other row is as before; when it fails, nothing has changed.
\<close>

theorem post_stores_all_or_nothing:
  assumes "post_workflows c a allowed txt scope namespace skip_validation s = (r, s')"
  shows "case r of
      Inl e \<Rightarrow> s' = s
    | Inr rows \<Rightarrow> allowed ''workflows:create'' \<and> (if scope = ''public'' then allowed ''workflows:publicize'' else scope = ''private'') \<and>
        (\<exists>wfs. de_workflows c (is_validation_enabled c (\<not> skip_validation)) txt = Inr wfs \<and>
           list_all2 (created_workflow c a scope namespace False) wfs rows) \<and>
        rd_objects s' = (rd_objects s)(WorkflowDefinition := rd_objects s WorkflowDefinition @ rows) \<and> rd_members s' = rd_members s"
proof (cases r)
  case (Inl e)
  then show ?thesis using assms
    by (auto simp: post_workflows_def with_res_def create_workflows_def dest: in_transaction_Inl split: sum.splits)
next
  case (Inr rows)
  have "definition_guard allowed ''workflows:create'' ''workflows:publicize'' scope = Inr ()"
    using assms Inr by (auto simp: post_workflows_def with_res_def split: sum.splits)
  then have guard: "allowed ''workflows:create''" "if scope = ''public'' then allowed ''workflows:publicize'' else scope = ''private''"
    by (auto simp: definition_guard_def enforce_rule_def validate_scope_def may_publicize_def guard_res_def bind_res_def split: if_splits)
  obtain wfs where wfs: "de_workflows c (is_validation_enabled c (\<not> skip_validation)) txt = Inr wfs"
    and stored: "append_all_workflows c a txt False scope namespace wfs s = (Inr rows, s')"
    using assms Inr by (auto simp: post_workflows_def with_res_def create_workflows_def in_transaction_def split: sum.splits prod.splits)
  show ?thesis
    using guard wfs append_workflows_stored[OF stored[unfolded append_all_workflows_def]] Inr by auto
qed

section \<open>Public actions\<close>

lemma db_query_other:
  assumes "m \<noteq> m'"
  shows "db_query a i m (s\<lparr>rd_objects := (rd_objects s)(m' := xs)\<rparr>) = db_query a i m s"
proof -
  have "may_see a m (s\<lparr>rd_objects := (rd_objects s)(m' := xs)\<rparr>) = may_see a m s"
    by (simp add: fun_eq_iff may_see_def shared_ids_def get_accepted_resources_def)
  then show ?thesis using assms by (simp add: db_query_def secure_query_def)
qed

text \<open>
  C17. Anybody can take a public action of another project that belongs to a public workbook: a PUT of a
  workbook of that name, with scope private, needs no permission but to update workbooks, is applied to the row of the
  other project, and then replaces the definition of the action, makes it private and makes it an action of the user's
  project, so that its owner cannot find it any more. (The user must not have an action of that name, else the row would not be unique.)
\<close>

theorem public_action_taken:
  assumes "allowed ''workbooks:update''" "de_workbook c (is_validation_enabled c (\<not> skip_validation)) txt = Inr wb"
    and "wb_actions wb = [d]" "wb_workflows wb = []" "CHR '' '' \<notin> set (ds_name (wb_spec wb))" "CHR '' '' \<notin> set (ds_name d)"
    and "get_workbook a (ds_name (wb_spec wb)) (Some namespace) s = Inr row" "ob_scope row = ''public''"
    and "load_action_definition a (ds_name (wb_spec wb) @ ''.'' @ ds_name d) namespace s = Some x"
    and "get_action_definition a (ds_name (wb_spec wb) @ ''.'' @ ds_name d) namespace s = Inr x" "ob_scope x = ''public''"
    and "filter (\<lambda>z. ob_name z = ds_name (wb_spec wb) @ ''.'' @ ds_name d \<and> ob_namespace z = namespace) (rd_objects s ActionDefinition) = [x]"
    and "action_input c d = Inr input" "action_text txt (ds_name d) = Inr t"
  shows "\<exists>row' y s'. put_workbook c a allowed txt ''private'' namespace skip_validation s = (Inr row', s') \<and>
    ob_id row' = ob_id row \<and> ob_id y = ob_id x \<and> ob_project y = get_project_id a \<and> ob_scope y = ''private'' \<and> definition_of y = t \<and>
    rd_objects s' ActionDefinition = map (\<lambda>z. if ob_id z = ob_id x then y else z) (rd_objects s ActionDefinition)"
proof -
  let ?name = "ds_name (wb_spec wb)" and ?action = "ds_name (wb_spec wb) @ ''.'' @ ds_name d"
  obtain row' where row': "update_object a Workbook (get_workbook_values wb txt ''private'' namespace) row = Inr row'"
    and cols: "ob_id row' = ob_id row" "ob_name row' = ?name" "ob_scope row' = ''private''" "definition_of row' = txt"
    using assms(5) by (auto simp: update_object_def get_workbook_values_def definition_of_def dget_default_def text_of_def)
  define s1 where "s1 = replace_object Workbook (ob_id row) row' s"
  have s1: "update_workbook a ?name (get_workbook_values wb txt ''private'' namespace) s = (Inr row', s1)"
    using assms(7) row' by (simp add: update_workbook_def update_found_def s1_def namespace_of_def get_workbook_values_def)
  have same: "db_query a False ActionDefinition s1 = db_query a False ActionDefinition s"
    unfolding s1_def replace_object_def by (rule db_query_other) simp
  define vals where "vals = [(''name'', VStr ?action), (''workbook_name'', VStr ?name), (''spec'', VDict (ds_dict d)),
        (''tags'', ds_tags d), (''definition'', VStr t), (''description'', ds_description d), (''is_system'', VBool False),
        (''input'', input), (''scope'', VStr ''private''), (''project_id'', VStr (ob_project row')), (''namespace'', VStr namespace)]"
  have vals: "workbook_action_values c row' namespace d = Inr vals"
    using assms(13,14) cols by (simp add: workbook_action_values_def vals_def)
  obtain y where y: "update_object a ActionDefinition vals x = Inr y"
    and ycols: "ob_id y = ob_id x" "ob_project y = get_project_id a" "ob_scope y = ''private''" "definition_of y = t"
    using assms(5,6) by (auto simp: update_object_def vals_def definition_of_def dget_default_def text_of_def)
  have ns: "namespace_of vals = Some namespace" by (simp add: namespace_of_def vals_def)
  have lookups: "get_db_object_by_name_and_namespace a False ActionDefinition k n s1 = get_db_object_by_name_and_namespace a False ActionDefinition k n s"
    "get_db_object_by_name_and_namespace_or_id a False ActionDefinition k n s1 = get_db_object_by_name_and_namespace_or_id a False ActionDefinition k n s" for k n
    using same by (simp_all add: get_db_object_by_name_and_namespace_def get_db_object_by_name_and_namespace_or_id_def)
  have "load_action_definition a ?action namespace s1 = Some x" "get_action_definition a ?action namespace s1 = Inr x"
    using assms(9,10) unfolding load_action_definition_def get_action_definition_def lookups by this+
  then have "create_or_update_action_definition a i ?action vals s1 = (Inr y, replace_object ActionDefinition (ob_id x) y s1)" for i
    using y ns by (simp add: create_or_update_action_definition_def update_action_definition_def namespace_or_default_def
        load_action_definition_def update_found_def)
  then have "on_workbook_update c a wb namespace row' s1 = (Inr row', replace_object ActionDefinition (ob_id x) y s1)"
    using assms(3,4) vals cols(2) by (simp add: on_workbook_update_def with_res_def)
  then have "put_workbook c a allowed txt ''private'' namespace skip_validation s = (Inr row', replace_object ActionDefinition (ob_id x) y s1)"
    using assms(1,2) s1
    by (simp add: put_workbook_def workbook_guard_def enforce_rule_def may_publicize_def validate_scope_def guard_res_def with_res_def
        update_workbook_v2_def in_transaction_def)
  then show ?thesis using ycols cols(1) by (auto simp: replace_object_def s1_def)
qed

section \<open>Witnesses\<close>

definition plain_def :: "string \<Rightarrow> def_spec" where
  "plain_def n = \<lparr>ds_name = n, ds_description = VNone, ds_tags = VList [], ds_dict = [(''name'', VStr n)]\<rparr>"

text \<open>A parser of texts with two workflows and of workbooks with one action.\<close>

definition sample_defs :: def_env where
  "sample_defs = \<lparr>de_workflows = (\<lambda>_ t. if t = [] then Inl (OtherException ''DSLParsingException'') else Inr [plain_def ''a'', plain_def ''b'']),
     de_actions = (\<lambda>t. Inr []), de_workbook = (\<lambda>_ t. Inr \<lparr>wb_spec = plain_def ''wb'', wb_actions = [plain_def ''act''], wb_workflows = []\<rparr>),
     de_cut = (\<lambda>t n. Inr (n @ '':'')), de_json = (\<lambda>_. []), de_checksum = (\<lambda>t. t), de_id = (\<lambda>n. replicate n (CHR ''i'')), de_validation_mode = ''enabled''\<rparr>"

definition ordinary_user :: "string \<Rightarrow> actor" where
  "ordinary_user p = \<lparr>ac_auth_enable = True, ac_has_ctx = True, ac_project = p, ac_is_admin = False\<rparr>"

definition nothing_stored :: resource_db where
  "nothing_stored = \<lparr>rd_objects = (\<lambda>_. []), rd_members = []\<rparr>"

theorem post_stores_all_or_nothing_witness:
  "map ob_name (rd_objects (snd (post_workflows sample_defs (ordinary_user ''p'') (\<lambda>r. r = ''workflows:create'') ''a b'' ''private'' [] False nothing_stored))
     WorkflowDefinition) = [''a'', ''b''] \<and>
   rd_members (snd (post_workflows sample_defs (ordinary_user ''p'') (\<lambda>r. r = ''workflows:create'') ''a b'' ''private'' [] False nothing_stored)) = []"
proof -
  let ?r = "post_workflows sample_defs (ordinary_user ''p'') (\<lambda>r. r = ''workflows:create'') ''a b'' ''private'' [] False nothing_stored"
  have "map_sum (\<lambda>_. ()) (map ob_name) (fst ?r) = Inr [''a'', ''b'']" by code_simp
  then obtain rows where rows: "fst ?r = Inr rows" "map ob_name rows = [''a'', ''b'']" by (cases "fst ?r") auto
  then have "rd_objects (snd ?r) = (rd_objects nothing_stored)(WorkflowDefinition := rd_objects nothing_stored WorkflowDefinition @ rows) \<and>
      rd_members (snd ?r) = rd_members nothing_stored"
    using post_stores_all_or_nothing[OF prod.collapse[symmetric], of sample_defs "ordinary_user ''p''" "\<lambda>r. r = ''workflows:create''" "''a b''" "''private''" "[]" False nothing_stored]
    by simp
  then show ?thesis using rows(2) by (simp add: nothing_stored_def)
qed

text \<open>A public workbook of project p with a public action.\<close>

definition public_row :: "string \<Rightarrow> string \<Rightarrow> db_object" where
  "public_row i n = \<lparr>ob_id = i, ob_name = n, ob_namespace = [], ob_project = ''p'', ob_scope = ''public'', ob_is_system = False,
     ob_version = 1, ob_workflow_id = None, ob_values = []\<rparr>"

definition public_workbook :: resource_db where
  "public_workbook = \<lparr>rd_objects = (\<lambda>m. if m = Workbook then [public_row ''1'' ''wb''] else if m = ActionDefinition then [public_row ''2'' ''wb.act''] else []),
     rd_members = []\<rparr>"

definition evil_text :: string where
  "evil_text = text_lines [''actions:'', ''  act:'', ''    base: std.fail'']"

lemma taken_lookups:
  "get_workbook (ordinary_user ''q'') ''wb'' (Some []) public_workbook = Inr (public_row ''1'' ''wb'')"
  "load_action_definition (ordinary_user ''q'') ''wb.act'' [] public_workbook = Some (public_row ''2'' ''wb.act'')"
  "get_action_definition (ordinary_user ''q'') ''wb.act'' [] public_workbook = Inr (public_row ''2'' ''wb.act'')"
  by code_simp+

lemma taken_text: "action_text evil_text ''act'' = Inr (text_lines [''act:'', ''  base: std.fail''])"
  by code_simp

theorem public_action_taken_witness:
  "\<exists>row' y s'. put_workbook sample_defs (ordinary_user ''q'') (\<lambda>r. r = ''workbooks:update'') evil_text ''private'' [] False public_workbook = (Inr row', s') \<and>
    ob_id row' = ob_id (public_row ''1'' ''wb'') \<and> ob_id y = ob_id (public_row ''2'' ''wb.act'') \<and> ob_project y = get_project_id (ordinary_user ''q'') \<and>
    ob_scope y = ''private'' \<and> definition_of y = text_lines [''act:'', ''  base: std.fail''] \<and>
    rd_objects s' ActionDefinition = map (\<lambda>z. if ob_id z = ob_id (public_row ''2'' ''wb.act'') then y else z) (rd_objects public_workbook ActionDefinition)"
  by (rule public_action_taken[where wb = "\<lparr>wb_spec = plain_def ''wb'', wb_actions = [plain_def ''act''], wb_workflows = []\<rparr>" and d = "plain_def ''act''" and input = VNone])
    (simp_all add: sample_defs_def plain_def_def taken_lookups taken_text action_input_def get_input_list_def join_texts_def dget_default_def,
     simp_all add: public_row_def public_workbook_def)

end
