(* ===== verification/Scheduler.thy ===== *)
theory Scheduler
  imports Complex_Main "HOL-Library.Multiset" "HOL-Library.Product_Lexorder" Py_Values Claims
begin

text \<open>
  \<^verbatim>\<open>mistral/scheduler/default_scheduler.py\<close> with the operations of its job store
  (\<^verbatim>\<open>db/v2/sqlalchemy/api.py\<close>): persisting a job, the heap of the jobs in memory and its dispatcher,
  capturing a job with a compare-and-set on \<^verbatim>\<open>captured_at\<close>, running and deleting it, the poll of the
  store, and the search for jobs by key. Time is in seconds, as \<^verbatim>\<open>utc_now_sec\<close> and the options have it.
  A serializer and the function of a job are imported by their names: they are the parameters
  \<open>sc_serializer\<close> and \<open>sc_run\<close>, the latter what the call does to the store (its exceptions are
  caught). The authorization context, threads, sleeping and retries on database errors are not modelled.
\<close>

section \<open>Jobs and their store\<close>

type_synonym time = rat

record scheduler_job =
  sj_run_after :: time
  sj_target_factory :: "string option"
  sj_func_name :: string
  sj_func_args :: "val dict"
  sj_arg_serializers :: "string dict option"
  sj_key :: "string option"

text \<open>The model \<^verbatim>\<open>ScheduledJob\<close>.\<close>

record scheduled_job = scheduler_job +
  sd_id :: string
  sd_execute_at :: time
  sd_captured_at :: "time option"

record job_call =
  jc_target_factory :: "string option"
  jc_func_name :: string
  jc_args :: "val dict"

record job_store =
  js_jobs :: "scheduled_job dict"
  js_now :: time
  js_calls :: "job_call list"

text \<open>A serializer class with its two methods; the import of an unknown one fails.\<close>

record serializer =
  sr_serialize :: "val \<Rightarrow> val"
  sr_deserialize :: "val \<Rightarrow> val"

record sched_conf =
  sc_batch_size :: "nat option"
  sc_pickup_job_after :: time
  sc_captured_job_timeout :: time
  sc_serializer :: "string \<Rightarrow> serializer option"
  sc_run :: "job_call \<Rightarrow> job_store \<Rightarrow> job_store"

text \<open>The object \<^verbatim>\<open>DefaultScheduler\<close>: the heap of entries \<^verbatim>\<open>(execute_at, seq, job)\<close> and the jobs by their ids.\<close>

record scheduler =
  ss_heap :: "(time \<times> nat \<times> scheduled_job) list"
  ss_in_memory_jobs :: "scheduled_job dict"
  ss_seq :: nat
  ss_stopped :: bool

section \<open>Operations of the store\<close>

definition create_scheduled_job :: "scheduled_job \<Rightarrow> job_store \<Rightarrow> scheduled_job res \<times> job_store" where
  "create_scheduled_job j s =
     (if dhas (js_jobs s) (sd_id j) then (Inl (DBDuplicateEntryError (sd_id j)), s)
      else (Inr j, s\<lparr>js_jobs := dset (sd_id j) j (js_jobs s)\<rparr>))"

definition job_to_start :: "sched_conf \<Rightarrow> time \<Rightarrow> time \<Rightarrow> scheduled_job \<Rightarrow> bool" where
  "job_to_start c t now j \<longleftrightarrow>
     sd_execute_at j < t - sc_pickup_job_after c \<and>
     (case sd_captured_at j of None \<Rightarrow> True | Some u \<Rightarrow> u \<le> now - sc_captured_job_timeout c)"

definition limit :: "nat option \<Rightarrow> 'a list \<Rightarrow> 'a list" where
  "limit n xs = (case n of None \<Rightarrow> xs | Some k \<Rightarrow> take k xs)"

definition get_scheduled_jobs_to_start :: "sched_conf \<Rightarrow> time \<Rightarrow> nat option \<Rightarrow> job_store \<Rightarrow> scheduled_job list" where
  "get_scheduled_jobs_to_start c t batch_size s =
     limit batch_size (sort_key sd_execute_at (filter (job_to_start c t (js_now s)) (map snd (js_jobs s))))"

text \<open>
  \<^verbatim>\<open>update_scheduled_job\<close> with the filter \<^verbatim>\<open>captured_at\<close>: the row is changed if it still has the value the
  filter names; the answer is the number of rows that matched.
\<close>

definition update_scheduled_job :: "string \<Rightarrow> time \<Rightarrow> time option \<Rightarrow> job_store \<Rightarrow> nat \<times> job_store" where
  "update_scheduled_job i captured_at expected s = (case dget (js_jobs s) i of
      None \<Rightarrow> (0, s)
    | Some j \<Rightarrow>
        (if sd_captured_at j = expected then (1, s\<lparr>js_jobs := dset i (j\<lparr>sd_captured_at := Some captured_at\<rparr>) (js_jobs s)\<rparr>)
         else (0, s)))"

text \<open>Capturing a job is an exclusive claim: of the schedulers that found it uncaptured, or with the same expired capture, the first one wins.\<close>

definition claim_job :: "string \<Rightarrow> time option \<Rightarrow> time \<Rightarrow> job_store \<Rightarrow> bool \<times> job_store" where
  "claim_job i expected captured_at s = apfst (\<lambda>n. n = 1) (update_scheduled_job i captured_at expected s)"

interpretation job_claim: exclusive_claim claim_job "\<lambda>i s. map_option sd_captured_at (dget (js_jobs s) i)" Some
  by unfold_locales (auto simp: claim_job_def update_scheduled_job_def split: option.splits)

lemma one_scheduler_captures:
  assumes "expected \<notin> Some ` set (t # ts)"
  shows "attempts (claim_job i expected) (t # ts) s = (map_option sd_captured_at (dget (js_jobs s) i) = Some expected) # replicate (length ts) False"
  by (rule job_claim.first_wins) (use assms in simp)

definition delete_scheduled_job :: "string \<Rightarrow> job_store \<Rightarrow> unit res \<times> job_store" where
  "delete_scheduled_job i s =
     (if dhas (js_jobs s) i then (Inr (), s\<lparr>js_jobs := ddel i (js_jobs s)\<rparr>) else (Inl (DBEntityNotFoundError i), s))"

section \<open>Scheduling\<close>

fun serialize_args :: "sched_conf \<Rightarrow> string dict \<Rightarrow> val dict \<Rightarrow> val dict res" where
  "serialize_args c [] args = Inr args"
| "serialize_args c ((name, path) # r) args =
     (case dget args name of
        None \<Rightarrow> Inl (MistralException (''Serializable function argument '' @ name @ '' not found in func_args''))
      | Some v \<Rightarrow> (case sc_serializer c path of
          None \<Rightarrow> Inl (OtherException ''ImportError'')
        | Some z \<Rightarrow> serialize_args c r (dset name (sr_serialize z v) args)))"

text \<open>\<open>i\<close> is the identifier that the row gets.\<close>

definition persist_job :: "sched_conf \<Rightarrow> string \<Rightarrow> scheduler_job \<Rightarrow> job_store \<Rightarrow> scheduled_job res \<times> job_store" where
  "persist_job c i j s =
     (case serialize_args c (case sj_arg_serializers j of None \<Rightarrow> [] | Some d \<Rightarrow> d) (sj_func_args j) of
        Inl e \<Rightarrow> (Inl e, s)
      | Inr args \<Rightarrow> create_scheduled_job
          (scheduler_job.extend (j\<lparr>sj_func_args := args\<rparr>)
            \<lparr>sd_id = i, sd_execute_at = js_now s + sj_run_after j, sd_captured_at = None\<rparr>) s)"

definition schedule_in_memory :: "scheduled_job \<Rightarrow> scheduler \<Rightarrow> scheduler" where
  "schedule_in_memory j p =
     p\<lparr>ss_seq := ss_seq p + 1,
       ss_heap := (sd_execute_at j, ss_seq p + 1, j) # ss_heap p,
       ss_in_memory_jobs := dset (sd_id j) j (ss_in_memory_jobs p)\<rparr>"

definition schedule :: "sched_conf \<Rightarrow> string \<Rightarrow> scheduler_job \<Rightarrow> scheduler \<Rightarrow> job_store \<Rightarrow> unit res \<times> scheduler \<times> job_store" where
  "schedule c i j p s =
     (case persist_job c i j s of (Inl e, s') \<Rightarrow> (Inl e, p, s') | (Inr d, s') \<Rightarrow> (Inr (), schedule_in_memory d p, s'))"

definition stop_scheduler :: "scheduler \<Rightarrow> scheduler" where
  "stop_scheduler p = p\<lparr>ss_stopped := True, ss_heap := [], ss_in_memory_jobs := []\<rparr>"

text \<open>\<^verbatim>\<open>heapq.heappop\<close>: the least entry and the others; the sequence numbers are distinct.\<close>

definition entry_key :: "time \<times> nat \<times> scheduled_job \<Rightarrow> time \<times> nat" where
  "entry_key e = (fst e, fst (snd e))"

definition earlier :: "time \<times> nat \<times> scheduled_job \<Rightarrow> time \<times> nat \<times> scheduled_job \<Rightarrow> bool" where
  "earlier e f \<longleftrightarrow> fst e < fst f \<or> (fst e = fst f \<and> fst (snd e) < fst (snd f))"

fun heap_min :: "time \<times> nat \<times> scheduled_job \<Rightarrow> (time \<times> nat \<times> scheduled_job) list \<Rightarrow> time \<times> nat \<times> scheduled_job" where
  "heap_min e [] = e"
| "heap_min e (f # r) = heap_min (if earlier f e then f else e) r"

text \<open>One round of \<^verbatim>\<open>_dispatcher\<close>: the job that is submitted, if one is due.\<close>

definition dispatch_one :: "time \<Rightarrow> scheduler \<Rightarrow> scheduled_job option \<times> scheduler" where
  "dispatch_one now p =
     (if ss_stopped p then (None, p)
      else (case ss_heap p of
          [] \<Rightarrow> (None, p)
        | e # r \<Rightarrow>
            (let m = heap_min e r
             in if fst m - now > 0 then (None, p) else (Some (snd (snd m)), p\<lparr>ss_heap := remove1 m (ss_heap p)\<rparr>))))"

section \<open>Running jobs\<close>

definition capture_scheduled_job :: "scheduled_job \<Rightarrow> job_store \<Rightarrow> (bool \<times> scheduled_job) \<times> job_store" where
  "capture_scheduled_job j s =
     (case update_scheduled_job (sd_id j) (js_now s) (sd_captured_at j) s of
        (n, s') \<Rightarrow> ((n = 1, if n = 1 then j\<lparr>sd_captured_at := Some (js_now s)\<rparr> else j), s'))"

fun deserialize_args :: "sched_conf \<Rightarrow> string dict \<Rightarrow> val dict \<Rightarrow> val dict res" where
  "deserialize_args c [] args = Inr args"
| "deserialize_args c ((name, path) # r) args =
     (case sc_serializer c path of
        None \<Rightarrow> Inl (OtherException ''ImportError'')
      | Some z \<Rightarrow> (case dget args name of
          None \<Rightarrow> Inl (KeyError name)
        | Some v \<Rightarrow> deserialize_args c r (dset name (sr_deserialize z v) args)))"

definition prepare_job :: "sched_conf \<Rightarrow> scheduled_job \<Rightarrow> job_call res" where
  "prepare_job c j =
     (case deserialize_args c (case sj_arg_serializers j of None \<Rightarrow> [] | Some d \<Rightarrow> d) (sj_func_args j) of
        Inl e \<Rightarrow> Inl e
      | Inr args \<Rightarrow> Inr \<lparr>jc_target_factory = sj_target_factory j, jc_func_name = sj_func_name j, jc_args = args\<rparr>)"

definition invoke_job :: "sched_conf \<Rightarrow> job_call \<Rightarrow> job_store \<Rightarrow> job_store" where
  "invoke_job c f s = sc_run c f (s\<lparr>js_calls := js_calls s @ [f]\<rparr>)"

text \<open>\<^verbatim>\<open>_prepare_job\<close>, \<^verbatim>\<open>_invoke_job\<close>, \<^verbatim>\<open>_delete_scheduled_job\<close>.\<close>

definition run_job :: "sched_conf \<Rightarrow> scheduled_job \<Rightarrow> job_store \<Rightarrow> unit res \<times> job_store" where
  "run_job c j s =
     (case prepare_job c j of Inl e \<Rightarrow> (Inl e, s) | Inr f \<Rightarrow> delete_scheduled_job (sd_id j) (invoke_job c f s))"

definition process_memory_job :: "sched_conf \<Rightarrow> scheduled_job \<Rightarrow> scheduler \<Rightarrow> job_store \<Rightarrow> unit res \<times> scheduler \<times> job_store" where
  "process_memory_job c j p s =
     (let forget = p\<lparr>ss_in_memory_jobs := ddel (sd_id j) (ss_in_memory_jobs p)\<rparr>
      in case capture_scheduled_job j s of
           ((False, _), s1) \<Rightarrow> (Inr (), forget, s1)
         | ((True, j1), s1) \<Rightarrow> (case run_job c j1 s1 of (r, s2) \<Rightarrow> (r, forget, s2)))"

fun capture_jobs :: "scheduled_job list \<Rightarrow> job_store \<Rightarrow> scheduled_job list \<times> job_store" where
  "capture_jobs [] s = ([], s)"
| "capture_jobs (j # js) s =
     (case capture_scheduled_job j s of ((ok, j1), s1) \<Rightarrow>
        (case capture_jobs js s1 of (cs, s2) \<Rightarrow> (if ok then j1 # cs else cs, s2)))"

fun run_jobs :: "sched_conf \<Rightarrow> scheduled_job list \<Rightarrow> job_store \<Rightarrow> unit res \<times> job_store" where
  "run_jobs c [] s = (Inr (), s)"
| "run_jobs c (j # js) s = (case run_job c j s of (Inl e, s1) \<Rightarrow> (Inl e, s1) | (Inr _, s1) \<Rightarrow> run_jobs c js s1)"

definition process_store_jobs :: "sched_conf \<Rightarrow> job_store \<Rightarrow> unit res \<times> job_store" where
  "process_store_jobs c s =
     (case capture_jobs (get_scheduled_jobs_to_start c (js_now s) (sc_batch_size c) s) s of (js, s1) \<Rightarrow> run_jobs c js s1)"

section \<open>Searching\<close>

text \<open>The filters \<^verbatim>\<open>key\<close> and \<^verbatim>\<open>processing\<close>, where given.\<close>

definition memory_job_matches :: "string option option \<Rightarrow> bool option \<Rightarrow> scheduled_job \<Rightarrow> bool" where
  "memory_job_matches key processing j \<longleftrightarrow>
     (case key of None \<Rightarrow> True | Some k \<Rightarrow> k = sj_key j) \<and>
     (case processing of None \<Rightarrow> True | Some b \<Rightarrow> b \<noteq> (sd_captured_at j = None))"

definition has_jobs :: "string option option \<Rightarrow> bool option \<Rightarrow> scheduler \<Rightarrow> job_store \<Rightarrow> bool" where
  "has_jobs key processing p s \<longleftrightarrow>
     list_ex (memory_job_matches key processing) (map snd (ss_in_memory_jobs p)) \<or>
     length (filter (memory_job_matches key processing) (map snd (js_jobs s))) > 0"

section \<open>Several schedulers on one store\<close>

text \<open>
  The store, the job objects that the schedulers hold, each as it was when it was read, and, not in the
  code, the captures that succeeded. Selecting, capturing and deleting interleave in every way, across
  any number of schedulers and for jobs in memory and from the store; the identifier of a new row is new.
\<close>

record sched_world =
  sw_store :: job_store
  sw_held :: "scheduled_job list"
  sw_log :: "(string \<times> time) list"

inductive sched_step :: "sched_conf \<Rightarrow> sched_world \<Rightarrow> sched_world \<Rightarrow> bool" for c where
  sched_persist: "persist_job c i j (sw_store w) = (Inr d, s') \<Longrightarrow> i \<notin> fst ` set (sw_log w) \<Longrightarrow>
    sched_step c w (w\<lparr>sw_store := s', sw_held := d # sw_held w\<rparr>)"
| sched_poll: "sched_step c w (w\<lparr>sw_held :=
    get_scheduled_jobs_to_start c (js_now (sw_store w)) (sc_batch_size c) (sw_store w) @ sw_held w\<rparr>)"
| sched_capture: "j \<in> set (sw_held w) \<Longrightarrow> capture_scheduled_job j (sw_store w) = ((ok, j1), s') \<Longrightarrow>
    sched_step c w (w\<lparr>sw_store := s', sw_held := remove1 j (sw_held w),
      sw_log := sw_log w @ (if ok then [(sd_id j, js_now (sw_store w))] else [])\<rparr>)"
| sched_delete: "i \<in> fst ` set (sw_log w) \<Longrightarrow> delete_scheduled_job i (sw_store w) = (Inr (), s') \<Longrightarrow>
    sched_step c w (w\<lparr>sw_store := s'\<rparr>)"
| sched_clock: "js_now (sw_store w) \<le> t \<Longrightarrow> sched_step c w (w\<lparr>sw_store := (sw_store w)\<lparr>js_now := t\<rparr>\<rparr>)"

inductive sched_runs :: "sched_conf \<Rightarrow> sched_world \<Rightarrow> bool" for c where
  sched_start: "sched_runs c \<lparr>sw_store = \<lparr>js_jobs = [], js_now = t, js_calls = []\<rparr>, sw_held = [], sw_log = []\<rparr>"
| sched_next: "sched_runs c w \<Longrightarrow> sched_step c w w' \<Longrightarrow> sched_runs c w'"

text \<open>The captures of each job are at least \<open>d\<close> apart.\<close>

definition apart :: "time \<Rightarrow> (string \<times> time) list \<Rightarrow> bool" where
  "apart d l \<longleftrightarrow> sorted_wrt (\<lambda>p q. fst p \<noteq> fst q \<or> snd p + d \<le> snd q) l"

definition last_capture :: "string \<Rightarrow> (string \<times> time) list \<Rightarrow> time option" where
  "last_capture i l = map_of (rev l) i"

definition sched_ok :: "sched_conf \<Rightarrow> sched_world \<Rightarrow> bool" where
  "sched_ok c w \<longleftrightarrow>
     (\<forall>i r. dget (js_jobs (sw_store w)) i = Some r \<longrightarrow> sd_id r = i \<and> sd_captured_at r = last_capture i (sw_log w)) \<and>
     (\<forall>j \<in> set (sw_held w). \<forall>u. sd_captured_at j = Some u \<longrightarrow> u + sc_captured_job_timeout c \<le> js_now (sw_store w)) \<and>
     apart (sc_captured_job_timeout c) (sw_log w)"

lemma last_capture_snoc: "last_capture i (l @ [(k, t)]) = (if i = k then Some t else last_capture i l)"
  by (simp add: last_capture_def)

lemma last_capture_None: "last_capture i l = None \<longleftrightarrow> i \<notin> fst ` set l"
  by (simp add: last_capture_def map_of_eq_None_iff)

lemma apart_last:
  assumes "apart d l" and "0 \<le> d" and "last_capture i l = Some u" and "(i, t) \<in> set l"
  shows "t \<le> u"
  using assms
proof (induction l rule: rev_induct)
  case (snoc p l)
  then show ?case
    by (cases p) (fastforce simp: apart_def sorted_wrt_append last_capture_snoc split: if_splits)
qed simp

lemma apart_snoc:
  assumes "apart d l" and "0 \<le> d" and "\<And>u. last_capture i l = Some u \<Longrightarrow> u + d \<le> t"
  shows "apart d (l @ [(i, t)])"
proof -
  have "s + d \<le> t" if "(i, s) \<in> set l" for s
  proof -
    have "i \<in> fst ` set l" using that by force
    then obtain u where u: "last_capture i l = Some u" using last_capture_None by blast
    then show ?thesis using apart_last [OF assms(1,2) u that] assms(3) [OF u] by simp
  qed
  then show ?thesis using assms(1) by (auto simp: apart_def sorted_wrt_append)
qed

lemma persist_job_Inr:
  assumes "persist_job c i j s = (Inr d, s')"
  shows "sd_id d = i \<and> sd_captured_at d = None \<and> i \<notin> fst ` set (js_jobs s) \<and> s' = s\<lparr>js_jobs := dset i d (js_jobs s)\<rparr>"
  using assms by (auto simp: persist_job_def create_scheduled_job_def scheduler_job.defs split: sum.splits if_splits)

lemma to_start_timeout: "j \<in> set (get_scheduled_jobs_to_start c t n s) \<Longrightarrow> sd_captured_at j = Some u \<Longrightarrow> u + sc_captured_job_timeout c \<le> js_now s"
  by (auto simp: get_scheduled_jobs_to_start_def limit_def job_to_start_def dest!: in_set_takeD split: option.splits)

lemma capture_cases:
  assumes "capture_scheduled_job j s = ((ok, j1), s')"
  obtains (lost) "\<not> ok" "s' = s"
  | (won) r where "ok" "dget (js_jobs s) (sd_id j) = Some r" "sd_captured_at r = sd_captured_at j"
      "s' = s\<lparr>js_jobs := dset (sd_id j) (r\<lparr>sd_captured_at := Some (js_now s)\<rparr>) (js_jobs s)\<rparr>"
  using assms by (auto simp: capture_scheduled_job_def update_scheduled_job_def split: option.splits if_splits)

lemma sched_step_ok:
  assumes "sched_step c w w'" and "sched_ok c w" and d: "0 \<le> sc_captured_job_timeout c"
  shows "sched_ok c w'"
  using assms(1,2)
proof cases
  case (sched_persist i j r s')
  then have "last_capture i (sw_log w) = None" by (simp add: last_capture_None)
  then show ?thesis using assms(2) sched_persist persist_job_Inr [OF sched_persist(2)] by (auto simp: sched_ok_def)
next
  case sched_poll
  then show ?thesis using assms(2) to_start_timeout by (auto simp: sched_ok_def)
next
  case (sched_capture j ok j1 s')
  from sched_capture(3) show ?thesis
  proof (cases rule: capture_cases)
    case lost
    then show ?thesis using assms(2) sched_capture by (auto simp: sched_ok_def dest: notin_set_remove1)
  next
    case (won r)
    have last: "sd_captured_at j = last_capture (sd_id j) (sw_log w)" "sd_id r = sd_id j" using assms(2) won by (auto simp: sched_ok_def)
    have "apart (sc_captured_job_timeout c) (sw_log w @ [(sd_id j, js_now (sw_store w))])"
      by (rule apart_snoc [OF _ d]) (use assms(2) sched_capture(2) last in \<open>auto simp: sched_ok_def\<close>)
    then show ?thesis using assms(2) sched_capture won last
      by (auto simp: sched_ok_def last_capture_snoc dest: notin_set_remove1)
  qed
next
  case (sched_delete i s')
  then show ?thesis using assms(2) by (auto simp: sched_ok_def delete_scheduled_job_def split: if_splits)
next
  case (sched_clock t)
  then show ?thesis using assms(2) by (fastforce simp: sched_ok_def)
qed

text \<open>
  C2. However many schedulers work on the store, and however their reads, captures and deletions
  interleave: between two captures of a job at least \<^verbatim>\<open>captured_job_timeout\<close> seconds pass.
\<close>

theorem captures_apart:
  assumes "sched_runs c w" and "0 \<le> sc_captured_job_timeout c"
  shows "apart (sc_captured_job_timeout c) (sw_log w)"
proof -
  have "sched_ok c w" using assms(1)
    by induction (simp add: sched_ok_def apart_def, rule sched_step_ok [OF _ _ assms(2)])
  then show ?thesis by (simp add: sched_ok_def)
qed

section \<open>A poll of the store\<close>

text \<open>Rows are stored under their ids.\<close>

definition store_ok :: "job_store \<Rightarrow> bool" where
  "store_ok s \<longleftrightarrow> dict_ok (js_jobs s) \<and> list_all (\<lambda>p. sd_id (snd p) = fst p) (js_jobs s)"

definition captured :: "time \<Rightarrow> scheduled_job \<Rightarrow> scheduled_job" where
  "captured t j = j\<lparr>sd_captured_at := Some t\<rparr>"

lemma capture_own:
  "dget (js_jobs s) (sd_id j) = Some j \<Longrightarrow>
   capture_scheduled_job j s = ((True, captured (js_now s) j), s\<lparr>js_jobs := dset (sd_id j) (captured (js_now s) j) (js_jobs s)\<rparr>)"
  by (simp add: capture_scheduled_job_def update_scheduled_job_def captured_def)

lemma capture_jobs_own:
  assumes "distinct (map sd_id js)" and "\<And>j. j \<in> set js \<Longrightarrow> dget (js_jobs s) (sd_id j) = Some j"
  shows "\<exists>d. capture_jobs js s = (map (captured (js_now s)) js, s\<lparr>js_jobs := d\<rparr>) \<and>
    (\<forall>i. dget d i = (if i \<in> sd_id ` set js then map_option (captured (js_now s)) (dget (js_jobs s) i) else dget (js_jobs s) i))"
  using assms
proof (induction js arbitrary: s)
  case (Cons j js)
  let ?s = "s\<lparr>js_jobs := dset (sd_id j) (captured (js_now s) j) (js_jobs s)\<rparr>"
  have other: "sd_id k \<noteq> sd_id j" if "k \<in> set js" for k
    using Cons.prems(1) that by (metis distinct.simps(2) imageI list.simps(9) list.set_map)
  then have notin: "sd_id j \<notin> sd_id ` set js" by (metis imageE)
  have "\<exists>d. capture_jobs js ?s = (map (captured (js_now ?s)) js, ?s\<lparr>js_jobs := d\<rparr>) \<and>
    (\<forall>i. dget d i = (if i \<in> sd_id ` set js then map_option (captured (js_now ?s)) (dget (js_jobs ?s) i) else dget (js_jobs ?s) i))"
    by (rule Cons.IH) (use Cons.prems other in \<open>auto\<close>)
  then obtain d where d: "capture_jobs js ?s = (map (captured (js_now s)) js, s\<lparr>js_jobs := d\<rparr>)"
    "\<And>i. dget d i = (if i \<in> sd_id ` set js then map_option (captured (js_now s)) (dget (js_jobs ?s) i) else dget (js_jobs ?s) i)"
    by auto
  have "dget d i = (if i \<in> sd_id ` set (j # js) then map_option (captured (js_now s)) (dget (js_jobs s) i) else dget (js_jobs s) i)" for i
    using Cons.prems(2) [of j] notin by (cases "i = sd_id j") (simp_all add: d(2))
  then show ?case using d(1) capture_own [of s j] Cons.prems(2) [of j] by (intro exI [where x = d]) simp
next
  case Nil
  show ?case by (rule exI [where x = "js_jobs s"]) simp
qed

text \<open>
  The calls of jobs leave the rows with the identifiers in \<open>ids\<close> alone (they may schedule new jobs).
\<close>

definition run_leaves :: "sched_conf \<Rightarrow> string set \<Rightarrow> bool" where
  "run_leaves c ids \<longleftrightarrow> (\<forall>f s. (\<forall>i \<in> ids. dget (js_jobs (sc_run c f s)) i = dget (js_jobs s) i) \<and> js_calls (sc_run c f s) = js_calls s)"

lemma run_jobs_all:
  assumes run: "run_leaves c ids"
    and "distinct (map sd_id js)" and "list_all2 (\<lambda>j f. prepare_job c j = Inr f) js fs"
    and "\<And>j. j \<in> set js \<Longrightarrow> sd_id j \<in> ids \<and> dget (js_jobs s) (sd_id j) \<noteq> None"
  shows "\<exists>s'. run_jobs c js s = (Inr (), s') \<and> js_calls s' = js_calls s @ fs \<and>
    (\<forall>i \<in> ids. dget (js_jobs s') i = (if i \<in> sd_id ` set js then None else dget (js_jobs s) i))"
  using assms(2-4)
proof (induction js arbitrary: s fs)
  case (Cons j js)
  obtain f fs' where f: "fs = f # fs'" "prepare_job c j = Inr f" "list_all2 (\<lambda>j f. prepare_job c j = Inr f) js fs'"
    using Cons.prems(2) by (auto simp: list_all2_Cons1)
  define s1 where "s1 = (invoke_job c f s)\<lparr>js_jobs := ddel (sd_id j) (js_jobs (invoke_job c f s))\<rparr>"
  have kept: "dget (js_jobs (invoke_job c f s)) i = dget (js_jobs s) i" if "i \<in> ids" for i
    using run that by (simp add: invoke_job_def run_leaves_def)
  have ran: "run_job c j s = (Inr (), s1)"
    using Cons.prems(3) [of j] f(2) kept [of "sd_id j"]
    by (simp add: run_job_def delete_scheduled_job_def s1_def dhas_def del: dhas_iff)
  have calls: "js_calls s1 = js_calls s @ [f]" using run by (simp add: s1_def invoke_job_def run_leaves_def)
  have rows: "dget (js_jobs s1) i = (if i = sd_id j then None else dget (js_jobs s) i)" if "i \<in> ids" for i
    using kept [OF that] by (simp add: s1_def)
  have "\<exists>s'. run_jobs c js s1 = (Inr (), s') \<and> js_calls s' = js_calls s1 @ fs' \<and>
    (\<forall>i \<in> ids. dget (js_jobs s') i = (if i \<in> sd_id ` set js then None else dget (js_jobs s1) i))"
  proof (rule Cons.IH)
    show "distinct (map sd_id js)" using Cons.prems(1) by simp
    show "list_all2 (\<lambda>j f. prepare_job c j = Inr f) js fs'" by (rule f(3))
    fix k assume k: "k \<in> set js"
    then have "sd_id k \<noteq> sd_id j" using Cons.prems(1) by (metis distinct.simps(2) imageI list.simps(9) list.set_map)
    then show "sd_id k \<in> ids \<and> dget (js_jobs s1) (sd_id k) \<noteq> None" using k Cons.prems(3) [of k] rows by simp
  qed
  then show ?case using ran calls f(1) rows by auto
qed simp

lemma to_start_rows:
  assumes "store_ok s"
  shows "distinct (map sd_id (get_scheduled_jobs_to_start c t n s)) \<and>
    (\<forall>j \<in> set (get_scheduled_jobs_to_start c t n s). dget (js_jobs s) (sd_id j) = Some j)"
proof -
  let ?rows = "map snd (js_jobs s)"
  have ids: "map sd_id ?rows = dkeys (js_jobs s)" using assms by (auto simp: store_ok_def list_all_iff)
  then have dist: "distinct (map sd_id (filter P ?rows))" for P
    using assms ids by (metis store_ok_def dict_ok_def distinct_map_filter)
  then have "distinct (map sd_id (sort_key sd_execute_at (filter P ?rows)))" for P
    by (metis distinct_map distinct_sort set_sort)
  then have "distinct (map sd_id (limit n (sort_key sd_execute_at (filter P ?rows))))" for P
    by (cases n) (simp_all add: limit_def distinct_take flip: take_map)
  moreover have "dget (js_jobs s) (sd_id j) = Some j" if "j \<in> set ?rows" for j
    using assms that by (fastforce simp: store_ok_def dict_ok_def list_all_iff)
  ultimately show ?thesis
    by (auto simp: get_scheduled_jobs_to_start_def limit_def dest!: in_set_takeD split: option.splits)
qed

text \<open>
  A poll of the store calls the functions of the jobs it has selected, oldest first, and removes
  those jobs; all other rows stay.
\<close>

theorem store_poll_runs_jobs:
  assumes "store_ok s" and "run_leaves c (set (dkeys (js_jobs s)))"
    and "get_scheduled_jobs_to_start c (js_now s) (sc_batch_size c) s = js"
    and "list_all2 (\<lambda>j f. prepare_job c j = Inr f) js fs"
  shows "\<exists>s'. process_store_jobs c s = (Inr (), s') \<and> js_calls s' = js_calls s @ fs \<and> sorted (map sd_execute_at js) \<and>
    list_all (\<lambda>i. dget (js_jobs s') i = (if i \<in> set (map sd_id js) then None else dget (js_jobs s) i)) (dkeys (js_jobs s))"
proof -
  have js: "distinct (map sd_id js)" "\<And>j. j \<in> set js \<Longrightarrow> dget (js_jobs s) (sd_id j) = Some j"
    using to_start_rows [OF assms(1)] assms(3) by auto
  obtain d where d: "capture_jobs js s = (map (captured (js_now s)) js, s\<lparr>js_jobs := d\<rparr>)"
    "\<And>i. dget d i = (if i \<in> sd_id ` set js then map_option (captured (js_now s)) (dget (js_jobs s) i) else dget (js_jobs s) i)"
    using capture_jobs_own [OF js] by blast
  have same: "sd_id (captured t j) = sd_id j" "prepare_job c (captured t j) = prepare_job c j" for t j
    by (simp_all add: captured_def prepare_job_def split: sum.split)
  let ?cs = "map (captured (js_now s)) js"
  have "\<exists>s'. run_jobs c ?cs (s\<lparr>js_jobs := d\<rparr>) = (Inr (), s') \<and> js_calls s' = js_calls (s\<lparr>js_jobs := d\<rparr>) @ fs \<and>
    (\<forall>i \<in> set (dkeys (js_jobs s)). dget (js_jobs s') i = (if i \<in> sd_id ` set ?cs then None else dget (js_jobs (s\<lparr>js_jobs := d\<rparr>)) i))"
  proof (rule run_jobs_all [OF assms(2)])
    show "distinct (map sd_id ?cs)" using js(1) by (simp add: same(1) comp_def)
    show "list_all2 (\<lambda>j f. prepare_job c j = Inr f) ?cs fs" using assms(4) by (simp add: list_all2_map1 same(2))
    show "sd_id j \<in> set (dkeys (js_jobs s)) \<and> dget (js_jobs (s\<lparr>js_jobs := d\<rparr>)) (sd_id j) \<noteq> None" if "j \<in> set ?cs" for j
      using that js(2) dget_in_keys [OF js(2)] by (auto simp: same(1) d(2))
  qed
  moreover have "sorted (map sd_execute_at js)"
    using assms(3) by (auto simp: get_scheduled_jobs_to_start_def limit_def sorted_wrt_take simp flip: take_map split: option.splits)
  ultimately show ?thesis
    by (force simp: process_store_jobs_def assms(3) d list_all_iff same(1) image_image)
qed

section \<open>The order of the dispatcher\<close>

text \<open>Rounds of the dispatcher at one time, until nothing is due.\<close>

primrec dispatch_due :: "nat \<Rightarrow> time \<Rightarrow> scheduler \<Rightarrow> scheduled_job list \<times> scheduler" where
  "dispatch_due 0 now p = ([], p)"
| "dispatch_due (Suc n) now p = (case dispatch_one now p of
      (None, p') \<Rightarrow> ([], p')
    | (Some j, p') \<Rightarrow> (case dispatch_due n now p' of (js, p'') \<Rightarrow> (j # js, p'')))"

lemma earlier_key: "earlier e f \<longleftrightarrow> entry_key e < entry_key f"
  by (auto simp: earlier_def entry_key_def less_prod_def)

lemma heap_min_least: "heap_min e r \<in> set (e # r) \<and> (\<forall>f \<in> set (e # r). entry_key (heap_min e r) \<le> entry_key f)"
proof (induction r arbitrary: e)
  case (Cons f r)
  show ?case using Cons.IH [of e] Cons.IH [of f] by (auto simp: earlier_key dest: order.strict_trans2 less_imp_le order_trans not_less [THEN iffD1])
qed simp

lemma sort_key_least:
  assumes "m \<in> set xs" and "\<And>x. x \<in> set xs \<Longrightarrow> f m \<le> f x" and "distinct (map f xs)"
  shows "sort_key f xs = m # sort_key f (remove1 m xs)"
proof (rule sort_key_inj_key_eq)
  show "mset xs = mset (m # sort_key f (remove1 m xs))" using assms(1) by simp
  show "inj_on f (set xs)" using assms(3) by (simp add: distinct_map)
  show "sorted (map f (m # sort_key f (remove1 m xs)))"
    using assms(2) by (auto dest: notin_set_remove1)
qed

definition due :: "time \<Rightarrow> time \<times> nat \<times> scheduled_job \<Rightarrow> bool" where
  "due now e \<longleftrightarrow> fst e \<le> now"

lemma due_key: "due now f \<Longrightarrow> entry_key e \<le> entry_key f \<Longrightarrow> due now e"
  by (auto simp: due_def entry_key_def less_eq_prod_def)

text \<open>
  The jobs in memory are submitted when their time has come, in the order of their times and, at
  the same time, in the order in which they were scheduled; the others stay.
\<close>

theorem dispatch_in_order:
  assumes "\<not> ss_stopped p" and "distinct (map entry_key (ss_heap p))" and "length (ss_heap p) \<le> n"
  shows "fst (dispatch_due n now p) = map (snd \<circ> snd) (sort_key entry_key (filter (due now) (ss_heap p))) \<and>
    mset (ss_heap (snd (dispatch_due n now p))) = mset (filter (\<lambda>e. \<not> due now e) (ss_heap p))"
  using assms
proof (induction n arbitrary: p)
  case (Suc n)
  show ?case
  proof (cases "ss_heap p")
    case Nil
    then show ?thesis using Suc.prems by (simp add: dispatch_one_def)
  next
    case (Cons e r)
    define m where "m = heap_min e r"
    have m: "m \<in> set (ss_heap p)" "\<And>f. f \<in> set (ss_heap p) \<Longrightarrow> entry_key m \<le> entry_key f"
      using heap_min_least [of e r] Cons by (auto simp: m_def)
    show ?thesis
    proof (cases "due now m")
      case False
      then have later: "\<And>f. f \<in> set (ss_heap p) \<Longrightarrow> \<not> due now f" using m(2) due_key by blast
      then have "filter (due now) (ss_heap p) = []" "filter (\<lambda>e. \<not> due now e) (ss_heap p) = ss_heap p"
        by (simp_all add: filter_empty_conv filter_id_conv del: split_paired_All)
      moreover have "dispatch_one now p = (None, p)" using Suc.prems(1) Cons False by (simp add: dispatch_one_def m_def due_def)
      ultimately show ?thesis by simp
    next
      case True
      let ?p = "p\<lparr>ss_heap := remove1 m (ss_heap p)\<rparr>"
      have step: "dispatch_one now p = (Some (snd (snd m)), ?p)"
        using Suc.prems(1) Cons True by (simp add: dispatch_one_def m_def due_def Let_def)
      have IH: "fst (dispatch_due n now ?p) = map (snd \<circ> snd) (sort_key entry_key (filter (due now) (ss_heap ?p))) \<and>
        mset (ss_heap (snd (dispatch_due n now ?p))) = mset (filter (\<lambda>e. \<not> due now e) (ss_heap ?p))"
      proof (rule Suc.IH)
        show "\<not> ss_stopped ?p" using Suc.prems(1) by simp
        show "distinct (map entry_key (ss_heap ?p))" using Suc.prems(2) by (auto simp: distinct_map inj_on_def dest: notin_set_remove1)
        show "length (ss_heap ?p) \<le> n" using Suc.prems(3) length_remove1 [of m "ss_heap p"] m(1) by simp
      qed
      have "sort_key entry_key (filter (due now) (ss_heap p)) = m # sort_key entry_key (remove1 m (filter (due now) (ss_heap p)))"
        by (rule sort_key_least) (use m True Suc.prems(2) in \<open>auto simp: distinct_map_filter\<close>)
      then show ?thesis using IH step True
        by (cases "dispatch_due n now ?p") (simp add: filter_remove1)
    qed
  qed
qed (simp add: dispatch_one_def)

section \<open>Concrete jobs\<close>

definition plain_conf :: sched_conf where
  "plain_conf = \<lparr>sc_batch_size = None, sc_pickup_job_after = 60, sc_captured_job_timeout = 30, sc_serializer = (\<lambda>_. None),
     sc_run = (\<lambda>_ s. s)\<rparr>"

definition timer_job :: scheduler_job where
  "timer_job = \<lparr>sj_run_after = 5, sj_target_factory = None, sj_func_name = ''f'', sj_func_args = [], sj_arg_serializers = None,
     sj_key = Some ''k''\<rparr>"

definition stored_job :: "string \<Rightarrow> time \<Rightarrow> time option \<Rightarrow> scheduled_job" where
  "stored_job i t cap = scheduler_job.extend timer_job \<lparr>sd_id = i, sd_execute_at = t, sd_captured_at = cap\<rparr>"

lemmas timer_job_defs = plain_conf_def timer_job_def stored_job_def scheduler_job.defs

text \<open>Job \<open>a\<close> was captured long ago, \<open>b\<close> never, \<open>c\<close> is being processed, \<open>d\<close> is not due for this scheduler.\<close>

definition plain_store :: job_store where
  "plain_store = \<lparr>js_jobs = [(''a'', stored_job ''a'' 20 (Some 30)), (''b'', stored_job ''b'' 10 None),
      (''c'', stored_job ''c'' 5 (Some 90)), (''d'', stored_job ''d'' 50 None)], js_now = 100, js_calls = []\<rparr>"

definition plain_call :: job_call where
  "plain_call = \<lparr>jc_target_factory = None, jc_func_name = ''f'', jc_args = []\<rparr>"

theorem store_poll_runs_jobs_witness:
  "\<exists>s'. process_store_jobs plain_conf plain_store = (Inr (), s') \<and> js_calls s' = js_calls plain_store @ [plain_call, plain_call] \<and>
    sorted (map sd_execute_at [stored_job ''b'' 10 None, stored_job ''a'' 20 (Some 30)]) \<and>
    list_all (\<lambda>i. dget (js_jobs s') i = (if i \<in> set (map sd_id [stored_job ''b'' 10 None, stored_job ''a'' 20 (Some 30)]) then None
      else dget (js_jobs plain_store) i)) (dkeys (js_jobs plain_store))"
proof (rule store_poll_runs_jobs)
  show "store_ok plain_store" by (simp add: store_ok_def plain_store_def timer_job_defs dict_ok_def)
  show "run_leaves plain_conf (set (dkeys (js_jobs plain_store)))" by (simp add: run_leaves_def plain_conf_def)
  show "get_scheduled_jobs_to_start plain_conf (js_now plain_store) (sc_batch_size plain_conf) plain_store =
      [stored_job ''b'' 10 None, stored_job ''a'' 20 (Some 30)]"
    by (simp add: get_scheduled_jobs_to_start_def plain_store_def timer_job_defs job_to_start_def limit_def)
  show "list_all2 (\<lambda>j f. prepare_job plain_conf j = Inr f) [stored_job ''b'' 10 None, stored_job ''a'' 20 (Some 30)] [plain_call, plain_call]"
    by (simp add: prepare_job_def timer_job_defs plain_call_def)
qed

text \<open>A job is scheduled; its scheduler captures it, and 30 seconds later, as it is still there, another one does.\<close>

definition busy_store :: "time \<Rightarrow> time option \<Rightarrow> job_store" where
  "busy_store now cap = \<lparr>js_jobs = [(''a'', stored_job ''a'' 5 cap)], js_now = now, js_calls = []\<rparr>"

lemma busy_runs: "sched_runs plain_conf \<lparr>sw_store = busy_store 100 (Some 100), sw_held = [], sw_log = [(''a'', 5), (''a'', 100)]\<rparr>"
proof -
  let ?w = "\<lambda>now cap held l. \<lparr>sw_store = busy_store now cap, sw_held = held, sw_log = l\<rparr>"
  let ?j = "stored_job ''a'' 5"
  note defs = busy_store_def timer_job_defs capture_scheduled_job_def update_scheduled_job_def
  have 1: "sched_runs plain_conf (?w 0 None [?j None] [])"
    using sched_next [OF sched_start [of plain_conf 0] sched_persist, of "''a''" timer_job "?j None"]
    by (simp add: persist_job_def create_scheduled_job_def defs)
  have 2: "sched_runs plain_conf (?w 5 None [?j None] [])"
    using sched_next [OF 1 sched_clock, of 5] by (simp add: busy_store_def)
  have 3: "sched_runs plain_conf (?w 5 (Some 5) [] [(''a'', 5)])"
    using sched_next [OF 2 sched_capture, of "?j None" True "?j (Some 5)" "busy_store 5 (Some 5)"] by (simp add: defs)
  have 4: "sched_runs plain_conf (?w 100 (Some 5) [] [(''a'', 5)])"
    using sched_next [OF 3 sched_clock, of 100] by (simp add: busy_store_def)
  have 5: "sched_runs plain_conf (?w 100 (Some 5) [?j (Some 5)] [(''a'', 5)])"
    using sched_next [OF 4 sched_poll] by (simp add: get_scheduled_jobs_to_start_def job_to_start_def limit_def defs)
  show ?thesis
    using sched_next [OF 5 sched_capture, of "?j (Some 5)" True "?j (Some 100)" "busy_store 100 (Some 100)"] by (simp add: defs)
qed

theorem captures_apart_witness: "apart 30 [(''a'', 5), (''a'', 100)]"
  using captures_apart [OF busy_runs] by (simp add: plain_conf_def)

definition busy_scheduler :: scheduler where
  "busy_scheduler = schedule_in_memory (stored_job ''c'' 7 None) (schedule_in_memory (stored_job ''b'' 50 None)
     (schedule_in_memory (stored_job ''a'' 7 None) \<lparr>ss_heap = [], ss_in_memory_jobs = [], ss_seq = 0, ss_stopped = False\<rparr>))"

theorem dispatch_in_order_witness:
  "fst (dispatch_due 5 10 busy_scheduler) = map (snd \<circ> snd) (sort_key entry_key (filter (due 10) (ss_heap busy_scheduler))) \<and>
    mset (ss_heap (snd (dispatch_due 5 10 busy_scheduler))) = mset (filter (\<lambda>e. \<not> due 10 e) (ss_heap busy_scheduler))"
  by (rule dispatch_in_order) (simp_all add: busy_scheduler_def schedule_in_memory_def stored_job_def scheduler_job.defs entry_key_def)

end
