(* ===== verification/Resource_Sharing.thy ===== *)
theory Resource_Sharing
  imports Resource_Access
begin

text \<open>
  What requests of ordinary users can do to the rows of other projects, and who ends up seeing a
  private workflow. A request is a value of \<open>access_op\<close>; \<open>run_access\<close> performs it with the operation of
  \<open>Resource_Access\<close> that models the function of the same name. Identifiers come from the generator of
  identifiers and are arguments of the requests; \<open>sharing_run\<close> requires a new one to be fresh.
\<close>

datatype access_op =
    CreateWorkbook string "val dict"
  | UpdateWorkbook string "val dict"
  | CreateOrUpdateWorkbook string string "val dict"
  | DeleteWorkbook string "string option"
  | CreateWorkflowDefinition string "val dict"
  | UpdateWorkflowDefinition string "val dict"
  | CreateOrUpdateWorkflowDefinition string string "val dict"
  | DeleteWorkflowDefinition string "string option"
  | CreateActionDefinition string "val dict"
  | UpdateActionDefinition string "val dict"
  | CreateOrUpdateActionDefinition string string "val dict"
  | DeleteActionDefinition string string
  | CreateCodeSource string "val dict"
  | UpdateCodeSource string "val dict" "string option"
  | DeleteCodeSource string "string option"
  | CreateDynamicAction string "val dict"
  | UpdateDynamicAction string "val dict" "string option"
  | DeleteDynamicAction string "string option"
  | CreateEnvironment string "val dict"
  | UpdateEnvironment string "val dict"
  | CreateOrUpdateEnvironment string string "val dict"
  | DeleteEnvironment string
  | CreateCronTrigger string "val dict"
  | DeleteCronTrigger string
  | CreateEventTrigger string "val dict"
  | UpdateEventTrigger string "val dict"
  | DeleteEventTrigger string
  | ShareResource string string string
  | SetMemberStatus string string string string
  | DeleteResourceMember string string string

fun run_access :: "actor \<Rightarrow> access_op \<Rightarrow> resource_db \<Rightarrow> resource_db" where
  "run_access a (CreateWorkbook i vals) s = snd (create_workbook a i vals s)"
| "run_access a (UpdateWorkbook n vals) s = snd (update_workbook a n vals s)"
| "run_access a (CreateOrUpdateWorkbook i n vals) s = snd (create_or_update_workbook a i n vals s)"
| "run_access a (DeleteWorkbook n ns) s = snd (delete_workbook a n ns s)"
| "run_access a (CreateWorkflowDefinition i vals) s = snd (create_workflow_definition a i vals s)"
| "run_access a (UpdateWorkflowDefinition n vals) s = snd (update_workflow_definition a n vals s)"
| "run_access a (CreateOrUpdateWorkflowDefinition i n vals) s = snd (create_or_update_workflow_definition a i n vals s)"
| "run_access a (DeleteWorkflowDefinition n ns) s = snd (delete_workflow_definition a n ns s)"
| "run_access a (CreateActionDefinition i vals) s = snd (create_action_definition a i vals s)"
| "run_access a (UpdateActionDefinition n vals) s = snd (update_action_definition a n vals s)"
| "run_access a (CreateOrUpdateActionDefinition i n vals) s = snd (create_or_update_action_definition a i n vals s)"
| "run_access a (DeleteActionDefinition n ns) s = snd (delete_action_definition a n ns s)"
| "run_access a (CreateCodeSource i vals) s = snd (create_code_source a i vals s)"
| "run_access a (UpdateCodeSource n vals ns) s = snd (update_code_source a n vals ns s)"
| "run_access a (DeleteCodeSource n ns) s = snd (delete_code_source a n ns s)"
| "run_access a (CreateDynamicAction i vals) s = snd (create_dynamic_action_definition a i vals s)"
| "run_access a (UpdateDynamicAction n vals ns) s = snd (update_dynamic_action_definition a n vals ns s)"
| "run_access a (DeleteDynamicAction n ns) s = snd (delete_dynamic_action_definition a n ns s)"
| "run_access a (CreateEnvironment i vals) s = snd (create_environment a i vals s)"
| "run_access a (UpdateEnvironment n vals) s = snd (update_environment a n vals s)"
| "run_access a (CreateOrUpdateEnvironment i n vals) s = snd (create_or_update_environment a i n vals s)"
| "run_access a (DeleteEnvironment n) s = snd (delete_environment a n s)"
| "run_access a (CreateCronTrigger i vals) s = snd (create_cron_trigger_row a i vals s)"
| "run_access a (DeleteCronTrigger n) s = snd (delete_cron_trigger_row a n s)"
| "run_access a (CreateEventTrigger i vals) s = snd (create_event_trigger_row a i vals s)"
| "run_access a (UpdateEventTrigger n vals) s = snd (update_event_trigger_row a n vals s)"
| "run_access a (DeleteEventTrigger n) s = snd (delete_event_trigger_row n s)"
| "run_access a (ShareResource t i k) s = snd (share_resource a t i k s)"
| "run_access a (SetMemberStatus t i k st) s = snd (set_member_status a t i k st s)"
| "run_access a (DeleteResourceMember t i k) s = snd (delete_resource_member a i t k s)"

section \<open>What an operation leaves alone\<close>

named_theorems frames

definition only_model :: "model \<Rightarrow> resource_db \<Rightarrow> resource_db \<Rightarrow> bool" where
  "only_model m s s' \<longleftrightarrow> rd_members s' = rd_members s \<and> (\<forall>n. n \<noteq> m \<longrightarrow> rd_objects s' n = rd_objects s n)"

lemma only_model_refl [frames, intro!]: "only_model m s s"
  by (simp add: only_model_def)

lemma create_object_frame [frames]: "only_model m s (snd (create_object a m i vals s))"
  by (auto simp: create_object_def only_model_def split: sum.splits)

lemma update_found_frame [frames]: "only_model m s (snd (update_found a m vals r s))"
  by (auto simp: update_found_def replace_object_def only_model_def split: sum.splits)

lemma delete_found_frame [frames]: "only_model m s (snd (delete_found m r s))"
  by (auto simp: delete_found_def remove_objects_def only_model_def split: sum.splits)

lemma delete_secure_frame [frames]: "only_model m s (snd (delete_secure a m k P s))"
  by (auto simp: delete_secure_def remove_objects_def only_model_def)

lemmas workbook_operations = create_workbook_def update_workbook_def create_or_update_workbook_def delete_workbook_def
lemmas action_operations = create_action_definition_def update_action_definition_def
  create_or_update_action_definition_def delete_action_definition_def
lemmas code_operations = create_code_source_def update_code_source_def delete_code_source_def
  create_dynamic_action_definition_def update_dynamic_action_definition_def delete_dynamic_action_definition_def
lemmas environment_operations = create_environment_def update_environment_def create_or_update_environment_def
  delete_environment_def
lemmas trigger_operations = create_cron_trigger_row_def delete_cron_trigger_row_def create_event_trigger_row_def
  update_event_trigger_row_def delete_event_trigger_row_def

fun op_model :: "access_op \<Rightarrow> model option" where
  "op_model (CreateWorkbook _ _) = Some Workbook"
| "op_model (UpdateWorkbook _ _) = Some Workbook"
| "op_model (CreateOrUpdateWorkbook _ _ _) = Some Workbook"
| "op_model (DeleteWorkbook _ _) = Some Workbook"
| "op_model (CreateActionDefinition _ _) = Some ActionDefinition"
| "op_model (UpdateActionDefinition _ _) = Some ActionDefinition"
| "op_model (CreateOrUpdateActionDefinition _ _ _) = Some ActionDefinition"
| "op_model (DeleteActionDefinition _ _) = Some ActionDefinition"
| "op_model (CreateCodeSource _ _) = Some CodeSource"
| "op_model (UpdateCodeSource _ _ _) = Some CodeSource"
| "op_model (DeleteCodeSource _ _) = Some CodeSource"
| "op_model (CreateDynamicAction _ _) = Some DynamicActionDefinition"
| "op_model (UpdateDynamicAction _ _ _) = Some DynamicActionDefinition"
| "op_model (DeleteDynamicAction _ _) = Some DynamicActionDefinition"
| "op_model (CreateEnvironment _ _) = Some Environment"
| "op_model (UpdateEnvironment _ _) = Some Environment"
| "op_model (CreateOrUpdateEnvironment _ _ _) = Some Environment"
| "op_model (DeleteEnvironment _) = Some Environment"
| "op_model (CreateCronTrigger _ _) = Some CronTrigger"
| "op_model (DeleteCronTrigger _) = Some CronTrigger"
| "op_model (CreateEventTrigger _ _) = Some EventTrigger"
| "op_model (UpdateEventTrigger _ _) = Some EventTrigger"
| "op_model (DeleteEventTrigger _) = Some EventTrigger"
| "op_model _ = None"

lemma run_access_frame:
  "op_model o' = Some m \<Longrightarrow> only_model m s (run_access a o' s) \<and> m \<noteq> WorkflowDefinition"
  by (cases o') (auto simp: workbook_operations action_operations code_operations environment_operations
      trigger_operations intro: frames split: sum.splits)

lemma other_model_rows:
  assumes "op_model o' = Some m"
  shows "rd_objects (run_access a o' s) WorkflowDefinition = rd_objects s WorkflowDefinition"
  using run_access_frame[OF assms, of s a] by (auto simp: only_model_def)

section \<open>Rows of other projects\<close>

definition own :: "actor \<Rightarrow> db_object \<Rightarrow> bool" where
  "own a x \<longleftrightarrow> ob_project x = get_project_id a"

definition ordinary :: "actor \<Rightarrow> bool" where
  "ordinary a \<longleftrightarrow> ac_auth_enable a \<and> ac_has_ctx a \<and> \<not> ac_is_admin a"

definition ids_distinct :: "model \<Rightarrow> resource_db \<Rightarrow> bool" where
  "ids_distinct m s \<longleftrightarrow> distinct (map ob_id (rd_objects s m))"

lemma filter_map_unaffected:
  "(\<And>z. z \<in> set l \<Longrightarrow> f z = z \<or> (\<not> P z \<and> \<not> P (f z))) \<Longrightarrow> filter P (map f l) = filter P l"
proof (induction l)
  case (Cons z l)
  have "f z = z \<or> (\<not> P z \<and> \<not> P (f z))" using Cons.prems by simp
  moreover have "filter P (map f l) = filter P l" using Cons by simp
  ultimately show ?case by (cases "f z = z") simp_all
qed simp

lemma set_columns_keep:
  "ob_id (fold (set_column a) vals x) = ob_id x"
  "own a x \<Longrightarrow> own a (fold (set_column a) vals x)"
proof -
  have "ob_id (set_column a kv y) = ob_id y" "own a y \<Longrightarrow> own a (set_column a kv y)" for kv and y :: db_object
    by (cases kv; simp add: own_def)+
  then show "ob_id (fold (set_column a) vals x) = ob_id x" "own a x \<Longrightarrow> own a (fold (set_column a) vals x)"
    by (induction vals arbitrary: x) auto
qed

lemma update_object_keeps:
  "update_object a m vals x = Inr y \<Longrightarrow> ob_id y = ob_id x"
  "update_object a m vals x = Inr y \<Longrightarrow> own a x \<Longrightarrow> own a y"
  by (auto simp: update_object_def set_columns_keep split: option.splits val.splits if_splits)

lemma distinct_ids_same: "distinct (map ob_id l) \<Longrightarrow> x \<in> set l \<Longrightarrow> z \<in> set l \<Longrightarrow> ob_id z = ob_id x \<Longrightarrow> z = x"
  by (metis distinct_map inj_on_def)

text \<open>What a request of \<open>a\<close> may do to a table: its rows of other projects stay, a row of \<open>a\<close> that is
  there afterwards is new or was there with the same identifier, and identifiers stay distinct.\<close>

definition keeps_others :: "actor \<Rightarrow> model \<Rightarrow> resource_db \<Rightarrow> resource_db \<Rightarrow> bool" where
  "keeps_others a m s s' \<longleftrightarrow>
     filter (\<lambda>x. \<not> own a x) (rd_objects s' m) = filter (\<lambda>x. \<not> own a x) (rd_objects s m) \<and> ids_distinct m s'"

lemma keeps_others_refl [intro]: "ids_distinct m s \<Longrightarrow> keeps_others a m s s"
  by (simp add: keeps_others_def)

lemma keeps_others_members [simp]:
  "keeps_others a m s (s'\<lparr>rd_members := r\<rparr>) = keeps_others a m s s'"
  "keeps_others a m (s\<lparr>rd_members := r\<rparr>) s' = keeps_others a m s s'"
  "ids_distinct m (s\<lparr>rd_members := r\<rparr>) = ids_distinct m s"
  by (simp_all add: keeps_others_def ids_distinct_def)

lemma create_object_keeps:
  assumes "ids_distinct m s"
  shows "keeps_others a m s (snd (create_object a m i vals s))"
proof -
  have "own a (empty_object a i)" by (simp add: own_def empty_object_def)
  then show ?thesis
    using assms by (auto simp: create_object_def keeps_others_def ids_distinct_def dest: update_object_keeps split: sum.splits)
qed

lemma update_found_keeps:
  assumes "ids_distinct m s" "\<And>x. r = Inr x \<Longrightarrow> x \<in> set (rd_objects s m) \<and> own a x"
  shows "keeps_others a m s (snd (update_found a m vals r s))"
proof (cases r)
  case (Inr x)
  note x = assms(2)[OF Inr]
  show ?thesis
  proof (cases "update_object a m vals x")
    case y: (Inr y)
    let ?f = "\<lambda>z. if ob_id z = ob_id x then y else z"
    have "filter (\<lambda>z. \<not> own a z) (map ?f (rd_objects s m)) = filter (\<lambda>z. \<not> own a z) (rd_objects s m)"
    proof (rule filter_map_unaffected)
      fix z assume "z \<in> set (rd_objects s m)"
      then show "?f z = z \<or> \<not> \<not> own a z \<and> \<not> \<not> own a (?f z)"
        using x assms(1) distinct_ids_same[of "rd_objects s m" x z] update_object_keeps(2)[OF y]
        by (auto simp: ids_distinct_def)
    qed
    moreover have "map ob_id (map ?f (rd_objects s m)) = map ob_id (rd_objects s m)"
      using update_object_keeps(1)[OF y] by simp
    ultimately show ?thesis
      using assms(1) by (simp del: map_map add: update_found_def Inr y replace_object_def keeps_others_def ids_distinct_def)
  qed (use assms Inr in \<open>auto simp: update_found_def\<close>)
qed (use assms in \<open>auto simp: update_found_def\<close>)

lemma delete_found_keeps:
  assumes "ids_distinct m s" "\<And>x. r = Inr x \<Longrightarrow> x \<in> set (rd_objects s m) \<and> own a x"
  shows "keeps_others a m s (snd (delete_found m r s))"
proof (cases r)
  case (Inr x)
  note x = assms(2)[OF Inr]
  have "filter (\<lambda>z. \<not> own a z) (filter (\<lambda>z. ob_id z \<noteq> ob_id x) (rd_objects s m)) = filter (\<lambda>z. \<not> own a z) (rd_objects s m)"
    unfolding filter_filter using x assms(1) distinct_ids_same[of "rd_objects s m" x]
    by (intro filter_cong) (auto simp: ids_distinct_def)
  then show ?thesis
    using assms(1) by (simp add: delete_found_def Inr remove_objects_def keeps_others_def ids_distinct_def distinct_map_filter)
qed (use assms in \<open>auto simp: delete_found_def\<close>)

lemma found_row: "found k (find P l) = Inr x \<Longrightarrow> x \<in> set l"
  by (auto simp: found_def find_Some_iff split: option.splits)

lemma db_query_rows: "set (db_query a i m s) \<subseteq> set (rd_objects s m)"
  by (auto simp: db_query_def secure_query_def)

lemma get_workflow_def_row: "get_workflow_def a n ns s = Inr x \<Longrightarrow> x \<in> set (rd_objects s WorkflowDefinition)"
  using db_query_rows by (fastforce simp: get_workflow_def_def get_db_object_by_name_and_namespace_or_id_def dest: found_row)

lemma get_cron_trigger_row: "get_cron_trigger a n s = Inr x \<Longrightarrow> x \<in> set (rd_objects s CronTrigger)"
  using db_query_rows by (fastforce simp: get_cron_trigger_def get_db_object_by_name_and_namespace_or_id_def dest: found_row)

lemma check_access_own: "check_db_obj_access a m x = Inr u \<Longrightarrow> \<not> ac_is_admin a \<Longrightarrow> own a x"
  by (auto simp: check_db_obj_access_def own_def split: if_splits)

lemma update_workflow_keeps:
  "\<not> ac_is_admin a \<Longrightarrow> ids_distinct WorkflowDefinition s \<Longrightarrow> keeps_others a WorkflowDefinition s (snd (update_workflow_definition a n vals s))"
  unfolding update_workflow_definition_def
  by (rule update_found_keeps) (auto split: sum.splits simp: bind_res_def dest: get_workflow_def_row check_access_own)

lemma delete_workflow_keeps:
  assumes "\<not> ac_is_admin a" "ids_distinct WorkflowDefinition s"
  shows "keeps_others a WorkflowDefinition s (snd (delete_workflow_definition a n ns s))"
proof -
  have "keeps_others a WorkflowDefinition s (snd (delete_found WorkflowDefinition (Inr x) (delete_resource_members a ''workflow'' (ob_id x) s)))"
    if "x \<in> set (rd_objects s WorkflowDefinition)" "own a x" for x
    using delete_found_keeps[of WorkflowDefinition "delete_resource_members a ''workflow'' (ob_id x) s" "Inr x" a] that assms
    by (simp add: delete_resource_members_def)
  then show ?thesis
    using assms unfolding delete_workflow_definition_def
    by (auto simp: bind_res_def split: sum.splits if_splits dest: get_workflow_def_row check_access_own)
qed

lemma delete_cron_trigger_keeps:
  "\<not> ac_is_admin a \<Longrightarrow> ids_distinct CronTrigger s \<Longrightarrow> keeps_others a CronTrigger s (snd (delete_cron_trigger_row a n s))"
  unfolding delete_cron_trigger_row_def
  by (rule delete_found_keeps) (auto split: sum.splits simp: bind_res_def dest: get_cron_trigger_row check_access_own)

lemma only_model_keeps: "only_model n s s' \<Longrightarrow> n \<noteq> m \<Longrightarrow> ids_distinct m s \<Longrightarrow> keeps_others a m s s'"
  by (simp add: only_model_def keeps_others_def ids_distinct_def)

lemma member_operations_objects [simp]:
  "rd_objects (snd (share_resource a t i k s)) = rd_objects s"
  "rd_objects (snd (set_member_status a t i k st s)) = rd_objects s"
  "rd_objects (snd (delete_resource_member a i t k s)) = rd_objects s"
  by (auto simp: share_resource_def create_resource_member_def set_member_status_def update_resource_member_def
      delete_resource_member_def Let_def split: sum.splits option.splits)

lemma member_operations_keep:
  assumes "ids_distinct m s"
  shows "keeps_others a m s (snd (share_resource b t i k s))"
    "keeps_others a m s (snd (set_member_status b t i k st s))"
    "keeps_others a m s (snd (delete_resource_member b i t k s))"
  using assms by (simp_all add: keeps_others_def ids_distinct_def)

lemma workflow_rows_kept:
  assumes "\<not> ac_is_admin a" "ids_distinct WorkflowDefinition s"
  shows "keeps_others a WorkflowDefinition s (run_access a r s)"
proof (cases "op_model r")
  case None
  then show ?thesis
    using assms by (cases r) (auto simp: create_workflow_definition_def create_or_update_workflow_definition_def
      intro!: create_object_keeps update_workflow_keeps delete_workflow_keeps member_operations_keep)
qed (use assms run_access_frame only_model_keeps in blast)

lemma workflow_operations_frame:
  "rd_objects (snd (update_workflow_definition a n vals s)) CronTrigger = rd_objects s CronTrigger"
  "rd_objects (snd (delete_workflow_definition a n ns s)) CronTrigger = rd_objects s CronTrigger"
  "rd_objects (snd (create_object a WorkflowDefinition i vals s)) CronTrigger = rd_objects s CronTrigger"
proof -
  show "rd_objects (snd (update_workflow_definition a n vals s)) CronTrigger = rd_objects s CronTrigger"
    "rd_objects (snd (create_object a WorkflowDefinition i vals s)) CronTrigger = rd_objects s CronTrigger"
    using update_found_frame[of WorkflowDefinition s a vals] create_object_frame[of WorkflowDefinition s a i vals]
    by (simp_all add: update_workflow_definition_def only_model_def)
  show "rd_objects (snd (delete_workflow_definition a n ns s)) CronTrigger = rd_objects s CronTrigger"
    by (auto simp: delete_workflow_definition_def delete_found_def remove_objects_def delete_resource_members_def split: sum.splits)
qed

lemma cron_rows_kept:
  assumes "\<not> ac_is_admin a" "ids_distinct CronTrigger s"
  shows "keeps_others a CronTrigger s (run_access a r s)"
proof (cases "op_model r")
  case None
  then show ?thesis
    using assms by (cases r) (auto simp: create_workflow_definition_def create_or_update_workflow_definition_def
      workflow_operations_frame keeps_others_def ids_distinct_def)
next
  case (Some m)
  show ?thesis
  proof (cases "m = CronTrigger")
    case True
    then show ?thesis
      using assms Some by (cases r) (auto simp: create_cron_trigger_row_def intro!: create_object_keeps delete_cron_trigger_keeps)
  qed (use assms Some run_access_frame only_model_keeps in blast)
qed

text \<open>An identifier of a definition after a request was there before or is the one it brought.\<close>

fun created_id :: "access_op \<Rightarrow> string option" where
  "created_id (CreateWorkflowDefinition i _) = Some i"
| "created_id (CreateOrUpdateWorkflowDefinition i _ _) = Some i"
| "created_id _ = None"

lemma update_workflow_ids:
  assumes "x \<in> set (rd_objects (snd (update_workflow_definition a n vals s)) WorkflowDefinition)"
  shows "ob_id x \<in> ob_id ` set (rd_objects s WorkflowDefinition)"
  using assms by (auto 0 3 simp: update_workflow_definition_def update_found_def replace_object_def bind_res_def
      dest: update_object_keeps get_workflow_def_row split: sum.splits if_splits)

lemma delete_workflow_ids:
  assumes "x \<in> set (rd_objects (snd (delete_workflow_definition a n ns s)) WorkflowDefinition)"
  shows "ob_id x \<in> ob_id ` set (rd_objects s WorkflowDefinition)"
  using assms by (auto simp: delete_workflow_definition_def delete_found_def remove_objects_def delete_resource_members_def split: sum.splits)

lemma create_workflow_ids:
  assumes "x \<in> set (rd_objects (snd (create_workflow_definition a i vals s)) WorkflowDefinition)"
  shows "ob_id x = i \<or> ob_id x \<in> ob_id ` set (rd_objects s WorkflowDefinition)"
  using assms by (auto simp: create_workflow_definition_def create_object_def empty_object_def dest: update_object_keeps split: sum.splits if_splits)

lemma workflow_ids_after:
  assumes "x' \<in> set (rd_objects (run_access a r s) WorkflowDefinition)"
  shows "ob_id x' \<in> ob_id ` set (rd_objects s WorkflowDefinition) \<or> created_id r = Some (ob_id x')"
proof (cases "op_model r")
  case None
  then show ?thesis
    using assms by (cases r) (auto simp: create_or_update_workflow_definition_def split: if_splits
      dest: update_workflow_ids delete_workflow_ids create_workflow_ids)
next
  case (Some m)
  then show ?thesis using assms by (simp add: other_model_rows)
qed

section \<open>Invitations\<close>

text \<open>An invitation: the identifier of the workflow, the project that invites and the invited one.\<close>

type_synonym invitation = "string \<times> string \<times> string"

definition share_invitations :: "actor \<Rightarrow> string \<Rightarrow> string \<Rightarrow> string \<Rightarrow> resource_db \<Rightarrow> invitation list" where
  "share_invitations a t i k s =
     (case fst (share_resource a t i k s) of
        Inr _ \<Rightarrow> (if t = ''workflow'' then [(i, get_project_id a, k)] else []) | Inl _ \<Rightarrow> [])"

fun invitations :: "actor \<Rightarrow> access_op \<Rightarrow> resource_db \<Rightarrow> invitation list" where
  "invitations a (ShareResource t i k) s = share_invitations a t i k s"
| "invitations a _ s = []"

definition membership :: "resource_member \<Rightarrow> invitation" where
  "membership r = (rm_resource_id r, rm_project r, rm_member_id r)"

definition workflow_memberships :: "resource_db \<Rightarrow> invitation set" where
  "workflow_memberships s = {membership r | r. r \<in> set (rd_members s) \<and> rm_resource_type r = ''workflow''}"

text \<open>The memberships that are accepted now.\<close>

definition accepted_now :: "resource_db \<Rightarrow> invitation list" where
  "accepted_now s = map membership (filter (\<lambda>r. rm_resource_type r = ''workflow'' \<and> rm_status r = ''accepted'') (rd_members s))"

lemma accepted_memberships: "set (accepted_now s) \<subseteq> workflow_memberships s"
  by (auto simp: accepted_now_def workflow_memberships_def)

lemma status_memberships: "workflow_memberships (snd (set_member_status a t i k st s)) \<subseteq> workflow_memberships s"
  by (auto simp: workflow_memberships_def set_member_status_def update_resource_member_def membership_def
      split: option.splits if_splits)

lemma share_memberships:
  "workflow_memberships (snd (share_resource a t i k s)) \<subseteq> workflow_memberships s \<union> set (share_invitations a t i k s)"
  by (auto simp: share_invitations_def workflow_memberships_def share_resource_def create_resource_member_def membership_def split: sum.splits if_splits)

lemma delete_memberships:
  "workflow_memberships (snd (delete_resource_member a i t k s)) \<subseteq> workflow_memberships s"
  "workflow_memberships (snd (delete_workflow_definition a n ns s)) \<subseteq> workflow_memberships s"
  by (auto simp: workflow_memberships_def delete_resource_member_def Let_def delete_workflow_definition_def delete_found_def
      remove_objects_def delete_resource_members_def split: sum.splits)

lemma only_model_memberships: "only_model m s s' \<Longrightarrow> workflow_memberships s' = workflow_memberships s"
  by (simp add: only_model_def workflow_memberships_def)

lemma memberships_after: "workflow_memberships (run_access a r s) \<subseteq> workflow_memberships s \<union> set (invitations a r s)"
proof (cases "op_model r")
  case None
  have "workflow_memberships (snd (update_workflow_definition a n vals s)) = workflow_memberships s"
    "workflow_memberships (snd (create_workflow_definition a i vals s)) = workflow_memberships s" for n i vals
    unfolding update_workflow_definition_def create_workflow_definition_def
    by (rule only_model_memberships, rule frames)+
  then show ?thesis
    using None by (cases r) (auto simp: create_or_update_workflow_definition_def
        dest: subsetD[OF share_memberships] subsetD[OF status_memberships] subsetD[OF delete_memberships(1)] subsetD[OF delete_memberships(2)])
next
  case (Some m)
  then show ?thesis using run_access_frame only_model_memberships by blast
qed

text \<open>Only the member itself can accept.\<close>

lemma accepted_only_by_member:
  assumes "r' \<in> set (rd_members (run_access a r s))" "rm_status r' = ''accepted''" "rm_member_id r' \<noteq> get_project_id a"
  shows "r' \<in> set (rd_members s)"
proof (cases "op_model r")
  case None
  have "rd_members (snd (update_workflow_definition a n vals s)) = rd_members s"
    "rd_members (snd (create_workflow_definition a i vals s)) = rd_members s"
    "r' \<in> set (rd_members (snd (delete_workflow_definition a n ns s))) \<Longrightarrow> r' \<in> set (rd_members s)" for n i vals ns
    using update_found_frame[of WorkflowDefinition s a vals] create_object_frame[of WorkflowDefinition s a i vals]
    by (auto simp: update_workflow_definition_def create_workflow_definition_def only_model_def delete_workflow_definition_def
        delete_found_def remove_objects_def delete_resource_members_def split: sum.splits)
  then show ?thesis
    using None assms
    by (cases r) (auto simp: create_or_update_workflow_definition_def share_resource_def create_resource_member_def
        set_member_status_def update_resource_member_def delete_resource_member_def Let_def same_membership_def get_criterion_def meets_def
        find_Some_iff split: if_splits sum.splits option.splits)
next
  case (Some m)
  then show ?thesis using assms run_access_frame[OF Some] by (simp add: only_model_def)
qed

section \<open>Runs of requests\<close>

text \<open>
  \<open>u\<close> is \<^verbatim>\<open>uuidutils.is_uuid_like\<close> of oslo.utils. When a definition is validated, \<^verbatim>\<open>lang/v2/workflows.py\<close> rejects names of
  workflows that it accepts, and \<^verbatim>\<open>api/controllers/v2/workflow.py\<close> offers the members of an identifier only if it
  accepts it. So \<open>names_ok\<close> says that no definition is stored without validation (which a user can ask for, unless the
  configuration makes it mandatory): \<open>name_like_identifier\<close> below shows what happens otherwise.
\<close>

definition names_ok :: "(string \<Rightarrow> bool) \<Rightarrow> val dict \<Rightarrow> bool" where
  "names_ok u vals \<longleftrightarrow> list_all (\<lambda>(k, v). k = ''name'' \<longrightarrow> \<not> u (text_of v)) vals"

definition fresh_id :: "(string \<Rightarrow> bool) \<Rightarrow> resource_db \<Rightarrow> invitation list \<Rightarrow> string \<Rightarrow> bool" where
  "fresh_id u s log i \<longleftrightarrow> u i \<and> i \<notin> set (map ob_id (rd_objects s WorkflowDefinition)) \<and> i \<notin> set (map fst log)"

fun op_ok :: "(string \<Rightarrow> bool) \<Rightarrow> resource_db \<Rightarrow> invitation list \<Rightarrow> access_op \<Rightarrow> bool" where
  "op_ok u s log (CreateWorkflowDefinition i vals) \<longleftrightarrow> fresh_id u s log i \<and> names_ok u vals"
| "op_ok u s log (UpdateWorkflowDefinition n vals) \<longleftrightarrow> names_ok u vals"
| "op_ok u s log (CreateOrUpdateWorkflowDefinition i n vals) \<longleftrightarrow> fresh_id u s log i \<and> names_ok u vals"
| "op_ok u s log (ShareResource t i k) \<longleftrightarrow> u i"
| "op_ok u s log _ \<longleftrightarrow> True"

definition no_rows :: resource_db where
  "no_rows = \<lparr>rd_objects = (\<lambda>_. []), rd_members = []\<rparr>"

text \<open>
  Requests of ordinary users from the empty database, with every successful invitation so far and every one
  that was accepted at some time.
\<close>

inductive sharing_run :: "(string \<Rightarrow> bool) \<Rightarrow> resource_db \<Rightarrow> invitation list \<Rightarrow> invitation list \<Rightarrow> bool" for u where
  nothing: "sharing_run u no_rows [] []"
| request: "sharing_run u s log acc \<Longrightarrow> ordinary a \<Longrightarrow> op_ok u s log r \<Longrightarrow>
    sharing_run u (run_access a r s) (log @ invitations a r s) (acc @ accepted_now (run_access a r s))"

text \<open>Who was invited by whom to the workflow with the given identifier.\<close>

definition invited :: "string \<Rightarrow> invitation list \<Rightarrow> (string \<times> string) set" where
  "invited i log = {(p, q). (i, p, q) \<in> set log}"

lemma names_after_update:
  assumes "names_ok u vals" "\<not> u (ob_name x)" "update_object a m vals x = Inr y"
  shows "\<not> u (ob_name y)"
proof -
  have "\<not> u (ob_name (fold (set_column a) vals x))"
    using assms(1,2)
  proof (induction vals arbitrary: x)
    case (Cons kv vals)
    obtain k v where kv: "kv = (k, v)" by (cases kv)
    have "\<not> u (ob_name (set_column a kv x))" using Cons.prems kv by (simp add: names_ok_def)
    then show ?case using Cons by (simp add: names_ok_def)
  qed simp
  then show ?thesis using assms(3) by (auto simp: update_object_def split: option.splits val.splits if_splits)
qed

definition names_distinguished :: "(string \<Rightarrow> bool) \<Rightarrow> resource_db \<Rightarrow> bool" where
  "names_distinguished u s \<longleftrightarrow> (\<forall>x \<in> set (rd_objects s WorkflowDefinition). \<not> u (ob_name x))"

lemma create_workflow_names:
  assumes "names_distinguished u s" "names_ok u vals" "\<not> u []"
  shows "names_distinguished u (snd (create_workflow_definition a i vals s))"
proof -
  have "update_object a WorkflowDefinition vals (empty_object a i) = Inr y \<Longrightarrow> \<not> u (ob_name y)" for y
    using names_after_update[OF assms(2), of "empty_object a i"] assms(3) by (simp add: empty_object_def)
  then show ?thesis
    using assms(1) by (auto simp: names_distinguished_def create_workflow_definition_def create_object_def split: sum.splits)
qed

lemma update_workflow_names:
  "names_distinguished u s \<Longrightarrow> names_ok u vals \<Longrightarrow> names_distinguished u (snd (update_workflow_definition a n vals s))"
  by (auto 0 4 simp: names_distinguished_def update_workflow_definition_def update_found_def replace_object_def bind_res_def
      dest: names_after_update get_workflow_def_row split: sum.splits if_splits)

lemma delete_workflow_names:
  "names_distinguished u s \<Longrightarrow> names_distinguished u (snd (delete_workflow_definition a n ns s))"
  by (auto simp: names_distinguished_def delete_workflow_definition_def delete_found_def remove_objects_def
      delete_resource_members_def split: sum.splits)

lemma names_after:
  assumes "names_distinguished u s" "op_ok u s log r" "\<not> u []"
  shows "names_distinguished u (run_access a r s)"
proof (cases "op_model r")
  case None
  have same: "rd_objects s' = rd_objects s \<Longrightarrow> names_distinguished u s'" for s'
    using assms(1) by (simp add: names_distinguished_def)
  show ?thesis
    using None assms by (cases r) (auto simp: create_or_update_workflow_definition_def
        intro!: create_workflow_names update_workflow_names delete_workflow_names intro: same)
next
  case (Some m)
  then show ?thesis using assms(1) by (simp add: other_model_rows names_distinguished_def)
qed

lemma invitation_by_reader:
  assumes "(i, p, q) \<in> set (invitations a r s)" "ordinary a" "op_ok u s log r" "names_distinguished u s"
  shows "p = get_project_id a" and "rd_objects (run_access a r s) = rd_objects s"
    and "\<exists>y \<in> set (rd_objects s WorkflowDefinition). ob_id y = i \<and>
      (own a y \<or> (\<exists>p'. (i, p', get_project_id a) \<in> set (accepted_now s)))"
proof -
  obtain t j k where r: "r = ShareResource t j k" using assms(1) by (cases r) auto
  then have s: "t = ''workflow''" "i = j" "p = get_project_id a" and ok: "\<exists>x. fst (share_resource a t i k s) = Inr x"
    using assms(1) by (auto simp: share_invitations_def dest: sym split: sum.splits if_splits)
  from s show "p = get_project_id a" by simp
  show "rd_objects (run_access a r s) = rd_objects s" by (simp add: r)
  obtain y where y: "get_workflow_def a i (Some []) s = Inr y" "ob_scope y = ''private''"
    using ok by (auto simp: share_resource_def split: sum.splits if_splits)
  then have row: "y \<in> set (secure_query a WorkflowDefinition s)" "ob_id y = i \<or> ob_name y = i"
    using assms(2) by (auto simp: get_workflow_def_def get_db_object_by_name_and_namespace_or_id_def db_query_def overrides_def
        ordinary_def found_def find_Some_iff split: option.splits)
  have "y \<in> set (rd_objects s WorkflowDefinition)" using row(1) by (simp add: secure_query_def)
  moreover have "ob_id y = i"
    using row(2) calculation assms(3,4) r s by (auto simp: names_distinguished_def)
  moreover have "own a y \<or> (\<exists>p'. (ob_id y, p', get_project_id a) \<in> set (accepted_now s))"
    using row(1) y(2) by (auto 4 4 simp: secure_query_def may_see_def own_def shared_ids_def resource_mapping_def
        get_accepted_resources_def accepted_now_def membership_def image_iff)
  ultimately show "\<exists>y \<in> set (rd_objects s WorkflowDefinition). ob_id y = i \<and>
      (own a y \<or> (\<exists>p'. (i, p', get_project_id a) \<in> set (accepted_now s)))" by blast
qed

lemma project_kept:
  assumes "\<not> ac_is_admin a" "ids_distinct WorkflowDefinition s"
    and "x' \<in> set (rd_objects (run_access a r s) WorkflowDefinition)" "x \<in> set (rd_objects s WorkflowDefinition)"
    and "ob_id x' = ob_id x"
  shows "ob_project x' = ob_project x"
proof -
  note keep = workflow_rows_kept[OF assms(1,2), of r, unfolded keeps_others_def ids_distinct_def]
  have others: "\<not> own a z \<Longrightarrow> z \<in> set (rd_objects (run_access a r s) WorkflowDefinition) \<longleftrightarrow> z \<in> set (rd_objects s WorkflowDefinition)" for z
    using arg_cong[OF conjunct1[OF keep], of set] by auto
  show ?thesis
  proof (cases "own a x")
    case True
    then have "own a x'"
      using others[of x'] assms(2-5) distinct_ids_same by (auto simp: ids_distinct_def)
    then show ?thesis using True by (simp add: own_def)
  next
    case False
    then have "x = x'" using others assms(3-5) keep distinct_ids_same by metis
    then show ?thesis by simp
  qed
qed

text \<open>Everybody who invites has a chain of accepted invitations from the owner.\<close>

definition chain_to :: "invitation list \<Rightarrow> db_object \<Rightarrow> string \<Rightarrow> bool" where
  "chain_to acc x p \<longleftrightarrow> (ob_project x, p) \<in> (invited (ob_id x) acc)\<^sup>*"

definition chains_ok :: "resource_db \<Rightarrow> invitation list \<Rightarrow> invitation list \<Rightarrow> bool" where
  "chains_ok s log acc \<longleftrightarrow>
     (\<forall>x \<in> set (rd_objects s WorkflowDefinition). \<forall>p q. (ob_id x, p, q) \<in> set log \<longrightarrow> chain_to acc x p)"

lemma chain_grows: "chain_to acc x p \<Longrightarrow> chain_to (acc @ new) x p"
  unfolding chain_to_def by (erule rev_subsetD, intro rtrancl_mono) (auto simp: invited_def)

lemma chains_after:
  assumes "chains_ok s log acc" "workflow_memberships s \<subseteq> set log" "set (accepted_now s) \<subseteq> set acc"
    and "ids_distinct WorkflowDefinition s" "names_distinguished u s" "ordinary a" "op_ok u s log r"
  shows "chains_ok (run_access a r s) (log @ invitations a r s) (acc @ new)"
  unfolding chains_ok_def
proof (intro ballI allI impI)
  fix x' p q
  assume x': "x' \<in> set (rd_objects (run_access a r s) WorkflowDefinition)"
    and e: "(ob_id x', p, q) \<in> set (log @ invitations a r s)"
  show "chain_to (acc @ new) x' p"
  proof (cases "(ob_id x', p, q) \<in> set (invitations a r s)")
    case True
    note i = invitation_by_reader[OF True assms(6,7,5)]
    obtain y where y: "y \<in> set (rd_objects s WorkflowDefinition)" "ob_id y = ob_id x'"
      "own a y \<or> (\<exists>p'. (ob_id x', p', p) \<in> set (accepted_now s))" using i(1,3) by blast
    have same: "y = x'" using y x' i(2) assms(4) distinct_ids_same by (simp add: ids_distinct_def)
    show ?thesis
    proof (cases "own a y")
      case True
      then show ?thesis using i(1) same by (simp add: own_def chain_to_def)
    next
      case False
      then obtain p' where p': "(ob_id x', p', p) \<in> set (accepted_now s)" using y(3) by blast
      then have "(ob_id y, p', p) \<in> set log" using y(2) assms(2) accepted_memberships by fastforce
      then have "chain_to acc x' p'" using assms(1) y(1) same by (auto simp: chains_ok_def)
      moreover have "(p', p) \<in> invited (ob_id x') acc" using p' assms(3) by (auto simp: invited_def)
      ultimately have "chain_to acc x' p" unfolding chain_to_def by (rule rtrancl_into_rtrancl)
      then show ?thesis by (rule chain_grows)
    qed
  next
    case False
    then have old: "(ob_id x', p, q) \<in> set log" using e by simp
    then have "created_id r \<noteq> Some (ob_id x')" using assms(7) by (cases r) (force simp: fresh_id_def)+
    then obtain x where x: "x \<in> set (rd_objects s WorkflowDefinition)" "ob_id x = ob_id x'"
      using workflow_ids_after[OF x'] by force
    then have "ob_project x' = ob_project x" using project_kept[OF _ assms(4) x'] assms(6) by (simp add: ordinary_def)
    moreover have "chain_to (acc @ new) x p" by (rule chain_grows) (use assms(1) x old in \<open>force simp: chains_ok_def\<close>)
    ultimately show ?thesis using x(2) by (simp add: chain_to_def)
  qed
qed

lemma sharing_invariant:
  assumes "sharing_run u s log acc" "\<not> u []"
  shows "ids_distinct WorkflowDefinition s \<and> names_distinguished u s \<and> workflow_memberships s \<subseteq> set log \<and>
    set (accepted_now s) \<subseteq> set acc \<and> set acc \<subseteq> set log \<and> chains_ok s log acc"
  using assms(1)
proof induction
  case nothing
  show ?case by (simp add: ids_distinct_def names_distinguished_def workflow_memberships_def chains_ok_def no_rows_def accepted_now_def)
next
  case (request s log acc a r)
  have "ids_distinct WorkflowDefinition (run_access a r s)"
    using request workflow_rows_kept by (simp add: ordinary_def keeps_others_def)
  moreover have m: "workflow_memberships (run_access a r s) \<subseteq> set (log @ invitations a r s)"
    using memberships_after request.IH by fastforce
  moreover have "set (acc @ accepted_now (run_access a r s)) \<subseteq> set (log @ invitations a r s)"
    using m accepted_memberships request.IH by fastforce
  moreover have "chains_ok (run_access a r s) (log @ invitations a r s) (acc @ accepted_now (run_access a r s))"
    using request by (intro chains_after[where u = u]) simp_all
  moreover have "names_distinguished u (run_access a r s)" using request names_after assms(2) by blast
  ultimately show ?case by simp
qed

section \<open>Properties\<close>

text \<open>A list of requests performed in order, and the requests and rows of the witnesses.\<close>

type_synonym sharing = "resource_db \<times> invitation list \<times> invitation list"

definition perform_one :: "actor \<Rightarrow> access_op \<Rightarrow> sharing \<Rightarrow> sharing" where
  "perform_one a r = (\<lambda>(s, log, acc). (run_access a r s, log @ invitations a r s, acc @ accepted_now (run_access a r s)))"

fun perform :: "(actor \<times> access_op) list \<Rightarrow> sharing \<Rightarrow> sharing" where
  "perform [] x = x"
| "perform ((a, r) # rs) x = perform rs (perform_one a r x)"

fun requests_ok :: "(string \<Rightarrow> bool) \<Rightarrow> (actor \<times> access_op) list \<Rightarrow> sharing \<Rightarrow> bool" where
  "requests_ok u [] x \<longleftrightarrow> True"
| "requests_ok u ((a, r) # rs) x \<longleftrightarrow> ordinary a \<and> op_ok u (fst x) (fst (snd x)) r \<and> requests_ok u rs (perform_one a r x)"

lemma perform_run:
  "sharing_run u s log acc \<Longrightarrow> requests_ok u rs (s, log, acc) \<Longrightarrow> case perform rs (s, log, acc) of (s', log', acc') \<Rightarrow> sharing_run u s' log' acc'"
proof (induction rs arbitrary: s log acc)
  case (Cons r rs)
  obtain a q where r: "r = (a, q)" by (cases r)
  then have "sharing_run u (run_access a q s) (log @ invitations a q s) (acc @ accepted_now (run_access a q s))"
    using Cons.prems by (intro sharing_run.request) simp_all
  from Cons.IH[OF this] show ?case using Cons.prems(2) by (simp add: r perform_one_def del: run_access.simps invitations.simps)
qed simp

definition user_of :: "string \<Rightarrow> actor" where
  "user_of p = \<lparr>ac_auth_enable = True, ac_has_ctx = True, ac_project = p, ac_is_admin = False\<rparr>"

definition shared_requests :: "(actor \<times> access_op) list" where
  "shared_requests =
     [(user_of ''p'', CreateWorkflowDefinition ''1'' [(''name'', VStr ''wf'')]),
      (user_of ''p'', ShareResource ''workflow'' ''1'' ''q''),
      (user_of ''q'', SetMemberStatus ''workflow'' ''1'' ''q'' ''accepted'')]"

definition shared_rows :: resource_db where
  "shared_rows = fst (perform shared_requests (no_rows, [], []))"

definition plain_object :: "string \<Rightarrow> string \<Rightarrow> string \<Rightarrow> db_object" where
  "plain_object i n p = \<lparr>ob_id = i, ob_name = n, ob_namespace = [], ob_project = p, ob_scope = ''public'',
     ob_is_system = False, ob_version = 1, ob_workflow_id = None, ob_values = []\<rparr>"

lemma shared_logs:
  "snd (perform shared_requests (no_rows, [], [])) = ([(''1'', ''p'', ''q'')], [(''1'', ''p'', ''q'')])"
  by code_simp

lemma shared_requests_ok: "requests_ok (\<lambda>i. i = ''1'') shared_requests (no_rows, [], [])"
  by code_simp

lemma shared_rows_run: "sharing_run (\<lambda>i. i = ''1'') shared_rows [(''1'', ''p'', ''q'')] [(''1'', ''p'', ''q'')]"
  using perform_run[OF sharing_run.nothing shared_requests_ok] shared_logs
  by (cases "perform shared_requests (no_rows, [], [])") (simp add: shared_rows_def)

lemma shared_rows_eval:
  "rd_objects shared_rows WorkflowDefinition = [(plain_object ''1'' ''wf'' ''p'')\<lparr>ob_scope := ''private''\<rparr>]"
  "rd_members shared_rows = [\<lparr>rm_resource_id = ''1'', rm_resource_type = ''workflow'', rm_project = ''p'', rm_member_id = ''q'',
     rm_status = ''accepted''\<rparr>]"
  by code_simp+

text \<open>
  C12. Workflow definitions and cron triggers belong to their projects: whatever an ordinary user
  requests, the rows of all other projects in these two tables stay exactly as they are, whether they
  are public, shared with the user or not.
\<close>

theorem other_projects_protected:
  assumes "ordinary a" "m = WorkflowDefinition \<or> m = CronTrigger" "ids_distinct m s"
  shows "filter (\<lambda>x. ob_project x \<noteq> get_project_id a) (rd_objects (run_access a r s) m)
       = filter (\<lambda>x. ob_project x \<noteq> get_project_id a) (rd_objects s m)"
  using assms workflow_rows_kept[of a s r] cron_rows_kept[of a s r]
  by (auto simp: keeps_others_def own_def ordinary_def)

theorem other_projects_protected_witness:
  "filter (\<lambda>x. ob_project x \<noteq> ''q'') (rd_objects (run_access (user_of ''q'') (DeleteWorkflowDefinition ''wf'' None) shared_rows) WorkflowDefinition)
     = rd_objects shared_rows WorkflowDefinition"
  using other_projects_protected[of "user_of ''q''" WorkflowDefinition shared_rows "DeleteWorkflowDefinition ''wf'' None"]
  by (simp del: run_access.simps add: user_of_def ordinary_def ids_distinct_def shared_rows_eval get_project_id_def plain_object_def)

text \<open>
  C11. A private workflow is seen only along invitations: in every run of requests of ordinary users in which the definitions
  are validated (so that no workflow is named like an identifier), a
  project that sees a workflow of another project that is not public has accepted an invitation, and
  there is a chain of invitations to this workflow, each of which was accepted at some time, that starts at its owner and
  ends at it.
\<close>

theorem private_workflow_needs_invitation:
  assumes "sharing_run u s log acc" "\<not> u []"
    and "x \<in> set (rd_objects s WorkflowDefinition)" "ob_scope x \<noteq> ''public''" "may_see p WorkflowDefinition s x"
    and "ob_project x \<noteq> get_project_id p"
  shows "(ob_project x, get_project_id p) \<in> (invited (ob_id x) log \<inter> invited (ob_id x) acc)\<^sup>+ \<and>
    (\<exists>r \<in> set (rd_members s). rm_member_id r = get_project_id p \<and> rm_resource_id r = ob_id x \<and> rm_status r = ''accepted'')"
proof -
  note inv = sharing_invariant[OF assms(1,2)]
  obtain r where r: "r \<in> set (rd_members s)" "rm_member_id r = get_project_id p" "rm_resource_id r = ob_id x"
    "rm_status r = ''accepted''" "rm_resource_type r = ''workflow''"
    using assms(4-6) by (auto simp: may_see_def shared_ids_def resource_mapping_def get_accepted_resources_def)
  then have "(ob_id x, rm_project r, get_project_id p) \<in> set (accepted_now s)" by (force simp: accepted_now_def membership_def)
  then have e: "(ob_id x, rm_project r, get_project_id p) \<in> set acc" using inv by blast
  then have "(ob_project x, rm_project r) \<in> (invited (ob_id x) acc)\<^sup>*"
    using inv assms(3) unfolding chains_ok_def chain_to_def by blast
  moreover have "(rm_project r, get_project_id p) \<in> invited (ob_id x) acc" using e by (simp add: invited_def)
  ultimately have "(ob_project x, get_project_id p) \<in> (invited (ob_id x) acc)\<^sup>+" by (rule rtrancl_into_trancl1)
  moreover have "invited (ob_id x) log \<inter> invited (ob_id x) acc = invited (ob_id x) acc" using inv by (auto simp: invited_def)
  ultimately show ?thesis using r by auto
qed

theorem private_workflow_needs_invitation_witness:
  "(''p'', ''q'') \<in> (invited ''1'' [(''1'', ''p'', ''q'')] \<inter> invited ''1'' [(''1'', ''p'', ''q'')])\<^sup>+ \<and>
   (\<exists>r \<in> set (rd_members shared_rows). rm_member_id r = ''q'' \<and> rm_resource_id r = ''1'' \<and> rm_status r = ''accepted'')"
  using private_workflow_needs_invitation[OF shared_rows_run, of "(plain_object ''1'' ''wf'' ''p'')\<lparr>ob_scope := ''private''\<rparr>" "user_of ''q''"]
  by (simp add: shared_rows_eval plain_object_def user_of_def get_project_id_def may_see_def shared_ids_def resource_mapping_def
      get_accepted_resources_def)

lemma find_in_append: "find P (xs @ ys) = (case find P xs of None \<Rightarrow> find P ys | Some x \<Rightarrow> Some x)"
  by (induction xs) auto

text \<open>The rows that \<^verbatim>\<open>get_workflow_definition\<close> finds for an identifier.\<close>

definition found_for :: "string \<Rightarrow> db_object \<Rightarrow> bool" where
  "found_for i y \<longleftrightarrow> ob_id y = i \<or> ob_name y = i"

text \<open>
  C37. Without validation this protection is gone: a user who knows the identifier of a private workflow of another
  project, and sees nothing with this identifier or name, stores a workflow that has the identifier as its name,
  shares the identifier with any project, also with his own, and after the invitation is accepted that project sees the
  private workflow: \<^verbatim>\<open>post\<close> of the members checks the workflow that it finds by name, but stores the identifier that it was given.
\<close>

theorem name_like_identifier:
  assumes "ordinary a" "ordinary b" "get_project_id b \<noteq> []" "x \<in> set (rd_objects s WorkflowDefinition)"
    and "filter (found_for (ob_id x)) (secure_query a WorkflowDefinition s) = []"
    and "i \<notin> set (map ob_id (rd_objects s WorkflowDefinition))" "CHR '' '' \<notin> set (ob_id x)" "ob_id x \<notin> set (map rm_resource_id (rd_members s))"
    and "s1 = run_access a (CreateWorkflowDefinition i [(''name'', VStr (ob_id x))]) s"
    and "s2 = run_access a (ShareResource ''workflow'' (ob_id x) (get_project_id b)) s1"
    and "s3 = run_access b (SetMemberStatus ''workflow'' (ob_id x) (get_project_id b) ''accepted'') s2"
  shows "ob_project x \<noteq> get_project_id a \<and> \<not> may_see a WorkflowDefinition s x \<and>
    x \<in> set (rd_objects s3 WorkflowDefinition) \<and> may_see b WorkflowDefinition s3 x"
proof -
  let ?y = "(empty_object a i)\<lparr>ob_name := ob_id x\<rparr>"
  have hidden: "\<not> may_see a WorkflowDefinition s z" if "z \<in> set (rd_objects s WorkflowDefinition)" "found_for (ob_id x) z" for z
    using assms(5) that by (auto simp: secure_query_def filter_empty_conv)
  have "unique_columns WorkflowDefinition ?y \<noteq> unique_columns WorkflowDefinition z" if "z \<in> set (rd_objects s WorkflowDefinition)" for z
    using hidden[OF that] by (auto simp: unique_columns_def empty_object_def may_see_def found_for_def)
  then have "unique_columns WorkflowDefinition ?y \<notin> set (map (unique_columns WorkflowDefinition) (rd_objects s WorkflowDefinition))"
    by auto
  then have s1: "s1 = s\<lparr>rd_objects := (rd_objects s)(WorkflowDefinition := rd_objects s WorkflowDefinition @ [?y])\<rparr>"
    using assms(6,7,9) by (simp add: create_workflow_definition_def create_object_def update_object_def empty_object_def text_of_def)
  have "find (\<lambda>z. ob_id z = ob_id x \<or> (ob_name z = ob_id x \<and> ob_namespace z = [])) (secure_query a WorkflowDefinition s1) = Some ?y"
  proof -
    have "may_see a WorkflowDefinition s1 = may_see a WorkflowDefinition s"
      by (rule ext) (simp add: s1 may_see_def shared_ids_def get_accepted_resources_def)
    moreover have "may_see a WorkflowDefinition s ?y" by (simp add: may_see_def empty_object_def)
    ultimately have "secure_query a WorkflowDefinition s1 = secure_query a WorkflowDefinition s @ [?y]"
      by (simp add: s1 secure_query_def)
    moreover have "find (\<lambda>z. ob_id z = ob_id x \<or> (ob_name z = ob_id x \<and> ob_namespace z = [])) (secure_query a WorkflowDefinition s) = None"
      using assms(5) by (auto simp: find_None_iff filter_empty_conv found_for_def)
    ultimately show ?thesis by (simp add: find_in_append empty_object_def)
  qed
  then have "get_workflow_def a (ob_id x) (Some []) s1 = Inr ?y"
    using assms(1) by (simp add: get_workflow_def_def get_db_object_by_name_and_namespace_or_id_def db_query_def overrides_def ordinary_def found_def)
  then have s2: "s2 = s1\<lparr>rd_members := rd_members s @ [\<lparr>rm_resource_id = ob_id x, rm_resource_type = ''workflow'', rm_project = get_project_id a,
      rm_member_id = get_project_id b, rm_status = ''pending''\<rparr>]\<rparr>"
    using assms(1,3,8,10) by (auto simp: share_resource_def create_resource_member_def ordinary_def same_membership_def s1 empty_object_def)
  have "find (\<lambda>r. rm_resource_type r = ''workflow'' \<and> meets (get_criterion b (ob_id x) (Some (get_project_id b)) False) r) (rd_members s) = None"
    using assms(8) by (auto simp: find_None_iff meets_def get_criterion_def image_iff)
  then have "may_see b WorkflowDefinition s3 x"
    using assms(2,11) s2 by (simp add: set_member_status_def update_resource_member_def find_in_append meets_def get_criterion_def
        ordinary_def may_see_def shared_ids_def resource_mapping_def get_accepted_resources_def same_membership_def)
  moreover have "rd_objects s3 = rd_objects s1" using assms(11) s2 by (simp add: s1)
  ultimately show ?thesis using hidden[OF assms(4)] assms(4) by (simp add: s1 found_for_def may_see_def)
qed

text \<open>A private workflow of one project, and what another project does.\<close>

definition secret_rows :: resource_db where
  "secret_rows = no_rows\<lparr>rd_objects := (\<lambda>_. [(plain_object ''1'' ''wf'' ''p'')\<lparr>ob_scope := ''private''\<rparr>])\<rparr>"

theorem name_like_identifier_witness:
  "may_see (user_of ''q'') WorkflowDefinition
     (run_access (user_of ''q'') (SetMemberStatus ''workflow'' ''1'' ''q'' ''accepted'')
       (run_access (user_of ''q'') (ShareResource ''workflow'' ''1'' ''q'')
         (run_access (user_of ''q'') (CreateWorkflowDefinition ''2'' [(''name'', VStr ''1'')]) secret_rows)))
     ((plain_object ''1'' ''wf'' ''p'')\<lparr>ob_scope := ''private''\<rparr>)"
  using name_like_identifier[of "user_of ''q''" "user_of ''q''" "(plain_object ''1'' ''wf'' ''p'')\<lparr>ob_scope := ''private''\<rparr>" secret_rows "''2''", OF _ _ _ _ _ _ _ _ refl refl refl]
  by (simp del: run_access.simps add: secret_rows_def no_rows_def plain_object_def user_of_def ordinary_def get_project_id_def found_for_def
      secure_query_def may_see_def shared_ids_def resource_mapping_def get_accepted_resources_def)

text \<open>
  C40. Nobody can accept an invitation for somebody else: whatever an ordinary user requests, the
  resources that are shared with any other project do not grow.
\<close>

theorem sharing_needs_consent:
  assumes "ordinary a" "get_project_id p \<noteq> get_project_id a"
  shows "set (shared_ids p m (run_access a r s)) \<subseteq> set (shared_ids p m s)"
  using assms accepted_only_by_member[of _ a r s]
  by (fastforce simp: shared_ids_def get_accepted_resources_def split: option.splits)

theorem sharing_needs_consent_witness:
  "shared_ids (user_of ''r'') WorkflowDefinition
     (run_access (user_of ''q'') (SetMemberStatus ''workflow'' ''1'' ''r'' ''accepted'') shared_rows) = []"
  using sharing_needs_consent[of "user_of ''q''" "user_of ''r''" WorkflowDefinition "SetMemberStatus ''workflow'' ''1'' ''r'' ''accepted''" shared_rows]
  by (simp del: run_access.simps add: user_of_def ordinary_def get_project_id_def shared_ids_def resource_mapping_def get_accepted_resources_def shared_rows_eval)

text \<open>
  Environments and workbooks are not protected in this way: a request to delete an environment by
  name removes every environment of that name that the user can see, those that other projects made
  public included.
\<close>

theorem public_environments_deletable:
  assumes "x \<in> set (rd_objects s Environment)" "ob_scope x = ''public''"
  shows "fst (delete_environment a (ob_name x) s) = Inr () \<and>
    x \<notin> set (rd_objects (snd (delete_environment a (ob_name x) s)) Environment)"
  using assms by (auto simp: delete_environment_def delete_secure_def secure_query_def may_see_def remove_objects_def filter_empty_conv)

theorem public_environments_deletable_witness:
  "plain_object ''1'' ''e'' ''p'' \<notin> set (rd_objects (snd (delete_environment (user_of ''q'') ''e''
     (no_rows\<lparr>rd_objects := (\<lambda>_. [plain_object ''1'' ''e'' ''p''])\<rparr>))) Environment)"
  using public_environments_deletable[of "plain_object ''1'' ''e'' ''p''" "no_rows\<lparr>rd_objects := (\<lambda>_. [plain_object ''1'' ''e'' ''p''])\<rparr>"]
  by (simp add: plain_object_def)

end
