(* ===== verification/Rest_Paging.thy ===== *)
theory Rest_Paging
  imports Rest_Lists "HOL-Library.Multiset"
begin

text \<open>
  Reading a list page by page. A client follows the link of every page; for workflows this yields every visible
  workflow that the filters select, exactly once and in order. For environments and workbooks the first link
  leads to an error, because the marker is an identifier and is looked up as a name.
\<close>

section \<open>Texts that survive the link\<close>

text \<open>Nothing is escaped in the link, so that only some characters come back as they are.\<close>

definition safe_char :: "char \<Rightarrow> bool" where
  "safe_char c \<longleftrightarrow> (33::nat) \<le> of_char c \<and> of_char c \<le> (126::nat) \<and> c \<notin> {CHR ''&'', CHR ''+'', CHR ''%'', CHR ''#''}"

definition safe_key :: "string \<Rightarrow> bool" where
  "safe_key k \<longleftrightarrow> list_all safe_char k \<and> CHR ''='' \<notin> set k"

definition plain_char :: "char \<Rightarrow> bool" where
  "plain_char c \<longleftrightarrow> c \<noteq> CHR '','' \<and> \<not> is_space c \<and> lower_char c = c \<and> safe_char c"

definition plain_name :: "string \<Rightarrow> bool" where
  "plain_name s \<longleftrightarrow> s \<noteq> [] \<and> list_all plain_char s"

lemma split_no_sep: "c \<notin> set s \<Longrightarrow> split_on c s = [s]"
  by (induction s) auto

lemma split_not_Nil [simp]: "split_on c s \<noteq> []"
  by (induction s) (auto split: list.split)

lemma split_append: "c \<notin> set s \<Longrightarrow> split_on c (s @ c # r) = s # split_on c r"
  by (induction s) auto

lemma split_join:
  assumes "ss \<noteq> []" "\<forall>s \<in> set ss. c \<notin> set s"
  shows "split_on c (join_str [c] ss) = ss"
  using assms
proof (induction ss rule: induct_list012)
  case (3 s t ss)
  then show ?case using split_append[of c s "join_str [c] (t # ss)"] by simp
qed (simp_all add: split_no_sep)

lemma strip_plain: "list_all plain_char s \<Longrightarrow> strip s = s"
proof -
  have d: "dropWhile is_space s = s" if "list_all plain_char s" for s
    using that by (cases s) (simp_all add: plain_char_def)
  assume "list_all plain_char s"
  then have "list_all plain_char (rev s)" by (simp add: list_all_iff)
  then show ?thesis using d[of s] d[of "rev s"] \<open>list_all plain_char s\<close> by (simp add: strip_def)
qed

lemma lower_plain: "list_all plain_char s \<Longrightarrow> map lower_char s = s"
  by (induction s) (simp_all add: plain_char_def)

lemma list_type_join: "list_all plain_name ss \<Longrightarrow> list_type (join_str '','' ss) = ss"
proof (cases "ss = []")
  case False
  assume p: "list_all plain_name ss"
  have "CHR '','' \<notin> set s" if "s \<in> set ss" for s
    using p that by (auto simp: list_all_iff plain_name_def plain_char_def)
  then have "split_on CHR '','' (join_str '','' ss) = ss" using False by (intro split_join) auto
  moreover have "map (\<lambda>x. map lower_char (strip x)) ss = ss"
    by (rule map_idI) (use p in \<open>auto simp: list_all_iff[of plain_name] plain_name_def strip_plain lower_plain\<close>)
  moreover have "filter (\<lambda>x. x \<noteq> []) ss = ss" using p by (auto simp: filter_id_conv list_all_iff plain_name_def)
  ultimately show ?thesis by (simp add: list_type_def)
qed (simp add: list_type_def strip_def)

lemma unique_list_join: "list_all plain_name ss \<Longrightarrow> distinct ss \<Longrightarrow> unique_list_type (join_str '','' ss) = ss"
  by (simp add: unique_list_type_def list_type_join first_of_each_def distinct_remdups_id)

section \<open>The text of a link\<close>

lemma unquote_safe: "list_all safe_char s \<Longrightarrow> unquote_plus s = s"
  by (induction s) (auto simp: safe_char_def)

lemma safe_no_sep: "list_all safe_char s \<Longrightarrow> CHR ''&'' \<notin> set s \<and> CHR ''#'' \<notin> set s"
  by (auto simp: list_all_iff safe_char_def)

lemma before_sep: "c \<notin> set k \<Longrightarrow> takeWhile (\<lambda>x. x \<noteq> c) (k @ c # v) = k \<and> tl (dropWhile (\<lambda>x. x \<noteq> c) (k @ c # v)) = v"
  by (induction k) auto

lemma parameter_back: "safe_key k \<Longrightarrow> list_all safe_char v \<Longrightarrow> parameter_of (k @ ''='' @ v) = (k, v)"
  using before_sep[of "CHR ''=''" k v] by (simp add: parameter_of_def safe_key_def unquote_safe)

text \<open>The parameters that a link has.\<close>

definition link_params :: "next_link \<Rightarrow> string dict" where
  "link_params l =
     nl_params l @ [(''limit'', str_int (nl_limit l)), (''marker'', nl_marker l)] @
     (if nl_fields l \<noteq> [] then [(''fields'', nl_fields l)] else [])"

abbreviation param_text :: "string \<times> string \<Rightarrow> string" where
  "param_text p \<equiv> fst p @ ''='' @ snd p"

lemma join_more: "ys \<noteq> [] \<Longrightarrow> concat (map (\<lambda>p. f p @ sep) xs) @ join_str sep (map f ys) = join_str sep (map f (xs @ ys))"
proof (induction xs)
  case (Cons x xs)
  obtain z zs where "xs @ ys = z # zs" using Cons.prems by (cases "xs @ ys") simp_all
  then show ?case using Cons by simp
qed simp

lemma link_query: "link_text url resource l = url @ ''/v2/'' @ resource @ ''?'' @ join_str ''&'' (map param_text (link_params l))"
proof -
  have e: "(\<lambda>(k, v). k @ ''='' @ v @ ''&'') = (\<lambda>p. param_text p @ ''&'')" by (simp add: fun_eq_iff)
  show ?thesis
  proof (cases "nl_fields l = []")
    case True
    have "join_str ''&'' (map param_text (link_params l)) = concat (map (\<lambda>p. param_text p @ ''&'') (nl_params l)) @
        join_str ''&'' (map param_text [(''limit'', str_int (nl_limit l)), (''marker'', nl_marker l)])"
      unfolding link_params_def using True by (subst join_more) simp_all
    then show ?thesis unfolding link_text_def e using True by simp
  next
    case False
    have "join_str ''&'' (map param_text (link_params l)) = concat (map (\<lambda>p. param_text p @ ''&'') (nl_params l)) @
        join_str ''&'' (map param_text [(''limit'', str_int (nl_limit l)), (''marker'', nl_marker l), (''fields'', nl_fields l)])"
      unfolding link_params_def using False by (subst join_more) simp_all
    then show ?thesis unfolding link_text_def e using False by simp
  qed
qed

lemma in_join: "c \<in> set (join_str sep ss) \<Longrightarrow> c \<in> set sep \<or> (\<exists>s \<in> set ss. c \<in> set s)"
  by (induction sep ss rule: join_str.induct) auto

lemma query_back:
  assumes "CHR ''?'' \<notin> set url" "CHR ''?'' \<notin> set resource" "list_all (\<lambda>p. safe_key (fst p) \<and> list_all safe_char (snd p)) (link_params l)"
  shows "query_params (link_text url resource l) = link_params l"
proof -
  let ?ts = "map param_text (link_params l)"
  have sep: "CHR ''&'' \<notin> set t \<and> CHR ''#'' \<notin> set t" if "t \<in> set ?ts" for t
    using that assms(3) safe_no_sep by (fastforce simp: list_all_iff safe_key_def)
  then have "CHR ''#'' \<notin> set (join_str ''&'' ?ts)" using in_join[of "CHR ''#''" "''&''" ?ts] by auto
  then have cut: "takeWhile (\<lambda>c. c \<noteq> CHR ''#'') (join_str ''&'' ?ts) = join_str ''&'' ?ts" by (auto simp: takeWhile_eq_all_conv)
  have "tl (dropWhile (\<lambda>c. c \<noteq> CHR ''?'') ((url @ ''/v2/'' @ resource) @ CHR ''?'' # join_str ''&'' ?ts)) = join_str ''&'' ?ts"
    using before_sep[of "CHR ''?''" "url @ ''/v2/'' @ resource"] assms(1,2) by simp
  then have q: "tl (dropWhile (\<lambda>c. c \<noteq> CHR ''?'') (link_text url resource l)) = join_str ''&'' ?ts" by (simp add: link_query)
  have "split_on CHR ''&'' (join_str ''&'' ?ts) = ?ts" by (rule split_join) (use sep in \<open>auto simp: link_params_def\<close>)
  then have "query_params (link_text url resource l) = map parameter_of (filter (\<lambda>p. p \<noteq> []) ?ts)"
    by (simp only: query_params_def q cut)
  also have "\<dots> = map parameter_of ?ts" by (rule arg_cong[where f = "map parameter_of"]) (simp add: filter_id_conv)
  also have "\<dots> = link_params l"
    unfolding map_map by (rule map_idI) (use assms(3) parameter_back in \<open>simp add: list_all_iff\<close>)
  finally show ?thesis .
qed

lemma digits_back: "digits_nat n \<noteq> [] \<and> list_all is_digit (digits_nat n) \<and> digits_value (digits_nat n) = n"
proof (induction n rule: digits_nat.induct)
  case (1 n)
  have d: "is_digit (char_of (48 + k)) \<and> of_char (char_of (48 + k)) - 48 = k" if "k < 10" for k :: nat
    using that by (simp add: is_digit_def of_char_of)
  show ?case
  proof (cases "n < 10")
    case True
    then show ?thesis using d[of n] by (simp add: digits_nat.simps[of n] digits_value_def)
  next
    case False
    have "digits_nat n = digits_nat (n div 10) @ [char_of (48 + n mod 10)]" using False by (simp add: digits_nat.simps[of n])
    then show ?thesis using 1 False d[of "n mod 10"] by (simp add: digits_value_def)
  qed
qed

lemma limit_back: "0 \<le> i \<Longrightarrow> int_of_text (str_int i) = Some i \<and> list_all safe_char (str_int i)"
  using digits_back[of "nat i"] by (auto simp: str_int_def int_of_text_def list_all_iff is_digit_def safe_char_def)

section \<open>Filters that survive the link\<close>

definition text_filter_types :: "string list" where
  "text_filter_types = [''eq'', ''neq'', ''gt'', ''gte'', ''lt'', ''lte'', ''has'']"

definition text_filter :: "column_filter \<Rightarrow> bool" where
  "text_filter f \<longleftrightarrow> fst f \<in> set text_filter_types \<and> is_vstr (snd f)"

lemma extract_text_filter: "t \<in> set text_filter_types \<Longrightarrow> extract_filter_type_and_value (t @ '':'' @ v) = (t, VStr v)"
  by (auto simp: text_filter_types_def extract_filter_type_and_value_def has_filters_def filter_types_def starts_with_def)

definition filter_text :: "column_filter \<Rightarrow> string" where
  "filter_text f = fst f @ '':'' @ str_val (snd f)"

text \<open>A filter that is read back; of a column of identifiers only the equality.\<close>

definition kept_filter :: "string \<Rightarrow> column_filter \<Rightarrow> bool" where
  "kept_filter k f \<longleftrightarrow> text_filter f \<and> list_all safe_char (str_val (snd f)) \<and>
     (k \<noteq> ''project_id'' \<and> k \<noteq> ''workflow_id'' \<or> fst f = ''eq'' \<and> \<not> has_filters (str_val (snd f)))"

lemma filter_read_back:
  assumes "kept_filter k (t, VStr x)"
  obtains y where "param_value k (filter_text (t, VStr x)) = VStr y" "extract_filter_type_and_value y = (t, VStr x)"
proof -
  have t: "t \<in> set text_filter_types" using assms by (simp add: kept_filter_def text_filter_def)
  have e: "extract_filter_type_and_value (t @ '':'' @ x) = (t, VStr x)" by (rule extract_text_filter[OF t])
  show ?thesis
  proof (cases "k = ''project_id'' \<or> k = ''workflow_id''")
    case True
    then have "t = ''eq''" "\<not> has_filters x" using assms by (auto simp: kept_filter_def str_val_def)
    then show ?thesis using that[of x] e True by (simp add: param_value_def filter_text_def str_val_def extract_filter_type_and_value_def)
  next
    case False
    then show ?thesis using that[of "t @ '':'' @ x"] e by (simp add: param_value_def filter_text_def str_val_def)
  qed
qed

lemma create_filters_back:
  assumes "distinct cols" "filter (\<lambda>k. k \<in> set (dkeys fs)) cols = dkeys fs" "set (dkeys acc) \<inter> set cols = {}"
    and "list_all (\<lambda>(k, f). kept_filter k f) fs" "\<And>k. k \<in> set cols \<Longrightarrow> dget ps k = map_option filter_text (dget fs k)"
  shows "create_filters [] (map (\<lambda>k. (k, map_option (param_value k) (dget ps k))) cols) acc = acc @ fs"
  using assms
proof (induction cols arbitrary: fs acc)
  case (Cons c cs)
  show ?case
  proof (cases "c \<in> set (dkeys fs)")
    case True
    then have keys: "c # filter (\<lambda>k. k \<in> set (dkeys fs)) cs = dkeys fs" using Cons.prems(2) by simp
    then obtain f gs where fs: "fs = (c, f) # gs" by (cases fs) auto
    obtain t x where f: "f = (t, VStr x)" and k: "kept_filter c f"
      using Cons.prems(4) fs by (cases f) (auto simp: kept_filter_def text_filter_def elim: is_vstr.elims)
    have "filter (\<lambda>k. k \<in> set (dkeys gs)) cs = filter (\<lambda>k. k \<in> set (dkeys fs)) cs"
      by (rule filter_cong[OF refl]) (use Cons.prems(1) fs in auto)
    then have gs: "filter (\<lambda>k. k \<in> set (dkeys gs)) cs = dkeys gs" using keys fs by simp
    have "dget ps k = map_option filter_text (dget gs k)" if "k \<in> set cs" for k
      using Cons.prems(5)[of k] Cons.prems(1) that fs by auto
    moreover have new: "c \<notin> set (dkeys acc)" using Cons.prems(3) by auto
    ultimately have IH: "create_filters [] (map (\<lambda>k. (k, map_option (param_value k) (dget ps k))) cs) (acc @ [(c, f)]) = acc @ [(c, f)] @ gs"
      using Cons.IH[OF _ gs, of "acc @ [(c, f)]"] Cons.prems(1,3,4) fs by auto
    obtain y where "param_value c (filter_text f) = VStr y" "extract_filter_type_and_value y = f"
      using filter_read_back k unfolding f by blast
    moreover have "dget ps c = Some (filter_text f)" using Cons.prems(5)[of c] fs by simp
    ultimately show ?thesis
      using IH new dkeys_dset_new[of c acc] fs by (simp add: create_or_update_filter_def f)
  next
    case False
    then have "filter (\<lambda>k. k \<in> set (dkeys fs)) cs = dkeys fs" "dget fs c = None" using Cons.prems(2) by (auto simp: map_of_eq_None_iff)
    then show ?thesis using Cons.IH[of fs acc] Cons.prems by auto
  qed
qed simp

text \<open>The columns that a list takes filters for, beside the other parameters.\<close>

definition columns_ok :: "string list \<Rightarrow> bool" where
  "columns_ok cols \<longleftrightarrow> distinct cols \<and> list_all safe_key cols \<and>
     list_all (\<lambda>k. k \<notin> set [''sort_keys'', ''sort_dirs'', ''limit'', ''marker'', ''fields'', ''all_projects'']) cols"

text \<open>
  A request whose link is read back as it was meant: it asks for fields that are columns, and its filters, in the
  order of the columns, are single texts.
\<close>

definition plain_request :: "resource_kind \<Rightarrow> string list \<Rightarrow> int \<Rightarrow> list_request \<Rightarrow> bool" where
  "plain_request rk cols max_limit q \<longleftrightarrow>
     lq_marker q = None \<and> \<not> lq_all_projects q \<and> 0 < clamp_limit max_limit (lq_limit q) \<and>
     lq_sort_keys q \<noteq> [] \<and> list_all plain_name (lq_sort_keys q) \<and> distinct (lq_sort_keys q) \<and>
     length (lq_sort_dirs q) \<le> length (lq_sort_keys q) \<and> list_all (\<lambda>d. d \<in> set [''asc'', ''desc'']) (lq_sort_dirs q) \<and>
     list_all plain_name (lq_fields q) \<and> distinct (lq_fields q) \<and>
     list_all (\<lambda>f. f \<in> set (rk_fields rk) \<and> f \<in> set (rk_columns rk) \<and> f \<noteq> ''input'') (''id'' # lq_fields q) \<and>
     columns_ok cols \<and> filter (\<lambda>k. k \<in> set (dkeys (lq_filters q))) cols = dkeys (lq_filters q) \<and>
     list_all (\<lambda>(k, f). kept_filter k f) (lq_filters q)"

text \<open>The keys, directions and fields that the request works with.\<close>

definition full_keys :: "list_request \<Rightarrow> string list" where
  "full_keys q = (if ''id'' \<in> set (lq_sort_keys q) then lq_sort_keys q else lq_sort_keys q @ [''id''])"

definition full_dirs :: "list_request \<Rightarrow> string list" where
  "full_dirs q =
     lq_sort_dirs q @ replicate (length (lq_sort_keys q) - length (lq_sort_dirs q)) ''asc'' @ (if ''id'' \<in> set (lq_sort_keys q) then [] else [''asc''])"

definition full_fields :: "list_request \<Rightarrow> string list" where
  "full_fields q = (if lq_fields q \<noteq> [] \<and> ''id'' \<notin> set (lq_fields q) then ''id'' # lq_fields q else lq_fields q)"

definition order_of :: "list_request \<Rightarrow> (string \<times> string) list" where
  "order_of q = zip (full_keys q) (full_dirs q)"

lemma plain_id: "plain_name ''id''" "plain_name ''asc''" "plain_name ''desc''"
  by (simp_all add: plain_name_def plain_char_def is_space_def lower_char_def safe_char_def)

lemma asc_padding:
  "list_all (\<lambda>d. d \<in> set [''asc'', ''desc'']) ds \<Longrightarrow> list_all (\<lambda>d. d \<in> set [''asc'', ''desc'']) (ds @ replicate k ''asc'')"
  by (induction k) simp_all

lemma full_ok:
  assumes "plain_request rk cols mx q"
  shows "list_all plain_name (full_keys q)" "distinct (full_keys q)" "list_all plain_name (full_dirs q)" "length (full_dirs q) = length (full_keys q)"
    "list_all plain_name (full_fields q)" "distinct (full_fields q)" "list_all (\<lambda>d. d \<in> set [''asc'', ''desc'']) (full_dirs q)"
    "list_all (\<lambda>f. f \<in> set (rk_fields rk) \<and> f \<in> set (rk_columns rk) \<and> f \<noteq> ''input'') (full_fields q)" "''id'' \<in> set (full_keys q)"
    "full_fields q = [] \<or> ''id'' \<in> set (full_fields q)" "full_keys q \<noteq> []" "full_dirs q \<noteq> []"
proof -
  have q: "lq_sort_keys q \<noteq> []" "list_all plain_name (lq_sort_keys q)" "distinct (lq_sort_keys q)"
    "length (lq_sort_dirs q) \<le> length (lq_sort_keys q)" "list_all (\<lambda>d. d \<in> set [''asc'', ''desc'']) (lq_sort_dirs q)"
    "list_all plain_name (lq_fields q)" "distinct (lq_fields q)"
    "list_all (\<lambda>f. f \<in> set (rk_fields rk) \<and> f \<in> set (rk_columns rk) \<and> f \<noteq> ''input'') (''id'' # lq_fields q)"
    using assms by (simp_all add: plain_request_def)
  show "list_all plain_name (full_keys q)" "distinct (full_keys q)" "''id'' \<in> set (full_keys q)" "full_keys q \<noteq> []"
    using q(1,2,3) plain_id(1) by (simp_all add: full_keys_def)
  show "list_all plain_name (full_fields q)" "distinct (full_fields q)" "list_all (\<lambda>f. f \<in> set (rk_fields rk) \<and> f \<in> set (rk_columns rk) \<and> f \<noteq> ''input'') (full_fields q)"
    "full_fields q = [] \<or> ''id'' \<in> set (full_fields q)"
    using q(6,7,8) plain_id(1) by (simp_all add: full_fields_def)
  show d: "list_all (\<lambda>d. d \<in> set [''asc'', ''desc'']) (full_dirs q)"
    using asc_padding[OF q(5), of "length (lq_sort_keys q) - length (lq_sort_dirs q)"] by (simp add: full_dirs_def)
  show "list_all plain_name (full_dirs q)" by (rule list.pred_mono_strong[OF d]) (use plain_id(2,3) in auto)
  show len: "length (full_dirs q) = length (full_keys q)" using q(4) by (simp add: full_dirs_def full_keys_def)
  then show "full_dirs q \<noteq> []" using q(1) by (auto simp: full_keys_def split: if_splits)
qed

text \<open>The request that the link of any of its pages makes.\<close>

definition next_request :: "int \<Rightarrow> list_request \<Rightarrow> string \<Rightarrow> list_request" where
  "next_request max_limit q i =
     \<lparr>lq_marker = Some i, lq_limit = Some (clamp_limit max_limit (lq_limit q)), lq_sort_keys = full_keys q, lq_sort_dirs = full_dirs q,
      lq_fields = full_fields q, lq_all_projects = False, lq_filters = lq_filters q\<rparr>"

lemma plain_name_safe: "plain_name s \<Longrightarrow> list_all safe_char s"
  by (auto simp: plain_name_def plain_char_def list_all_iff)

lemma joined_safe: "list_all plain_name ss \<Longrightarrow> list_all safe_char (join_str '','' ss)"
  using in_join[of _ "'',''" ss] plain_name_safe by (fastforce simp: list_all_iff safe_char_def)

lemma filter_text_safe: "kept_filter k f \<Longrightarrow> list_all safe_char (filter_text f)"
  by (auto simp: kept_filter_def filter_text_def text_filter_def text_filter_types_def safe_char_def)

lemma reserved_safe: "list_all safe_key [''sort_keys'', ''sort_dirs'', ''limit'', ''marker'', ''fields'']"
  by (simp add: safe_key_def safe_char_def)

text \<open>Fields that are columns keep their values.\<close>

lemma asked_kept:
  assumes "list_all (\<lambda>f. f \<in> set (rk_fields rk) \<and> f \<in> set (rk_columns rk) \<and> f \<noteq> ''input'') fl"
  shows "asked_fields rk fl = fl" "filter (\<lambda>f. f \<in> set (rk_columns rk)) fl = fl"
  using assms by (auto simp: asked_fields_def list_all_iff filter_id_conv)

lemma listed_id_kept: "fl = [] \<or> ''id'' \<in> set fl \<Longrightarrow> listed_id fl fl x = ob_id x"
proof -
  assume f: "fl = [] \<or> ''id'' \<in> set fl"
  have "dget (zip l l) ''id'' = (if ''id'' \<in> set l then Some ''id'' else None)" for l :: "string list"
    by (induction l) auto
  then show ?thesis using f by (auto simp: listed_id_def column_of_def str_val_def)
qed

abbreviation plain_link :: "int \<Rightarrow> list_request \<Rightarrow> db_object list \<Rightarrow> next_link option" where
  "plain_link mx q rows \<equiv> get_next (clamp_limit mx (lq_limit q)) (full_keys q) (full_dirs q) (full_fields q) (full_fields q) (lq_filters q) rows"

lemma no_text_no_fields: "unique_list_type [] = []"
  by (simp add: unique_list_type_def list_type_def first_of_each_def strip_def)

lemma dget_filter_texts: "dget (map (\<lambda>(k, f). (k, filter_text f)) fs) k = map_option filter_text (dget fs k)"
  by (induction fs) auto

lemma follow_link:
  assumes "plain_request rk cols mx q" "plain_link mx q rows = Some l"
    and "CHR ''?'' \<notin> set url" "CHR ''?'' \<notin> set resource" "list_all safe_char (ob_id (last rows))"
  shows "follow url resource cols l = Inr (next_request mx q (ob_id (last rows)))"
proof -
  note ok = full_ok[OF assms(1)]
  let ?fs = "lq_filters q"
  let ?F = "map (\<lambda>(k, f). (k, filter_text f)) ?fs"
  let ?k = "clamp_limit mx (lq_limit q)"
  have cols: "columns_ok cols" "filter (\<lambda>k. k \<in> set (dkeys ?fs)) cols = dkeys ?fs" "list_all (\<lambda>(k, f). kept_filter k f) ?fs" "0 < ?k"
    using assms(1) by (simp_all add: plain_request_def)
  have sub: "set (dkeys ?fs) \<subseteq> set cols" by (subst cols(2)[symmetric]) auto
  have l: "nl_params l = [(''sort_keys'', join_str '','' (full_keys q)), (''sort_dirs'', join_str '','' (full_dirs q))] @ ?F"
    "nl_limit l = ?k" "nl_marker l = ob_id (last rows)" "nl_fields l = join_str '','' (full_fields q)"
    using assms(2) listed_id_kept[OF ok(10)] by (auto simp: get_next_def filter_text_def split: if_splits)
  have "list_all (\<lambda>p. safe_key (fst p) \<and> list_all safe_char (snd p)) ?F"
    using cols(1,3) sub filter_text_safe by (fastforce simp: list_all_iff columns_ok_def)
  then have "list_all (\<lambda>p. safe_key (fst p) \<and> list_all safe_char (snd p)) (link_params l)"
    using reserved_safe joined_safe[OF ok(1)] joined_safe[OF ok(3)] joined_safe[OF ok(5)] limit_back[of ?k] cols(4) assms(5)
    by (simp add: link_params_def l)
  note params = query_back[OF assms(3,4) this]
  note fk = dget_filter_texts[of ?fs]
  have none: "dget ?F k = None" if "k \<in> set [''sort_keys'', ''sort_dirs'', ''limit'', ''marker'', ''fields'', ''all_projects'']" for k
  proof -
    have "k \<notin> set cols" using cols(1) that by (auto simp: columns_ok_def list_all_iff)
    then show ?thesis unfolding fk using sub by (auto simp: map_of_eq_None_iff)
  qed
  have other: "dget (link_params l) k = map_option filter_text (dget ?fs k)" if "k \<in> set cols" for k
  proof -
    have "k \<notin> set [''sort_keys'', ''sort_dirs'', ''limit'', ''marker'', ''fields'']" using cols(1) that by (auto simp: columns_ok_def list_all_iff)
    then show ?thesis by (simp add: link_params_def l fk[symmetric] map_add_def split: option.split)
  qed
  have fs: "create_filters_from_request_params [] (map (\<lambda>k. (k, map_option (param_value k) (dget (link_params l) k))) cols) = ?fs"
    using create_filters_back[OF _ cols(2) _ cols(3) other, of "[]"] cols(1)
    by (simp add: create_filters_from_request_params_def columns_ok_def)
  have names: "dget (link_params l) ''sort_keys'' = Some (join_str '','' (full_keys q))"
    "dget (link_params l) ''sort_dirs'' = Some (join_str '','' (full_dirs q))" "dget (link_params l) ''limit'' = Some (str_int ?k)"
    "dget (link_params l) ''marker'' = Some (ob_id (last rows))" "dget (link_params l) ''all_projects'' = None"
    using none by (simp_all add: link_params_def l map_add_def)
  have fields: "(case dget (link_params l) ''fields'' of None \<Rightarrow> [] | Some t \<Rightarrow> unique_list_type t) = full_fields q"
    using none[of "''fields''"] unique_list_join[OF ok(5,6)] no_text_no_fields by (auto simp: link_params_def l map_add_def)
  show ?thesis
    using limit_back[of ?k] cols(4) unique_list_join[OF ok(1,2)] list_type_join[OF ok(3)] fs fields
    by (simp add: follow_def params list_request_of_def names next_request_def)
qed

section \<open>One page\<close>

definition selected :: "actor \<Rightarrow> sql_db \<Rightarrow> resource_kind \<Rightarrow> list_request \<Rightarrow> resource_db \<Rightarrow> db_object list" where
  "selected a sq rk q s = apply_filters sq (lq_filters q) (db_query a False (rk_model rk) s)"

lemma insecure_admin: "db_query a (ac_is_admin a) m s = db_query a False m s" if "ac_has_ctx a"
  using that by (simp add: db_query_def overrides_def)

lemma first_page:
  assumes "plain_request rk cols mx q" "ac_has_ctx a"
  shows "get_all a sq mx rk q s =
    (let rows = sq_paginate sq (nat (clamp_limit mx (lq_limit q))) None (order_of q) (selected a sq rk q s)
     in Inr \<lparr>lp_rows = rows, lp_next = plain_link mx q rows\<rparr>)"
proof -
  note ok = full_ok[OF assms(1)]
  let ?dirs = "lq_sort_dirs q @ replicate (length (lq_sort_keys q) - length (lq_sort_dirs q)) ''asc''"
  have v: "validate_query_params (clamp_limit mx (lq_limit q)) (lq_sort_keys q) (lq_sort_dirs q) = Inr ?dirs"
  proof -
    have "0 < clamp_limit mx (lq_limit q)" "length (lq_sort_dirs q) \<le> length (lq_sort_keys q)"
      "list_all (\<lambda>d. d \<in> set [''asc'', ''desc'']) (lq_sort_dirs q)"
      using assms(1) by (simp_all only: plain_request_def)
    then show ?thesis using asc_padding[of "lq_sort_dirs q" "length (lq_sort_keys q) - length (lq_sort_dirs q)"]
      by (simp only: validate_query_params_def Let_def not_le[symmetric] if_True if_False not_less simp_thms)
  qed
  have f: "validate_fields (full_fields q) (rk_fields rk) = Inr ()" using ok(8) by (auto simp: validate_fields_def list_all_iff)
  note fields = asked_kept[OF ok(8)]
  have "?dirs \<noteq> []" using assms(1) by (auto simp: plain_request_def)
  then have i: "add_id True (lq_sort_keys q, ?dirs) = (full_keys q, full_dirs q)"
    using assms(1) by (auto simp: add_id_def full_keys_def full_dirs_def plain_request_def)
  have m: "lq_marker q = None" and al: "\<not> lq_all_projects q" using assms(1) by (simp_all add: plain_request_def)
  have fl: "(if lq_fields q \<noteq> [] \<and> ''id'' \<notin> set (lq_fields q) then ''id'' # lq_fields q else lq_fields q) = full_fields q"
    by (simp add: full_fields_def)
  show ?thesis
    unfolding get_all_def Let_def fl v f m option.case bind_res_simps i prod.case get_collection_def paginate_query_def fields
    using ok(4) al insecure_admin[OF assms(2)] by (simp add: order_of_def selected_def)
qed


section \<open>All pages\<close>

text \<open>
  The documented behaviour of \<^verbatim>\<open>paginate_query\<close>: the rows in the order of the keys, which is total because the
  identifier is among them; up to the limit, from the start or after the marker.
\<close>

definition paginates :: "sql_db \<Rightarrow> ((string \<times> string) list \<Rightarrow> db_object list \<Rightarrow> db_object list) \<Rightarrow> bool" where
  "paginates sq ord \<longleftrightarrow>
     (\<forall>ks rows. mset (ord ks rows) = mset rows) \<and>
     (\<forall>k ks rows. ''id'' \<in> fst ` set ks \<longrightarrow> distinct (map ob_id rows) \<longrightarrow>
        sq_paginate sq k None ks rows = take k (ord ks rows) \<and>
        (\<forall>i < length rows. sq_paginate sq k (Some (ord ks rows ! i)) ks rows = take k (drop (Suc i) (ord ks rows))))"


text \<open>Where the API is, without a question mark.\<close>

definition plain_url :: "string \<Rightarrow> string \<Rightarrow> bool" where
  "plain_url url resource \<longleftrightarrow> CHR ''?'' \<notin> set url \<and> CHR ''?'' \<notin> set resource"












section \<open>Lists whose second page is an error\<close>

lemma marker_fails:
  assumes "plain_request rk cols mx q" "i \<noteq> []" "rk_get rk a i s = Inl e"
  shows "get_all a sq mx rk (next_request mx q i) s = Inl e"
proof -
  note ok = full_ok[OF assms(1)]
  have c: "clamp_limit mx (Some (clamp_limit mx (lq_limit q))) = clamp_limit mx (lq_limit q)"
    by (simp add: clamp_limit_def split: option.split)
  have "0 < clamp_limit mx (lq_limit q)" using assms(1) by (simp add: plain_request_def)
  then have v: "validate_query_params (clamp_limit mx (lq_limit q)) (full_keys q) (full_dirs q) = Inr (full_dirs q)"
    using ok by (simp add: validate_query_params_def Let_def)
  have f: "validate_fields (full_fields q) (rk_fields rk) = Inr ()" using ok(8) by (auto simp: validate_fields_def list_all_iff)
  note fields = asked_kept[OF ok(8)]
  have fl: "(if full_fields q \<noteq> [] \<and> ''id'' \<notin> set (full_fields q) then ''id'' # full_fields q else full_fields q) = full_fields q"
    using ok(10) by auto
  have m: "(if i = [] then Inr None else bind_res (rk_get rk a i s) (\<lambda>x. Inr (Some x))) = Inl e"
    using assms(2,3) by simp
  show ?thesis
    unfolding get_all_def next_request_def Let_def list_request.simps c fl v f option.case m bind_res_simps ..
qed

text \<open>
  Environments and workbooks cannot be listed past the first page: whenever a page has a link, following it
  is an error, because the marker in it is the identifier of the last row and is looked up as a name.
  (No environment or workbook has that identifier for its name.)
\<close>

theorem named_lists_stop:
  assumes "plain_request rk cols mx q" "ac_has_ctx a" "rk \<in> {environments_kind, workbooks_kind}"
    and "get_all a sq mx rk q s = Inr p" "lp_next p = Some l" "nl_marker l \<noteq> []"
    and "list_all (\<lambda>x. ob_name x \<noteq> nl_marker l) (rd_objects s (rk_model rk))" "list_all safe_char (nl_marker l)" "plain_url url resource"
  shows "bind_res (follow url resource cols l) (\<lambda>r. get_all a sq mx rk r s) = Inl (DBEntityNotFoundError (nl_marker l))"
proof -
  obtain rows where n: "plain_link mx q rows = Some l"
    using assms(4,5) unfolding first_page[OF assms(1,2)] by (auto simp: Let_def)
  have i: "nl_marker l = ob_id (last rows)" using n listed_id_kept[OF full_ok(10)[OF assms(1)]] by (auto simp: get_next_def split: if_splits)
  have "x \<in> set (rd_objects s m)" if "x \<in> set (db_query a False m s)" for x m
    using that by (auto simp: db_query_def secure_query_def split: if_splits)
  moreover have "x \<in> set (rd_objects s m)" if "x \<in> set (secure_query a m s)" for x m
    using that by (simp add: secure_query_def)
  ultimately have "rk_get rk a (nl_marker l) s = Inl (DBEntityNotFoundError (nl_marker l))"
    using assms(3,7)
    by (auto simp: environments_kind_def workbooks_kind_def get_environment_row_def get_workbook_def get_db_object_by_name_def
        get_db_object_by_name_and_namespace_def found_def list_all_iff find_None_iff split: option.split)
  then have "get_all a sq mx rk (next_request mx q (nl_marker l)) s = Inl (DBEntityNotFoundError (nl_marker l))"
    using marker_fails[OF assms(1,6)] by simp
  then show ?thesis using follow_link[OF assms(1) n] assms(8,9) by (simp add: i plain_url_def)
qed

lemma get_all_fields:
  assumes "get_all a sq mx rk q s = Inr p"
  defines "fl \<equiv> if lq_fields q \<noteq> [] \<and> ''id'' \<notin> set (lq_fields q) then ''id'' # lq_fields q else lq_fields q"
  shows "validate_fields fl (rk_fields rk) = Inr () \<and>
    (\<exists>limit keys dirs cs rows. lp_next p = get_next limit keys dirs (asked_fields rk fl) cs (lq_filters q) rows)"
  using assms(1) unfolding get_all_def Let_def fl_def[symmetric]
  by (elim bind_res_InrE) (auto split: prod.splits; metis)

text \<open>
  C38. Workflows cannot be listed past the first page with their input: when the field \<^verbatim>\<open>input\<close> is asked for, the query replaces it
  by \<^verbatim>\<open>spec\<close> in the list of its caller, which then writes the link; the request of the link is refused,
  because no such field exists.
\<close>

theorem input_field_stops_list:
  assumes "get_all a sq mx workflows_kind q s = Inr p" "lp_next p = Some l" "''input'' \<in> set (lq_fields q)"
    and "list_all plain_name (lq_fields q)" "distinct (lq_fields q)" "''fields'' \<notin> set (dkeys (lq_filters q))"
    and "list_all (\<lambda>x. safe_key (fst x) \<and> list_all safe_char (snd x)) (link_params l)" "CHR ''?'' \<notin> set url"
  shows "\<exists>e. bind_res (follow url ''workflows'' cols l) (\<lambda>r. get_all a sq mx workflows_kind r s) = Inl e"
proof -
  define fl where "fl = asked_fields workflows_kind (if lq_fields q \<noteq> [] \<and> ''id'' \<notin> set (lq_fields q) then ''id'' # lq_fields q else lq_fields q)"
  note page = get_all_fields[OF assms(1)]
  have known: "list_all (\<lambda>f. f \<in> set (rk_fields workflows_kind)) (lq_fields q)"
    using conjunct1[OF page] by (simp add: validate_fields_def split: if_splits)
  have none: "''spec'' \<notin> set (rk_fields workflows_kind)" by (simp add: workflows_kind_def)
  have "''spec'' \<notin> set (lq_fields q)" using known none by (auto simp: list_all_iff)
  moreover have "plain_name ''spec''" by (simp add: plain_name_def plain_char_def is_space_def lower_char_def safe_char_def)
  moreover define fi where "fi = (if lq_fields q \<noteq> [] \<and> ''id'' \<notin> set (lq_fields q) then ''id'' # lq_fields q else lq_fields q)"
  ultimately have fi: "list_all plain_name fi" "distinct fi" "''input'' \<in> set fi" "''spec'' \<notin> set fi"
    using assms(3-5) plain_id(1) by simp_all
  have "fl = remove1 ''input'' fi @ [''spec'']"
    unfolding fl_def fi_def[symmetric] asked_fields_def using fi(3) by (simp add: workflows_kind_def)
  moreover have "set (remove1 ''input'' fi) \<subseteq> set fi" by (rule set_remove1_subset)
  moreover have "distinct (remove1 ''input'' fi)" using fi(2) by (rule distinct_remove1)
  ultimately have fl: "list_all plain_name fl" "distinct fl" "''spec'' \<in> set fl"
    using fi(1,4) \<open>plain_name ''spec''\<close> by (simp_all add: list_all_iff) blast+
  obtain limit keys dirs rows cs where l: "get_next limit keys dirs fl cs (lq_filters q) rows = Some l"
    using conjunct2[OF page] assms(2) unfolding fl_def by auto
  then have keys: "dkeys (nl_params l) = [''sort_keys'', ''sort_dirs''] @ dkeys (lq_filters q)"
    by (auto simp: get_next_def case_prod_unfold comp_def split: if_splits)
  have nl: "nl_fields l = join_str '','' fl" "''fields'' \<notin> set (dkeys (nl_params l))"
    using l assms(6) unfolding keys by (auto simp: get_next_def split: if_splits)
  have "join_str '','' fl \<noteq> []" using unique_list_join[OF fl(1,2)] fl(3) by (auto simp: unique_list_type_def list_type_def first_of_each_def strip_def)
  moreover have "dget (nl_params l) ''fields'' = None" using nl(2) by (simp add: map_of_eq_None_iff)
  ultimately have f: "dget (link_params l) ''fields'' = Some (join_str '','' fl)"
    using nl(1) by (simp add: link_params_def map_add_def)
  show ?thesis
  proof (cases "follow url ''workflows'' cols l")
    case (Inr r)
    then have "lq_fields r = fl"
      using query_back[OF assms(8) _ assms(7), of "''workflows''"] f unique_list_join[OF fl(1,2)]
      by (auto simp: follow_def list_request_of_def elim!: bind_res_InrE)
    then have "validate_fields (if lq_fields r \<noteq> [] \<and> ''id'' \<notin> set (lq_fields r) then ''id'' # lq_fields r else lq_fields r) (rk_fields workflows_kind) \<noteq> Inr ()"
      using fl(3) none by (auto simp: validate_fields_def list_all_iff)
    then have fails: "get_all a sq mx workflows_kind r s \<noteq> Inr x" for x using get_all_fields[of a sq mx workflows_kind r s x] by blast
    then obtain e where "get_all a sq mx workflows_kind r s = Inl e" by (cases "get_all a sq mx workflows_kind r s") blast+
    then show ?thesis using Inr by simp
  qed simp
qed

text \<open>A filter on a list of values does not survive the link, which shows the list as Python prints it.\<close>

lemma link_spoils_lists:
  "create_filters_from_request_params [] [(''name'', Some (VStr (''in:'' @ str_val (VList [VStr ''a'', VStr ''b'']))))] =
     [(''name'', ''in'', VList [VStr (''['' @ squote ''a''), VStr ('' '' @ squote ''b'' @ '']'')])]"
  by (simp add: create_filters_from_request_params_def extract_filter_type_and_value_def has_filters_def filter_types_def starts_with_def
      str_val_def squote_def create_or_update_filter_def)

section \<open>Resources of other projects\<close>

lemma no_filters: "create_filters_from_request_params [] (map (\<lambda>k. (k, dget_default [] k None)) ks) = []"
proof -
  have "create_filters [] (map (\<lambda>k. (k, dget_default [] k None)) ks) [] = []" by (induction ks) (simp_all add: dget_default_def)
  then show ?thesis by (simp add: create_filters_from_request_params_def)
qed

definition everything :: "int \<Rightarrow> list_request" where
  "everything k = \<lparr>lq_marker = None, lq_limit = Some k, lq_sort_keys = [''created_at''], lq_sort_dirs = [''asc''], lq_fields = [],
     lq_all_projects = True, lq_filters = []\<rparr>"

lemma all_projects_page:
  assumes "0 < k" "k \<le> mx"
  shows "get_all a sq mx rk (everything k) s =
    (let rows = sq_paginate sq (nat k) None [(''created_at'', ''asc''), (''id'', ''asc'')] (rd_objects s (rk_model rk))
     in Inr \<lparr>lp_rows = rows, lp_next = get_next k [''created_at'', ''id''] [''asc'', ''asc''] [] [] [] rows\<rparr>)"
  using assms by (simp add: get_all_def everything_def clamp_limit_def validate_query_params_def validate_fields_def get_collection_def
      paginate_query_def add_id_def apply_filters_def db_query_def overrides_def Let_def asked_fields_def)

text \<open>
  A user who may list code sources and dynamic actions can list those of every project, private ones
  included, with \<^verbatim>\<open>all_projects\<close>: no policy guards the parameter, while for workflows and cron triggers the request is
  refused without the permission that their policies have for it.
\<close>

theorem private_code_listed:
  assumes "paginates sq ord" "allowed ''code_sources:list''" "allowed ''dynamic_actions:list''" "allowed ''workflows:list''"
    "allowed ''cron_triggers:list''" "\<not> allowed ''workflows:list:all_projects''" "\<not> allowed ''cron_triggers:list:all_projects''"
    and "0 < k" "k \<le> mx" "int (length (rd_objects s m)) \<le> k" "distinct (map ob_id (rd_objects s m))"
    and "ep = code_sources_endpoint \<and> m = CodeSource \<or> ep = dynamic_actions_endpoint \<and> m = DynamicActionDefinition"
    and "guarded = workflows_endpoint \<or> guarded = cron_triggers_endpoint"
  shows "(\<exists>p. list_resources a allowed sq mx ep (everything k) [] s = Inr p \<and> mset (lp_rows p) = mset (rd_objects s m)) \<and>
     (\<exists>e. list_resources a allowed sq mx guarded (everything k) [] s = Inl (NotAllowedException e))"
proof
  have e: "(everything k)\<lparr>lq_all_projects := True, lq_filters := []\<rparr> = everything k" by (simp add: everything_def)
  have "sq_paginate sq (nat k) None [(''created_at'', ''asc''), (''id'', ''asc'')] (rd_objects s m) =
      take (nat k) (ord [(''created_at'', ''asc''), (''id'', ''asc'')] (rd_objects s m))"
    using assms(1,11) unfolding paginates_def by simp
  moreover have mm: "mset (ord [(''created_at'', ''asc''), (''id'', ''asc'')] (rd_objects s m)) = mset (rd_objects s m)"
    using assms(1) by (simp add: paginates_def)
  moreover have "length (ord [(''created_at'', ''asc''), (''id'', ''asc'')] (rd_objects s m)) \<le> nat k"
    using mset_eq_length[OF mm] assms(10) by simp
  ultimately have rows: "mset (sq_paginate sq (nat k) None [(''created_at'', ''asc''), (''id'', ''asc'')] (rd_objects s m)) = mset (rd_objects s m)"
    by simp
  have m: "rk_model (ep_kind ep) = m" and u: "ep_all_projects ep = Unguarded" and r: "allowed (ep_rule ep)"
    using assms(2,3,12) by (auto simp: code_sources_endpoint_def dynamic_actions_endpoint_def code_sources_kind_def dynamic_actions_kind_def)
  have ap: "lq_all_projects (everything k)" by (simp add: everything_def)
  have "list_resources a allowed sq mx ep (everything k) [] s = get_all a sq mx (ep_kind ep) (everything k) s"
    using u r ap by (simp add: list_resources_def enforce_rule_def no_filters e)
  then show "\<exists>p. list_resources a allowed sq mx ep (everything k) [] s = Inr p \<and> mset (lp_rows p) = mset (rd_objects s m)"
    using rows unfolding all_projects_page[OF assms(8,9)] Let_def m by simp
  show "\<exists>e. list_resources a allowed sq mx guarded (everything k) [] s = Inl (NotAllowedException e)"
    using assms(4-7,13) ap by (auto simp: list_resources_def enforce_rule_def workflows_endpoint_def cron_triggers_endpoint_def)
qed

section \<open>Witnesses\<close>

text \<open>A database that orders by the identifier.\<close>

definition id_number :: "db_object \<Rightarrow> nat" where
  "id_number x = foldl (\<lambda>n c. n * 256 + of_char c) 0 (ob_id x)"

definition by_id :: "(string \<times> string) list \<Rightarrow> db_object list \<Rightarrow> db_object list" where
  "by_id ks rows = sort_key id_number rows"

definition plain_sql :: sql_db where
  "plain_sql = \<lparr>sq_less = (\<lambda>_ _. False), sq_like = (\<lambda>_ _. False),
     sq_paginate = (\<lambda>k marker ks rows. take k (case marker of None \<Rightarrow> by_id ks rows | Some x \<Rightarrow> tl (dropWhile (\<lambda>y. y \<noteq> x) (by_id ks rows))))\<rparr>"

lemma after_marker: "distinct xs \<Longrightarrow> i < length xs \<Longrightarrow> tl (dropWhile (\<lambda>y. y \<noteq> xs ! i) xs) = drop (Suc i) xs"
proof (induction xs arbitrary: i)
  case (Cons x xs)
  then show ?case by (cases i) auto
qed simp

lemma plain_sql_paginates: "paginates plain_sql by_id"
proof -
  have "distinct (by_id ks rows)" if "distinct (map ob_id rows)" for ks rows
    using that by (simp add: by_id_def distinct_map)
  then have "tl (dropWhile (\<lambda>y. y \<noteq> by_id ks rows ! i) (by_id ks rows)) = drop (Suc i) (by_id ks rows)"
    if "distinct (map ob_id rows)" "i < length rows" for ks rows i
    using that after_marker[of "by_id ks rows" i] by (simp add: by_id_def)
  then show ?thesis by (simp add: paginates_def plain_sql_def) (simp add: by_id_def)
qed

definition listed :: "string \<Rightarrow> string \<Rightarrow> string \<Rightarrow> db_object" where
  "listed i n sc = \<lparr>ob_id = i, ob_name = n, ob_namespace = [], ob_project = ''p'', ob_scope = sc, ob_is_system = False, ob_version = 1,
     ob_workflow_id = None, ob_values = []\<rparr>"

definition three_each :: resource_db where
  "three_each = \<lparr>rd_objects = (\<lambda>m. [listed ''c'' ''deploy'' ''public'', listed ''a'' ''backup'' ''private'', listed ''b'' ''clean'' ''private'']), rd_members = []\<rparr>"

definition two_a_page :: list_request where
  "two_a_page = \<lparr>lq_marker = None, lq_limit = Some 2, lq_sort_keys = [''created_at''], lq_sort_dirs = [], lq_fields = [''name''],
     lq_all_projects = False, lq_filters = [(''project_id'', ''eq'', VStr ''p'')]\<rparr>"

definition reader :: actor where
  "reader = \<lparr>ac_auth_enable = True, ac_has_ctx = True, ac_project = ''p'', ac_is_admin = False\<rparr>"

text \<open>Columns that the lists of workflows and of environments take filters for.\<close>

lemma two_a_page_plain:
  "plain_request workflows_kind (ep_columns workflows_endpoint) 100 two_a_page"
  "plain_request environments_kind [''project_id''] 100 two_a_page"
  by (simp_all add: plain_request_def two_a_page_def workflows_kind_def environments_kind_def workflows_endpoint_def clamp_limit_def
      plain_name_def plain_char_def is_space_def lower_char_def text_filter_def text_filter_types_def safe_char_def safe_key_def
      columns_ok_def kept_filter_def str_val_def has_filters_def filter_types_def starts_with_def)


definition first_two :: "db_object list" where
  "first_two = [listed ''a'' ''backup'' ''private'', listed ''b'' ''clean'' ''private'']"

definition second_page :: "string \<Rightarrow> next_link" where
  "second_page fl = \<lparr>nl_params = [(''sort_keys'', ''created_at,id''), (''sort_dirs'', ''asc,asc''), (''project_id'', ''eq:p'')], nl_limit = 2,
      nl_marker = ''b'', nl_fields = fl\<rparr>"

lemma first_environments:
  "get_all reader plain_sql 100 environments_kind two_a_page three_each = Inr \<lparr>lp_rows = first_two, lp_next = Some (second_page ''id,name'')\<rparr>"
  by code_simp

lemma first_workflows:
  "get_all reader plain_sql 100 workflows_kind (two_a_page\<lparr>lq_fields := [''input'']\<rparr>) three_each =
     Inr \<lparr>lp_rows = first_two, lp_next = Some (second_page ''id,spec'')\<rparr>"
  by code_simp

theorem named_lists_stop_witness:
  "bind_res (follow ''http://host'' ''environments'' [''project_id''] (second_page ''id,name''))
     (\<lambda>r. get_all reader plain_sql 100 environments_kind r three_each) = Inl (DBEntityNotFoundError (nl_marker (second_page ''id,name'')))"
  by (rule named_lists_stop[OF two_a_page_plain(2) _ _ first_environments])
    (simp_all add: reader_def second_page_def three_each_def listed_def safe_char_def plain_url_def)

theorem input_field_stops_list_witness:
  "\<exists>e. bind_res (follow ''http://host'' ''workflows'' [] (second_page ''id,spec''))
     (\<lambda>r. get_all reader plain_sql 100 workflows_kind r three_each) = Inl e"
proof -
  have "list_all (\<lambda>x. safe_key (fst x) \<and> list_all safe_char (snd x)) (link_params (second_page ''id,spec''))"
    using limit_back[of 2] by (simp add: link_params_def second_page_def safe_key_def safe_char_def)
  then show ?thesis
    by (intro input_field_stops_list[OF first_workflows])
      (simp_all add: two_a_page_def plain_name_def plain_char_def is_space_def lower_char_def safe_char_def)
qed

definition ordinary_rules :: "string \<Rightarrow> bool" where
  "ordinary_rules r \<longleftrightarrow> r \<in> set [''code_sources:list'', ''dynamic_actions:list'', ''workflows:list'', ''cron_triggers:list'']"

definition outsider :: actor where
  "outsider = \<lparr>ac_auth_enable = True, ac_has_ctx = True, ac_project = ''q'', ac_is_admin = False\<rparr>"

theorem private_code_listed_witness:
  "(\<exists>p. list_resources outsider ordinary_rules plain_sql 100 code_sources_endpoint (everything 5) [] three_each = Inr p \<and>
      mset (lp_rows p) = mset (rd_objects three_each CodeSource)) \<and>
   (\<exists>e. list_resources outsider ordinary_rules plain_sql 100 workflows_endpoint (everything 5) [] three_each = Inl (NotAllowedException e))"
  by (rule private_code_listed[OF plain_sql_paginates]) (simp_all add: ordinary_rules_def three_each_def listed_def)

end
