(* ===== verification/Cron_Runs.thy ===== *)
theory Cron_Runs
  imports Cron_Triggers
begin

text \<open>
  Several processes that poll the cron triggers while users create and delete them: each process
  works on snapshots, in any order and at any later time. The properties say that every time of a
  trigger starts its workflow at most once and that a trigger with a count is not used more often, in the runs in which no
  trigger takes a name over as long as a process holds a snapshot of the trigger that had it before (\<open>creation_ok\<close>):
  otherwise the snapshot acts on the successor (\<open>stale_snapshot_deletes_successor\<close>).
\<close>

section \<open>The operations on rows\<close>

lemma ids_of_table: "ob_id (db_object.truncate t) = ob_id t" "ob_name (db_object.truncate t) = ob_name t"
  "ob_project (db_object.truncate t) = ob_project t" "ob_scope (db_object.truncate t) = ob_scope t"
  by (simp_all add: db_object.defs)

lemma same_id_same: "distinct (map ob_id rows) \<Longrightarrow> x \<in> set rows \<Longrightarrow> y \<in> set rows \<Longrightarrow> ob_id x = ob_id y \<Longrightarrow> x = y"
  by (metis distinct_map inj_on_def)

definition visible_to :: "actor \<Rightarrow> cron_trigger \<Rightarrow> bool" where
  "visible_to a t \<longleftrightarrow> overrides a False \<or> ob_project t = get_project_id a \<or> ob_scope t = ''public''"

lemma visible_rows:
  "db_query a False CronTrigger (cron_table rows) = map db_object.truncate (filter (visible_to a) rows)"
  by (simp add: db_query_def secure_query_def cron_table_def filter_map comp_def may_see_def shared_ids_def resource_mapping_def
      visible_to_def [abs_def] ids_of_table)

lemma find_map: "find P (map f l) = map_option f (find (\<lambda>x. P (f x)) l)"
  by (induction l) auto

lemma find_filter: "find P (filter Q l) = find (\<lambda>x. Q x \<and> P x) l"
  by (induction l) auto

lemma find_id: "distinct (map ob_id rows) \<Longrightarrow> t \<in> set rows \<Longrightarrow> find (\<lambda>x. ob_id x = ob_id t) rows = Some t"
  by (induction rows) auto

lemma find_cron_trigger_eq:
  assumes "distinct (map ob_id rows)"
  shows "find_cron_trigger a n rows =
    (case find (\<lambda>t. visible_to a t \<and> (ob_id t = n \<or> ob_name t = n)) rows of
       None \<Rightarrow> Inl (DBEntityNotFoundError n) | Some t \<Rightarrow> Inr t)"
proof (cases "find (\<lambda>t. visible_to a t \<and> (ob_id t = n \<or> ob_name t = n)) rows")
  case (Some x)
  have "x \<in> set rows" using find_Some_set[OF Some] by simp
  note find_id[OF assms this]
  then show ?thesis
    using Some by (simp add: find_cron_trigger_def get_cron_trigger_def get_db_object_by_name_and_namespace_or_id_def visible_rows
      find_map find_filter ids_of_table found_def row_of_id_def)
qed (simp add: find_cron_trigger_def get_cron_trigger_def get_db_object_by_name_and_namespace_or_id_def visible_rows
      find_map find_filter ids_of_table found_def)

lemma get_cron_trigger_eq:
  "get_cron_trigger a n (cron_table rows) =
    (case find (\<lambda>t. visible_to a t \<and> (ob_id t = n \<or> ob_name t = n)) rows of
       None \<Rightarrow> Inl (DBEntityNotFoundError n) | Some t \<Rightarrow> Inr (db_object.truncate t))"
  by (simp add: get_cron_trigger_def get_db_object_by_name_and_namespace_or_id_def visible_rows
      find_map find_filter ids_of_table found_def split: option.splits)

lemma count_id:
  assumes "distinct (map ob_id rows)" "x \<in> set rows"
  shows "length rows - length (filter (\<lambda>t. ob_id t \<noteq> ob_id x) rows) = 1"
proof -
  have "length (filter (\<lambda>t. ob_id t = ob_id x) rows) = 1"
    using assms by (induction rows) (auto simp: filter_empty_conv, metis imageI)
  then show ?thesis using sum_length_filter_compl[of "\<lambda>t. ob_id t = ob_id x" rows] by simp
qed

lemma removed_rows:
  "filter (\<lambda>t. ob_id t \<in> set (map ob_id (rd_objects (remove_objects CronTrigger (\<lambda>y. ob_id y = i) (cron_table rows)) CronTrigger))) rows
     = filter (\<lambda>t. ob_id t \<noteq> i) rows"
proof (rule filter_cong[OF refl])
  fix t assume "t \<in> set rows"
  then show "(ob_id t \<in> set (map ob_id (rd_objects (remove_objects CronTrigger (\<lambda>y. ob_id y = i) (cron_table rows)) CronTrigger)))
      = (ob_id t \<noteq> i)"
    by (auto simp: remove_objects_def cron_table_def ids_of_table image_iff)
qed

lemma remove_cron_trigger_eq:
  assumes "distinct (map ob_id rows)"
  shows "remove_cron_trigger a n rows =
    (case find_cron_trigger a n rows of
       Inl e \<Rightarrow> (Inl e, rows)
     | Inr x \<Rightarrow> (case check_db_obj_access a CronTrigger (db_object.truncate x) of
           Inl e \<Rightarrow> (Inl e, rows) | Inr _ \<Rightarrow> (Inr 1, filter (\<lambda>t. ob_id t \<noteq> ob_id x) rows)))"
proof (cases "find (\<lambda>t. visible_to a t \<and> (ob_id t = n \<or> ob_name t = n)) rows")
  case (Some x)
  have "x \<in> set rows" using find_Some_set[OF Some] by simp
  note c = count_id[OF assms this]
  show ?thesis
  proof (cases "check_db_obj_access a CronTrigger (db_object.truncate x)")
    case (Inr u)
    have "delete_cron_trigger_row a n (cron_table rows) = (Inr (), remove_objects CronTrigger (\<lambda>y. ob_id y = ob_id x) (cron_table rows))"
      by (simp add: delete_cron_trigger_row_def get_cron_trigger_eq Some Inr delete_found_def ids_of_table)
    then show ?thesis
      unfolding remove_cron_trigger_def by (simp only: prod.case sum.case Let_def removed_rows) (simp add: find_cron_trigger_eq[OF assms] Some Inr c)
  qed (simp add: remove_cron_trigger_def delete_cron_trigger_row_def get_cron_trigger_eq find_cron_trigger_eq assms delete_found_def Some)
qed (simp add: remove_cron_trigger_def delete_cron_trigger_row_def get_cron_trigger_eq find_cron_trigger_eq assms delete_found_def)

section \<open>Processes and users\<close>

text \<open>
  The tables, the snapshots that processes hold, what was started, and for every trigger that was
  created its number of executions.
\<close>

record cron_state =
  cs_world :: cron_world
  cs_pending :: "cron_trigger list"
  cs_started :: "cron_start list"
  cs_counts :: "(string \<times> int option) list"

definition no_triggers :: cron_state where
  "no_triggers = \<lparr>cs_world = \<lparr>cd_rows = [], cd_trusts = []\<rparr>, cs_pending = [], cs_started = [], cs_counts = []\<rparr>"

text \<open>
  A new trigger in the runs that are considered: its identifier is fresh and its name is not an identifier, it is not public, its
  count is positive as the API demands (\<^verbatim>\<open>IntegerType(minimum=1)\<close>), and no process still holds a snapshot
  of a trigger with this name in the project. The last three of the conditions on names and scope restrict what
  the API allows: a trigger is advanced and deleted by its name, so that public triggers, names that are identifiers and
  successors of deleted triggers can be taken for others.
\<close>

definition creation_ok :: "(string \<Rightarrow> bool) \<Rightarrow> actor \<Rightarrow> string \<Rightarrow> cron_args \<Rightarrow> cron_state \<Rightarrow> bool" where
  "creation_ok u a i c s \<longleftrightarrow>
     u i \<and> i \<notin> fst ` set (cs_counts s) \<and> \<not> u (ca_name c) \<and> ca_scope c \<noteq> ''public'' \<and>
     (case ca_count c of None \<Rightarrow> True | Some n \<Rightarrow> n \<ge> 1) \<and>
     list_all (\<lambda>p. ob_name p \<noteq> ca_name c \<or> ob_project p \<noteq> get_project_id a) (cs_pending s)"

inductive cron_run :: "cron_sys \<Rightarrow> (string \<Rightarrow> bool) \<Rightarrow> cron_state \<Rightarrow> bool" for cy u where
  empty: "cron_run cy u no_triggers"
| create: "cron_run cy u s \<Longrightarrow> ac_auth_enable a = cy_auth_enable cy \<Longrightarrow> creation_ok u a i c s \<Longrightarrow>
    create_cron_trigger cy a now i k c (cs_world s) = (Inr t, w) \<Longrightarrow>
    cron_run cy u (s\<lparr>cs_world := w, cs_counts := (i, ct_remaining t) # cs_counts s\<rparr>)"
| poll: "cron_run cy u s \<Longrightarrow>
    cron_run cy u (s\<lparr>cs_pending := cs_pending s @ next_cron_triggers (now + seconds 2) (cd_rows (cs_world s))\<rparr>)"
| process: "cron_run cy u s \<Longrightarrow> t \<in> set (cs_pending s) \<Longrightarrow> process_cron_trigger cy now t (cs_world s) = (st, w) \<Longrightarrow>
    cron_run cy u (s\<lparr>cs_world := w, cs_pending := remove1 t (cs_pending s), cs_started := cs_started s @ st\<rparr>)"
| crash: "cron_run cy u s \<Longrightarrow> cron_run cy u (s\<lparr>cs_pending := remove1 t (cs_pending s)\<rparr>)"
| delete: "cron_run cy u s \<Longrightarrow> delete_cron_trigger a n k True (cs_world s) = (r, w) \<Longrightarrow>
    cron_run cy u (s\<lparr>cs_world := w\<rparr>)"

definition starts_of :: "string \<Rightarrow> cron_start list \<Rightarrow> int" where
  "starts_of i st = int (length (filter (\<lambda>x. cr_trigger x = i) st))"

text \<open>A snapshot is of the same moment as the row or of an earlier one, with more executions left.\<close>

definition snapshot_of :: "cron_trigger \<Rightarrow> cron_trigger \<Rightarrow> bool" where
  "snapshot_of x t \<longleftrightarrow>
     (ct_next_time t = ct_next_time x \<and> ct_remaining t = ct_remaining x) \<or>
     (ct_next_time t < ct_next_time x \<and>
      (case ct_remaining t of None \<Rightarrow> True | Some m \<Rightarrow> (case ct_remaining x of None \<Rightarrow> False | Some k \<Rightarrow> k < m)))"

definition trigger_ok :: "cron_sys \<Rightarrow> (string \<Rightarrow> bool) \<Rightarrow> (string \<times> int option) list \<Rightarrow> cron_trigger \<Rightarrow> bool" where
  "trigger_ok cy u counts t \<longleftrightarrow>
     u (ob_id t) \<and> \<not> u (ob_name t) \<and> ob_scope t \<noteq> ''public'' \<and> get_project_id (trigger_ctx cy t) = ob_project t \<and>
     ob_id t \<in> fst ` set counts \<and> (case ct_remaining t of None \<Rightarrow> True | Some n \<Rightarrow> n \<ge> 1)"

definition rows_ok :: "cron_sys \<Rightarrow> (string \<Rightarrow> bool) \<Rightarrow> cron_state \<Rightarrow> bool" where
  "rows_ok cy u s \<longleftrightarrow>
     distinct (map ob_id (cd_rows (cs_world s))) \<and>
     (\<forall>t \<in> set (cd_rows (cs_world s)) \<union> set (cs_pending s). trigger_ok cy u (cs_counts s) t) \<and>
     (\<forall>x \<in> set (cd_rows (cs_world s)). \<forall>t \<in> set (cd_rows (cs_world s)) \<union> set (cs_pending s).
        ob_name x = ob_name t \<longrightarrow> ob_project x = ob_project t \<longrightarrow> ob_id x = ob_id t)"

definition snapshots_ok :: "cron_state \<Rightarrow> bool" where
  "snapshots_ok s \<longleftrightarrow>
     (\<forall>x \<in> set (cd_rows (cs_world s)). \<forall>t \<in> set (cs_pending s). ob_id t = ob_id x \<longrightarrow> snapshot_of x t)"

definition starts_ok :: "cron_state \<Rightarrow> bool" where
  "starts_ok s \<longleftrightarrow>
     distinct (map (\<lambda>st. (cr_trigger st, cr_time st)) (cs_started s)) \<and>
     (\<forall>st \<in> set (cs_started s). cr_trigger st \<in> fst ` set (cs_counts s)) \<and>
     (\<forall>st \<in> set (cs_started s). \<forall>x \<in> set (cd_rows (cs_world s)). cr_trigger st = ob_id x \<longrightarrow> cr_time st < ct_next_time x)"

definition counts_ok :: "cron_state \<Rightarrow> bool" where
  "counts_ok s \<longleftrightarrow>
     distinct (map fst (cs_counts s)) \<and>
     (\<forall>i n. (i, Some n) \<in> set (cs_counts s) \<longrightarrow> starts_of i (cs_started s) \<le> n) \<and>
     (\<forall>x \<in> set (cd_rows (cs_world s)). \<forall>n. (ob_id x, Some n) \<in> set (cs_counts s) \<longrightarrow>
        (\<exists>k. ct_remaining x = Some k \<and> starts_of (ob_id x) (cs_started s) + k = n))"

lemma delete_keeping_trust:
  assumes "distinct (map ob_id (cd_rows w))"
  shows "delete_cron_trigger a n k False w =
    (case find_cron_trigger a n (cd_rows w) of
       Inl e \<Rightarrow> (Inl e, w)
     | Inr x \<Rightarrow> (case check_db_obj_access a CronTrigger (db_object.truncate x) of
           Inl e \<Rightarrow> (Inl e, w) | Inr _ \<Rightarrow> (Inr 1, w\<lparr>cd_rows := filter (\<lambda>t. ob_id t \<noteq> ob_id x) (cd_rows w)\<rparr>)))"
  by (auto simp: delete_cron_trigger_def remove_cron_trigger_eq[OF assms] Let_def split: sum.splits)

text \<open>What one iteration does: nothing, or it starts the workflow and moves on the row of its snapshot.\<close>

lemma process_cases:
  assumes ok: "rows_ok cy u s" and pending: "t \<in> set (cs_pending s)"
    and step: "process_cron_trigger cy now t (cs_world s) = (st, w)"
  obtains "st = []" "cd_rows w = cd_rows (cs_world s)"
  | x where "x \<in> set (cd_rows (cs_world s))" "ob_id x = ob_id t" "st = [start_of t]" "ct_remaining t = Some 1"
      "cd_rows w = filter (\<lambda>y. ob_id y \<noteq> ob_id x) (cd_rows (cs_world s))"
  | x nt where "x \<in> set (cd_rows (cs_world s))" "ob_id x = ob_id t" "st = [start_of t]" "ct_next_time x = ct_next_time t"
      "ct_remaining t \<noteq> Some 1" "cy_next cy (ct_pattern t) (max now (ct_next_time t)) = Inr nt"
      "cd_rows w = map (\<lambda>y. if ob_id y = ob_id x then y\<lparr>ct_next_time := nt, ct_remaining := remaining_after (ct_remaining t)\<rparr> else y) (cd_rows (cs_world s))"
proof -
  let ?rows = "cd_rows (cs_world s)" and ?a = "trigger_ctx cy t"
  have t: "trigger_ok cy u (cs_counts s) t" and d: "distinct (map ob_id ?rows)" using ok pending by (auto simp: rows_ok_def)
  have own: "x \<in> set ?rows \<and> ob_id x = ob_id t \<and> ob_project x = ob_project t" if f: "find_cron_trigger ?a (ob_name t) ?rows = Inr x" for x
  proof -
    have x: "x \<in> set ?rows" "visible_to ?a x" "ob_id x = ob_name t \<or> ob_name x = ob_name t"
      using f find_Some_set by (fastforce simp: find_cron_trigger_eq[OF d] split: option.splits)+
    moreover have "trigger_ok cy u (cs_counts s) x" using ok x(1) by (simp add: rows_ok_def)
    ultimately have "ob_name x = ob_name t" "ob_project x = ob_project t"
      using t by (auto simp: trigger_ok_def visible_to_def overrides_def trigger_ctx_def)
    then show ?thesis using ok pending x(1) by (auto simp: rows_ok_def)
  qed
  have one: "remaining_after (ct_remaining t) = Some 0 \<longleftrightarrow> ct_remaining t = Some 1"
    using t by (auto simp: remaining_after_def trigger_ok_def split: option.splits)
  have check: "check_db_obj_access ?a CronTrigger (db_object.truncate x) = Inr ()" if "x \<in> set ?rows" "ob_project x = ob_project t" for x
    using t that by (simp add: check_db_obj_access_def trigger_ctx_def trigger_ok_def ids_of_table)
  note unfold = process_cron_trigger_def advance_cron_trigger_def one delete_keeping_trust[OF d] Let_def
  show thesis
  proof (cases "find_cron_trigger ?a (ob_name t) ?rows")
    case (Inl e)
    then have "e = DBEntityNotFoundError (ob_name t)" by (auto simp: find_cron_trigger_eq[OF d] split: option.splits)
    then show thesis
      using step Inl that(1) by (auto simp: unfold update_cron_trigger_def get_next_execution_time_def split: if_splits sum.splits exn.splits)
  next
    case (Inr x)
    note x = own[OF Inr]
    show thesis
    proof (cases "ct_remaining t = Some 1")
      case True
      then show thesis using step Inr x check[of x] that(2)[of x] by (auto simp: unfold remaining_after_def)
    next
      case False
      then show thesis
        using step Inr x that(1) that(3)[of x]
        by (auto simp: unfold update_cron_trigger_def get_next_execution_time_def split: if_splits sum.splits exn.splits)
    qed
  qed
qed

section \<open>The invariant\<close>

definition cron_inv :: "cron_sys \<Rightarrow> (string \<Rightarrow> bool) \<Rightarrow> cron_state \<Rightarrow> bool" where
  "cron_inv cy u s \<longleftrightarrow> rows_ok cy u s \<and> snapshots_ok s \<and> starts_ok s \<and> counts_ok s"

lemma created_trigger:
  assumes "create_cron_trigger cy a now i k c w = (Inr t, w')"
  shows "cd_rows w' = cd_rows w @ [t]" "list_all (\<lambda>x. \<not> same_trigger t x \<and> ob_id x \<noteq> i) (cd_rows w)"
    "ob_id t = i" "ob_name t = ca_name c" "ob_project t = get_project_id a" "ob_scope t = ca_scope c"
    "ct_remaining t = ca_count c \<or> ct_remaining t = Some 1"
  using assms by (auto simp: create_cron_trigger_def new_cron_trigger_def insert_cron_trigger_def Let_def add_trust_def list_all_iff
      bind_res_def split: sum.splits if_splits option.splits)

lemma no_start_of: "starts_ok s \<Longrightarrow> i \<notin> fst ` set (cs_counts s) \<Longrightarrow> starts_of i (cs_started s) = 0"
  by (force simp: starts_ok_def starts_of_def filter_empty_conv)

lemma inv_create:
  assumes inv: "cron_inv cy u s" and auth: "ac_auth_enable a = cy_auth_enable cy" and ok: "creation_ok u a i c s"
    and step: "create_cron_trigger cy a now i k c (cs_world s) = (Inr t, w)"
  shows "cron_inv cy u (s\<lparr>cs_world := w, cs_counts := (i, ct_remaining t) # cs_counts s\<rparr>)" (is "cron_inv cy u ?s")
proof -
  note t = created_trigger[OF step]
  have own: "get_project_id (trigger_ctx cy t) = ob_project t"
    using auth t(5) by (auto simp: trigger_ctx_def get_project_id_def)
  have rem: "case ct_remaining t of None \<Rightarrow> True | Some n \<Rightarrow> n \<ge> 1"
    using t(7) ok by (auto simp: creation_ok_def split: option.splits)
  have new: "ob_id x \<noteq> i" "ob_name x \<noteq> ob_name t \<or> ob_project x \<noteq> ob_project t" if "x \<in> set (cd_rows (cs_world s))" for x
    using that t(2) by (auto simp: list_all_iff same_trigger_def)
  have newp: "ob_id x \<noteq> i" "ob_name x \<noteq> ob_name t \<or> ob_project x \<noteq> ob_project t" if "x \<in> set (cs_pending s)" for x
    using that inv ok t(4,5) by (auto simp: cron_inv_def rows_ok_def trigger_ok_def creation_ok_def list_all_iff)
  have rows: "rows_ok cy u s" using inv by (simp add: cron_inv_def)
  have "rows_ok cy u ?s"
    unfolding rows_ok_def
  proof (intro conjI ballI impI)
    have "i \<notin> ob_id ` set (cd_rows (cs_world s))" using new(1) by blast
    then show "distinct (map ob_id (cd_rows (cs_world ?s)))" using rows t(1,3) by (simp add: rows_ok_def)
    show "trigger_ok cy u (cs_counts ?s) x" if "x \<in> set (cd_rows (cs_world ?s)) \<union> set (cs_pending ?s)" for x
      using that rows ok t(1,3,4,6) own rem by (auto simp: rows_ok_def trigger_ok_def creation_ok_def)
    show "ob_id x = ob_id y" if "x \<in> set (cd_rows (cs_world ?s))" "y \<in> set (cd_rows (cs_world ?s)) \<union> set (cs_pending ?s)"
      "ob_name x = ob_name y" "ob_project x = ob_project y" for x y
      using that rows t(1) new(2)[of x] new(2)[of y] newp(2)[of y] by (auto simp: rows_ok_def)
  qed
  moreover have "snapshots_ok ?s" using inv newp t(1,3) by (auto simp: cron_inv_def snapshots_ok_def)
  moreover have "starts_ok ?s"
    unfolding starts_ok_def
  proof (intro conjI ballI impI)
    have old: "starts_ok s" and fresh: "i \<notin> fst ` set (cs_counts s)" using inv ok by (simp_all add: cron_inv_def creation_ok_def)
    show "distinct (map (\<lambda>st. (cr_trigger st, cr_time st)) (cs_started ?s))" using old by (simp add: starts_ok_def)
    show "cr_trigger st \<in> fst ` set (cs_counts ?s)" if "st \<in> set (cs_started ?s)" for st
      using old that by (simp add: starts_ok_def)
    show "cr_time st < ct_next_time x" if "st \<in> set (cs_started ?s)" "x \<in> set (cd_rows (cs_world ?s))" "cr_trigger st = ob_id x" for st x
    proof -
      have "cr_trigger st \<in> fst ` set (cs_counts s)" using old that(1) by (simp add: starts_ok_def)
      then have "ob_id x \<noteq> i" using fresh that(3) by metis
      then show ?thesis using old that t(1,3) by (auto simp: starts_ok_def)
    qed
  qed
  moreover have "counts_ok ?s"
  proof -
    have fresh: "i \<notin> fst ` set (cs_counts s)" using ok by (simp add: creation_ok_def)
    have zero: "starts_of i (cs_started s) = 0" using inv fresh by (auto simp: cron_inv_def intro: no_start_of)
    have old: "counts_ok s" using inv by (simp add: cron_inv_def)
    have "distinct (map fst (cs_counts ?s))" using old fresh by (simp add: counts_ok_def)
    moreover have "starts_of j (cs_started s) \<le> n" if "(j, Some n) \<in> set ((i, ct_remaining t) # cs_counts s)" for j n
      using that old zero rem by (auto simp: counts_ok_def dest: sym)
    moreover have "\<exists>k. ct_remaining x = Some k \<and> starts_of (ob_id x) (cs_started s) + k = n"
      if "x \<in> set (cd_rows w)" "(ob_id x, Some n) \<in> set ((i, ct_remaining t) # cs_counts s)" for x n
      using that old zero t(1,3) new fresh by (auto simp: counts_ok_def image_iff)
    ultimately show ?thesis by (simp add: counts_ok_def)
  qed
  ultimately show ?thesis by (simp add: cron_inv_def)
qed

lemma inv_poll:
  assumes "cron_inv cy u s"
  shows "cron_inv cy u (s\<lparr>cs_pending := cs_pending s @ next_cron_triggers time (cd_rows (cs_world s))\<rparr>)"
proof -
  have "set (next_cron_triggers time (cd_rows (cs_world s))) \<subseteq> set (cd_rows (cs_world s))"
    by (auto simp: next_cron_triggers_def)
  moreover have "snapshot_of x t" if "x \<in> set (cd_rows (cs_world s))" "t \<in> set (cd_rows (cs_world s))" "ob_id t = ob_id x" for x t
    using assms that same_id_same[of "cd_rows (cs_world s)" x t] by (simp add: cron_inv_def rows_ok_def snapshot_of_def)
  ultimately show ?thesis
    using assms by (auto simp: cron_inv_def rows_ok_def snapshots_ok_def starts_ok_def counts_ok_def)
qed

lemma inv_fewer:
  assumes "cron_inv cy u s" "set ps \<subseteq> set (cs_pending s)" "cd_rows w = filter P (cd_rows (cs_world s))"
  shows "cron_inv cy u (s\<lparr>cs_world := w, cs_pending := ps\<rparr>)"
  using assms by (auto simp: cron_inv_def rows_ok_def snapshots_ok_def starts_ok_def counts_ok_def distinct_map_filter)

lemma starts_of_simps [simp]:
  "starts_of i (xs @ ys) = starts_of i xs + starts_of i ys"
  "starts_of i [] = 0" "starts_of i [start_of t] = (if i = ob_id t then 1 else 0)"
  by (auto simp: starts_of_def start_of_def)

lemma started_irrelevant [simp]:
  "rows_ok cy u (s\<lparr>cs_started := x\<rparr>) = rows_ok cy u s"
  "snapshots_ok (s\<lparr>cs_started := x\<rparr>) = snapshots_ok s"
  by (simp_all add: rows_ok_def snapshots_ok_def)

lemma inv_last:
  assumes inv: "cron_inv cy u s" and t: "t \<in> set (cs_pending s)" and x: "x \<in> set (cd_rows (cs_world s))" "ob_id x = ob_id t"
    and last: "ct_remaining t = Some 1" and w: "cd_rows w = filter (\<lambda>y. ob_id y \<noteq> ob_id x) (cd_rows (cs_world s))"
  shows "cron_inv cy u (s\<lparr>cs_world := w, cs_pending := remove1 t (cs_pending s), cs_started := cs_started s @ [start_of t]\<rparr>)"
    (is "cron_inv cy u ?s")
proof -
  have rows: "rows_ok cy u s" and starts: "starts_ok s" and counts: "counts_ok s" using inv by (simp_all add: cron_inv_def)
  have sn: "snapshot_of x t" using inv t x by (simp add: cron_inv_def snapshots_ok_def)
  have xt: "trigger_ok cy u (cs_counts s) x" "trigger_ok cy u (cs_counts s) t" using rows t x by (auto simp: rows_ok_def)
  have now: "ct_next_time t = ct_next_time x" "ct_remaining x = Some 1"
    using sn last xt(1) by (auto simp: snapshot_of_def trigger_ok_def split: option.splits)
  have quiet: "rows_ok cy u ?s \<and> snapshots_ok ?s"
    using inv_fewer[OF inv set_remove1_subset w] by (simp add: cron_inv_def)
  have "starts_ok ?s"
    unfolding starts_ok_def
  proof (intro conjI ballI impI)
    show "distinct (map (\<lambda>st. (cr_trigger st, cr_time st)) (cs_started ?s))"
      using starts x now by (force simp: starts_ok_def start_of_def)
    show "cr_trigger st \<in> fst ` set (cs_counts ?s)" if "st \<in> set (cs_started ?s)" for st
      using that starts xt(2) by (cases "st = start_of t") (simp_all add: starts_ok_def start_of_def trigger_ok_def)
    show "cr_time st < ct_next_time y" if "st \<in> set (cs_started ?s)" "y \<in> set (cd_rows (cs_world ?s))" "cr_trigger st = ob_id y" for st y
      using that starts x(2) w by (auto simp: starts_ok_def start_of_def)
  qed
  moreover have "counts_ok ?s"
    unfolding counts_ok_def
  proof (intro conjI allI impI ballI)
    show "distinct (map fst (cs_counts ?s))" using counts by (simp add: counts_ok_def)
    show "starts_of i (cs_started ?s) \<le> n" if "(i, Some n) \<in> set (cs_counts ?s)" for i n
      using that counts x now by (cases "i = ob_id t") (force simp: counts_ok_def)+
    show "\<exists>k. ct_remaining y = Some k \<and> starts_of (ob_id y) (cs_started ?s) + k = n"
      if "y \<in> set (cd_rows (cs_world ?s))" "(ob_id y, Some n) \<in> set (cs_counts ?s)" for y n
      using that counts x(2) w by (auto simp: counts_ok_def)
  qed
  ultimately show ?thesis using quiet by (simp add: cron_inv_def)
qed

definition moved :: "string \<Rightarrow> int \<Rightarrow> int option \<Rightarrow> cron_trigger \<Rightarrow> cron_trigger" where
  "moved i nt r y = (if ob_id y = i then y\<lparr>ct_next_time := nt, ct_remaining := r\<rparr> else y)"

lemma moved_keeps [simp]:
  "ob_id (moved i nt r y) = ob_id y" "ob_name (moved i nt r y) = ob_name y"
  "ob_project (moved i nt r y) = ob_project y" "ob_scope (moved i nt r y) = ob_scope y"
  "ob_id y \<noteq> i \<Longrightarrow> moved i nt r y = y"
  "ob_id y = i \<Longrightarrow> ct_next_time (moved i nt r y) = nt" "ob_id y = i \<Longrightarrow> ct_remaining (moved i nt r y) = r"
  by (simp_all add: moved_def)

lemma inv_moved:
  assumes inv: "cron_inv cy u s" and t: "t \<in> set (cs_pending s)" and x: "x \<in> set (cd_rows (cs_world s))" "ob_id x = ob_id t"
    and now: "ct_next_time x = ct_next_time t" and more: "ct_remaining t \<noteq> Some 1" and later: "ct_next_time t < nt"
    and w0: "cd_rows w = map (\<lambda>y. if ob_id y = ob_id x then y\<lparr>ct_next_time := nt, ct_remaining := remaining_after (ct_remaining t)\<rparr> else y)
      (cd_rows (cs_world s))"
  shows "cron_inv cy u (s\<lparr>cs_world := w, cs_pending := remove1 t (cs_pending s), cs_started := cs_started s @ [start_of t]\<rparr>)"
    (is "cron_inv cy u ?s")
proof -
  let ?R = "cd_rows (cs_world s)"
  let ?f = "moved (ob_id x) nt (remaining_after (ct_remaining t))"
  have w: "cd_rows w = map ?f ?R" using w0 by (simp add: moved_def)
  have rows: "rows_ok cy u s" and starts: "starts_ok s" and counts: "counts_ok s" and snaps: "snapshots_ok s"
    using inv by (simp_all add: cron_inv_def)
  have xt: "trigger_ok cy u (cs_counts s) x" "trigger_ok cy u (cs_counts s) t" using rows t x by (auto simp: rows_ok_def)
  have "snapshot_of x t" using snaps t x by (simp add: snapshots_ok_def)
  then have rem: "ct_remaining t = ct_remaining x" using now by (simp add: snapshot_of_def)
  have new: "case remaining_after (ct_remaining t) of None \<Rightarrow> True | Some n \<Rightarrow> n \<ge> 1"
    using xt(2) more by (auto simp: remaining_after_def trigger_ok_def split: option.splits)
  have ok: "trigger_ok cy u (cs_counts s) (?f y)" if "y \<in> set ?R" for y
  proof -
    have "trigger_ok cy u (cs_counts s) y" using that rows by (simp add: rows_ok_def)
    then show ?thesis using new by (cases "ob_id y = ob_id x") (simp_all add: trigger_ok_def trigger_ctx_def)
  qed
  have pend: "set (remove1 t (cs_pending s)) \<subseteq> set (cs_pending s)" by (rule set_remove1_subset)
  have "rows_ok cy u ?s"
    unfolding rows_ok_def
  proof (intro conjI ballI impI)
    have "map ob_id (map ?f ?R) = map ob_id ?R" by simp
    then show "distinct (map ob_id (cd_rows (cs_world ?s)))" using rows w by (simp add: rows_ok_def del: map_map)
    show "trigger_ok cy u (cs_counts ?s) y" if "y \<in> set (cd_rows (cs_world ?s)) \<union> set (cs_pending ?s)" for y
    proof (cases "y \<in> set (cd_rows (cs_world ?s))")
      case True
      then obtain y' where "y' \<in> set ?R" "y = ?f y'" using w by auto
      then show ?thesis using ok by simp
    next
      case False
      then have "y \<in> set (cs_pending s)" using \<open>y \<in> set (cd_rows (cs_world ?s)) \<union> set (cs_pending ?s)\<close> pend by auto
      then show ?thesis using rows by (simp add: rows_ok_def)
    qed
    show "ob_id y = ob_id z" if yz: "y \<in> set (cd_rows (cs_world ?s))" "z \<in> set (cd_rows (cs_world ?s)) \<union> set (cs_pending ?s)"
      "ob_name y = ob_name z" "ob_project y = ob_project z" for y z
    proof -
      obtain y' where y: "y' \<in> set ?R" "y = ?f y'" using yz(1) w by auto
      obtain z' where z: "z' \<in> set ?R \<union> set (cs_pending s)" "ob_id z = ob_id z'" "ob_name z = ob_name z'" "ob_project z = ob_project z'"
      proof (cases "z \<in> set (cs_pending s)")
        case True
        then show thesis using that by blast
      next
        case False
        then obtain z' where "z' \<in> set ?R" "z = ?f z'" using yz(2) w pend by auto
        then show thesis using that[of z'] by simp
      qed
      show ?thesis using rows y z yz(3,4) by (simp add: rows_ok_def)
    qed
  qed
  moreover have "snapshots_ok ?s"
    unfolding snapshots_ok_def
  proof (intro ballI impI)
    fix y p assume y: "y \<in> set (cd_rows (cs_world ?s))" and p: "p \<in> set (cs_pending ?s)" and same: "ob_id p = ob_id y"
    obtain y' where y': "y' \<in> set ?R" "y = ?f y'" using y w by auto
    have s: "snapshot_of y' p" using snaps y' p pend same by (auto simp: snapshots_ok_def)
    show "snapshot_of y p"
    proof (cases "ob_id y' = ob_id x")
      case True
      then have "y' = x" using rows y'(1) x(1) same_id_same by (auto simp: rows_ok_def)
      then show ?thesis
        using s y'(2) now later rem xt(1) more by (auto simp: snapshot_of_def remaining_after_def trigger_ok_def split: option.splits)
    qed (use s y' in simp)
  qed
  moreover have "starts_ok ?s"
    unfolding starts_ok_def
  proof (intro conjI ballI impI)
    show "distinct (map (\<lambda>st. (cr_trigger st, cr_time st)) (cs_started ?s))"
      using starts x now by (force simp: starts_ok_def start_of_def)
    show "cr_trigger st \<in> fst ` set (cs_counts ?s)" if "st \<in> set (cs_started ?s)" for st
      using that starts xt(2) by (cases "st = start_of t") (simp_all add: starts_ok_def start_of_def trigger_ok_def)
    show "cr_time st < ct_next_time y" if sy: "st \<in> set (cs_started ?s)" "y \<in> set (cd_rows (cs_world ?s))" "cr_trigger st = ob_id y" for st y
    proof -
      obtain y' where y': "y' \<in> set ?R" "y = ?f y'" using sy(2) w by auto
      show ?thesis
      proof (cases "ob_id y' = ob_id x")
        case True
        then have "y' = x" using rows y'(1) x(1) same_id_same by (auto simp: rows_ok_def)
        then show ?thesis using starts sy y' x now later by (force simp: starts_ok_def start_of_def)
      next
        case False
        then show ?thesis using starts sy y' x by (auto simp: starts_ok_def start_of_def)
      qed
    qed
  qed
  moreover have "counts_ok ?s"
    unfolding counts_ok_def
  proof (intro conjI allI impI ballI)
    show "distinct (map fst (cs_counts ?s))" using counts by (simp add: counts_ok_def)
    have r: "remaining_after (Some k) = Some (k - 1) \<and> k \<ge> 2" if "ct_remaining x = Some k" for k
      using that xt(1) more rem by (simp add: remaining_after_def trigger_ok_def)
    have mine: "\<exists>k. ct_remaining x = Some k \<and> starts_of (ob_id x) (cs_started s) + k = n" if "(ob_id x, Some n) \<in> set (cs_counts s)" for n
      using counts that x(1) by (auto simp: counts_ok_def)
    show "starts_of i (cs_started ?s) \<le> n" if "(i, Some n) \<in> set (cs_counts ?s)" for i n
    proof (cases "i = ob_id t")
      case True
      then show ?thesis using mine[of n] that x(2) r by fastforce
    qed (use that counts in \<open>simp add: counts_ok_def\<close>)
    show "\<exists>k. ct_remaining y = Some k \<and> starts_of (ob_id y) (cs_started ?s) + k = n"
      if y: "y \<in> set (cd_rows (cs_world ?s))" and c: "(ob_id y, Some n) \<in> set (cs_counts ?s)" for y n
    proof -
      obtain y' where y': "y' \<in> set ?R" "y = ?f y'" using y w by auto
      show ?thesis
      proof (cases "ob_id y' = ob_id x")
        case True
        then show ?thesis using mine[of n] c y' x(2) r rem by force
      next
        case False
        then show ?thesis using c y' x(2) counts by (simp add: counts_ok_def)
      qed
    qed
  qed
  ultimately show ?thesis by (simp add: cron_inv_def)
qed

lemma delete_rows:
  assumes "distinct (map ob_id (cd_rows w))" "delete_cron_trigger a n k b w = (r, w')"
  shows "\<exists>P. cd_rows w' = filter P (cd_rows w)"
proof -
  have same: "\<exists>P. l = filter P l" for l :: "cron_trigger list" by (rule exI[of _ "\<lambda>_. True"]) simp
  show ?thesis
    using assms(2) same by (auto simp: delete_cron_trigger_def remove_cron_trigger_eq[OF assms(1)] Let_def delete_trust_def
        split: sum.splits if_splits option.splits)
qed

theorem cron_run_inv:
  assumes "cron_run cy u s" and next_later: "\<And>p x y. cy_next cy p x = Inr y \<Longrightarrow> x < y"
  shows "cron_inv cy u s"
  using assms(1)
proof induction
  case empty
  show ?case by (simp add: cron_inv_def rows_ok_def snapshots_ok_def starts_ok_def counts_ok_def no_triggers_def)
next
  case (create s a i c now k t w)
  then show ?case by (blast intro: inv_create)
next
  case (poll s now)
  then show ?case by (blast intro: inv_poll)
next
  case (process s t now st w)
  then have rows: "rows_ok cy u s" by (simp add: cron_inv_def)
  show ?case
  proof (cases rule: process_cases[OF rows process.hyps(2,3)])
    case 1
    then show ?thesis
      using inv_fewer[OF process.IH set_remove1_subset, of w "\<lambda>_. True" t] by simp
  next
    case (2 x)
    then show ?thesis using inv_last[OF process.IH process.hyps(2)] by blast
  next
    case (3 x nt)
    then have "ct_next_time t < nt" using next_later by force
    then show ?thesis using 3 inv_moved[OF process.IH process.hyps(2)] by blast
  qed
next
  case (crash s t)
  then show ?case
    using inv_fewer[OF crash.IH set_remove1_subset, of "cs_world s" "\<lambda>_. True" t] by simp
next
  case (delete s a n k r w)
  then have "distinct (map ob_id (cd_rows (cs_world s)))" by (simp add: cron_inv_def rows_ok_def)
  then obtain P where "cd_rows w = filter P (cd_rows (cs_world s))" using delete_rows delete.hyps(2) by blast
  then show ?case using inv_fewer[OF delete.IH subset_refl] by simp
qed

text \<open>The hypothesis on \<^verbatim>\<open>croniter\<close>: the next time is after the given one.\<close>

definition next_is_later :: "cron_sys \<Rightarrow> bool" where
  "next_is_later cy \<longleftrightarrow> (\<forall>p x y. cy_next cy p x = Inr y \<longrightarrow> x < y)"

section \<open>A trigger, two processes\<close>

definition every_ten :: cron_sys where
  "every_ten = \<lparr>cy_auth_enable = True, cy_next = (\<lambda>p x. Inr (x + 10)), cy_valid_pattern = (\<lambda>_. True), cy_parse_time = (\<lambda>_. None),
     cy_workflow = (\<lambda>_. Inr \<lparr>cw_id = ''w'', cw_name = ''wf'', cw_namespace = [], cw_input = []\<rparr>)\<rparr>"

definition user_in :: "string \<Rightarrow> actor" where
  "user_in p = \<lparr>ac_auth_enable = True, ac_has_ctx = True, ac_project = p, ac_is_admin = False\<rparr>"

definition daily :: "int option \<Rightarrow> cron_args" where
  "daily n = \<lparr>ca_name = ''daily'', ca_workflow_name = ''wf'', ca_workflow_id = None, ca_workflow_input = [], ca_workflow_params = [],
     ca_pattern = Some ''* * * * *'', ca_first_time = None, ca_count = n, ca_scope = ''private''\<rparr>"

definition after_create :: cron_state where
  "after_create = (case create_cron_trigger every_ten (user_in ''p'') 0 ''1'' ''k'' (daily (Some 1)) (cs_world no_triggers) of
     (Inr t, w) \<Rightarrow> no_triggers\<lparr>cs_world := w, cs_counts := [(''1'', ct_remaining t)]\<rparr> | _ \<Rightarrow> no_triggers)"

definition polled :: "cron_state \<Rightarrow> cron_state" where
  "polled s = s\<lparr>cs_pending := cs_pending s @ next_cron_triggers (20 + seconds 2) (cd_rows (cs_world s))\<rparr>"

definition handled :: "cron_state \<Rightarrow> cron_state" where
  "handled s = (case cs_pending s of [] \<Rightarrow> s
     | t # ts \<Rightarrow> (case process_cron_trigger every_ten 20 t (cs_world s) of
          (st, w) \<Rightarrow> s\<lparr>cs_world := w, cs_pending := ts, cs_started := cs_started s @ st\<rparr>))"

lemma run_polled: "cron_run cy u s \<Longrightarrow> cron_run cy u (polled s)"
  unfolding polled_def by (rule cron_run.poll)

lemma run_handled: "cron_run every_ten u s \<Longrightarrow> cron_run every_ten u (handled s)"
  by (auto simp: handled_def split: list.splits prod.splits dest: cron_run.process[of _ _ s "hd (cs_pending s)"])

lemma run_after_create: "cron_run every_ten (\<lambda>i. i = ''1'') after_create"
proof -
  obtain t w where c: "create_cron_trigger every_ten (user_in ''p'') 0 ''1'' ''k'' (daily (Some 1)) (cs_world no_triggers) = (Inr t, w)"
    by (simp add: create_cron_trigger_def new_cron_trigger_def every_ten_def user_in_def daily_def no_triggers_def Let_def given_def
        validate_cron_trigger_input_def get_next_execution_time_def validate_input_def compare_parameters_def insert_cron_trigger_def add_trust_def)
  have "creation_ok (\<lambda>i. i = ''1'') (user_in ''p'') ''1'' (daily (Some 1)) no_triggers"
    by (simp add: creation_ok_def daily_def no_triggers_def)
  moreover have "ac_auth_enable (user_in ''p'') = cy_auth_enable every_ten" by (simp add: user_in_def every_ten_def)
  moreover have "after_create = no_triggers\<lparr>cs_world := w, cs_counts := (''1'', ct_remaining t) # cs_counts no_triggers\<rparr>"
    by (simp add: after_create_def c) (simp add: no_triggers_def)
  ultimately show ?thesis using cron_run.create[OF cron_run.empty _ _ c] by simp
qed

lemma two_processes_run: "cron_run every_ten (\<lambda>i. i = ''1'') (handled (handled (polled (polled after_create))))"
  by (intro run_handled run_polled run_after_create)

lemma every_ten_later: "next_is_later every_ten"
  by (simp add: next_is_later_def every_ten_def)

lemma two_processes_start_once:
  "map (\<lambda>st. (cr_trigger st, cr_time st)) (cs_started (handled (handled (polled (polled after_create))))) = [(''1'', 10)]"
  "cs_counts (handled (handled (polled (polled after_create)))) = [(''1'', Some 1)]"
  by code_simp+

section \<open>Properties\<close>

text \<open>
  C9. However many processes poll the triggers, in whatever order they handle their snapshots, and
  whichever of them die in between, no time of a trigger leads to a second call of the engine, provided that the triggers are not public,
  have no identifiers as names, and that none is created under the name of another one of its project of
  which a process still holds a snapshot.
\<close>

theorem cron_occurrences_once:
  assumes "cron_run cy u s" "next_is_later cy"
  shows "distinct (map (\<lambda>st. (cr_trigger st, cr_time st)) (cs_started s))"
  using cron_run_inv[OF assms(1)] assms(2) by (auto simp: next_is_later_def cron_inv_def starts_ok_def)

theorem cron_occurrences_once_witness:
  "distinct (map (\<lambda>st. (cr_trigger st, cr_time st)) (cs_started (handled (handled (polled (polled after_create)))))) \<and>
   cs_started (handled (handled (polled (polled after_create)))) \<noteq> []"
  using cron_occurrences_once[OF two_processes_run every_ten_later] two_processes_start_once(1) by auto

text \<open>
  C10. In the same runs (triggers that are not public, names that are no identifiers, and no new trigger under a name of
  which a process still holds a snapshot), a trigger that was created with a number of executions leads to at most as
  many calls of the engine.
\<close>

theorem cron_count_respected:
  assumes "cron_run cy u s" "next_is_later cy" "(i, Some n) \<in> set (cs_counts s)"
  shows "starts_of i (cs_started s) \<le> n"
  using cron_run_inv[OF assms(1)] assms(2,3) by (auto simp: next_is_later_def cron_inv_def counts_ok_def)

theorem cron_count_respected_witness:
  "starts_of ''1'' (cs_started (handled (handled (polled (polled after_create))))) \<le> 1"
  by (rule cron_count_respected[OF two_processes_run every_ten_later]) (simp add: two_processes_start_once)


definition matches :: "cron_sys \<Rightarrow> cron_trigger \<Rightarrow> cron_trigger \<Rightarrow> bool" where
  "matches cy t x \<longleftrightarrow> visible_to (trigger_ctx cy t) x \<and> (ob_id x = ob_name t \<or> ob_name x = ob_name t)"


lemma matches_moved [simp]:
  "matches cy (moved i nt r t) x = matches cy t x" "matches cy t (moved i nt r x) = matches cy t x"
  by (simp_all add: matches_def visible_to_def trigger_ctx_def)






definition trigger_row :: "string \<Rightarrow> string \<Rightarrow> string \<Rightarrow> int \<Rightarrow> int option \<Rightarrow> cron_trigger" where
  "trigger_row i p scope time n =
     \<lparr>ob_id = i, ob_name = ''daily'', ob_namespace = [], ob_project = p, ob_scope = scope, ob_is_system = False, ob_version = 1,
      ob_workflow_id = Some ''w'', ob_values = [], ct_pattern = ''* * * * *'', ct_first_time = None, ct_next_time = time, ct_remaining = n,
      ct_workflow_name = ''wf'', ct_workflow_namespace = [], ct_workflow_input = [], ct_workflow_params = [], ct_trust_id = None\<rparr>"

definition two_projects :: cron_world where
  "two_projects = \<lparr>cd_rows = [trigger_row ''1'' ''p'' ''private'' 20 None, trigger_row ''2'' ''q'' ''private'' 10 (Some 1)], cd_trusts = []\<rparr>"


text \<open>
  A trigger is looked up by name among the rows that its project can see, public ones of other
  projects included. If such a trigger comes first, the process changes nothing and starts nothing,
  unless both happen to have the same next time: the trigger is never executed.
\<close>

theorem public_name_starves_trigger:
  assumes "distinct (map ob_id (cd_rows w))"
    and "find (\<lambda>x. visible_to (trigger_ctx cy t) x \<and> (ob_id x = ob_name t \<or> ob_name x = ob_name t)) (cd_rows w) = Some x"
    and "ob_project x \<noteq> get_project_id (trigger_ctx cy t)"
    and "ct_next_time x \<noteq> ct_next_time t \<or> ct_remaining t = Some 1"
  shows "process_cron_trigger cy now t w = ([], w)"
proof -
  have f: "find_cron_trigger (trigger_ctx cy t) (ob_name t) (cd_rows w) = Inr x"
    by (simp add: find_cron_trigger_eq[OF assms(1)] assms(2))
  have check: "\<exists>m. check_db_obj_access (trigger_ctx cy t) CronTrigger (db_object.truncate x) = Inl (NotAllowedException m)"
    using assms(3) by (simp add: check_db_obj_access_def trigger_ctx_def ids_of_table)
  show ?thesis
    using assms(4) check
    by (auto simp: process_cron_trigger_def advance_cron_trigger_def delete_keeping_trust[OF assms(1)] f update_cron_trigger_def
        get_next_execution_time_def remaining_after_def Let_def split: sum.splits exn.splits if_splits option.splits)
qed

definition public_first :: cron_world where
  "public_first = \<lparr>cd_rows = [trigger_row ''1'' ''p'' ''public'' 20 None, trigger_row ''2'' ''q'' ''private'' 10 None], cd_trusts = []\<rparr>"

theorem public_name_starves_trigger_witness:
  "process_cron_trigger every_ten 30 (trigger_row ''2'' ''q'' ''private'' 10 None) public_first = ([], public_first)"
  by (rule public_name_starves_trigger[where x = "trigger_row ''1'' ''p'' ''public'' 20 None"])
    (simp_all add: public_first_def trigger_row_def every_ten_def trigger_ctx_def visible_to_def get_project_id_def)

text \<open>
  A process that still holds a snapshot of the last execution of a trigger, when another process has
  done it and a user has created a new trigger of that name, starts the old workflow again and deletes the
  new trigger.
\<close>

theorem stale_snapshot_deletes_successor:
  "(case process_cron_trigger every_ten 30 (trigger_row ''1'' ''p'' ''private'' 10 (Some 1))
      \<lparr>cd_rows = [trigger_row ''2'' ''p'' ''private'' 500 None], cd_trusts = []\<rparr> of
    (st, w) \<Rightarrow> map cr_trigger st = [''1''] \<and> cd_rows w = [])"
  by code_simp

text \<open>
  A request for a trigger that is rejected, by a check or by the table, leaves the triggers and
  the trusts as they were.
\<close>

theorem rejected_trigger_leaves_nothing:
  assumes "create_cron_trigger cy a now i k c w = (Inl e, w')" "k \<notin> set (cd_trusts w)"
  shows "w' = w"
proof -
  have "delete_trust (Some k) (add_trust (Some k) w) = w"
  proof -
    have "filter (\<lambda>j. j \<noteq> k) (cd_trusts w) = cd_trusts w" using assms(2) by (simp add: filter_id_conv) metis
    then show ?thesis by (simp add: delete_trust_def add_trust_def)
  qed
  then show ?thesis
    using assms(1) by (auto simp: create_cron_trigger_def Let_def delete_trust_def add_trust_def insert_cron_trigger_def split: sum.splits if_splits)
qed


theorem rejected_trigger_leaves_nothing_witness:
  "snd (create_cron_trigger every_ten (user_in ''q'') 0 ''3'' ''k'' (daily None) two_projects) = two_projects"
proof (rule rejected_trigger_leaves_nothing)
  show "create_cron_trigger every_ten (user_in ''q'') 0 ''3'' ''k'' (daily None) two_projects =
      (Inl (DBDuplicateEntryError ''daily''), snd (create_cron_trigger every_ten (user_in ''q'') 0 ''3'' ''k'' (daily None) two_projects))"
    by (rule prod_eqI) (simp_all, code_simp)
qed (simp add: two_projects_def)

end
