(* ===== verification/Event_Runs.thy ===== *)
theory Event_Runs
  imports Event_Triggers
begin

text \<open>
  What the service of events knows follows the table of event triggers: the abstract view of the service, the
  operations on it, and the simulation. From it, which workflows a notification starts; and three ways in which
  it goes wrong: a notification that cannot be converted, an update that the commit rejects, and a public trigger
  that another project changes.
\<close>

section \<open>The view of the service\<close>

text \<open>Its triggers by event, without the parameter that the loop leaves in them, and its listeners.\<close>

definition without_event_params :: "event_trigger \<Rightarrow> event_trigger" where
  "without_event_params t =
     t\<lparr>et_workflow_params := (case et_workflow_params t of VDict d \<Rightarrow> VDict (ddel ''event_params'' d) | v \<Rightarrow> v)\<rparr>"

type_synonym known = "event_trigger \<times> string option"

record service_view =
  sv_triggers :: "string \<Rightarrow> known list option"
  sv_listeners :: "string \<times> string \<Rightarrow> string set option"

definition known_of :: "trigger_info \<Rightarrow> known" where
  "known_of i = (without_event_params (ti_row i), ti_namespace i)"

definition view_of :: "event_engine \<Rightarrow> service_view" where
  "view_of e =
     \<lparr>sv_triggers = (\<lambda>ev. map_option (map known_of) (dget (ee_map e) ev)),
      sv_listeners = (\<lambda>k. map_option set (map_of (ee_listeners e) k))\<rparr>"

definition known_by :: "service_view \<Rightarrow> string \<Rightarrow> known list" where
  "known_by v ev = (case sv_triggers v ev of None \<Rightarrow> [] | Some ts \<Rightarrow> ts)"

fun drop_known :: "string \<Rightarrow> known list \<Rightarrow> known list" where
  "drop_known i [] = []"
| "drop_known i (t # ts) = (if ob_id (fst t) = i then ts else t # drop_known i ts)"

definition refresh_known :: "event_trigger \<Rightarrow> known \<Rightarrow> known" where
  "refresh_known r t = (if ob_id (fst t) = ob_id r then (without_event_params r, snd t) else t)"

fun deliver_view :: "event_message \<Rightarrow> service_view \<Rightarrow> service_view" where
  "deliver_view (CreateMessage i events) v =
     (let ev = et_event (ti_row i); ts = known_by v ev
      in v\<lparr>sv_triggers := (sv_triggers v)(ev \<mapsto> (if ob_id (ti_row i) \<in> set (map (\<lambda>t. ob_id (fst t)) ts) then ts else ts @ [known_of i])),
           sv_listeners := (sv_listeners v)(topic_of (ti_row i) \<mapsto> set events)\<rparr>)"
| "deliver_view (UpdateMessage r) v =
     (case sv_triggers v (et_event r) of
        None \<Rightarrow> v
      | Some ts \<Rightarrow> v\<lparr>sv_triggers := (sv_triggers v)(et_event r \<mapsto> map (refresh_known r) ts)\<rparr>)"
| "deliver_view (DeleteMessage r events) v =
     (case sv_triggers v (et_event r) of
        None \<Rightarrow> v
      | Some ts \<Rightarrow>
          (let left = drop_known (ob_id r) ts
           in v\<lparr>sv_triggers := (sv_triggers v)(et_event r := (if left = [] then None else Some left)),
                sv_listeners := (sv_listeners v)(topic_of r := (if events = [] then None else Some (set events)))\<rparr>))"

lemma id_kept [simp]: "ob_id (without_event_params t) = ob_id t" "et_event (without_event_params t) = et_event t"
  "ob_id (fst (known_of i)) = ob_id (ti_row i)"
  by (simp_all add: without_event_params_def known_of_def)

lemma map_of_set_listener [simp]: "map_of (set_listener k es ls) = (map_of ls)(k \<mapsto> es)"
proof -
  have "map_of (map (\<lambda>(j, x). if j = k then (j, es) else (j, x)) ls) = (map_of ls)(k \<mapsto> es)" if "k \<in> fst ` set ls"
    using that
  proof (induction ls)
    case (Cons p ls)
    show ?case
    proof (cases "k \<in> fst ` set ls")
      case True
      then show ?thesis using Cons.IH by (cases p) (auto simp: fun_eq_iff)
    next
      case False
      then have "map (\<lambda>(j, x). if j = k then (j, es) else (j, x)) ls = ls" by (intro map_idI) force
      then show ?thesis using Cons.prems False by (cases p) auto
    qed
  qed simp
  moreover have "map_of (ls @ [(k, es)]) = (map_of ls)(k \<mapsto> es)" if "k \<notin> fst ` set ls"
  proof
    have "map_of ls k = None" using that by (simp add: map_of_eq_None_iff)
    then show "map_of (ls @ [(k, es)]) j = ((map_of ls)(k \<mapsto> es)) j" for j
      by (cases "map_of ls j") (auto simp: map_add_def)
  qed
  ultimately show ?thesis by (simp add: set_listener_def)
qed

lemma map_of_remove_listener [simp]: "map_of (remove_listener k ls) = (map_of ls)(k := None)"
  by (induction ls) (auto simp: remove_listener_def fun_eq_iff)

lemma known_default [simp]: "known_by (view_of e) ev = map known_of (dget_default (ee_map e) ev [])"
  by (simp add: known_by_def view_of_def dget_default_def split: option.split)

lemma map_remove_trigger: "map known_of (remove_trigger i ts) = drop_known i (map known_of ts)"
  by (induction ts) auto

lemma map_refresh: "map known_of (map (\<lambda>t. if ob_id (ti_row t) = ob_id r then t\<lparr>ti_row := r\<rparr> else t) ts) = map (refresh_known r) (map known_of ts)"
  by (induction ts) (auto simp: refresh_known_def known_of_def)

lemma remove_trigger_Nil [simp]: "drop_known i (map known_of ts) = [] \<longleftrightarrow> remove_trigger i ts = []"
  by (metis map_is_Nil_conv map_remove_trigger)

text \<open>The service refines the view: handling a message and looking at the result is the operation on the view.\<close>

lemma deliver_refines: "view_of (deliver m e) = deliver_view m (view_of e)"
proof (cases m)
  case (CreateMessage i events)
  then show ?thesis
    by (auto simp: view_of_def ee_create_trigger_def Let_def fun_eq_iff known_by_def dget_default_def image_image split: option.splits)
next
  case (UpdateMessage r)
  then show ?thesis
    by (auto simp: view_of_def ee_update_trigger_def fun_eq_iff map_refresh simp del: map_map split: option.splits)
next
  case (DeleteMessage r events)
  show ?thesis
  proof (cases "dget (ee_map e) (et_event r)")
    case None
    then show ?thesis using DeleteMessage by (simp add: view_of_def ee_delete_trigger_def)
  next
    case (Some ts)
    have k: "topic_of r \<notin> set (map fst (ee_listeners e)) \<Longrightarrow> (map_of (ee_listeners e))(topic_of r := None) = map_of (ee_listeners e)"
      by (metis fun_upd_triv map_of_eq_None_iff set_map)
    have k': "topic_of r \<notin> set (map fst (ee_listeners e)) \<Longrightarrow> map_of (ee_listeners e) (topic_of r) = None"
      by (simp add: map_of_eq_None_iff)
    show ?thesis
      using DeleteMessage Some k'
      by (auto simp: view_of_def ee_delete_trigger_def Let_def fun_eq_iff map_remove_trigger)
  qed
qed

lemma deliver_all_refines: "view_of (fold deliver ms e) = fold deliver_view ms (view_of e)"
  by (induction ms arbitrary: e) (simp_all add: deliver_refines)

section \<open>The loop keeps the view\<close>

lemma ddel_event_params: "ddel k (dset k p d) = ddel k d"
  by simp

lemma known_with_event_params [simp]: "known_of (with_event_params p t) = known_of t"
  by (simp add: known_of_def with_event_params_def without_event_params_def split: val.split)

lemma start_workflows_known:
  "start_workflows ey sel p ts = (us, ss, ok) \<Longrightarrow> map known_of us = map known_of ts"
  by (induction ts arbitrary: us ss ok) (auto simp: Let_def split: if_splits val.splits prod.splits)

lemma loop_keeps_view: "view_of (snd (event_loop ey e)) = view_of e"
proof (cases "ee_queue e")
  case (Cons n ns)
  show ?thesis
  proof (cases "dget (ee_map e) (nt_event_type n)")
    case None
    then show ?thesis using Cons by (simp add: event_loop_def handle_notification_def view_of_def)
  next
    case (Some ts)
    show ?thesis using Cons Some start_workflows_known[of ey "concerns n" _ ts]
      by (auto simp: event_loop_def handle_notification_def view_of_def fun_eq_iff split: sum.splits prod.splits)
  qed
qed (simp add: event_loop_def)

section \<open>The table as a view\<close>

text \<open>\<open>ns\<close> gives the namespace of a workflow.\<close>

definition row_known :: "(string \<Rightarrow> string) \<Rightarrow> event_trigger \<Rightarrow> known" where
  "row_known ns t = (without_event_params t, Some (ns (the (ob_workflow_id t))))"

definition table_view :: "(string \<Rightarrow> string) \<Rightarrow> event_trigger list \<Rightarrow> service_view" where
  "table_view ns rows =
     \<lparr>sv_triggers = (\<lambda>ev. if filter (\<lambda>t. et_event t = ev) rows = [] then None
        else Some (map (row_known ns) (filter (\<lambda>t. et_event t = ev) rows))),
      sv_listeners = (\<lambda>k. if events_on k rows = [] then None else Some (set (events_on k rows)))\<rparr>"

definition table_ok :: "event_trigger list \<Rightarrow> bool" where
  "table_ok rows \<longleftrightarrow> distinct (map ob_id rows) \<and>
     (\<forall>x \<in> set rows. \<forall>y \<in> set rows. ob_id x \<noteq> ob_id y \<longrightarrow> \<not> same_event_trigger x y)"

lemma row_known_simps [simp]: "ob_id (fst (row_known ns t)) = ob_id t"
  by (simp add: row_known_def)

lemma known_by_table [simp]: "known_by (table_view ns rows) ev = map (row_known ns) (filter (\<lambda>t. et_event t = ev) rows)"
  by (simp add: known_by_def table_view_def)

lemma events_on_append [simp]: "events_on k (xs @ ys) = events_on k xs @ events_on k ys"
  by (simp add: events_on_def)

lemma events_on_single [simp]: "events_on k [t] = (if topic_of t = k then [et_event t] else [])"
  by (simp add: events_on_def)

lemma create_keeps_view:
  assumes "ob_id t \<notin> set (map ob_id rows)" and "ti_row i = t" and "ti_namespace i = Some (ns (the (ob_workflow_id t)))"
    and "set es = set (events_on (topic_of t) (rows @ [t]))"
  shows "deliver_view (CreateMessage i es) (table_view ns rows) = table_view ns (rows @ [t])"
proof -
  have new: "ob_id t \<notin> set (map (\<lambda>x. ob_id (fst x)) (map (row_known ns) (filter (\<lambda>x. et_event x = et_event t) rows)))"
    using assms(1) by auto
  have i: "known_of i = row_known ns t" using assms(2,3) by (simp add: known_of_def row_known_def)
  have "sv_triggers (deliver_view (CreateMessage i es) (table_view ns rows)) ev = sv_triggers (table_view ns (rows @ [t])) ev" for ev
    using new i assms(2) by (simp add: Let_def image_image) (auto simp: table_view_def)
  moreover have "sv_listeners (deliver_view (CreateMessage i es) (table_view ns rows)) k = sv_listeners (table_view ns (rows @ [t])) k" for k
    using assms(2,4) by (simp add: Let_def) (auto simp add: table_view_def)
  ultimately show ?thesis by (simp add: service_view.equality fun_eq_iff)
qed

lemma load_is_create:
  "view_of (load_trigger f t e) = deliver_view (CreateMessage \<lparr>ti_row = t, ti_namespace = Some (f t)\<rparr>
      (case map_of (ee_listeners e) (topic_of t) of None \<Rightarrow> [et_event t] | Some es \<Rightarrow> es @ [et_event t])) (view_of e)"
  if "ob_id t \<notin> set (map (\<lambda>x. ob_id (fst x)) (known_by (view_of e) (et_event t)))"
  using that
  by (simp add: view_of_def load_trigger_def Let_def fun_eq_iff known_by_def known_of_def dget_default_def)
    (auto split: option.split)

lemma start_tracks:
  assumes "distinct (map ob_id rows)"
  shows "view_of (start_listeners (\<lambda>t. ns (the (ob_workflow_id t))) rows) = table_view ns rows"
  using assms
proof (induction rows rule: rev_induct)
  case Nil
  show ?case by (simp add: start_listeners_def view_of_def table_view_def events_on_def fun_eq_iff)
next
  case (snoc t rows)
  let ?f = "\<lambda>t. ns (the (ob_workflow_id t))"
  let ?e = "start_listeners ?f rows"
  have IH: "view_of ?e = table_view ns rows" using snoc by simp
  have new: "ob_id t \<notin> set (map ob_id rows)" using snoc.prems by simp
  have l: "map_option set (map_of (ee_listeners ?e) (topic_of t)) = sv_listeners (table_view ns rows) (topic_of t)"
    using IH by (metis (no_types) select_convs(2) view_of_def)
  let ?es = "case map_of (ee_listeners ?e) (topic_of t) of None \<Rightarrow> [et_event t] | Some es \<Rightarrow> es @ [et_event t]"
  have es: "set ?es = set (events_on (topic_of t) (rows @ [t]))"
    using l by (auto simp: table_view_def split: option.splits if_splits)
  have "ob_id t \<notin> set (map (\<lambda>x. ob_id (fst x)) (known_by (view_of ?e) (et_event t)))"
    using new unfolding IH by auto
  note fresh = this
  have "view_of (start_listeners ?f (rows @ [t])) = view_of (load_trigger ?f t ?e)" by (simp add: start_listeners_def)
  also have "\<dots> = deliver_view (CreateMessage \<lparr>ti_row = t, ti_namespace = Some (?f t)\<rparr> ?es) (table_view ns rows)"
    unfolding IH[symmetric] by (rule load_is_create[OF fresh])
  also have "\<dots> = table_view ns (rows @ [t])"
    by (rule create_keeps_view[OF new]) (use es in simp_all)
  finally show ?case .
qed

lemma update_keeps_view:
  assumes "distinct (map ob_id rows)" "t \<in> set rows"
    and "ob_id u = ob_id t" "et_event u = et_event t" "topic_of u = topic_of t" "ob_workflow_id u = ob_workflow_id t"
  shows "deliver_view (UpdateMessage u) (table_view ns rows) = table_view ns (replace_event_trigger u rows)"
proof -
  have same: "x = t" if "x \<in> set rows" "ob_id x = ob_id u" for x
    using assms(1,2,3) that by (metis distinct_map inj_onD)
  let ?r = "\<lambda>x. if ob_id x = ob_id u then u else x"
  have f: "filter (\<lambda>x. et_event x = ev) (replace_event_trigger u rows) = map ?r (filter (\<lambda>x. et_event x = ev) rows)" for ev
    unfolding replace_event_trigger_def filter_map comp_def
    by (rule arg_cong[where f = "map ?r"], rule filter_cong) (use same assms(4) in auto)
  have on: "events_on k (replace_event_trigger u rows) = events_on k rows" for k
  proof -
    have "filter (\<lambda>x. topic_of x = k) (replace_event_trigger u rows) = map ?r (filter (\<lambda>x. topic_of x = k) rows)"
      unfolding replace_event_trigger_def filter_map comp_def
      by (rule arg_cong[where f = "map ?r"], rule filter_cong) (use same assms(5) in auto)
    then show ?thesis using same assms(4) by (auto simp: events_on_def comp_def intro!: map_cong)
  qed
  have k: "refresh_known u (row_known ns x) = row_known ns (?r x)" if "x \<in> set rows" for x
    using same[OF that] assms(6) by (auto simp: refresh_known_def row_known_def)
  have m: "map (refresh_known u) (map (row_known ns) (filter (\<lambda>x. et_event x = et_event u) rows)) =
      map (row_known ns) (map ?r (filter (\<lambda>x. et_event x = et_event u) rows))"
    unfolding map_map by (rule map_cong) (use k in auto)
  have o: "map ?r (filter (\<lambda>x. et_event x = ev) rows) = filter (\<lambda>x. et_event x = ev) rows" if "ev \<noteq> et_event u" for ev
    using same assms(4) that by (intro map_idI) auto
  have ne: "filter (\<lambda>x. et_event x = et_event u) rows \<noteq> []" using assms(2,4) by (auto simp: filter_empty_conv)
  show ?thesis
  proof (rule service_view.equality)
    show "sv_triggers (deliver_view (UpdateMessage u) (table_view ns rows)) = sv_triggers (table_view ns (replace_event_trigger u rows))"
      using m ne o by (auto simp: table_view_def f fun_eq_iff simp del: map_map)
    show "sv_listeners (deliver_view (UpdateMessage u) (table_view ns rows)) = sv_listeners (table_view ns (replace_event_trigger u rows))"
      using ne by (auto simp: table_view_def on fun_eq_iff)
  qed simp
qed

lemma drop_known_filter:
  "distinct (map ob_id rows) \<Longrightarrow> drop_known i (map (row_known ns) rows) = map (row_known ns) (filter (\<lambda>x. ob_id x \<noteq> i) rows)"
proof (induction rows)
  case (Cons x rows)
  show ?case
  proof (cases "ob_id x = i")
    case True
    then have "filter (\<lambda>x. ob_id x \<noteq> i) rows = rows" using Cons.prems by (auto simp: filter_id_conv image_iff)
    then show ?thesis using True by simp
  qed (use Cons in simp)
qed simp

lemma delete_keeps_view:
  assumes "distinct (map ob_id rows)" "t \<in> set rows"
  shows "deliver_view (DeleteMessage t (remdups (events_on (topic_of t) (filter (\<lambda>x. ob_id x \<noteq> ob_id t) rows)))) (table_view ns rows) =
     table_view ns (filter (\<lambda>x. ob_id x \<noteq> ob_id t) rows)"
proof -
  let ?left = "filter (\<lambda>x. ob_id x \<noteq> ob_id t) rows"
  have same: "x = t" if "x \<in> set rows" "ob_id x = ob_id t" for x
    using assms that by (metis distinct_map inj_onD)
  have ne: "filter (\<lambda>x. et_event x = et_event t) rows \<noteq> []" using assms(2) by (auto simp: filter_empty_conv)
  have d: "drop_known (ob_id t) (map (row_known ns) (filter (\<lambda>x. et_event x = et_event t) rows)) =
      map (row_known ns) (filter (\<lambda>x. et_event x = et_event t) ?left)"
    using drop_known_filter[OF distinct_filter_map_fst[OF assms(1)]] by (simp add: conj_commute del: row_known_simps)
  have o: "filter (\<lambda>x. et_event x = ev) ?left = filter (\<lambda>x. et_event x = ev) rows" if "ev \<noteq> et_event t" for ev
    using same that by (auto intro!: filter_cong)
  have p: "events_on k ?left = events_on k rows" if "k \<noteq> topic_of t" for k
    using same that by (auto simp: events_on_def intro!: arg_cong[where f = "map et_event"] filter_cong)
  show ?thesis
  proof (rule service_view.equality)
    show "sv_triggers (deliver_view (DeleteMessage t (remdups (events_on (topic_of t) ?left))) (table_view ns rows)) =
        sv_triggers (table_view ns ?left)"
      using ne d o by (auto simp: table_view_def Let_def fun_eq_iff simp del: filter_filter)
    show "sv_listeners (deliver_view (DeleteMessage t (remdups (events_on (topic_of t) ?left))) (table_view ns rows)) =
        sv_listeners (table_view ns ?left)"
      using ne p by (auto simp: table_view_def Let_def fun_eq_iff simp del: filter_filter)
  qed simp
qed

section \<open>Requests\<close>

text \<open>
  A careful user changes the name, the scope, the input and the parameters of a trigger. The API accepts a change of
  the workflow as well: then the service keeps the namespace of the old one, and if the commit of the
  change finds a duplicate, the service has it nevertheless.
\<close>

fun careful :: "event_op \<Rightarrow> bool" where
  "careful (PutTrigger a i vals) \<longleftrightarrow>
     list_all (\<lambda>k. k \<in> set [''name'', ''scope'', ''workflow_input'', ''workflow_params'']) (dkeys vals)"
| "careful _ \<longleftrightarrow> True"

definition columns_kept :: "event_trigger \<Rightarrow> event_trigger \<Rightarrow> bool" where
  "columns_kept t u \<longleftrightarrow> ob_id u = ob_id t \<and> et_event u = et_event t \<and> topic_of u = topic_of t \<and>
     ob_workflow_id u = ob_workflow_id t \<and> ob_project u = ob_project t \<and> et_trust_id u = et_trust_id t"

lemma set_column_keeps: "k \<in> set [''name'', ''scope'', ''workflow_input'', ''workflow_params''] \<Longrightarrow> columns_kept t (set_event_column (k, v) t)"
  by (auto simp: columns_kept_def topic_of_def)

lemma careful_put_keeps:
  "list_all (\<lambda>k. k \<in> set [''name'', ''scope'', ''workflow_input'', ''workflow_params'']) (dkeys vals) \<Longrightarrow>
     columns_kept t (fold set_event_column vals t)"
proof (induction vals arbitrary: t)
  case (Cons p vals)
  obtain k v where p: "p = (k, v)" by fastforce
  have "columns_kept (set_event_column (k, v) t) (fold set_event_column vals (set_event_column (k, v) t))"
    using Cons p by (intro Cons.IH) simp
  moreover have "columns_kept t (set_event_column (k, v) t)" using Cons.prems p by (intro set_column_keeps) simp
  ultimately show ?case unfolding p by (simp add: columns_kept_def del: set_event_column.simps)
qed (simp add: columns_kept_def)

lemma found_in_table: "find_event_trigger a i rows = Inr t \<Longrightarrow> t \<in> set rows"
  by (auto simp: find_event_trigger_def bind_res_eq_Inr dest: find_Some_set split: option.splits)

lemma table_ok_replace:
  assumes "table_ok rows" "t \<in> set rows" "columns_kept t u"
  shows "table_ok (replace_event_trigger u rows)" "\<not> list_ex (\<lambda>x. ob_id x \<noteq> ob_id u \<and> same_event_trigger u x) (replace_event_trigger u rows)"
proof -
  let ?r = "\<lambda>x. if ob_id x = ob_id u then u else x"
  have id: "map ob_id (replace_event_trigger u rows) = map ob_id rows" by (simp add: replace_event_trigger_def comp_def if_distrib cong: if_cong)
  have same: "x = t" if "x \<in> set rows" "ob_id x = ob_id u" for x
    using assms that by (metis columns_kept_def distinct_map inj_onD table_ok_def)
  have eq: "same_event_trigger (?r x) (?r y) = same_event_trigger x y" if "x \<in> set rows" "y \<in> set rows" for x y
    using same[OF that(1)] same[OF that(2)] assms(3) by (auto simp: same_event_trigger_def columns_kept_def topic_of_def)
  have ids: "ob_id (?r x) = ob_id x" for x by simp
  have set: "set (replace_event_trigger u rows) = ?r ` set rows" by (simp add: replace_event_trigger_def)
  have pairs: "\<not> same_event_trigger x y" if "x \<in> ?r ` set rows" "y \<in> ?r ` set rows" "ob_id x \<noteq> ob_id y" for x y
  proof -
    from that(1,2) obtain x0 y0 where m: "x0 \<in> set rows" "y0 \<in> set rows" and xy: "x = ?r x0" "y = ?r y0" by blast
    have "ob_id x0 \<noteq> ob_id y0" using that(3) unfolding xy ids .
    then have "\<not> same_event_trigger x0 y0" using assms(1) m unfolding table_ok_def by blast
    then show ?thesis unfolding xy eq[OF m] .
  qed
  show "table_ok (replace_event_trigger u rows)"
    unfolding table_ok_def id set using assms(1) pairs unfolding table_ok_def by blast
  have u: "u \<in> ?r ` set rows" using assms(2,3) by (force simp: columns_kept_def)
  have "\<not> (ob_id x \<noteq> ob_id u \<and> same_event_trigger u x)" if "x \<in> ?r ` set rows" for x
    using pairs[OF u that] by auto
  then show "\<not> list_ex (\<lambda>x. ob_id x \<noteq> ob_id u \<and> same_event_trigger u x) (replace_event_trigger u rows)"
    unfolding list_ex_iff set by blast
qed

definition in_step :: "(string \<Rightarrow> string) \<Rightarrow> event_system \<Rightarrow> bool" where
  "in_step ns x \<longleftrightarrow> table_ok (ev_rows (ex_world x)) \<and>
     view_of (fold deliver (ex_messages x) (ex_engine x)) = table_view ns (ev_rows (ex_world x))"

lemma trusts_keep_rows [simp]: "ev_rows (add_trust k w) = ev_rows w" "ev_rows (delete_trust k w) = ev_rows w"
  by (simp_all add: add_trust_def delete_trust_def split: option.split)

declare deliver.simps [simp del] deliver_view.simps [simp del]

text \<open>What a request does when it sends a message.\<close>

lemma post_outcome:
  assumes "post_event_trigger vs a i k vals w = (r, w', ms)"
  obtains "ms = []" "ev_rows w' = ev_rows w"
  | d t where "vs_workflow vs a (text_of (dget_default vals ''workflow_id'' VNone)) = Inr d"
      "t = new_event_trigger a i (if vs_auth_enable vs then Some k else None) vals"
      "\<not> list_ex (\<lambda>y. same_event_trigger t y \<or> ob_id t = ob_id y) (ev_rows w)" "ev_rows w' = ev_rows w @ [t]"
      "ms = [CreateMessage \<lparr>ti_row = t, ti_namespace = Some (cw_namespace d)\<rparr> (events_on (topic_of t) (ev_rows w @ [t]))]"
proof (cases "post_event_trigger vs a i k vals w = create_event_trigger vs a i k vals w")
  case False
  then have "ms = [] \<and> ev_rows w' = ev_rows w" using assms by (auto simp: post_event_trigger_def split: sum.splits)
  then show ?thesis using that(1) by blast
next
  case True
  let ?t = "new_event_trigger a i (if vs_auth_enable vs then Some k else None) vals"
  let ?u = "list_ex (\<lambda>y. same_event_trigger ?t y \<or> ob_id ?t = ob_id y) (ev_rows w)"
  show ?thesis
  proof (cases "bind_res (vs_workflow vs a (text_of (dget_default vals ''workflow_id'' VNone))) (\<lambda>d.
             bind_res (validate_input (cw_input d) (vdict_of (dget_default vals ''workflow_input'' VNone)) (cw_name d)) (\<lambda>_. Inr d))")
    case (Inl e)
    then show ?thesis using that(1) True assms by (simp add: create_event_trigger_def)
  next
    case (Inr d)
    then have d: "vs_workflow vs a (text_of (dget_default vals ''workflow_id'' VNone)) = Inr d" by (auto simp: bind_res_eq_Inr)
    show ?thesis
    proof (cases ?u)
      case rejected: True
      then have "insert_event_trigger ?t (ev_rows w) = (Inl (DBDuplicateEntryError (ob_name ?t)), ev_rows w)"
        by (simp only: insert_event_trigger_def if_True)
      then have "ms = [] \<and> ev_rows w' = ev_rows w" using True assms Inr by (auto simp: create_event_trigger_def Let_def)
      then show ?thesis using that(1) by blast
    next
      case stored: False
      then have "insert_event_trigger ?t (ev_rows w) = (Inr ?t, ev_rows w @ [?t])"
        by (simp only: insert_event_trigger_def if_False)
      then show ?thesis using that(2)[OF d refl stored] True assms Inr by (auto simp: create_event_trigger_def Let_def)
    qed
  qed
qed

lemma put_outcome:
  assumes "put_event_trigger vs a i vals w = (r, w', ms)"
  obtains "ms = []" "w' = w"
  | t where "find_event_trigger a i (ev_rows w) = Inr t" "ms = [UpdateMessage (fold set_event_column vals t)]"
      "w' = (if list_ex (\<lambda>x. ob_id x \<noteq> ob_id (fold set_event_column vals t) \<and> same_event_trigger (fold set_event_column vals t) x)
                  (replace_event_trigger (fold set_event_column vals t) (ev_rows w))
             then w else w\<lparr>ev_rows := replace_event_trigger (fold set_event_column vals t) (ev_rows w)\<rparr>)"
proof (cases "find_event_trigger a i (ev_rows w)")
  case (Inl e)
  then show ?thesis using that(1) assms by (auto simp: put_event_trigger_def update_event_trigger_def split: sum.splits)
next
  case (Inr t)
  let ?u = "fold set_event_column vals t"
  have u: "update_event_trigger a i vals (ev_rows w) = (Inr ?u, replace_event_trigger ?u (ev_rows w))"
    using Inr by (simp add: update_event_trigger_def Let_def)
  from assms show ?thesis unfolding put_event_trigger_def u using that(1) that(2)[OF Inr]
    by (auto split: sum.splits if_splits)
qed

lemma delete_outcome:
  assumes "delete_event_trigger_request vs a i w = (r, w', ms)"
  obtains "ms = []" "ev_rows w' = ev_rows w"
  | t where "find_event_trigger a i (ev_rows w) = Inr t" "ev_rows w' = filter (\<lambda>y. ob_id y \<noteq> ob_id t) (ev_rows w)"
      "ms = [DeleteMessage t (remdups (events_on (topic_of t) (filter (\<lambda>y. ob_id y \<noteq> ob_id t) (ev_rows w))))]"
proof (cases "bind_res (enforce vs a ''event_triggers:delete'') (\<lambda>_. find_event_trigger a i (ev_rows w))")
  case (Inl e)
  then show ?thesis using that(1) assms by (auto simp: delete_event_trigger_request_def)
next
  case (Inr t)
  then have t: "find_event_trigger a i (ev_rows w) = Inr t" by (auto simp: bind_res_eq_Inr)
  show ?thesis
  proof (cases "list_ex (\<lambda>y. ob_id y = ob_id t) (ev_rows w)")
    case True
    then have "remove_event_trigger (ob_id t) (ev_rows w) = (Inr (), filter (\<lambda>y. ob_id y \<noteq> ob_id t) (ev_rows w))"
      by (simp add: remove_event_trigger_def)
    then show ?thesis using that(2)[OF t] assms Inr by (auto simp: delete_event_trigger_request_def delete_event_trigger_def)
  next
    case False
    then have "remove_event_trigger (ob_id t) (ev_rows w) = (Inl (DBEntityNotFoundError (ob_id t)), ev_rows w)"
      by (simp add: remove_event_trigger_def)
    then show ?thesis using that(1) assms Inr by (auto simp: delete_event_trigger_request_def delete_event_trigger_def)
  qed
qed

lemma in_stepD:
  assumes "in_step ns x"
  shows "table_ok (ev_rows (ex_world x))" "fold deliver_view (ex_messages x) (view_of (ex_engine x)) = table_view ns (ev_rows (ex_world x))"
  using assms by (simp_all add: in_step_def deliver_all_refines)

text \<open>A request keeps step if its message takes the view of the old table to that of the new one.\<close>

lemma in_step_after:
  assumes "in_step ns x" and "table_ok (ev_rows w')"
    and "fold deliver_view ms (table_view ns (ev_rows (ex_world x))) = table_view ns (ev_rows w')"
  shows "in_step ns (after_request (r, w', ms) x)"
  using assms(2,3) in_stepD(2)[OF assms(1)] by (simp add: in_step_def after_request_def deliver_all_refines)

lemma post_in_step:
  assumes "in_step ns x" and ns: "\<And>a i d. vs_workflow vs a i = Inr d \<Longrightarrow> cw_namespace d = ns i"
  shows "in_step ns (after_request (post_event_trigger vs a i k vals (ex_world x)) x)"
proof (cases "post_event_trigger vs a i k vals (ex_world x)")
  case (fields r w' ms)
  let ?rows = "ev_rows (ex_world x)"
  note ok = in_stepD(1)[OF assms(1)]
  show ?thesis using fields
  proof (cases rule: post_outcome)
    case 1
    then show ?thesis using ok unfolding fields by (intro in_step_after[OF assms(1)]) simp_all
  next
    case (2 d t)
    have fresh: "ob_id t \<notin> set (map ob_id ?rows)" using 2(3) by (auto simp: list_ex_iff)
    have wid: "ob_workflow_id t = Some (text_of (dget_default vals ''workflow_id'' VNone))" by (simp add: 2(2) new_event_trigger_def)
    have "deliver_view (hd ms) (table_view ns ?rows) = table_view ns (?rows @ [t])"
      unfolding 2(5) list.sel(1) by (rule create_keeps_view[OF fresh]) (simp_all add: ns[OF 2(1)] wid)
    moreover have "\<not> same_event_trigger t y \<and> \<not> same_event_trigger y t" if "y \<in> set ?rows" for y
      using 2(3) that by (auto simp: same_event_trigger_def list_ex_iff)
    then have "table_ok (?rows @ [t])" using ok fresh unfolding table_ok_def by auto
    ultimately show ?thesis using 2(4,5) unfolding fields by (intro in_step_after[OF assms(1)]) simp_all
  qed
qed

lemma put_in_step:
  assumes "in_step ns x" and "careful (PutTrigger a i vals)"
  shows "in_step ns (after_request (put_event_trigger vs a i vals (ex_world x)) x)"
proof (cases "put_event_trigger vs a i vals (ex_world x)")
  case (fields r w' ms)
  let ?rows = "ev_rows (ex_world x)"
  note ok = in_stepD(1)[OF assms(1)]
  show ?thesis using fields
  proof (cases rule: put_outcome)
    case 1
    then show ?thesis using ok unfolding fields by (intro in_step_after[OF assms(1)]) simp_all
  next
    case (2 t)
    let ?u = "fold set_event_column vals t"
    have k: "columns_kept t ?u" using assms(2) by (intro careful_put_keeps) simp
    have mem: "t \<in> set ?rows" by (rule found_in_table[OF 2(1)])
    note rep = table_ok_replace[OF ok mem k]
    have "deliver_view (UpdateMessage ?u) (table_view ns ?rows) = table_view ns (replace_event_trigger ?u ?rows)"
      by (rule update_keeps_view[OF _ mem]) (use k ok in \<open>simp_all add: columns_kept_def table_ok_def\<close>)
    moreover have "w' = (ex_world x)\<lparr>ev_rows := replace_event_trigger ?u ?rows\<rparr>" using 2(3) rep(2) by (simp only: if_False)
    ultimately show ?thesis using 2(2) rep(1) unfolding fields by (intro in_step_after[OF assms(1)]) simp_all
  qed
qed

lemma delete_in_step:
  assumes "in_step ns x"
  shows "in_step ns (after_request (delete_event_trigger_request vs a i (ex_world x)) x)"
proof (cases "delete_event_trigger_request vs a i (ex_world x)")
  case (fields r w' ms)
  let ?rows = "ev_rows (ex_world x)"
  note ok = in_stepD(1)[OF assms(1)]
  have d: "distinct (map ob_id ?rows)" using ok by (simp add: table_ok_def)
  show ?thesis using fields
  proof (cases rule: delete_outcome)
    case 1
    then show ?thesis using ok unfolding fields by (intro in_step_after[OF assms(1)]) simp_all
  next
    case (2 t)
    have "table_ok (filter (\<lambda>y. ob_id y \<noteq> ob_id t) ?rows)"
      using ok distinct_filter_map_fst[OF d] by (auto simp: table_ok_def)
    then show ?thesis using 2(2,3) delete_keeps_view[OF d found_in_table[OF 2(1)]] unfolding fields by (intro in_step_after[OF assms(1)]) simp_all
  qed
qed

lemma op_in_step:
  assumes "in_step ns x" and "careful c" and ns: "\<And>a i d. vs_workflow vs a i = Inr d \<Longrightarrow> cw_namespace d = ns i"
  shows "in_step ns (run_event_op vs ey c x)"
proof (cases c)
  case (PostTrigger a i k vals)
  then show ?thesis using post_in_step[OF assms(1) ns] by simp
next
  case (PutTrigger a i vals)
  then show ?thesis using put_in_step[OF assms(1)] assms(2) by simp
next
  case (DeleteTrigger a i)
  then show ?thesis using delete_in_step[OF assms(1)] by simp
next
  case DeliverMessage
  then show ?thesis using assms(1) by (cases "ex_messages x") (simp_all add: in_step_def)
next
  case (Notify n)
  have "view_of (process_notification_event n e) = view_of e" for e by (simp add: view_of_def process_notification_event_def)
  then show ?thesis using assms(1) Notify by (simp add: in_step_def deliver_all_refines)
next
  case Loop
  then show ?thesis using assms(1) loop_keeps_view[of ey "ex_engine x"]
    by (cases "event_loop ey (ex_engine x)") (simp add: in_step_def deliver_all_refines)
qed

lemma run_in_step:
  assumes "in_step ns x" and "list_all careful ops" and "\<And>a i d. vs_workflow vs a i = Inr d \<Longrightarrow> cw_namespace d = ns i"
  shows "in_step ns (event_run vs ey ops x)"
  using assms(1,2)
proof (induction ops arbitrary: x)
  case (Cons c ops)
  have "in_step ns (run_event_op vs ey c x)" by (rule op_in_step[OF Cons.prems(1) _ assms(3)]) (use Cons.prems(2) in simp_all)
  then show ?case using Cons.IH Cons.prems(2) by (simp add: event_run_def)
qed (simp add: event_run_def)

lemma run_from_start:
  assumes "table_ok (ev_rows w)" and "list_all careful ops"
    and "\<And>a i d. vs_workflow vs a i = Inr d \<Longrightarrow> cw_namespace d = ns i"
  shows "in_step ns (event_run vs ey ops (service_started (\<lambda>t. ns (the (ob_workflow_id t))) w))"
proof -
  have "in_step ns (service_started (\<lambda>t. ns (the (ob_workflow_id t))) w)"
    using assms(1) start_tracks[of "ev_rows w" ns] by (simp add: in_step_def service_started_def table_ok_def)
  then show ?thesis using assms(2,3) by (rule run_in_step)
qed

text \<open>
  C20. The service follows the table of event triggers: from a start of the service, whatever requests, notifications and rounds of the
  loop happen, if updates change names, scopes, inputs and parameters only (and not the workflow, which the API allows, too), then once the messages on the way are
  handled the service knows exactly the triggers of the table, by event and in their order, with the
  namespaces of their workflows, and listens to exactly their events on their exchanges and topics.
\<close>

theorem event_service_tracks_table:
  assumes "table_ok (ev_rows w)" and "list_all careful ops"
    and "\<And>a i d. vs_workflow vs a i = Inr d \<Longrightarrow> cw_namespace d = ns i"
  shows "let x = event_run vs ey ops (service_started (\<lambda>t. ns (the (ob_workflow_id t))) w)
     in view_of (fold deliver (ex_messages x) (ex_engine x)) = table_view ns (ev_rows (ex_world x))"
proof -
  have "in_step ns (event_run vs ey ops (service_started (\<lambda>t. ns (the (ob_workflow_id t))) w))"
    by (rule run_from_start[OF assms(1,2)]) (rule assms(3))
  then show ?thesis by (simp add: in_step_def Let_def)
qed

section \<open>What a notification starts\<close>

text \<open>A start that a known trigger asks for, with the converted notification \<open>p\<close> among the parameters.\<close>

definition start_for :: "val \<Rightarrow> event_start \<Rightarrow> known \<Rightarrow> bool" where
  "start_for p s k \<longleftrightarrow> es_trigger s = ob_id (fst k) \<and> es_project s = ob_project (fst k) \<and> es_trust s = et_trust_id (fst k) \<and>
     es_workflow s = ob_workflow_id (fst k) \<and> Some (es_namespace s) = snd k \<and> es_input s = et_workflow_input (fst k) \<and>
     (\<exists>d. et_workflow_params (fst k) = VDict d \<and> dget (es_params s) = (dget d)(''event_params'' \<mapsto> p))"

text \<open>Parameters that can be passed to the engine.\<close>

definition good_params :: "val \<Rightarrow> bool" where
  "good_params v \<longleftrightarrow> (case v of VDict d \<Rightarrow> \<not> list_ex (\<lambda>k. k \<in> set passed_keywords) (dkeys d) | _ \<Rightarrow> False)"

lemma concerns_known [simp]: "concerns n (without_event_params t) = concerns n t" "is_public (without_event_params t) = is_public t"
  "ob_project (without_event_params t) = ob_project t"
  by (simp_all add: concerns_def is_public_def without_event_params_def)

lemma start_for_known:
  assumes "et_workflow_params (ti_row i) = VDict d" "good_params (VDict d)" "ti_namespace i \<noteq> None"
  obtains s where "start_request (with_event_params p i) (dset ''event_params'' p d) = [s]" "start_for p s (known_of i)"
proof -
  have "\<not> list_ex (\<lambda>k. k \<in> set passed_keywords) (dkeys (dset ''event_params'' p d))"
    using assms(2) by (auto simp: good_params_def list_ex_iff passed_keywords_def)
  then show ?thesis
    using that assms(1,3)
    by (auto simp: start_request_def with_event_params_def start_for_def known_of_def without_event_params_def fun_eq_iff)
qed

lemma start_workflows_starts:
  assumes "\<And>k q. ey_create_context ey k q = Inr ()"
    and "\<forall>i \<in> set ts. good_params (et_workflow_params (ti_row i)) \<and> ti_namespace i \<noteq> None"
  shows "\<exists>us ss. start_workflows ey (concerns n) p ts = (us, ss, True) \<and>
    list_all2 (start_for p) ss (filter (\<lambda>k. concerns n (fst k)) (map known_of ts))"
  using assms(2)
proof (induction ts)
  case (Cons i ts)
  then obtain us ss where IH: "start_workflows ey (concerns n) p ts = (us, ss, True)"
    "list_all2 (start_for p) ss (filter (\<lambda>k. concerns n (fst k)) (map known_of ts))" by auto
  from Cons.prems obtain d where d: "et_workflow_params (ti_row i) = VDict d" "good_params (VDict d)"
    by (auto simp: good_params_def split: val.splits)
  have c: "concerns n (fst (known_of i)) = concerns n (ti_row i)" by (simp add: known_of_def)
  show ?case
  proof (cases "concerns n (ti_row i)")
    case True
    from d Cons.prems obtain s where "start_request (with_event_params p i) (dset ''event_params'' p d) = [s]" "start_for p s (known_of i)"
      by (auto elim: start_for_known)
    then show ?thesis using IH True d(1) c assms(1) by (simp add: Let_def)
  next
    case False
    then show ?thesis using IH c by simp
  qed
qed simp

text \<open>A round of the loop in terms of what is known.\<close>

lemma event_loop_starts:
  assumes "ee_alive e" "ee_queue e = n # q" "convert_event ey n = Inr p" "\<And>k j. ey_create_context ey k j = Inr ()"
    and "\<forall>i \<in> set (dget_default (ee_map e) (nt_event_type n) []). good_params (et_workflow_params (ti_row i)) \<and> ti_namespace i \<noteq> None"
  shows "list_all2 (start_for p) (fst (event_loop ey e)) (filter (\<lambda>k. concerns n (fst k)) (known_by (view_of e) (nt_event_type n)))"
proof (cases "dget (ee_map e) (nt_event_type n)")
  case None
  then show ?thesis using assms by (simp add: event_loop_def handle_notification_def dget_default_def)
next
  case (Some ts)
  have k: "known_by (view_of e) (nt_event_type n) = map known_of ts" using Some by (simp add: dget_default_def)
  show ?thesis
  proof (cases "skips_event ey n (map ti_row ts)")
    case True
    have "\<not> concerns n (ti_row i)" if "i \<in> set ts" for i
      using True that by (auto simp: skips_event_def concerns_def list_ex_iff dget_default_def image_iff split: option.splits)
    then have "filter (\<lambda>k. concerns n (fst k)) (map known_of ts) = []" by (auto simp: filter_empty_conv known_of_def)
    then show ?thesis using k True Some assms(1,2) by (simp add: event_loop_def handle_notification_def)
  next
    case False
    obtain us ss where "start_workflows ey (concerns n) p ts = (us, ss, True)"
      "list_all2 (start_for p) ss (filter (\<lambda>k. concerns n (fst k)) (map known_of ts))"
      using start_workflows_starts[OF assms(4), of ts n p] assms(5) Some by (auto simp: dget_default_def)
    then show ?thesis using k False Some assms(1-3) by (simp add: event_loop_def handle_notification_def)
  qed
qed

lemma good_known: "good_params (et_workflow_params (without_event_params t)) \<longleftrightarrow> good_params (et_workflow_params t)"
  by (auto simp: without_event_params_def good_params_def list_ex_iff passed_keywords_def ddel_def split: val.split)



section \<open>How it goes wrong\<close>

lemma find_visible:
  assumes "table_ok rows" "t \<in> set rows" "ob_project t = get_project_id a \<or> is_public t"
  shows "find_event_trigger a (ob_id t) rows = Inr t"
proof -
  have tr: "ob_id (db_object.truncate x) = ob_id x" "ob_project (db_object.truncate x) = ob_project x"
    "ob_scope (db_object.truncate x) = ob_scope x" for x :: event_trigger
    by (simp_all add: db_object.defs)
  have same: "x = t" if "x \<in> set rows" "ob_id x = ob_id t" for x
    using assms(1,2) that by (metis distinct_map inj_onD table_ok_def)
  have q: "db_object.truncate t \<in> set (db_query a False EventTrigger (event_table rows))"
    using assms(2,3) by (auto simp: db_query_def secure_query_def event_table_def may_see_def shared_ids_def resource_mapping_def tr is_public_def)
  have sub: "x \<in> db_object.truncate ` set rows" if "x \<in> set (db_query a False EventTrigger (event_table rows))" for x
    using that by (auto simp: db_query_def secure_query_def event_table_def split: if_splits)
  obtain y where y: "find (\<lambda>x. ob_id x = ob_id t) (db_query a False EventTrigger (event_table rows)) = Some y"
    using q find_None_set[of "\<lambda>x. ob_id x = ob_id t"] tr(1) by (cases "find (\<lambda>x. ob_id x = ob_id t) (db_query a False EventTrigger (event_table rows))") auto
  have "ob_id y = ob_id t" using find_Some_set[OF y] by simp
  moreover have "find (\<lambda>x. ob_id x = ob_id t) rows = Some t"
    using same assms(2) by (cases "find (\<lambda>x. ob_id x = ob_id t) rows") (auto dest: find_Some_set simp: find_None_set)
  ultimately show ?thesis using y by (simp add: find_event_trigger_def get_event_trigger_def get_db_object_by_id_def found_def)
qed

lemma dead_keeps: "\<not> ee_alive (ex_engine x) \<Longrightarrow>
    \<not> ee_alive (ex_engine (run_event_op vs ey c x)) \<and> ex_starts (run_event_op vs ey c x) = ex_starts x"
proof -
  assume d: "\<not> ee_alive (ex_engine x)"
  have "ee_alive (deliver m e) = ee_alive e" for m e
    by (cases m) (simp_all add: deliver.simps ee_create_trigger_def ee_update_trigger_def ee_delete_trigger_def Let_def split: option.split)
  then show ?thesis using d
    by (cases c) (auto simp: after_request_def event_loop_def process_notification_event_def split: prod.splits list.splits)
qed

lemma dead_service: "\<not> ee_alive (ex_engine x) \<Longrightarrow> ex_starts (event_run vs ey ops x) = ex_starts x"
proof (induction ops arbitrary: x)
  case (Cons c ops)
  then show ?case using dead_keeps[of x vs ey c] by (simp add: event_run_def)
qed (simp add: event_run_def)

lemma bad_params_kill:
  assumes "i \<in> set ts" "sel (ti_row i)" "\<not> is_vdict (et_workflow_params (ti_row i))"
  shows "\<not> snd (snd (start_workflows ey sel p ts))"
  using assms(1)
proof (induction ts)
  case (Cons j ts)
  then show ?case using assms(2,3) by (cases "j = i") (auto simp: Let_def split: val.splits prod.splits)
qed simp

lemma loop_dies:
  assumes "ee_queue e = n # q" "dget (ee_map e) (nt_event_type n) = Some ts" "i \<in> set ts" "concerns n (ti_row i)"
    and "\<not> is_vdict (et_workflow_params (ti_row i))"
  shows "\<not> ee_alive (snd (event_loop ey e))"
proof -
  have "\<not> skips_event ey n (map ti_row ts)"
    using assms(3,4) by (force simp: skips_event_def concerns_def list_ex_iff dget_default_def split: option.splits)
  then show ?thesis
    using assms(1,2) bad_params_kill[of i ts "concerns n" ey, OF assms(3-5)]
    by (auto simp: event_loop_def handle_notification_def split: sum.splits prod.splits) (metis snd_conv)
qed

text \<open>The run in which a user changes a trigger and a notification for its event arrives.\<close>

abbreviation change_and_notify :: "actor \<Rightarrow> event_trigger \<Rightarrow> val dict \<Rightarrow> notification \<Rightarrow> event_op list" where
  "change_and_notify a t vals n \<equiv> [PutTrigger a (ob_id t) vals, DeliverMessage, Notify n, Loop]"

lemma put_sends:
  assumes "table_ok (ev_rows w)" "t \<in> set (ev_rows w)" "ob_project t = get_project_id a \<or> is_public t"
    and "vs_enforce vs a ''event_triggers:update''" "set (dkeys vals) \<subseteq> {''workflow_params'', ''workflow_id'', ''workflow_input''}"
  shows "snd (snd (put_event_trigger vs a (ob_id t) vals w)) = [UpdateMessage (fold set_event_column vals t)]"
proof -
  have g: "\<not> given_val vals k" if "k \<notin> {''workflow_params'', ''workflow_id'', ''workflow_input''}" for k
    using assms(5) that by (force simp: given_val_def dest: dget_in_keys split: option.splits)
  have "dget vals ''scope'' = None" using assms(5) by (force simp: map_of_eq_None_iff)
  then have "bind_res (enforce vs a ''event_triggers:update'') (\<lambda>_. bind_res (publicize_allowed vs a vals) (\<lambda>_.
      guard_res (\<not> list_ex (given_val vals) [''exchange'', ''topic'', ''event'']) (OtherException ''EventTriggerException''))) = Inr ()"
    using g assms(4) by (simp add: enforce_def publicize_allowed_def guard_res_def)
  then show ?thesis
    using find_visible[OF assms(1,2,3)] by (simp add: put_event_trigger_def update_event_trigger_def Let_def)
qed

lemma change_and_notify_run:
  assumes "table_ok (ev_rows w)" "t \<in> set (ev_rows w)" "ob_project t = get_project_id a \<or> is_public t"
    and "vs_enforce vs a ''event_triggers:update''" "set (dkeys vals) \<subseteq> {''workflow_params'', ''workflow_id'', ''workflow_input''}"
  obtains e where "view_of e = deliver_view (UpdateMessage (fold set_event_column vals t)) (table_view ns (ev_rows w))"
    "ee_queue e = [n]" "ee_alive e"
    "ex_engine (event_run vs ey (change_and_notify a t vals n) (service_started (\<lambda>t. ns (the (ob_workflow_id t))) w)) = snd (event_loop ey e)"
    "ex_starts (event_run vs ey (change_and_notify a t vals n) (service_started (\<lambda>t. ns (the (ob_workflow_id t))) w)) = fst (event_loop ey e)"
proof -
  let ?f = "\<lambda>t. ns (the (ob_workflow_id t))"
  let ?loaded = "start_listeners ?f (ev_rows w)"
  let ?told = "deliver (UpdateMessage (fold set_event_column vals t)) ?loaded"
  let ?noted = "process_notification_event n ?told"
  have fresh: "ee_queue (fold (load_trigger f) rows e) = ee_queue e \<and> ee_alive (fold (load_trigger f) rows e) = ee_alive e" for f rows e
    by (induction rows arbitrary: e) (simp_all add: load_trigger_def)
  have kept: "ee_queue ?told = ee_queue ?loaded \<and> ee_alive ?told = ee_alive ?loaded"
    by (simp add: deliver.simps ee_update_trigger_def split: option.split)
  have "view_of ?noted = view_of ?told" by (simp add: view_of_def process_notification_event_def)
  also have "\<dots> = deliver_view (UpdateMessage (fold set_event_column vals t)) (table_view ns (ev_rows w))"
    using start_tracks[of "ev_rows w" ns] assms(1) by (simp add: deliver_refines table_ok_def)
  finally have v: "view_of ?noted = deliver_view (UpdateMessage (fold set_event_column vals t)) (table_view ns (ev_rows w))" .
  have qa: "ee_queue ?noted = [n]" "ee_alive ?noted" using kept fresh by (simp_all add: process_notification_event_def start_listeners_def)
  obtain r w' where put: "put_event_trigger vs a (ob_id t) vals w = (r, w', [UpdateMessage (fold set_event_column vals t)])"
    using put_sends[OF assms] by (metis prod.collapse)
  show ?thesis
    by (rule that[OF v qa]) (simp_all add: event_run_def service_started_def after_request_def put split: prod.split)
qed

text \<open>
  C22. The owner of one trigger can stop the service for everybody: once the parameters of a trigger are set to
  null and a notification arrives that concerns it, the thread of the loop ends, and no workflow is ever
  started again, whatever requests and notifications follow.
\<close>

theorem null_params_stop_service:
  assumes "table_ok (ev_rows w)" "t \<in> set (ev_rows w)" "ob_project t = get_project_id a"
    and "vs_enforce vs a ''event_triggers:update''" "nt_event_type n = et_event t" "concerns n t"
    and "y = event_run vs ey (change_and_notify a t [(''workflow_params'', VNone)] n) (service_started (\<lambda>t. ns (the (ob_workflow_id t))) w)"
  shows "ex_starts (event_run vs ey ops y) = ex_starts y"
proof -
  let ?u = "t\<lparr>et_workflow_params := VNone\<rparr>"
  obtain e where v: "view_of e = deliver_view (UpdateMessage ?u) (table_view ns (ev_rows w))" and e: "ee_queue e = [n]"
    and y: "ex_engine y = snd (event_loop ey e)"
    using change_and_notify_run[OF assms(1,2) disjI1[OF assms(3)] assms(4), of "[(''workflow_params'', VNone)]" ns n ey] assms(7) by auto
  have "filter (\<lambda>x. et_event x = et_event t) (ev_rows w) \<noteq> []" using assms(2) by (auto simp: filter_empty_conv)
  then have "known_by (view_of e) (et_event t) = map (refresh_known ?u) (map (row_known ns) (filter (\<lambda>x. et_event x = et_event t) (ev_rows w)))"
    unfolding v by (simp add: deliver_view.simps known_by_def table_view_def)
  moreover have "row_known ns t \<in> set (map (row_known ns) (filter (\<lambda>x. et_event x = et_event t) (ev_rows w)))" using assms(2) by simp
  ultimately have "refresh_known ?u (row_known ns t) \<in> set (known_by (view_of e) (et_event t))" by (simp only: set_map image_eqI)
  then obtain i where m: "i \<in> set (dget_default (ee_map e) (et_event t) [])" and k: "known_of i = refresh_known ?u (row_known ns t)"
    by auto
  from m obtain ts where ts: "dget (ee_map e) (et_event t) = Some ts" "i \<in> set ts"
    by (cases "dget (ee_map e) (et_event t)") (simp_all add: dget_default_def)
  from k have i: "without_event_params (ti_row i) = ?u" by (simp add: known_of_def refresh_known_def without_event_params_def)
  have "concerns n (ti_row i)"
    using assms(6) concerns_known(1)[of n "ti_row i"] unfolding i by (simp add: concerns_def is_public_def)
  moreover have "\<not> is_vdict (et_workflow_params (ti_row i))"
    using arg_cong[OF i, of et_workflow_params] by (auto simp: without_event_params_def split: val.splits)
  ultimately have "\<not> ee_alive (ex_engine y)"
    unfolding y using loop_dies[OF e _ ts(2)] ts(1) assms(5) by simp
  then show ?thesis by (rule dead_service)
qed

text \<open>
  C23. Anybody can run workflows with the trust of another project: if that project has a public trigger and
  the policies let users update triggers, a user of any project changes its workflow and the input, and the next notification
  for the event starts that workflow with that input in the project and with the trust of the owner, but in the
  namespace of the workflow that the trigger had before. It does not matter whether the commit of the change succeeds.
\<close>

theorem public_trigger_hijack:
  assumes "table_ok (ev_rows w)" "t \<in> set (ev_rows w)" "is_public t" "vs_enforce vs a ''event_triggers:update''"
    and "nt_event_type n = et_event t" "convert_event ey n = Inr p" "\<And>k j. ey_create_context ey k j = Inr ()"
    and "list_all (\<lambda>t. good_params (et_workflow_params t)) (ev_rows w)"
  shows "list_ex (\<lambda>s. es_trigger s = ob_id t \<and> es_workflow s = Some wf_id \<and> es_input s = inp \<and> es_project s = ob_project t \<and>
       es_trust s = et_trust_id t \<and> es_namespace s = ns (the (ob_workflow_id t)))
     (ex_starts (event_run vs ey (change_and_notify a t [(''workflow_id'', VStr wf_id), (''workflow_input'', inp)] n) (service_started (\<lambda>t. ns (the (ob_workflow_id t))) w)))"
proof -
  let ?u = "t\<lparr>ob_workflow_id := Some wf_id, et_workflow_input := inp\<rparr>"
  let ?F = "filter (\<lambda>x. et_event x = et_event t) (ev_rows w)"
  obtain e where v: "view_of e = deliver_view (UpdateMessage ?u) (table_view ns (ev_rows w))" and e: "ee_queue e = [n]" "ee_alive e"
    and st: "ex_starts (event_run vs ey (change_and_notify a t [(''workflow_id'', VStr wf_id), (''workflow_input'', inp)] n) (service_started (\<lambda>t. ns (the (ob_workflow_id t))) w)) =
      fst (event_loop ey e)"
    using change_and_notify_run[OF assms(1,2) disjI2[OF assms(3)] assms(4), of "[(''workflow_id'', VStr wf_id), (''workflow_input'', inp)]" ns n ey] by auto
  have "?F \<noteq> []" using assms(2) by (auto simp: filter_empty_conv)
  then have k: "known_by (view_of e) (et_event t) = map (refresh_known ?u) (map (row_known ns) ?F)"
    unfolding v by (simp add: deliver_view.simps known_by_def table_view_def)
  have r: "refresh_known ?u (row_known ns t) = (without_event_params ?u, Some (ns (the (ob_workflow_id t))))"
    by (simp add: refresh_known_def row_known_def)
  have "good_params (et_workflow_params (fst x)) \<and> snd x \<noteq> None" if "x \<in> set (known_by (view_of e) (et_event t))" for x
    using that assms(2,8) good_known[of t] good_known unfolding k
    by (auto simp: refresh_known_def row_known_def list_all_iff without_event_params_def)
  then have g: "\<forall>i \<in> set (dget_default (ee_map e) (et_event t) []). good_params (et_workflow_params (ti_row i)) \<and> ti_namespace i \<noteq> None"
    using good_known by (force simp: known_of_def)
  let ?k = "refresh_known ?u (row_known ns t)"
  have "?k \<in> set (known_by (view_of e) (et_event t))" unfolding k using assms(2) by force
  moreover have "concerns n (fst ?k)" using assms(3) unfolding r by (simp add: concerns_def) (simp add: is_public_def)
  ultimately have "?k \<in> set (filter (\<lambda>k. concerns n (fst k)) (known_by (view_of e) (et_event t)))" by simp
  then obtain s where "s \<in> set (fst (event_loop ey e))" "start_for p s ?k"
    using event_loop_starts[OF e(2,1) assms(6,7) g[folded assms(5)]] unfolding assms(5) list_all2_conv_all_nth in_set_conv_nth by metis
  then show ?thesis unfolding st list_ex_iff r by (auto simp: start_for_def without_event_params_def)
qed

section \<open>Witnesses\<close>

definition sample_trigger :: "string \<Rightarrow> string \<Rightarrow> string \<Rightarrow> event_trigger" where
  "sample_trigger i pr sc =
     \<lparr>ob_id = i, ob_name = ''on create'', ob_namespace = [], ob_project = pr, ob_scope = sc, ob_is_system = False, ob_version = 1,
      ob_workflow_id = Some ''wf'', ob_values = [], et_workflow_input = VDict [], et_workflow_params = VDict [(''env'', VDict [])],
      et_exchange = ''nova'', et_topic = ''notifications'', et_event = ''instance.create'', et_trust_id = Some (''trust of '' @ pr)\<rparr>"

definition sample_events :: event_world where
  "sample_events = \<lparr>cd_rows = [], cd_trusts = [''trust of p''], ev_rows = [sample_trigger ''1'' ''p'' ''public'', sample_trigger ''2'' ''q'' ''private'']\<rparr>"

definition sample_api :: event_api where
  "sample_api = \<lparr>vs_auth_enable = True, vs_enforce = (\<lambda>_ r. r \<noteq> ''event_triggers:publicize''),
     vs_workflow = (\<lambda>_ i. Inr \<lparr>cw_id = i, cw_name = i, cw_namespace = ''lab'', cw_input = []\<rparr>)\<rparr>"

definition sample_service :: ee_sys where
  "sample_service = \<lparr>ey_env = plain_env, ey_auth_enable = True, ey_definitions = [], ey_create_context = (\<lambda>_ _. Inr ())\<rparr>"

definition created :: notification where
  "created = \<lparr>nt_event_type = ''instance.create'', nt_payload = VNone, nt_publisher = VStr ''nova'', nt_timestamp = VInt 0,
     nt_context = [(''project_id'', VStr ''p'')]\<rparr>"

definition member_of :: "string \<Rightarrow> actor" where
  "member_of pr = \<lparr>ac_auth_enable = True, ac_has_ctx = True, ac_project = pr, ac_is_admin = False\<rparr>"

definition lab :: "string \<Rightarrow> string" where
  "lab i = ''lab''"

lemma sample_table: "table_ok (ev_rows sample_events)"
  by (simp add: table_ok_def sample_events_def sample_trigger_def same_event_trigger_def)

lemma sample_namespaces: "vs_workflow sample_api a i = Inr d \<Longrightarrow> cw_namespace d = lab i"
  by (auto simp: sample_api_def lab_def)

lemma created_converted: "convert_event sample_service created = Inr default_properties"
  by (simp add: convert_event_def sample_service_def get_event_definition_def evaluate_recursively_def ctx_truthy_def handle_event_def
      default_properties_def catch_attribute_error_def evaluate_def plain_env_def)

definition busy_day :: "event_op list" where
  "busy_day = [PostTrigger (member_of ''r'') ''3'' ''k3'' [(''exchange'', VStr ''nova''), (''topic'', VStr ''notifications''),
       (''event'', VStr ''instance.delete''), (''workflow_id'', VStr ''clean'')],
     PutTrigger (member_of ''q'') ''2'' [(''workflow_params'', VDict [(''env'', VStr ''prod'')])], Notify created, DeliverMessage, Loop,
     DeleteTrigger (member_of ''p'') ''1'']"

theorem event_service_tracks_table_witness:
  "let x = event_run sample_api sample_service busy_day (service_started (\<lambda>t. lab (the (ob_workflow_id t))) sample_events)
   in view_of (fold deliver (ex_messages x) (ex_engine x)) = table_view lab (ev_rows (ex_world x))"
  by (rule event_service_tracks_table[OF sample_table]) (simp_all add: busy_day_def sample_namespaces)


lemma sample_context: "ey_create_context sample_service k j = Inr ()"
  by (simp add: sample_service_def)

lemma sample_params: "list_all (\<lambda>t. good_params (et_workflow_params t)) (ev_rows sample_events)"
  by (simp add: sample_events_def sample_trigger_def good_params_def passed_keywords_def)


theorem null_params_stop_service_witness:
  "\<exists>y. y = event_run sample_api sample_service (change_and_notify (member_of ''p'') (sample_trigger ''1'' ''p'' ''public'') [(''workflow_params'', VNone)] created)
        (service_started (\<lambda>t. lab (the (ob_workflow_id t))) sample_events) \<and>
     ex_starts (event_run sample_api sample_service busy_day y) = ex_starts y"
proof -
  let ?t = "sample_trigger ''1'' ''p'' ''public''"
  have "?t \<in> set (ev_rows sample_events)" "ob_project ?t = get_project_id (member_of ''p'')"
    "vs_enforce sample_api (member_of ''p'') ''event_triggers:update''" "nt_event_type created = et_event ?t" "concerns created ?t"
    by (simp_all add: sample_events_def sample_trigger_def sample_api_def created_def member_of_def get_project_id_def concerns_def is_public_def)
  from null_params_stop_service[OF sample_table this refl] show ?thesis by blast
qed

theorem public_trigger_hijack_witness:
  "list_ex (\<lambda>s. es_trigger s = ''1'' \<and> es_workflow s = Some ''mine'' \<and> es_input s = VDict [(''x'', VInt 1)] \<and> es_project s = ''p'' \<and>
       es_trust s = Some ''trust of p'' \<and> es_namespace s = ''lab'')
     (ex_starts (event_run sample_api sample_service
        (change_and_notify (member_of ''m'') (sample_trigger ''1'' ''p'' ''public'') [(''workflow_id'', VStr ''mine''), (''workflow_input'', VDict [(''x'', VInt 1)])] created)
        (service_started (\<lambda>t. lab (the (ob_workflow_id t))) sample_events)))"
proof -
  let ?t = "sample_trigger ''1'' ''p'' ''public''"
  have "?t \<in> set (ev_rows sample_events)" "is_public ?t" "vs_enforce sample_api (member_of ''m'') ''event_triggers:update''"
    "nt_event_type created = et_event ?t"
    by (simp_all add: sample_events_def sample_trigger_def is_public_def sample_api_def created_def)
  from public_trigger_hijack[OF sample_table this created_converted sample_context sample_params, where ns = lab and wf_id = "''mine''" and inp = "VDict [(''x'', VInt 1)]"]
  show ?thesis by (simp add: sample_trigger_def list_ex_iff lab_def)
qed

end
