(* ===== verification/Legacy_Scheduler.thy ===== *)
theory Legacy_Scheduler
  imports Scheduler
begin

text \<open>
  \<^verbatim>\<open>mistral/services/legacy_scheduler.py\<close> with the queries of delayed calls in
  \<^verbatim>\<open>db/v2/sqlalchemy/api.py\<close>: a call is captured by the flag \<^verbatim>\<open>processing\<close>, which nothing resets, all
  captured calls are prepared, then invoked, then deleted. Jobs, calls and serializers are those of
  \<open>Scheduler\<close>. What a call does is not part of the store here: invoking it appends it to a log.
\<close>

section \<open>Delayed calls\<close>

record delayed_call = scheduler_job +
  dc_id :: string
  dc_execution_time :: time
  dc_processing :: bool

record delayed_store =
  dl_calls :: "delayed_call dict"
  dl_now :: time
  dl_log :: "(string \<times> job_call) list"

definition create_delayed_call :: "delayed_call \<Rightarrow> delayed_store \<Rightarrow> delayed_call res \<times> delayed_store" where
  "create_delayed_call d s =
     (if dhas (dl_calls s) (dc_id d) then (Inl (DBDuplicateEntryError (dc_id d)), s)
      else (Inr d, s\<lparr>dl_calls := dset (dc_id d) d (dl_calls s)\<rparr>))"

definition get_delayed_calls_to_start :: "time \<Rightarrow> nat option \<Rightarrow> delayed_store \<Rightarrow> delayed_call list" where
  "get_delayed_calls_to_start t batch_size s =
     limit batch_size (sort_key dc_execution_time (filter (\<lambda>d. dc_execution_time d < t \<and> \<not> dc_processing d) (map snd (dl_calls s))))"

text \<open>The update of \<^verbatim>\<open>processing\<close> with a filter on it.\<close>

definition update_delayed_call :: "string \<Rightarrow> bool \<Rightarrow> bool \<Rightarrow> delayed_store \<Rightarrow> delayed_call option \<times> delayed_store" where
  "update_delayed_call i processing expected s =
     (case dget (dl_calls s) i of
        None \<Rightarrow> (None, s)
      | Some d \<Rightarrow>
          (if dc_processing d = expected
           then (Some (d\<lparr>dc_processing := processing\<rparr>), s\<lparr>dl_calls := dset i (d\<lparr>dc_processing := processing\<rparr>) (dl_calls s)\<rparr>)
           else (None, s)))"

text \<open>Setting the flag of a delayed call is an exclusive claim.\<close>

definition claim_call :: "string \<Rightarrow> bool \<Rightarrow> bool \<Rightarrow> delayed_store \<Rightarrow> bool \<times> delayed_store" where
  "claim_call i expected processing s = apfst (\<lambda>r. r \<noteq> None) (update_delayed_call i processing expected s)"

interpretation call_claim: exclusive_claim claim_call "\<lambda>i s. map_option dc_processing (dget (dl_calls s) i)" id
  by unfold_locales (auto simp: claim_call_def update_delayed_call_def split: option.splits)

lemma one_scheduler_takes_call:
  "attempts (claim_call i False) (True # replicate n True) s = (map_option dc_processing (dget (dl_calls s) i) = Some False) # replicate n False"
  using call_claim.first_wins[of False True "replicate n True" i s] by (simp add: set_replicate_conv_if)

definition delete_delayed_calls :: "string list \<Rightarrow> delayed_store \<Rightarrow> delayed_store" where
  "delete_delayed_calls ids s = s\<lparr>dl_calls := filter (\<lambda>p. fst p \<notin> set ids) (dl_calls s)\<rparr>"

definition get_delayed_calls_count :: "(delayed_call \<Rightarrow> bool) \<Rightarrow> delayed_store \<Rightarrow> nat" where
  "get_delayed_calls_count P s = length (filter P (map snd (dl_calls s)))"

section \<open>The scheduler\<close>

definition schedule_call :: "sched_conf \<Rightarrow> string \<Rightarrow> scheduler_job \<Rightarrow> delayed_store \<Rightarrow> unit res \<times> delayed_store" where
  "schedule_call c i j s =
     (case serialize_args c (case sj_arg_serializers j of None \<Rightarrow> [] | Some d \<Rightarrow> d) (sj_func_args j) of
        Inl e \<Rightarrow> (Inl e, s)
      | Inr args \<Rightarrow>
          (case create_delayed_call (scheduler_job.extend (j\<lparr>sj_func_args := args\<rparr>)
              \<lparr>dc_id = i, dc_execution_time = dl_now s + sj_run_after j, dc_processing = False\<rparr>) s of
             (Inl e, s') \<Rightarrow> (Inl e, s') | (Inr _, s') \<Rightarrow> (Inr (), s')))"

definition has_delayed_calls :: "(delayed_call \<Rightarrow> bool) \<Rightarrow> delayed_store \<Rightarrow> bool" where
  "has_delayed_calls P s \<longleftrightarrow> get_delayed_calls_count P s > 0"

fun capture_candidates :: "delayed_call list \<Rightarrow> delayed_store \<Rightarrow> delayed_call list \<times> delayed_store" where
  "capture_candidates [] s = ([], s)"
| "capture_candidates (d # ds) s =
     (case update_delayed_call (dc_id d) True False s of (r, s1) \<Rightarrow>
        (case capture_candidates ds s1 of (cs, s2) \<Rightarrow> ((case r of None \<Rightarrow> cs | Some d1 \<Rightarrow> d1 # cs), s2)))"

definition capture_calls :: "sched_conf \<Rightarrow> delayed_store \<Rightarrow> delayed_call list \<times> delayed_store" where
  "capture_calls c s = capture_candidates (get_delayed_calls_to_start (dl_now s + 1) (sc_batch_size c) s) s"

definition prepare_call :: "sched_conf \<Rightarrow> delayed_call \<Rightarrow> (string \<times> job_call) res" where
  "prepare_call c d =
     (case deserialize_args c (case sj_arg_serializers d of None \<Rightarrow> [] | Some r \<Rightarrow> r) (sj_func_args d) of
        Inl e \<Rightarrow> Inl e
      | Inr args \<Rightarrow> Inr (dc_id d, \<lparr>jc_target_factory = sj_target_factory d, jc_func_name = sj_func_name d, jc_args = args\<rparr>))"

definition prepare_calls :: "sched_conf \<Rightarrow> delayed_call list \<Rightarrow> (string \<times> job_call) list res" where
  "prepare_calls c ds = map_res (prepare_call c) ds"

text \<open>Exceptions of the calls are logged and do not stop the loop.\<close>

definition invoke_calls :: "(string \<times> job_call) list \<Rightarrow> delayed_store \<Rightarrow> delayed_store" where
  "invoke_calls calls s = s\<lparr>dl_log := dl_log s @ calls\<rparr>"

definition delete_calls :: "delayed_call list \<Rightarrow> delayed_store \<Rightarrow> delayed_store" where
  "delete_calls ds s = delete_delayed_calls (map dc_id ds) s"

definition process_delayed_calls :: "sched_conf \<Rightarrow> delayed_store \<Rightarrow> unit res \<times> delayed_store" where
  "process_delayed_calls c s =
     (case capture_calls c s of (ds, s1) \<Rightarrow>
        if ds = [] then (Inr (), s1)
        else (case prepare_calls c ds of
            Inl e \<Rightarrow> (Inl e, s1)
          | Inr calls \<Rightarrow> (Inr (), delete_calls ds (invoke_calls calls s1))))"

section \<open>Several schedulers\<close>

text \<open>
  The store, and the batches of the schedulers that are selected, that are captured, and that are invoked but not deleted.
\<close>

record legacy_world =
  lw_store :: delayed_store
  lw_selected :: "delayed_call list list"
  lw_captured :: "delayed_call list list"
  lw_invoked :: "delayed_call list list"

definition known_ids :: "legacy_world \<Rightarrow> string set" where
  "known_ids w = set (dkeys (dl_calls (lw_store w))) \<union> set (map dc_id (concat (lw_captured w))) \<union> set (map fst (dl_log (lw_store w)))"

text \<open>
  Calls are scheduled with fresh identifiers; a scheduler can die between two of its transactions. The query of
  \<^verbatim>\<open>_capture_calls\<close> and its updates are two steps, since with the isolation READ COMMITTED other
  transactions are committed in between: what was selected is by then an old copy of the rows. The updates of one
  transaction are one step: a row that it has updated is locked until it commits, so that whoever updates it, too, waits and
  compares the committed flag. If it is rolled back, nothing was captured.
\<close>

inductive legacy_run :: "sched_conf \<Rightarrow> legacy_world \<Rightarrow> bool" for c where
  start: "legacy_run c \<lparr>lw_store = \<lparr>dl_calls = [], dl_now = t, dl_log = []\<rparr>, lw_selected = [], lw_captured = [], lw_invoked = []\<rparr>"
| schedule: "legacy_run c w \<Longrightarrow> i \<notin> known_ids w \<Longrightarrow> legacy_run c (w\<lparr>lw_store := snd (schedule_call c i j (lw_store w))\<rparr>)"
| tick: "legacy_run c w \<Longrightarrow> t > 0 \<Longrightarrow> legacy_run c (w\<lparr>lw_store := (lw_store w)\<lparr>dl_now := dl_now (lw_store w) + t\<rparr>\<rparr>)"
| select: "legacy_run c w \<Longrightarrow>
    legacy_run c (w\<lparr>lw_selected := lw_selected w @
      [get_delayed_calls_to_start (dl_now (lw_store w) + 1) (sc_batch_size c) (lw_store w)]\<rparr>)"
| capture: "legacy_run c w \<Longrightarrow> cs \<in> set (lw_selected w) \<Longrightarrow> capture_candidates cs (lw_store w) = (ds, s) \<Longrightarrow>
    legacy_run c (w\<lparr>lw_store := s, lw_selected := remove1 cs (lw_selected w), lw_captured := lw_captured w @ [ds]\<rparr>)"
| roll_back: "legacy_run c w \<Longrightarrow> legacy_run c (w\<lparr>lw_selected := remove1 cs (lw_selected w)\<rparr>)"
| invoke: "legacy_run c w \<Longrightarrow> ds \<in> set (lw_captured w) \<Longrightarrow> prepare_calls c ds = Inr calls \<Longrightarrow>
    legacy_run c (w\<lparr>lw_store := invoke_calls calls (lw_store w), lw_captured := remove1 ds (lw_captured w),
      lw_invoked := lw_invoked w @ [ds]\<rparr>)"
| delete: "legacy_run c w \<Longrightarrow> ds \<in> set (lw_invoked w) \<Longrightarrow>
    legacy_run c (w\<lparr>lw_store := delete_calls ds (lw_store w), lw_invoked := remove1 ds (lw_invoked w)\<rparr>)"
| lose: "legacy_run c w \<Longrightarrow> legacy_run c (w\<lparr>lw_captured := remove1 ds (lw_captured w)\<rparr>)"
| die: "legacy_run c w \<Longrightarrow> legacy_run c (w\<lparr>lw_invoked := remove1 ds (lw_invoked w)\<rparr>)"

definition waiting :: "delayed_store \<Rightarrow> string set" where
  "waiting s = {i. \<exists>d. dget (dl_calls s) i = Some d \<and> \<not> dc_processing d}"

definition keyed :: "delayed_store \<Rightarrow> bool" where
  "keyed s \<longleftrightarrow> (\<forall>i d. dget (dl_calls s) i = Some d \<longrightarrow> dc_id d = i)"

definition call_ids :: "legacy_world \<Rightarrow> string list" where
  "call_ids w = map dc_id (concat (lw_captured w)) @ map fst (dl_log (lw_store w))"

text \<open>No call is held or was invoked twice; a call that waits is neither held nor was it invoked.\<close>

definition legacy_ok :: "legacy_world \<Rightarrow> bool" where
  "legacy_ok w \<longleftrightarrow> keyed (lw_store w) \<and> distinct (call_ids w) \<and> waiting (lw_store w) \<inter> set (call_ids w) = {}"

lemma update_delayed_cases:
  assumes "keyed s" "update_delayed_call i True False s = (r, s')"
  obtains "r = None" "s' = s"
  | d where "r = Some (d\<lparr>dc_processing := True\<rparr>)" "dc_id d = i" "i \<in> waiting s" "keyed s'" "waiting s' = waiting s - {i}"
      "dl_log s' = dl_log s" "set (dkeys (dl_calls s')) = set (dkeys (dl_calls s))"
      "dict_ok (dl_calls s) \<longrightarrow> dict_ok (dl_calls s')"
proof (cases "dget (dl_calls s) i")
  case None
  then show thesis using assms that(1) by (simp add: update_delayed_call_def)
next
  case (Some d)
  show thesis
  proof (cases "dc_processing d")
    case True
    then show thesis using assms(2) that(1) Some by (simp add: update_delayed_call_def)
  next
    case False
    then have eqs: "r = Some (d\<lparr>dc_processing := True\<rparr>)" "s' = s\<lparr>dl_calls := dset i (d\<lparr>dc_processing := True\<rparr>) (dl_calls s)\<rparr>"
      using assms(2) Some by (simp_all add: update_delayed_call_def)
    have "set (dkeys (dl_calls s')) = set (dkeys (dl_calls s))" using dget_in_keys[OF Some] eqs(2) by auto
    moreover have "keyed s'" "dc_id d = i" using assms(1) Some by (auto simp: keyed_def eqs(2))
    moreover have "waiting s' = waiting s - {i}" "i \<in> waiting s" using Some False by (auto simp: waiting_def eqs(2))
    moreover have "dict_ok (dl_calls s) \<longrightarrow> dict_ok (dl_calls s')" using eqs(2) by simp
    ultimately show thesis using that(2)[of d] eqs by simp
  qed
qed

lemma capture_candidates_apart:
  assumes "keyed s" "capture_candidates ds s = (cs, s')"
  shows "keyed s' \<and> distinct (map dc_id cs) \<and> set (map dc_id cs) \<subseteq> waiting s \<and> waiting s' = waiting s - set (map dc_id cs) \<and> dl_log s' = dl_log s \<and>
    set (dkeys (dl_calls s')) = set (dkeys (dl_calls s)) \<and> (dict_ok (dl_calls s) \<longrightarrow> dict_ok (dl_calls s'))"
  using assms
proof (induction ds arbitrary: s cs)
  case (Cons d ds)
  obtain r s1 where u: "update_delayed_call (dc_id d) True False s = (r, s1)" by fastforce
  obtain cs1 where c: "capture_candidates ds s1 = (cs1, s')"
    "cs = (case r of None \<Rightarrow> cs1 | Some d1 \<Rightarrow> d1 # cs1)"
    using Cons.prems(2) u by (cases "capture_candidates ds s1") simp
  show ?case
  proof (cases rule: update_delayed_cases[OF Cons.prems(1) u])
    case 1
    then show ?thesis using Cons.IH[OF Cons.prems(1)] c by simp
  next
    case (2 e)
    note ih = Cons.IH[OF 2(4) c(1)]
    have "map dc_id cs = dc_id d # map dc_id cs1" using 2(1,2) c(2) by simp
    then show ?thesis using ih 2 by (simp del: set_map) blast
  qed
qed simp

lemma prepare_calls_ids: "prepare_calls c ds = Inr calls \<Longrightarrow> map fst calls = map dc_id ds"
proof (induction ds arbitrary: calls)
  case (Cons d ds)
  then show ?case by (auto simp: prepare_calls_def prepare_call_def split: sum.splits)
qed (simp add: prepare_calls_def)

lemma concat_remove1: "ds \<in> set l \<Longrightarrow> mset (concat l) = mset ds + mset (concat (remove1 ds l))"
  by (induction l) auto

lemma take_batch:
  assumes "ds \<in> set l" "distinct (map f (concat l) @ r)"
  shows "distinct (map f (concat (remove1 ds l)) @ r @ map f ds)"
    and "set (map f (concat (remove1 ds l)) @ r @ map f ds) = set (map f (concat l) @ r)"
proof -
  have m: "mset (map f (concat (remove1 ds l)) @ r @ map f ds) = mset (map f (concat l) @ r)"
    using concat_remove1[OF assms(1)] by simp
  show "distinct (map f (concat (remove1 ds l)) @ r @ map f ds)" using m assms(2) mset_eq_imp_distinct_iff by blast
  show "set (map f (concat (remove1 ds l)) @ r @ map f ds) = set (map f (concat l) @ r)" using m mset_eq_setD by blast
qed

lemma distinct_prefix: "distinct (a @ b @ c) \<Longrightarrow> distinct (a @ b) \<and> set (a @ b) \<subseteq> set (a @ b @ c)"
  by auto

lemma drop_batch:
  assumes "distinct (map f (concat l) @ r)"
  shows "distinct (map f (concat (remove1 ds l)) @ r) \<and> set (map f (concat (remove1 ds l)) @ r) \<subseteq> set (map f (concat l) @ r)"
proof (cases "ds \<in> set l")
  case True
  then show ?thesis using take_batch[OF True assms] distinct_prefix by metis
next
  case False
  then show ?thesis using assms by (simp add: remove1_idem)
qed

lemma scheduled_waits:
  assumes "keyed s" "i \<notin> set (dkeys (dl_calls s))"
  shows "keyed (snd (schedule_call c i j s)) \<and> waiting (snd (schedule_call c i j s)) \<subseteq> insert i (waiting s) \<and>
    dl_log (snd (schedule_call c i j s)) = dl_log s"
  using assms by (auto simp: schedule_call_def create_delayed_call_def keyed_def waiting_def scheduler_job.defs split: sum.splits if_splits)

lemma deleted_waits: "keyed s \<Longrightarrow> keyed (delete_calls ds s) \<and> waiting (delete_calls ds s) \<subseteq> waiting s \<and> dl_log (delete_calls ds s) = dl_log s"
  by (auto simp: delete_calls_def delete_delayed_calls_def keyed_def waiting_def dget_filter_keys[of "\<lambda>i. i \<notin> S" for S] split: if_splits)

lemma legacy_okI:
  assumes "legacy_ok w" "keyed (lw_store w')" "distinct (call_ids w')"
    and "waiting (lw_store w') \<subseteq> waiting (lw_store w) \<union> W" "set (call_ids w') \<subseteq> set (call_ids w) \<union> I"
    and "W \<inter> (set (call_ids w) \<union> I) = {}" "waiting (lw_store w') \<inter> I = {}"
  shows "legacy_ok w'"
  using assms unfolding legacy_ok_def by blast

theorem legacy_run_ok: "legacy_run c w \<Longrightarrow> legacy_ok w"
proof (induction rule: legacy_run.induct)
  case (start t)
  show ?case by (simp add: legacy_ok_def keyed_def call_ids_def)
next
  case (schedule w i j)
  have k: "keyed (lw_store w)" using schedule.IH by (simp add: legacy_ok_def)
  have i: "i \<notin> set (dkeys (dl_calls (lw_store w)))" "{i} \<inter> (set (call_ids w) \<union> {}) = {}"
    using schedule.hyps(2) by (simp_all add: known_ids_def call_ids_def)
  note w = scheduled_waits[OF k i(1), of c j]
  show ?case
    by (rule legacy_okI[OF schedule.IH _ _ _ _ i(2)]) (use w schedule.IH in \<open>auto simp: call_ids_def legacy_ok_def simp del: set_map\<close>)
next
  case (tick w t)
  then show ?case by (simp add: legacy_ok_def call_ids_def keyed_def waiting_def)
next
  case (select w)
  then show ?case by (simp add: legacy_ok_def call_ids_def)
next
  case (roll_back w cs)
  then show ?case by (simp add: legacy_ok_def call_ids_def)
next
  case (capture w cs ds s)
  have k: "keyed (lw_store w)" using capture.IH by (simp add: legacy_ok_def)
  note a = capture_candidates_apart[OF k capture.hyps(3)]
  have c: "mset (call_ids (w\<lparr>lw_store := s, lw_selected := remove1 cs (lw_selected w), lw_captured := lw_captured w @ [ds]\<rparr>)) = mset (map dc_id ds @ call_ids w)"
    using a by (simp add: call_ids_def)
  have "distinct (map dc_id ds @ call_ids w)" using a capture.IH by (auto simp: legacy_ok_def simp del: set_map)
  then show ?case
    using a capture.IH mset_eq_imp_distinct_iff[OF c] mset_eq_setD[OF c]
    by (auto simp: legacy_ok_def simp del: set_map)
next
  case (invoke w ds calls)
  note ids = prepare_calls_ids[OF invoke.hyps(3)]
  have d: "distinct (map dc_id (concat (lw_captured w)) @ map fst (dl_log (lw_store w)))"
    using invoke.IH by (simp add: legacy_ok_def call_ids_def)
  show ?case
    using invoke.IH take_batch[OF invoke.hyps(2) d] ids
    by (simp add: legacy_ok_def call_ids_def invoke_calls_def keyed_def waiting_def)
next
  case (delete w ds)
  have "keyed (lw_store w)" using delete.IH by (simp add: legacy_ok_def)
  then show ?case using deleted_waits[of "lw_store w" ds] delete.IH by (auto simp: legacy_ok_def call_ids_def simp del: set_map set_append)
next
  case (lose w ds)
  then show ?case
    using drop_batch[of dc_id "lw_captured w" "map fst (dl_log (lw_store w))" ds]
    by (auto simp: legacy_ok_def call_ids_def simp del: set_map set_append)
next
  case (die w ds)
  then show ?case by (simp add: legacy_ok_def call_ids_def)
qed

section \<open>Properties\<close>

text \<open>
  C14. Whatever schedulers do in parallel, with copies of the calls that are out of date when they capture them, and wherever
  they die, no delayed call is invoked twice, and none that was invoked can be selected again.
\<close>

theorem delayed_calls_invoked_once:
  assumes "legacy_run c w"
  shows "distinct (map fst (dl_log (lw_store w))) \<and> waiting (lw_store w) \<inter> set (map fst (dl_log (lw_store w))) = {}"
  using legacy_run_ok[OF assms] by (auto simp: legacy_ok_def call_ids_def)

lemma waiting_row:
  assumes "dict_ok (dl_calls s)" "keyed s" "d \<in> set (get_delayed_calls_to_start t n s)"
  shows "dget (dl_calls s) (dc_id d) = Some d \<and> \<not> dc_processing d"
proof -
  have "d \<in> snd ` set (dl_calls s)" "\<not> dc_processing d"
    using assms(3) by (auto simp: get_delayed_calls_to_start_def limit_def split: option.splits dest: in_set_takeD)
  moreover from this obtain i where "(i, d) \<in> set (dl_calls s)" by auto
  then have "dget (dl_calls s) i = Some d" using assms(1) by (simp add: dict_ok_def)
  ultimately show ?thesis using assms(2) by (auto simp: keyed_def)
qed

text \<open>
  C15. The price of it: if the preparation of one captured call fails, the whole batch stays in the
  store with \<^verbatim>\<open>processing\<close> set, none of its calls is invoked, and no later poll of that store selects any of them, at whatever
  time and with whatever batch size.
\<close>

theorem failed_batch_never_selected:
  assumes "dict_ok (dl_calls s)" "keyed s" "process_delayed_calls c s = (Inl e, s')"
    and "i \<in> set (map dc_id (fst (capture_calls c s)))"
  shows "dl_log s' = dl_log s \<and> dhas (dl_calls s') i \<and>
    i \<notin> set (map dc_id (get_delayed_calls_to_start t n (s'\<lparr>dl_now := now\<rparr>)))"
proof -
  obtain ds where c: "capture_calls c s = (ds, s')"
    using assms(3) by (cases "capture_calls c s") (auto simp: process_delayed_calls_def split: sum.splits if_splits)
  note a = capture_candidates_apart[OF assms(2) c[unfolded capture_calls_def]]
  have ok: "dict_ok (dl_calls s')" "dhas (dl_calls s') i = dhas (dl_calls s) i" using a assms(1) by simp_all
  have i: "i \<in> waiting s" "i \<notin> waiting s'" using a assms(4) c by auto
  have "i \<notin> set (map dc_id (get_delayed_calls_to_start t n (s'\<lparr>dl_now := now\<rparr>)))"
  proof
    assume "i \<in> set (map dc_id (get_delayed_calls_to_start t n (s'\<lparr>dl_now := now\<rparr>)))"
    then obtain d where "d \<in> set (get_delayed_calls_to_start t n (s'\<lparr>dl_now := now\<rparr>))" "i = dc_id d" by auto
    moreover have "keyed (s'\<lparr>dl_now := now\<rparr>)" using conjunct1[OF a] by (simp add: keyed_def)
    ultimately have "dget (dl_calls s') i = Some d \<and> \<not> dc_processing d"
      using waiting_row[of "s'\<lparr>dl_now := now\<rparr>" d t n] ok(1) by simp
    then show False using i(2) by (simp add: waiting_def)
  qed
  moreover have "dhas (dl_calls s) i" using i(1) by (auto simp: waiting_def dest: dget_in_keys)
  ultimately show ?thesis using a ok(2) by simp
qed

lemma distinct_limit:
  assumes "distinct (map f xs)"
  shows "distinct (map f (limit n (sort_key k (filter P xs))))"
proof -
  have "mset (map f (sort_key k (filter P xs))) = mset (map f (filter P xs))" by simp
  then have "distinct (map f (sort_key k (filter P xs)))"
    using distinct_map_filter[OF assms] mset_eq_imp_distinct_iff by blast
  then show ?thesis by (auto simp: limit_def simp flip: take_map split: option.splits)
qed

text \<open>Due calls that wait are captured without exception.\<close>

lemma capture_waiting:
  assumes "\<forall>d \<in> set ds. dget (dl_calls s) (dc_id d) = Some d \<and> \<not> dc_processing d" "distinct (map dc_id ds)"
  shows "fst (capture_candidates ds s) = map (\<lambda>d. d\<lparr>dc_processing := True\<rparr>) ds \<and>
    (\<forall>i. i \<notin> set (map dc_id ds) \<longrightarrow> dget (dl_calls (snd (capture_candidates ds s))) i = dget (dl_calls s) i) \<and>
    dl_log (snd (capture_candidates ds s)) = dl_log s"
  using assms
proof (induction ds arbitrary: s)
  case (Cons d ds)
  define s1 where "s1 = s\<lparr>dl_calls := dset (dc_id d) (d\<lparr>dc_processing := True\<rparr>) (dl_calls s)\<rparr>"
  have u: "update_delayed_call (dc_id d) True False s = (Some (d\<lparr>dc_processing := True\<rparr>), s1)"
    using Cons.prems(1) by (simp add: update_delayed_call_def s1_def)
  have "\<forall>e \<in> set ds. dget (dl_calls s1) (dc_id e) = Some e \<and> \<not> dc_processing e"
  proof
    fix e assume e: "e \<in> set ds"
    then have "dc_id e \<noteq> dc_id d" using Cons.prems(2) by (metis distinct.simps(2) imageI list.simps(9) list.set_map)
    then show "dget (dl_calls s1) (dc_id e) = Some e \<and> \<not> dc_processing e" using e Cons.prems(1) by (simp add: s1_def)
  qed
  note ih = Cons.IH[OF this]
  show ?case
    using ih Cons.prems(2) by (cases "capture_candidates ds s1") (simp add: u s1_def)
qed simp

text \<open>
  A poll of a scheduler that is alone and whose calls can be prepared invokes the calls that are due
  within the next second, at most as many as the batch size, in the order of their times, and deletes
  exactly them.
\<close>

theorem poll_invokes_due_calls:
  fixes c s
  defines "ready \<equiv> get_delayed_calls_to_start (dl_now s + 1) (sc_batch_size c) s"
  assumes "dict_ok (dl_calls s)" "keyed s" "process_delayed_calls c s = (Inr (), s')"
  shows "map fst (dl_log s') = map fst (dl_log s) @ map dc_id ready \<and>
    (\<forall>i. dget (dl_calls s') i = (if i \<in> set (map dc_id ready) then None else dget (dl_calls s) i))"
proof -
  have rows: "\<forall>d \<in> set ready. dget (dl_calls s) (dc_id d) = Some d \<and> \<not> dc_processing d"
    using waiting_row[OF assms(2,3)] by (simp add: ready_def)
  have "distinct (map dc_id (map snd (dl_calls s)))"
  proof -
    have "map dc_id (map snd (dl_calls s)) = dkeys (dl_calls s)"
      using assms(2,3) by (auto simp: keyed_def dict_ok_def)
    then show ?thesis using assms(2) by (metis dict_ok_def)
  qed
  then have d: "distinct (map dc_id ready)"
    unfolding ready_def get_delayed_calls_to_start_def by (rule distinct_limit)
  obtain s1 where c: "capture_calls c s = (map (\<lambda>d. d\<lparr>dc_processing := True\<rparr>) ready, s1)"
    "\<forall>i. i \<notin> set (map dc_id ready) \<longrightarrow> dget (dl_calls s1) i = dget (dl_calls s) i" "dl_log s1 = dl_log s"
    using capture_waiting[OF rows d] by (cases "capture_calls c s") (simp add: capture_calls_def ready_def)
  let ?ds = "map (\<lambda>d. d\<lparr>dc_processing := True\<rparr>) ready"
  have ids: "map dc_id ?ds = map dc_id ready" by simp
  show ?thesis
  proof (cases "ready = []")
    case True
    then show ?thesis using assms(4) c by (simp add: process_delayed_calls_def)
  next
    case False
    then obtain calls where p: "prepare_calls c ?ds = Inr calls" "s' = delete_calls ?ds (invoke_calls calls s1)"
      using assms(4) c(1) by (auto simp: process_delayed_calls_def split: sum.splits)
    have "dl_calls s' = filter (\<lambda>p. fst p \<notin> set (map dc_id ready)) (dl_calls s1)"
      by (simp only: p(2) delete_calls_def delete_delayed_calls_def ids) (simp add: invoke_calls_def)
    moreover have "dget (filter (\<lambda>p. fst p \<notin> set (map dc_id ready)) l) i = (if i \<in> set (map dc_id ready) then None else dget l i)"
      for l :: "delayed_call dict" and i by (induction l) auto
    ultimately have "dget (dl_calls s') i = (if i \<in> set (map dc_id ready) then None else dget (dl_calls s) i)" for i
      using c(2) by presburger
    moreover have "map fst (dl_log s') = map fst (dl_log s) @ map dc_id ready"
      using prepare_calls_ids[OF p(1)] c(3) ids by (simp add: p(2) delete_calls_def delete_delayed_calls_def invoke_calls_def)
    ultimately show ?thesis by blast
  qed
qed

section \<open>Examples\<close>

definition delayed :: "string \<Rightarrow> time \<Rightarrow> string dict option \<Rightarrow> delayed_call" where
  "delayed i t z = scheduler_job.extend (timer_job\<lparr>sj_arg_serializers := z\<rparr>) \<lparr>dc_id = i, dc_execution_time = t, dc_processing = False\<rparr>"

definition two_calls :: "string dict option \<Rightarrow> delayed_store" where
  "two_calls z = \<lparr>dl_calls = [(''a'', delayed ''a'' 7 None), (''b'', delayed ''b'' 5 z)], dl_now = 10, dl_log = []\<rparr>"

lemma two_calls_ok: "dict_ok (dl_calls (two_calls z))" "keyed (two_calls z)"
  by (auto simp: two_calls_def dict_ok_def keyed_def delayed_def scheduler_job.defs split: if_splits)

theorem failed_batch_never_selected_witness:
  "get_delayed_calls_to_start 1000 None ((snd (process_delayed_calls plain_conf (two_calls (Some [(''x'', ''unknown'')]))))\<lparr>dl_now := 999\<rparr>) = [] \<and>
   ''a'' \<notin> set (map dc_id (get_delayed_calls_to_start 1000 None ((snd (process_delayed_calls plain_conf (two_calls (Some [(''x'', ''unknown'')]))))\<lparr>dl_now := 999\<rparr>)))"
proof
  show "get_delayed_calls_to_start 1000 None ((snd (process_delayed_calls plain_conf (two_calls (Some [(''x'', ''unknown'')]))))\<lparr>dl_now := 999\<rparr>) = []"
    by code_simp
  have "fst (process_delayed_calls plain_conf (two_calls (Some [(''x'', ''unknown'')]))) = Inl (OtherException ''ImportError'')"
    by code_simp
  then have e: "process_delayed_calls plain_conf (two_calls (Some [(''x'', ''unknown'')])) =
      (Inl (OtherException ''ImportError''), snd (process_delayed_calls plain_conf (two_calls (Some [(''x'', ''unknown'')]))))"
    by (metis prod.collapse)
  have "''a'' \<in> set (map dc_id (fst (capture_calls plain_conf (two_calls (Some [(''x'', ''unknown'')])))))" by code_simp
  from failed_batch_never_selected[OF two_calls_ok e this, of 1000 None 999]
  show "''a'' \<notin> set (map dc_id (get_delayed_calls_to_start 1000 None
      ((snd (process_delayed_calls plain_conf (two_calls (Some [(''x'', ''unknown'')]))))\<lparr>dl_now := 999\<rparr>)))" by blast
qed

theorem poll_invokes_due_calls_witness:
  "map fst (dl_log (snd (process_delayed_calls plain_conf (two_calls None)))) = [''b'', ''a'']"
proof -
  have p: "process_delayed_calls plain_conf (two_calls None) = (Inr (), snd (process_delayed_calls plain_conf (two_calls None)))"
    by (rule prod_eqI) (simp_all, code_simp)
  have "map dc_id (get_delayed_calls_to_start (dl_now (two_calls None) + 1) (sc_batch_size plain_conf) (two_calls None)) = [''b'', ''a'']"
    by code_simp
  with poll_invokes_due_calls[OF two_calls_ok p] show ?thesis by (simp add: two_calls_def)
qed

text \<open>Two schedulers poll at the same time: both select the call, and only one captures it.\<close>

definition selected_by :: "legacy_world \<Rightarrow> legacy_world" where
  "selected_by w = w\<lparr>lw_selected := lw_selected w @
     [get_delayed_calls_to_start (dl_now (lw_store w) + 1) (sc_batch_size plain_conf) (lw_store w)]\<rparr>"

definition captured_by :: "legacy_world \<Rightarrow> legacy_world" where
  "captured_by w = (case lw_selected w of [] \<Rightarrow> w | cs # r \<Rightarrow> (case capture_candidates cs (lw_store w) of
     (ds, s) \<Rightarrow> w\<lparr>lw_store := s, lw_selected := r, lw_captured := lw_captured w @ [ds]\<rparr>))"

definition invoked_by :: "legacy_world \<Rightarrow> legacy_world" where
  "invoked_by w = (case lw_captured w of [] \<Rightarrow> w | ds # r \<Rightarrow> (case prepare_calls plain_conf ds of Inl e \<Rightarrow> w
     | Inr calls \<Rightarrow> w\<lparr>lw_store := invoke_calls calls (lw_store w), lw_captured := r, lw_invoked := lw_invoked w @ [ds]\<rparr>))"

definition one_call :: legacy_world where
  "one_call = \<lparr>lw_store = snd (schedule_call plain_conf ''a'' timer_job \<lparr>dl_calls = [], dl_now = 0, dl_log = []\<rparr>),
     lw_selected = [], lw_captured = [], lw_invoked = []\<rparr>"

lemma selected_by_run: "legacy_run plain_conf w \<Longrightarrow> legacy_run plain_conf (selected_by w)"
  unfolding selected_by_def by (rule legacy_run.select)

lemma captured_by_run: "legacy_run plain_conf w \<Longrightarrow> legacy_run plain_conf (captured_by w)"
  using legacy_run.capture[of plain_conf w "hd (lw_selected w)"]
  by (auto simp: captured_by_def split: list.splits prod.splits)

lemma invoked_by_run: "legacy_run plain_conf w \<Longrightarrow> legacy_run plain_conf (invoked_by w)"
  using legacy_run.invoke[of plain_conf w "hd (lw_captured w)"]
  by (auto simp: invoked_by_def split: list.splits sum.splits)

lemma one_call_run: "legacy_run plain_conf one_call"
  using legacy_run.schedule[OF legacy_run.start[of plain_conf 0], of "''a''" timer_job]
  by (simp add: one_call_def known_ids_def)

text \<open>After both have selected, captured and invoked.\<close>

definition both_done :: legacy_world where
  "both_done = invoked_by (invoked_by (captured_by (captured_by (selected_by (selected_by
     (one_call\<lparr>lw_store := (lw_store one_call)\<lparr>dl_now := dl_now (lw_store one_call) + 100\<rparr>\<rparr>))))))"

lemma both_done_run: "legacy_run plain_conf both_done"
  unfolding both_done_def by (intro invoked_by_run captured_by_run selected_by_run legacy_run.tick one_call_run) simp

theorem delayed_calls_invoked_once_witness:
  "distinct (map fst (dl_log (lw_store both_done))) \<and> waiting (lw_store both_done) \<inter> set (map fst (dl_log (lw_store both_done))) = {} \<and>
   map fst (dl_log (lw_store both_done)) = [''a'']"
proof -
  have "map fst (dl_log (lw_store both_done)) = [''a'']" by code_simp
  with delayed_calls_invoked_once[OF both_done_run] show ?thesis by simp
qed

end
