(* ===== verification/Maintenance.thy ===== *)
theory Maintenance
  imports Background_Services
begin

text \<open>
  The maintenance mode of \<^verbatim>\<open>services/maintenance.py\<close> and the hook of the API that refuses requests
  (\<^verbatim>\<open>api/hooks/maintenance.py\<close>): a change of the mode schedules a job, which pauses or resumes the
  workflow executions; while it runs, the engine serves other requests and the mode may change again.
  The column \<^verbatim>\<open>project_id\<close> of an execution is the argument \<open>project\<close>; a query that no administrator makes
  is restricted to the project of the context (\<open>Resource_Access\<close>).
\<close>

section \<open>Modes\<close>

definition PAUSING :: string where "PAUSING = ''PAUSING''"
definition PAUSED_MODE :: string where "PAUSED_MODE = ''PAUSED''"
definition RUNNING_MODE :: string where "RUNNING_MODE = ''RUNNING''"

definition all_modes :: "string list" where
  "all_modes = [PAUSING, PAUSED_MODE, RUNNING_MODE]"

definition valid_mode_transitions :: "string list dict" where
  "valid_mode_transitions = [(PAUSING, [PAUSED_MODE]), (PAUSED_MODE, [PAUSED_MODE, RUNNING_MODE]), (RUNNING_MODE, [PAUSED_MODE, RUNNING_MODE])]"

definition is_valid_mode_transition :: "string \<Rightarrow> string \<Rightarrow> bool" where
  "is_valid_mode_transition old new \<longleftrightarrow> new \<in> set (dget_default valid_mode_transitions old [])"

datatype maintenance_job = PauseExecutions | ResumeExecutions

text \<open>Where a running pause job is: the executions it still has to pause, then waiting for the tasks, then
  about to set the mode.\<close>

datatype pause_progress = PauseEach "string list" | AwaitTasks | SetPaused

record maintenance_state =
  mt_mode :: string
  mt_jobs :: "maintenance_job list"
    mt_world :: world

definition change_maintenance_mode :: "string \<Rightarrow> maintenance_state \<Rightarrow> string res \<times> maintenance_state" where
  "change_maintenance_mode new m =
     (if new \<notin> set all_modes then (Inl (OtherException ''MaintenanceException''), m)
      else if new = PAUSING then (Inl (OtherException ''MaintenanceException''), m)
      else if mt_mode m = new then (Inr new, m)
      else if new = PAUSED_MODE then (Inr PAUSING, m\<lparr>mt_mode := PAUSING, mt_jobs := mt_jobs m @ [PauseExecutions]\<rparr>)
      else (Inr RUNNING_MODE, m\<lparr>mt_mode := RUNNING_MODE, mt_jobs := mt_jobs m @ [ResumeExecutions]\<rparr>))"

section \<open>The hook\<close>

record http_request =
  hr_method :: string
  hr_path :: string
  hr_state :: "string option"

definition allowed_paths :: "string list" where
  "allowed_paths = [''/'', ''/v2/'', ''/health'', ''/maintenance'']"

definition is_infix :: "string \<Rightarrow> string \<Rightarrow> bool" where
  "is_infix p s \<longleftrightarrow> list_ex (\<lambda>i. take (length p) (drop i s) = p) [0..<Suc (length s)]"

definition complete_async_action :: "string \<Rightarrow> http_request \<Rightarrow> bool" where
  "complete_async_action mode r \<longleftrightarrow>
     hr_method r = ''PUT'' \<and> is_infix ''/v2/action_executions'' (hr_path r) \<and> mode = PAUSING"

definition put_method_executions :: "string \<Rightarrow> http_request \<Rightarrow> bool" where
  "put_method_executions mode r \<longleftrightarrow>
     hr_method r = ''PUT'' \<and> is_infix ''/v2/executions'' (hr_path r) \<and> hr_state r = Some ''CANCELLED'' \<and>
     (mode = PAUSING \<or> mode = PAUSED_MODE)"

text \<open>True is an answer with the status 423.\<close>

definition maintenance_refuses :: "string \<Rightarrow> http_request \<Rightarrow> bool" where
  "maintenance_refuses mode r \<longleftrightarrow>
     \<not> (hr_path r \<in> set allowed_paths \<or> hr_method r = ''GET'') \<and>
     \<not> (mode = RUNNING_MODE \<or> complete_async_action mode r \<or> put_method_executions mode r)"

section \<open>Pausing\<close>

definition executions_in_state :: "state \<Rightarrow> world \<Rightarrow> string list" where
  "executions_in_state s w = map fst (filter (\<lambda>(_, x). we_state x = s) (w_wfs w))"

text \<open>\<^verbatim>\<open>_pause_execution\<close> in its transaction; any exception is logged.\<close>

definition pause_execution :: "sys \<Rightarrow> handlers \<Rightarrow> string \<Rightarrow> string \<Rightarrow> unit eng" where
  "pause_execution sy h mode i =
     try_e (transaction
        (if mode \<noteq> PAUSING then ret ()
         else ebind (get_workflow_execution i) (\<lambda>x.
           if is_running (we_state x) then pause_workflow (sy_depth sy) sy h i VNone else ret ())))
      (\<lambda>_. True) (\<lambda>_. ret ())"

definition tasks_running :: "world \<Rightarrow> bool" where
  "tasks_running w \<longleftrightarrow> list_ex (\<lambda>(_, t). te_state t = RUNNING) (w_tasks w)"

text \<open>
  The job \<^verbatim>\<open>_pause_executions\<close>, one transaction at a time, with the operations its thread has registered so
  far, which run when it returns; None is a job that is over.
\<close>

record pause_job =
  pj_progress :: pause_progress
  pj_ops :: "(operation \<times> bool) list"

definition finish_job :: "nat \<Rightarrow> sys \<Rightarrow> pause_job \<Rightarrow> world \<Rightarrow> world" where
  "finish_job n sy p w = snd (drain n (run_operation sy (engine n sy)) (w\<lparr>w_ops := pj_ops p\<rparr>))"

definition pause_step :: "nat \<Rightarrow> sys \<Rightarrow> pause_job \<Rightarrow> maintenance_state \<Rightarrow> pause_job option \<times> maintenance_state" where
  "pause_step n sy p m =
     (case pj_progress p of
        PauseEach [] \<Rightarrow> (Some (p\<lparr>pj_progress := AwaitTasks\<rparr>), m)
      | PauseEach (i # ids) \<Rightarrow>
          (let w = snd (pause_execution sy (engine n sy) (mt_mode m) i ((mt_world m)\<lparr>w_ops := pj_ops p\<rparr>))
           in (Some \<lparr>pj_progress = PauseEach ids, pj_ops = w_ops w\<rparr>, m\<lparr>mt_world := w\<lparr>w_ops := []\<rparr>\<rparr>))
      | AwaitTasks \<Rightarrow>
          (if mt_mode m \<noteq> PAUSING then (None, m\<lparr>mt_world := finish_job n sy p (mt_world m)\<rparr>)
           else if tasks_running (mt_world m) then (Some p, m) else (Some (p\<lparr>pj_progress := SetPaused\<rparr>), m))
      | SetPaused \<Rightarrow>
          (None, m\<lparr>mt_mode := (if mt_mode m = PAUSING then PAUSED_MODE else mt_mode m), mt_world := finish_job n sy p (mt_world m)\<rparr>))"

section \<open>Resuming\<close>

text \<open>
  \<^verbatim>\<open>_resume_execution\<close> reads the execution in the context of the execution before it, which has its
  project and no administrator; the first is read by the administrator (None).
\<close>

fun resume_each :: "sys \<Rightarrow> handlers \<Rightarrow> bool \<Rightarrow> (string \<Rightarrow> string) \<Rightarrow> string option \<Rightarrow> string list \<Rightarrow> unit eng" where
  "resume_each sy h auth project ctx [] = ret ()"
| "resume_each sy h auth project ctx (i # ids) =
     (if (case ctx of None \<Rightarrow> False | Some p \<Rightarrow> auth \<and> project i \<noteq> p) then raise_e (DBEntityNotFoundError i)
      else ebind (get_workflow_execution i) (\<lambda>_. eseq (resume_workflow (sy_depth sy) sy h i [])
        (resume_each sy h auth project (Some (project i)) ids)))"

definition resume_executions :: "sys \<Rightarrow> handlers \<Rightarrow> bool \<Rightarrow> (string \<Rightarrow> string) \<Rightarrow> maintenance_state \<Rightarrow> unit eng" where
  "resume_executions sy h auth project m =
     transaction
       (if mt_mode m \<noteq> RUNNING_MODE then ret ()
        else ebind (gets (executions_in_state PAUSED)) (\<lambda>ids. resume_each sy h auth project None ids))"

definition run_resume_job :: "nat \<Rightarrow> sys \<Rightarrow> bool \<Rightarrow> (string \<Rightarrow> string) \<Rightarrow> maintenance_state \<Rightarrow> maintenance_state" where
  "run_resume_job n sy auth project m =
     m\<lparr>mt_world := snd (with_post_tx n (run_operation sy (engine n sy)) (resume_executions sy (engine n sy) auth project m) (mt_world m))\<rparr>"

section \<open>Maintenance beside the engine\<close>

text \<open>The state of the service with the pause jobs that are running.\<close>

inductive maintenance_run ::
  "nat \<Rightarrow> sys \<Rightarrow> bool \<Rightarrow> (string \<Rightarrow> string) \<Rightarrow> maintenance_state \<Rightarrow> maintenance_state \<Rightarrow> pause_job list \<Rightarrow> bool"
  for n sy auth project m where
  rest: "maintenance_run n sy auth project m m []"
| change: "maintenance_run n sy auth project m v ps \<Longrightarrow> maintenance_run n sy auth project m (snd (change_maintenance_mode new v)) ps"
| serve: "maintenance_run n sy auth project m v ps \<Longrightarrow> maintenance_run n sy auth project m (v\<lparr>mt_world := handle n sy q (mt_world v)\<rparr>) ps"
| pause: "maintenance_run n sy auth project m v ps \<Longrightarrow> PauseExecutions \<in> set (mt_jobs v) \<Longrightarrow>
    maintenance_run n sy auth project m (v\<lparr>mt_jobs := remove1 PauseExecutions (mt_jobs v)\<rparr>)
      (\<lparr>pj_progress = PauseEach (executions_in_state RUNNING (mt_world v)), pj_ops = []\<rparr> # ps)"
| advance: "maintenance_run n sy auth project m v (ps @ p # qs) \<Longrightarrow> pause_step n sy p v = (r, v') \<Longrightarrow>
    maintenance_run n sy auth project m v' (ps @ (case r of None \<Rightarrow> [] | Some p' \<Rightarrow> [p']) @ qs)"
| resume: "maintenance_run n sy auth project m v ps \<Longrightarrow> ResumeExecutions \<in> set (mt_jobs v) \<Longrightarrow>
    maintenance_run n sy auth project m (run_resume_job n sy auth project (v\<lparr>mt_jobs := remove1 ResumeExecutions (mt_jobs v)\<rparr>)) ps"

context engine_frame begin

lemma steps_pause_execution: "handlers_keep R h \<Longrightarrow> steps R (pause_execution sy h mode i)"
  unfolding pause_execution_def by (intro frame2 steps_pause_workflow; assumption)

lemma steps_resume_each: "handlers_keep R h \<Longrightarrow> steps R (resume_each sy h auth project ctx ids)"
  by (induction ids arbitrary: ctx) (simp_all add: steps_pure, intro impI frame2 steps_resume_workflow)

lemma R_queue: "R w (w\<lparr>w_ops := q\<rparr>)" "R (w\<lparr>w_ops := q\<rparr>) w"
  by (rule same_tables; simp)+

lemma R_finish_job: "R w (finish_job n sy p w)"
proof -
  have "steps R (drain n (run_operation sy (engine n sy)))" by (intro steps_drain steps_operation engine_keeps)
  then have "R (w\<lparr>w_ops := pj_ops p\<rparr>) (finish_job n sy p w)" by (simp add: finish_job_def steps_def)
  then show ?thesis by (rule R_trans[OF R_queue(1)])
qed

lemma R_pause_step:
  assumes "pause_step n sy p m = (r, m')"
  shows "R (mt_world m) (mt_world m')"
proof -
  have pause: "R w (snd (pause_execution sy (engine n sy) mode i (w\<lparr>w_ops := q\<rparr>))\<lparr>w_ops := []\<rparr>)" for w mode i q
  proof -
    have "R (w\<lparr>w_ops := q\<rparr>) (snd (pause_execution sy (engine n sy) mode i (w\<lparr>w_ops := q\<rparr>)))"
      using steps_pause_execution[OF engine_keeps] by (simp add: steps_def)
    then show ?thesis using R_queue R_trans by blast
  qed
  show ?thesis
    using assms R_finish_job pause R_refl by (auto simp: pause_step_def Let_def split: pause_progress.splits list.splits if_splits)
qed

lemma R_resume_job: "R (mt_world m) (mt_world (run_resume_job n sy auth project m))"
proof -
  have "steps R (resume_executions sy (engine n sy) auth project m)"
    unfolding resume_executions_def by (intro frame2 steps_resume_each engine_keeps)
  then have "steps R (with_post_tx n (run_operation sy (engine n sy)) (resume_executions sy (engine n sy) auth project m))"
    by (intro steps_post_tx steps_operation engine_keeps)
  then show ?thesis by (simp add: run_resume_job_def steps_def)
qed

lemma change_mode_world [simp]: "mt_world (snd (change_maintenance_mode new m)) = mt_world m"
  by (simp add: change_maintenance_mode_def)

lemma R_maintenance: "maintenance_run n sy auth project m v ps \<Longrightarrow> R (mt_world m) (mt_world v)"
proof (induction rule: maintenance_run.induct)
  case (advance v ps p qs r v')
  then show ?case using R_pause_step R_trans by blast
next
  case (resume v ps)
  show ?case
    using R_trans[OF resume.IH] R_resume_job[of "v\<lparr>mt_jobs := remove1 ResumeExecutions (mt_jobs v)\<rparr>" n sy auth project] by simp
next
  case (serve v ps q)
  show ?case using R_trans[OF serve.IH R_handle] by simp
qed (simp_all add: R_refl)

end

section \<open>Properties\<close>

text \<open>
  Whatever modes are asked for and however the jobs interleave with requests to the engine, every
  workflow execution keeps its identity and moves along the valid transitions.
\<close>

lemma maintenance_moves_validly:
  assumes "maintenance_run n sy auth project m v ps" "dget (w_wfs (mt_world m)) i = Some x"
  shows "\<exists>x'. dget (w_wfs (mt_world v)) i = Some x' \<and> wf_identity x' = wf_identity x \<and>
    (we_db_state x, we_db_state x') \<in> workflow_moves\<^sup>*"
  using history.R_maintenance[OF assms(1)] assms(2) by (fastforce simp: history_kept_def kept_def wf_moved_def)

text \<open>
  The mode is always one of the three, and only a pause job that finds it PAUSING sets it to PAUSED: a
  mode that was changed in the meantime is not overwritten.
\<close>

definition mode_step_ok :: "string \<Rightarrow> string \<Rightarrow> bool" where
  "mode_step_ok old new \<longleftrightarrow> new \<in> set all_modes \<and> (new = PAUSED_MODE \<longrightarrow> old \<in> {PAUSING, PAUSED_MODE})"

lemmas mode_names = all_modes_def PAUSING_def PAUSED_MODE_def RUNNING_MODE_def

theorem mode_changes_safely:
  assumes "mt_mode m \<in> set all_modes"
  shows "mode_step_ok (mt_mode m) (mt_mode (snd (change_maintenance_mode new m))) \<and>
    mode_step_ok (mt_mode m) (mt_mode (snd (pause_step n sy p m))) \<and>
    mode_step_ok (mt_mode m) (mt_mode (run_resume_job n sy auth project m))"
proof (intro conjI)
  show "mode_step_ok (mt_mode m) (mt_mode (snd (change_maintenance_mode new m)))"
    using assms by (auto simp: change_maintenance_mode_def mode_step_ok_def mode_names)
  show "mode_step_ok (mt_mode m) (mt_mode (snd (pause_step n sy p m)))"
    using assms by (auto simp: pause_step_def mode_step_ok_def mode_names Let_def split: pause_progress.splits list.splits)
  show "mode_step_ok (mt_mode m) (mt_mode (run_resume_job n sy auth project m))"
    using assms by (simp add: run_resume_job_def mode_step_ok_def mode_names)
qed

lemma eseq_fails: "(\<And>w. \<exists>e. fst (m2 w) = Inl e) \<Longrightarrow> \<exists>e. fst (eseq m1 m2 w) = Inl e"
  by (cases "m1 w"; cases "fst (m1 w)") (auto simp: eseq_run)

lemma ebind_fails: "(\<And>x w. \<exists>e. fst (f x w) = Inl e) \<Longrightarrow> \<exists>e. fst (ebind m f w) = Inl e"
  by (cases "m w"; cases "fst (m w)") (auto simp: ebind_run)

lemma transaction_Inl: "fst (m w) = Inl e \<Longrightarrow> transaction m w = (Inl e, w)"
  by (cases "m w") (simp add: transaction_def)

lemma resume_each_fails:
  "j \<in> set ids \<Longrightarrow> project j \<noteq> p \<Longrightarrow> \<exists>e. fst (resume_each sy h True project (Some p) ids w) = Inl e"
proof (induction ids arbitrary: p w)
  case (Cons i ids)
  show ?case
  proof (cases "project i = p")
    case True
    then have "j \<in> set ids" "project j \<noteq> project i" using Cons.prems by auto
    then have rest: "\<exists>e. fst (resume_each sy h True project (Some (project i)) ids w') = Inl e" for w' by (rule Cons.IH)
    then show ?thesis using True by (auto intro!: ebind_fails eseq_fails)
  qed (simp add: raise_e_def)
qed simp

text \<open>
  C13. The job that resumes the executions after maintenance reads every execution in the context of the one before it. If the
  executions that are paused belong to several projects and authentication is on, it therefore fails, wherever in the list
  the project changes, and everything is rolled back: no execution is resumed, nothing is left to run, and the mode stays RUNNING.
\<close>

theorem resume_fails_across_projects:
  assumes "mt_mode m = RUNNING_MODE" "w_ops (mt_world m) = []"
    and "i \<in> set (executions_in_state PAUSED (mt_world m))" "j \<in> set (executions_in_state PAUSED (mt_world m))" "project i \<noteq> project j"
  shows "run_resume_job n sy True project m = m"
proof -
  let ?w = "mt_world m"
  let ?ids = "executions_in_state PAUSED ?w"
  obtain k ids where ids: "?ids = k # ids" using assms(3) by (cases ?ids) simp_all
  have "i \<in> set ids \<and> project i \<noteq> project k \<or> j \<in> set ids \<and> project j \<noteq> project k" using assms(3-5) ids by auto
  then have rest: "\<exists>e. fst (resume_each sy h True project (Some (project k)) ids u) = Inl e" for h u
    using resume_each_fails by blast
  have "\<exists>e. fst (resume_each sy (engine n sy) True project None ?ids ?w) = Inl e"
    unfolding ids using rest by (auto intro!: ebind_fails eseq_fails)
  then obtain e where e: "fst (resume_each sy (engine n sy) True project None ?ids ?w) = Inl e" by blast
  have "resume_executions sy (engine n sy) True project m ?w = (Inl e, ?w)"
    unfolding resume_executions_def by (rule transaction_Inl) (simp add: assms(1) ebind_run e)
  moreover have "take_ops ?w = (Inr [], ?w)" using assms(2) by (simp add: take_ops_def)
  ultimately show ?thesis by (simp add: run_resume_job_def with_post_tx_def ebind_run)
qed

section \<open>Examples\<close>

definition busy_service :: maintenance_state where
  "busy_service = \<lparr>mt_mode = RUNNING_MODE, mt_jobs = [], mt_world = busy_world\<rparr>"

text \<open>Maintenance is asked for, and the job pauses the first execution.\<close>

definition asked :: "maintenance_state \<Rightarrow> maintenance_state" where
  "asked m = (snd (change_maintenance_mode PAUSED_MODE m))\<lparr>mt_jobs := []\<rparr>"

definition first_job :: "maintenance_state \<Rightarrow> pause_job" where
  "first_job m = \<lparr>pj_progress = PauseEach (executions_in_state RUNNING (mt_world m)), pj_ops = []\<rparr>"

lemma pausing_run: "\<exists>ps. maintenance_run 2 plain_sys True (\<lambda>_. ''p'') busy_service (snd (pause_step 2 plain_sys (first_job busy_service) (asked busy_service))) ps"
proof -
  have "maintenance_run 2 plain_sys True (\<lambda>_. ''p'') busy_service (snd (change_maintenance_mode PAUSED_MODE busy_service)) []"
    by (intro maintenance_run.change maintenance_run.rest)
  then have "maintenance_run 2 plain_sys True (\<lambda>_. ''p'') busy_service (asked busy_service) ([] @ first_job busy_service # [])"
    using maintenance_run.pause[of 2 plain_sys True "\<lambda>_. ''p''" busy_service "snd (change_maintenance_mode PAUSED_MODE busy_service)" "[]"]
    by (simp add: asked_def first_job_def change_maintenance_mode_def busy_service_def mode_names)
  then show ?thesis by (metis maintenance_run.advance prod.collapse)
qed

lemma maintenance_moves_validly_here:
  "\<exists>x'. dget (w_wfs (mt_world (snd (pause_step 2 plain_sys (first_job busy_service) (asked busy_service))))) ''w'' = Some x' \<and>
    wf_identity x' = wf_identity (mk_wf_ex ''w'' (mk_wf [mk_task ''t'']) RUNNING) \<and>
    (we_db_state (mk_wf_ex ''w'' (mk_wf [mk_task ''t'']) RUNNING), we_db_state x') \<in> workflow_moves\<^sup>*"
proof -
  obtain ps where r: "maintenance_run 2 plain_sys True (\<lambda>_. ''p'') busy_service
      (snd (pause_step 2 plain_sys (first_job busy_service) (asked busy_service))) ps" using pausing_run by blast
  have "dget (w_wfs (mt_world busy_service)) ''w'' = Some (mk_wf_ex ''w'' (mk_wf [mk_task ''t'']) RUNNING)"
    by (simp add: busy_service_def busy_rows)
  from maintenance_moves_validly[OF r this] show ?thesis .
qed

theorem mode_changes_safely_witness:
  "mode_step_ok PAUSING (mt_mode (snd (pause_step 2 plain_sys \<lparr>pj_progress = SetPaused, pj_ops = []\<rparr> (busy_service\<lparr>mt_mode := PAUSING\<rparr>))))"
  using mode_changes_safely[of "busy_service\<lparr>mt_mode := PAUSING\<rparr>"] by (simp add: all_modes_def)

definition two_paused :: world where
  "two_paused = empty_world\<lparr>w_wfs := [(''w'', mk_wf_ex ''w'' (mk_wf [mk_task ''t'']) PAUSED), (''v'', mk_wf_ex ''v'' (mk_wf [mk_task ''t'']) PAUSED)]\<rparr>"

theorem resume_fails_across_projects_witness:
  "run_resume_job 2 plain_sys True (\<lambda>i. i) (busy_service\<lparr>mt_world := two_paused\<rparr>) = busy_service\<lparr>mt_world := two_paused\<rparr>"
  by (rule resume_fails_across_projects[where i = "''w''" and j = "''v''"])
    (simp_all add: busy_service_def two_paused_def executions_in_state_def mk_wf_ex_def empty_world_def)

text \<open>Within one project both are resumed, also executions that their users had paused before.\<close>

theorem resume_within_project:
  "map (we_state o snd) (w_wfs (snd (resume_executions plain_sys (engine 2 plain_sys) True (\<lambda>_. ''p'') busy_service two_paused))) = [RUNNING, RUNNING]"
  by code_simp

text \<open>
  The table of valid transitions, which nothing reads, has no way from PAUSING to RUNNING, but the mode
  can be changed so.
\<close>

theorem mode_change_outside_table:
  "\<not> is_valid_mode_transition PAUSING RUNNING_MODE \<and>
   mt_mode (snd (change_maintenance_mode RUNNING_MODE (busy_service\<lparr>mt_mode := PAUSING\<rparr>))) = RUNNING_MODE"
  by code_simp

end
